(* ===== verification/Prelude.thy ===== *)
theory Prelude
  imports Main "HOL-Library.Char_ord" "HOL-Library.List_Lexorder" "HOL-Library.Product_Lexorder"
    "HOL-Library.Option_ord" "HOL-Library.Multiset" "HOL-Library.Code_Target_Nat"
begin

text \<open>
  Shared vocabulary of the development.

  \<^item> The basic types: Go strings are byte strings (\<^typ>\<open>string\<close>, one \<^typ>\<open>char\<close> per byte, ordered
    bytewise), instants are \<^typ>\<open>int\<close> nanoseconds, a Go \<open>int\<close> is an \<^typ>\<open>int\<close> with the 64-bit
    wrap-around written out where an addition can overflow.
  \<^item> Small facts on lists, options and sorting that the component proofs share, collected in
    \<open>list_facts\<close>, and the collection \<open>handler_defs\<close> of the handlers' definitions.
\<close>

named_theorems list_facts \<open>rewriting of filters, pages and sorted listings\<close>
named_theorems handler_defs \<open>definitions of the request handlers\<close>
named_theorems store_defs \<open>definitions of the storage operations\<close>

section \<open>Basic types\<close>

type_synonym time = int
type_synonym rune = nat

text \<open>\<open>time.Millisecond\<close> in nanoseconds, and \<open>Time.Truncate\<close> to it.\<close>

definition msec :: int where
  "msec = 1000000"

definition truncMs :: "time \<Rightarrow> time" where
  "truncMs t = t - t mod msec"

lemma truncMs_le: "truncMs t \<le> t"
  by (simp add: truncMs_def msec_def)

lemma truncMs_idem [simp]: "truncMs (truncMs t) = truncMs t"
  by (simp add: truncMs_def msec_def minus_mod_eq_mult_div)

lemma truncMs_mono: "s \<le> t \<Longrightarrow> truncMs s \<le> truncMs t"
proof -
  assume "s \<le> t"
  then have "msec * (s div msec) \<le> msec * (t div msec)"
    by (simp add: msec_def zdiv_mono1)
  then show ?thesis by (simp add: truncMs_def minus_mod_eq_mult_div)
qed

text \<open>A 64-bit Go \<open>int\<close>: the value a computation over the integers leaves in the register.\<close>

definition wrap64 :: "int \<Rightarrow> int" where
  "wrap64 x = (x + 2 ^ 63) mod 2 ^ 64 - 2 ^ 63"

definition int64_range :: "int \<Rightarrow> bool" where
  "int64_range x \<longleftrightarrow> - (2 ^ 63) \<le> x \<and> x < 2 ^ 63"

lemma wrap64_id: "int64_range x \<Longrightarrow> wrap64 x = x"
  by (simp add: wrap64_def int64_range_def)

lemma wrap64_range: "int64_range (wrap64 x)"
  by (simp add: wrap64_def int64_range_def)

section \<open>Lists\<close>

lemma filter_id_conv_all [list_facts]: "(\<And>x. x \<in> set xs \<Longrightarrow> P x) \<Longrightarrow> filter P xs = xs"
  by (induction xs) auto

lemma distinct_map_filter' [intro]: "distinct (map f xs) \<Longrightarrow> distinct (map f (filter P xs))"
  by (induction xs) auto

lemma map_of_distinct_eq:
  "distinct (map f xs) \<Longrightarrow> x \<in> set xs \<Longrightarrow> y \<in> set xs \<Longrightarrow> f x = f y \<Longrightarrow> x = y"
  by (metis distinct_map inj_on_def)

text \<open>\<open>find\<close> on a list whose key is unique: what a point query returns.\<close>

lemma find_Some_mem: "find P xs = Some x \<Longrightarrow> x \<in> set xs \<and> P x"
  by (induction xs) (auto split: if_splits)

lemma find_None_all: "find P xs = None \<longleftrightarrow> (\<forall>x \<in> set xs. \<not> P x)"
  by (induction xs) auto

lemma find_unique:
  assumes "distinct (map f xs)" and "x \<in> set xs" and "P x"
    and "\<And>y. y \<in> set xs \<Longrightarrow> P y \<Longrightarrow> f y = f x"
  shows "find P xs = Some x"
proof (cases "find P xs")
  case None
  with assms(2,3) show ?thesis by (auto simp: find_None_all)
next
  case (Some y)
  then have "y \<in> set xs" and "P y" by (auto dest: find_Some_mem)
  with assms have "y = x" by (metis map_of_distinct_eq)
  with Some show ?thesis by simp
qed

text \<open>A listing that is strictly sorted by an injective key is determined by its elements.\<close>

lemma strict_sorted_map_key_unique:
  fixes k :: "'a \<Rightarrow> 'b::linorder"
  assumes "sorted_wrt (<) (map k xs)" and "sorted_wrt (<) (map k ys)" and "set xs = set ys"
    and "inj_on k (set xs)"
  shows "xs = ys"
proof -
  have "map k xs = map k ys"
    using assms(1,2,3) by (metis list.set_map strict_sorted_equal)
  with assms(3,4) show ?thesis by (metis map_inj_on sup.idem)
qed

lemma sorted_sort_key_map: "sorted (map f (sort_key f xs))"
  by (rule sorted_sort_key)

lemma strict_sorted_sort_key:
  fixes f :: "'a \<Rightarrow> 'b::linorder"
  assumes "distinct (map f xs)"
  shows "sorted_wrt (<) (map f (sort_key f xs))"
proof -
  have "mset (map f (sort_key f xs)) = mset (map f xs)" by simp
  then have "distinct (map f (sort_key f xs))"
    using assms by (metis mset_eq_imp_distinct_iff)
  then show ?thesis
    using sorted_sort_key [of f xs] by (simp add: strict_sorted_iff)
qed

lemma filter_sort_key [list_facts]: "filter P (sort_key f xs) = sort_key f (filter P xs)"
  by (rule filter_sort)

lemma length_filter_map_bound: "length (filter P xs) \<le> length xs"
  by (rule length_filter_le)

end
