(* ===== verification/Go_Strings.thy ===== *)
theory Go_Strings
  imports Prelude
begin

text \<open>
  The parts of Go's \<open>unicode/utf8\<close>, \<open>strings\<close>, \<open>strconv\<close>, \<open>time\<close> and \<open>encoding/json\<close> packages that
  the server's rules rest on, over byte strings: UTF-8 decoding with Go's treatment of invalid
  bytes, the trimming functions, cutting and searching, decimal printing and parsing, the
  timestamp layout and the quoting of JSON strings. Nothing here is code of the repository; the
  definitions follow the documented behaviour of the standard library.
\<close>

section \<open>UTF-8\<close>

abbreviation byte :: "char \<Rightarrow> nat" where
  "byte c \<equiv> of_char c"

definition RuneError :: rune where
  "RuneError = 65533"

text \<open>The lead byte decides the width and the range of the second byte; 0 is an invalid lead.\<close>

definition lead_info :: "nat \<Rightarrow> nat \<times> nat \<times> nat" where
  "lead_info b =
     (if b < 128 then (1, 0, 0)
      else if b < 194 then (0, 0, 0)
      else if b < 224 then (2, 128, 191)
      else if b = 224 then (3, 160, 191)
      else if b = 237 then (3, 128, 159)
      else if b < 240 then (3, 128, 191)
      else if b = 240 then (4, 144, 191)
      else if b < 244 then (4, 128, 191)
      else if b = 244 then (4, 128, 143)
      else (0, 0, 0))"

definition cont_byte :: "nat \<Rightarrow> bool" where
  "cont_byte b \<longleftrightarrow> 128 \<le> b \<and> b \<le> 191"

text \<open>\<open>utf8.DecodeRuneInString\<close>: the first rune and its width; an invalid byte is one
  \<open>RuneError\<close> of width 1.\<close>

fun decodeRune :: "string \<Rightarrow> rune \<times> nat" where
  "decodeRune [] = (RuneError, 0)"
| "decodeRune (c0 # cs) =
     (let b0 = byte c0; (w, lo, hi) = lead_info b0 in
      if w = 1 then (b0, 1)
      else case map byte (take 3 cs) of
        b1 # bs \<Rightarrow>
          if w = 2 \<and> lo \<le> b1 \<and> b1 \<le> hi then ((b0 - 192) * 64 + (b1 - 128), 2)
          else (case bs of
            b2 # bs' \<Rightarrow>
              if w = 3 \<and> lo \<le> b1 \<and> b1 \<le> hi \<and> cont_byte b2
              then ((b0 - 224) * 4096 + (b1 - 128) * 64 + (b2 - 128), 3)
              else (case bs' of
                b3 # _ \<Rightarrow>
                  if w = 4 \<and> lo \<le> b1 \<and> b1 \<le> hi \<and> cont_byte b2 \<and> cont_byte b3
                  then ((b0 - 240) * 262144 + (b1 - 128) * 4096 + (b2 - 128) * 64 + (b3 - 128), 4)
                  else (RuneError, 1)
              | [] \<Rightarrow> (RuneError, 1))
          | [] \<Rightarrow> (RuneError, 1))
      | [] \<Rightarrow> (RuneError, 1))"

declare decodeRune.simps(2) [simp del]

lemma decodeRune_width: "s \<noteq> [] \<Longrightarrow> 0 < snd (decodeRune s)"
  by (cases s) (auto simp: decodeRune.simps Let_def split: prod.splits list.splits)

lemma decodeRune_shrinks: "s \<noteq> [] \<Longrightarrow> (r, w) = decodeRune s \<Longrightarrow> length (drop w s) < length s"
  using decodeRune_width [of s] by (cases "decodeRune s") auto

lemma decodeRune_ascii: "byte c < 128 \<Longrightarrow> decodeRune (c # cs) = (byte c, 1)"
  by (simp add: decodeRune.simps lead_info_def)

text \<open>\<open>utf8.DecodeLastRuneInString\<close>: look back at most four bytes for the start of a rune that
  ends exactly at the end of the string.\<close>

fun decodeLastRune :: "string \<Rightarrow> rune \<times> nat" where
  "decodeLastRune s =
     (if s = [] then (RuneError, 0)
      else if byte (last s) < 128 then (byte (last s), 1)
      else case filter (\<lambda>k. k \<le> length s \<and> \<not> cont_byte (byte (s ! (length s - k)))) [2, 3, 4] of
        [] \<Rightarrow> (RuneError, 1)
      | k # _ \<Rightarrow>
          (let (r, w) = decodeRune (drop (length s - k) s)
           in if w = k then (r, w) else (RuneError, 1)))"

declare decodeLastRune.simps [simp del]

lemma decodeLastRune_width: "s \<noteq> [] \<Longrightarrow> 0 < snd (decodeLastRune s)"
proof -
  assume "s \<noteq> []"
  then show ?thesis
    by (auto simp: decodeLastRune.simps [of s] Let_def filter_eq_Cons_iff
        split: prod.splits list.splits if_splits)
qed

lemma decodeLastRune_shrinks:
  "s \<noteq> [] \<Longrightarrow> length (take (length s - snd (decodeLastRune s)) s) < length s"
  using decodeLastRune_width [of s] by (cases s) auto

text \<open>The runes of a string, as a Go \<open>range\<close> loop reads them.\<close>

function runes :: "string \<Rightarrow> rune list" where
  "runes s = (if s = [] then [] else fst (decodeRune s) # runes (drop (snd (decodeRune s)) s))"
  by pat_completeness auto
termination
  by (relation "measure length") (auto simp: decodeRune_width)

declare runes.simps [simp del]

lemma runes_Nil [simp]: "runes [] = []"
  by (simp add: runes.simps)

lemma runes_ascii: "byte c < 128 \<Longrightarrow> runes (c # cs) = byte c # runes cs"
  by (simp add: runes.simps [of "c # cs"] decodeRune_ascii)

section \<open>Trimming, cutting, searching\<close>

text \<open>\<open>strings.TrimLeftFunc\<close>, \<open>TrimRightFunc\<close> and \<open>TrimFunc\<close>.\<close>

function trimLeftFunc :: "(rune \<Rightarrow> bool) \<Rightarrow> string \<Rightarrow> string" where
  "trimLeftFunc f s =
     (if s = [] then []
      else if f (fst (decodeRune s)) then trimLeftFunc f (drop (snd (decodeRune s)) s) else s)"
  by pat_completeness auto
termination
  by (relation "measure (length \<circ> snd)") (auto simp: decodeRune_width)

declare trimLeftFunc.simps [simp del]

function trimRightFunc :: "(rune \<Rightarrow> bool) \<Rightarrow> string \<Rightarrow> string" where
  "trimRightFunc f s =
     (if s = [] then []
      else if f (fst (decodeLastRune s))
      then trimRightFunc f (take (length s - snd (decodeLastRune s)) s) else s)"
  by pat_completeness auto
termination
  by (relation "measure (length \<circ> snd)")
    (auto simp del: length_take intro!: decodeLastRune_shrinks)

declare trimRightFunc.simps [simp del]

lemma trimFunc_Nil [simp]: "trimLeftFunc f [] = []" "trimRightFunc f [] = []"
  by (simp_all add: trimLeftFunc.simps trimRightFunc.simps)

definition trimFunc :: "(rune \<Rightarrow> bool) \<Rightarrow> string \<Rightarrow> string" where
  "trimFunc f s = trimRightFunc f (trimLeftFunc f s)"

text \<open>\<open>unicode.IsSpace\<close> and \<open>strings.TrimSpace\<close>.\<close>

definition isSpace :: "rune \<Rightarrow> bool" where
  "isSpace r \<longleftrightarrow> (9 \<le> r \<and> r \<le> 13) \<or> r = 32 \<or> r = 133 \<or> r = 160 \<or> r = 5760
     \<or> (8192 \<le> r \<and> r \<le> 8202) \<or> r = 8232 \<or> r = 8233 \<or> r = 8239 \<or> r = 8287 \<or> r = 12288"

definition trimSpace :: "string \<Rightarrow> string" where
  "trimSpace s = trimFunc isSpace s"

lemma trimLeftFunc_id: "s = [] \<or> \<not> f (fst (decodeRune s)) \<Longrightarrow> trimLeftFunc f s = s"
  by (auto simp: trimLeftFunc.simps [of f s])

lemma trimRightFunc_id: "s = [] \<or> \<not> f (fst (decodeLastRune s)) \<Longrightarrow> trimRightFunc f s = s"
  by (auto simp: trimRightFunc.simps [of f s])

text \<open>The result of a left trim never starts with a trimmed rune, that of a right trim never
  ends with one.\<close>

lemma trimLeftFunc_head:
  "trimLeftFunc f s = [] \<or> \<not> f (fst (decodeRune (trimLeftFunc f s)))"
proof (induction f s rule: trimLeftFunc.induct)
  case (1 f s)
  then show ?case by (cases "s = []") (auto simp: trimLeftFunc.simps [of f s])
qed

lemma trimRightFunc_last:
  "trimRightFunc f s = [] \<or> \<not> f (fst (decodeLastRune (trimRightFunc f s)))"
proof (induction f s rule: trimRightFunc.induct)
  case (1 f s)
  then show ?case by (cases "s = []") (auto simp: trimRightFunc.simps [of f s])
qed

lemma trimRightFunc_idem: "trimRightFunc f (trimRightFunc f s) = trimRightFunc f s"
  by (rule trimRightFunc_id) (rule trimRightFunc_last)

lemma length_trimRightFunc: "length (trimRightFunc f s) \<le> length s"
proof (induction f s rule: trimRightFunc.induct)
  case (1 f s)
  then show ?case by (cases "s = []") (auto simp: trimRightFunc.simps [of f s] intro: order_trans)
qed

text \<open>\<open>strings.Cut\<close> around a one-byte separator, \<open>CutPrefix\<close>, \<open>HasPrefix\<close>, \<open>Contains\<close>,
  \<open>Split\<close> on a one-byte separator and \<open>Join\<close>.\<close>

fun cut :: "char \<Rightarrow> string \<Rightarrow> (string \<times> string) option" where
  "cut sep [] = None"
| "cut sep (c # cs) =
     (if c = sep then Some ([], cs)
      else map_option (\<lambda>(a, b). (c # a, b)) (cut sep cs))"

lemma cut_Some: "cut sep s = Some (a, b) \<Longrightarrow> s = a @ sep # b \<and> sep \<notin> set a"
  by (induction s arbitrary: a b) (auto split: if_splits)

lemma cut_append: "sep \<notin> set a \<Longrightarrow> cut sep (a @ sep # b) = Some (a, b)"
  by (induction a) auto

fun hasPrefix :: "string \<Rightarrow> string \<Rightarrow> bool" where
  "hasPrefix s [] = True"
| "hasPrefix [] (p # ps) = False"
| "hasPrefix (c # cs) (p # ps) = (c = p \<and> hasPrefix cs ps)"

lemma hasPrefix_iff: "hasPrefix s p \<longleftrightarrow> (\<exists>r. s = p @ r)"
  by (induction s p rule: hasPrefix.induct) auto

definition cutPrefix :: "string \<Rightarrow> string \<Rightarrow> string option" where
  "cutPrefix s p = (if hasPrefix s p then Some (drop (length p) s) else None)"

fun containsStr :: "string \<Rightarrow> string \<Rightarrow> bool" where
  "containsStr [] p = (p = [])"
| "containsStr (c # cs) p = (hasPrefix (c # cs) p \<or> containsStr cs p)"

fun splitOn :: "char \<Rightarrow> string \<Rightarrow> string list" where
  "splitOn sep [] = [[]]"
| "splitOn sep (c # cs) =
     (if c = sep then [] # splitOn sep cs
      else case splitOn sep cs of [] \<Rightarrow> [[c]] | w # ws \<Rightarrow> (c # w) # ws)"

lemma splitOn_nonempty: "splitOn sep s \<noteq> []"
  by (induction s) (auto split: list.splits)

lemma splitOn_fresh: "sep \<notin> set x \<Longrightarrow> splitOn sep x = [x]"
  by (induction x) auto

lemma splitOn_append: "sep \<notin> set x \<Longrightarrow> splitOn sep (x @ sep # r) = x # splitOn sep r"
  by (induction x) auto

fun joinWith :: "string \<Rightarrow> string list \<Rightarrow> string" where
  "joinWith sep [] = []"
| "joinWith sep [x] = x"
| "joinWith sep (x # y # ys) = x @ sep @ joinWith sep (y # ys)"

section \<open>Decimal numbers\<close>

definition digitChar :: "nat \<Rightarrow> char" where
  "digitChar d = char_of (48 + d)"

fun showNat :: "nat \<Rightarrow> string" where
  "showNat n = (if n < 10 then [digitChar n] else showNat (n div 10) @ [digitChar (n mod 10)])"

declare showNat.simps [simp del]

lemma showNat_eval [simp]:
  "n < 10 \<Longrightarrow> showNat n = [digitChar n]"
  "10 \<le> n \<Longrightarrow> showNat n = showNat (n div 10) @ [digitChar (n mod 10)]"
  by (simp_all add: showNat.simps [of n])

text \<open>\<open>strconv.Itoa\<close>.\<close>

definition itoa :: "int \<Rightarrow> string" where
  "itoa n = (if n < 0 then CHR ''-'' # showNat (nat (- n)) else showNat (nat n))"

definition isDigit :: "char \<Rightarrow> bool" where
  "isDigit c \<longleftrightarrow> 48 \<le> byte c \<and> byte c \<le> 57"

definition readNat :: "string \<Rightarrow> nat" where
  "readNat s = foldl (\<lambda>n c. n * 10 + (byte c - 48)) 0 s"

text \<open>\<open>strconv.Atoi\<close>: an optional sign, at least one digit, nothing else, within 64 bits.\<close>

definition atoi :: "string \<Rightarrow> int option" where
  "atoi s =
     (let neg = (s \<noteq> [] \<and> hd s = CHR ''-'');
          body = (if s \<noteq> [] \<and> (hd s = CHR ''-'' \<or> hd s = CHR ''+'') then tl s else s);
          n = (if neg then - int (readNat body) else int (readNat body))
      in if body = [] \<or> \<not> list_all isDigit body \<or> \<not> int64_range n then None else Some n)"

lemma digitChar_isDigit: "d < 10 \<Longrightarrow> isDigit (digitChar d)"
  by (simp add: isDigit_def digitChar_def)

lemma showNat_digits: "list_all isDigit (showNat n)"
proof (induction n rule: showNat.induct)
  case (1 n)
  then show ?case by (subst showNat.simps) (simp add: digitChar_isDigit)
qed

lemma showNat_nonempty: "showNat n \<noteq> []"
  by (subst showNat.simps) simp

lemma readNat_showNat: "readNat (showNat n) = n"
proof (induction n rule: showNat.induct)
  case (1 n)
  then show ?case
    by (subst showNat.simps) (auto simp: readNat_def digitChar_def)
qed

lemma showNat_hd: "hd (showNat n) \<noteq> CHR ''-'' \<and> hd (showNat n) \<noteq> CHR ''+''"
proof -
  have "isDigit (hd (showNat n))"
    using showNat_digits [of n] showNat_nonempty [of n] by (metis list.set_sel(1) list_all_iff)
  then show ?thesis by (auto simp: isDigit_def)
qed

lemma atoi_itoa: "int64_range n \<Longrightarrow> atoi (itoa n) = Some n"
  using showNat_hd [of "nat n"] showNat_nonempty showNat_digits readNat_showNat
  by (auto simp: atoi_def itoa_def Let_def)

lemma itoa_inject: "int64_range m \<Longrightarrow> int64_range n \<Longrightarrow> itoa m = itoa n \<Longrightarrow> m = n"
  by (metis atoi_itoa option.inject)

section \<open>Lower case\<close>

text \<open>\<open>utf8.AppendRune\<close>.\<close>

definition encodeRune :: "rune \<Rightarrow> string" where
  "encodeRune r =
     map char_of
      (if r < 128 then [r]
       else if r < 2048 then [192 + r div 64, 128 + r mod 64]
       else if r > 1114111 \<or> (55296 \<le> r \<and> r \<le> 57343) then [239, 191, 189]
       else if r < 65536 then [224 + r div 4096, 128 + r div 64 mod 64, 128 + r mod 64]
       else [240 + r div 262144, 128 + r div 4096 mod 64, 128 + r div 64 mod 64, 128 + r mod 64])"

definition isUpperAscii :: "char \<Rightarrow> bool" where
  "isUpperAscii c \<longleftrightarrow> 65 \<le> byte c \<and> byte c \<le> 90"

definition lowerAscii :: "char \<Rightarrow> char" where
  "lowerAscii c = (if isUpperAscii c then char_of (byte c + 32) else c)"

definition isAscii :: "string \<Rightarrow> bool" where
  "isAscii s \<longleftrightarrow> list_all (\<lambda>c. byte c < 128) s"

text \<open>\<open>strings.ToLower\<close>. An ASCII string is lowered bytewise; any other string rune by rune with
  \<open>unicode.ToLower\<close>, whose table for runes from 128 on is the parameter \<open>ul\<close>.\<close>

definition toLower :: "(rune \<Rightarrow> rune) \<Rightarrow> string \<Rightarrow> string" where
  "toLower ul s =
     (if isAscii s then map lowerAscii s
      else concat (map (\<lambda>r. encodeRune (if 65 \<le> r \<and> r \<le> 90 then r + 32
                                       else if r < 128 then r else ul r)) (runes s)))"

lemma lowerAscii_idem [simp]: "lowerAscii (lowerAscii c) = lowerAscii c"
  by (auto simp: lowerAscii_def isUpperAscii_def)

lemma lowerAscii_ascii: "byte c < 128 \<Longrightarrow> byte (lowerAscii c) < 128"
  by (auto simp: lowerAscii_def isUpperAscii_def)

lemma toLower_ascii: "isAscii s \<Longrightarrow> toLower ul s = map lowerAscii s"
  by (simp add: toLower_def)

lemma isAscii_lower: "isAscii s \<Longrightarrow> isAscii (map lowerAscii s)"
  by (auto simp: isAscii_def list_all_iff lowerAscii_ascii)

section \<open>Timestamps\<close>

definition padZero :: "nat \<Rightarrow> nat \<Rightarrow> string" where
  "padZero w n = replicate (w - length (showNat n)) (CHR ''0'') @ showNat n"

text \<open>The proleptic Gregorian date of a day counted from 1970-01-01: year, month, day.\<close>

definition civilDate :: "int \<Rightarrow> int \<times> nat \<times> nat" where
  "civilDate days =
     (let z = days + 719468;
          era = z div 146097;
          doe = z mod 146097;
          yoe = (doe - doe div 1460 + doe div 36524 - doe div 146096) div 365;
          doy = doe - (365 * yoe + yoe div 4 - yoe div 100);
          mp = (5 * doy + 2) div 153;
          d = doy - (153 * mp + 2) div 5 + 1;
          m = (if mp < 10 then mp + 3 else mp - 9);
          y = yoe + era * 400 + (if m \<le> 2 then 1 else 0)
      in (y, nat m, nat d))"

text \<open>\<open>Time.UTC().Format\<close> with the layout \<open>2006-01-02T15:04:05.000Z\<close>.\<close>

definition formatLayout :: "time \<Rightarrow> string" where
  "formatLayout t =
     (let ms = t div msec; day = ms div 86400000; r = nat (ms mod 86400000);
          (y, m, d) = civilDate day
      in (if y < 0 then ''-'' else []) @ padZero 4 (nat \<bar>y\<bar>) @ ''-'' @ padZero 2 m @ ''-'' @ padZero 2 d
         @ ''T'' @ padZero 2 (r div 3600000) @ '':'' @ padZero 2 (r div 60000 mod 60)
         @ '':'' @ padZero 2 (r div 1000 mod 60) @ ''.'' @ padZero 3 (r mod 1000) @ ''Z'')"

lemma formatLayout_example: "formatLayout 1704110400123000000 = ''2024-01-01T12:00:00.123Z''"
  by code_simp

section \<open>JSON strings\<close>

definition hexDigit :: "nat \<Rightarrow> char" where
  "hexDigit d = char_of (if d < 10 then 48 + d else 87 + d)"

text \<open>One ASCII byte inside a JSON string, with the HTML escaping of \<open>json.Marshal\<close> or without.\<close>

definition jsonByte :: "bool \<Rightarrow> char \<Rightarrow> string" where
  "jsonByte escapeHTML c =
     (let b = byte c in
      if b = 92 \<or> b = 34 then [CHR 0x5C, c]
      else if b = 8 then [CHR 0x5C, CHR ''b'']
      else if b = 12 then [CHR 0x5C, CHR ''f'']
      else if b = 10 then [CHR 0x5C, CHR ''n'']
      else if b = 13 then [CHR 0x5C, CHR ''r'']
      else if b = 9 then [CHR 0x5C, CHR ''t'']
      else if b < 32 \<or> (escapeHTML \<and> (b = 60 \<or> b = 62 \<or> b = 38))
      then [CHR 0x5C, CHR ''u'', CHR ''0'', CHR ''0'', hexDigit (b div 16), hexDigit (b mod 16)]
      else [c])"

text \<open>The body of a quoted string: invalid UTF-8 becomes \<open>\\ufffd\<close>, the two JavaScript line
  separators are escaped, every other rune is copied.\<close>

function jsonBody :: "bool \<Rightarrow> string \<Rightarrow> string" where
  "jsonBody escapeHTML s =
     (if s = [] then []
      else if byte (hd s) < 128 then jsonByte escapeHTML (hd s) @ jsonBody escapeHTML (tl s)
      else (let (r, w) = decodeRune s in
        (if r = RuneError \<and> w = 1 then CHR 0x5C # ''ufffd''
         else if r = 8232 then CHR 0x5C # ''u2028''
         else if r = 8233 then CHR 0x5C # ''u2029''
         else take w s) @ jsonBody escapeHTML (drop w s)))"
  by pat_completeness auto
termination
  by (relation "measure (length \<circ> snd)") (auto simp del: length_drop intro!: decodeRune_shrinks)

declare jsonBody.simps [simp del]

definition jsonQuote :: "bool \<Rightarrow> string \<Rightarrow> string" where
  "jsonQuote escapeHTML s = [CHR 0x22] @ jsonBody escapeHTML s @ [CHR 0x22]"

end
