(* ===== verification/Json.thy ===== *)
theory Json
  imports Complex_Main Go_Strings "HOL-Library.Log_Nat"
begin

text \<open>
  The parts of Go's \<open>encoding/json\<close> and \<open>encoding/base64\<close> the handlers use on raw fields: the
  grammar \<open>json.Unmarshal\<close> accepts, decoding into a string, a list of strings, a struct field or
  an \<open>any\<close>, compaction of a raw value with HTML escaping, and standard base64. A raw message is
  its text. Nothing here is code of the repository.

  The parser carries fuel. Every second call consumes a byte, so twice the length of the text
  plus two is enough. The nesting limit of 10000 of the Go scanner is not modelled.
\<close>

section \<open>Values and grammar\<close>

datatype json = JNull | JBool bool | JNum string | JStr string | JArr "json list"
  | JObj "(string \<times> json) list"

definition isJsonSpace :: "char \<Rightarrow> bool" where
  "isJsonSpace c \<longleftrightarrow> byte c = 32 \<or> byte c = 9 \<or> byte c = 10 \<or> byte c = 13"

definition skipSpace :: "string \<Rightarrow> string" where
  "skipSpace s = dropWhile isJsonSpace s"

definition hexVal :: "char \<Rightarrow> nat option" where
  "hexVal c =
     (let b = byte c in
      if 48 \<le> b \<and> b \<le> 57 then Some (b - 48)
      else if 97 \<le> b \<and> b \<le> 102 then Some (b - 87)
      else if 65 \<le> b \<and> b \<le> 70 then Some (b - 55) else None)"

fun hex4 :: "string \<Rightarrow> (nat \<times> string) option" where
  "hex4 (a # b # c # d # s) =
     (case (hexVal a, hexVal b, hexVal c, hexVal d) of
        (Some w, Some x, Some y, Some z) \<Rightarrow> Some (((w * 16 + x) * 16 + y) * 16 + z, s)
      | _ \<Rightarrow> None)"
| "hex4 _ = None"

definition isSurrogate :: "nat \<Rightarrow> bool" where
  "isSurrogate r \<longleftrightarrow> 55296 \<le> r \<and> r < 57344"

text \<open>A \<open>\\u\<close> escape, its four digits already read as \<open>r\<close>: a surrogate pair is one rune, a lone
  surrogate is the replacement character.\<close>

definition escapedRune :: "nat \<Rightarrow> string \<Rightarrow> rune \<times> string" where
  "escapedRune r s =
     (if \<not> isSurrogate r then (r, s)
      else case s of
        c # u # s' \<Rightarrow>
          if byte c = 92 \<and> u = CHR ''u'' then
            (case hex4 s' of
               Some (r2, s2) \<Rightarrow>
                 if r < 56320 \<and> 56320 \<le> r2 \<and> r2 < 57344
                 then ((r - 55296) * 1024 + (r2 - 56320) + 65536, s2)
                 else (RuneError, s)
             | None \<Rightarrow> (RuneError, s))
          else (RuneError, s)
      | _ \<Rightarrow> (RuneError, s))"

definition escapeByte :: "char \<Rightarrow> nat option" where
  "escapeByte c =
     (if c = CHR ''b'' then Some 8 else if c = CHR ''f'' then Some 12
      else if c = CHR ''n'' then Some 10 else if c = CHR ''r'' then Some 13
      else if c = CHR ''t'' then Some 9
      else if byte c = 34 \<or> byte c = 92 \<or> byte c = 47 then Some (byte c) else None)"

text \<open>The rest of a string literal after its opening quote, decoded.\<close>

fun parseStr :: "nat \<Rightarrow> string \<Rightarrow> (string \<times> string) option" where
  "parseStr 0 s0 = None"
| "parseStr (Suc n) s0 =
     (case s0 of
        [] \<Rightarrow> None
      | c # s \<Rightarrow>
          if byte c = 34 then Some ([], s)
          else if byte c < 32 then None
          else if byte c = 92 then
            (case s of
               [] \<Rightarrow> None
             | e # s1 \<Rightarrow>
                 if e = CHR ''u'' then
                   (case hex4 s1 of
                      None \<Rightarrow> None
                    | Some (r, s2) \<Rightarrow>
                        (let (q, s3) = escapedRune r s2
                         in map_option (\<lambda>(t, s4). (encodeRune q @ t, s4)) (parseStr n s3)))
                 else (case escapeByte e of
                      None \<Rightarrow> None
                    | Some b \<Rightarrow> map_option (\<lambda>(t, s4). (char_of b # t, s4)) (parseStr n s1)))
          else if byte c < 128 then map_option (\<lambda>(t, s4). (c # t, s4)) (parseStr n s)
          else (let (r, w) = decodeRune s0
                in map_option (\<lambda>(t, s4). (encodeRune r @ t, s4)) (parseStr n (drop w s0))))"

text \<open>A number literal: sign, integer part without leading zeros, fraction, exponent.\<close>

definition spanDigits :: "string \<Rightarrow> string \<times> string" where
  "spanDigits s = (takeWhile isDigit s, dropWhile isDigit s)"

definition parseNum :: "string \<Rightarrow> (string \<times> string) option" where
  "parseNum s =
     (let (sg, s1) = (case s of c # t \<Rightarrow> if c = CHR ''-'' then ([c], t) else ([], s) | [] \<Rightarrow> ([], s));
          (ds, s2) = spanDigits s1;
          (ip, s3) = (case ds of [] \<Rightarrow> ([], s2)
            | d # _ \<Rightarrow> if d = CHR ''0'' then ([d], tl ds @ s2) else (ds, s2))
      in if ip = [] then None
         else case (case s3 of c # t \<Rightarrow> if c = CHR ''.''
                   then (case spanDigits t of (fs, t2) \<Rightarrow> if fs = [] then None else Some (c # fs, t2))
                   else Some ([], s3) | [] \<Rightarrow> Some ([], s3)) of
           None \<Rightarrow> None
         | Some (fp, s4) \<Rightarrow>
             (case s4 of
                c # t \<Rightarrow>
                  if c = CHR ''e'' \<or> c = CHR ''E'' then
                    (let (es, t2) = (case t of x # t' \<Rightarrow> if x = CHR ''+'' \<or> x = CHR ''-'' then ([x], t') else ([], t)
                                     | [] \<Rightarrow> ([], t));
                         (xs, t3) = spanDigits t2
                     in if xs = [] then None else Some (sg @ ip @ fp @ c # es @ xs, t3))
                  else Some (sg @ ip @ fp, s4)
              | [] \<Rightarrow> Some (sg @ ip @ fp, s4)))"

text \<open>Values, the elements of an array after its bracket, the members of an object after its
  brace; \<open>True\<close> marks the first element, where the closing bracket may stand.\<close>

fun parseVal :: "nat \<Rightarrow> string \<Rightarrow> (json \<times> string) option"
and parseArr :: "nat \<Rightarrow> bool \<Rightarrow> string \<Rightarrow> (json list \<times> string) option"
and parseObj :: "nat \<Rightarrow> bool \<Rightarrow> string \<Rightarrow> ((string \<times> json) list \<times> string) option" where
  "parseVal 0 s = None"
| "parseVal (Suc n) s =
     (case skipSpace s of
        [] \<Rightarrow> None
      | c # t \<Rightarrow>
          if c = CHR ''{'' then map_option (\<lambda>(ms, r). (JObj ms, r)) (parseObj n True t)
          else if c = CHR ''['' then map_option (\<lambda>(xs, r). (JArr xs, r)) (parseArr n True t)
          else if byte c = 34 then map_option (\<lambda>(x, r). (JStr x, r)) (parseStr (length t) t)
          else if hasPrefix (c # t) ''null'' then Some (JNull, drop 3 t)
          else if hasPrefix (c # t) ''true'' then Some (JBool True, drop 3 t)
          else if hasPrefix (c # t) ''false'' then Some (JBool False, drop 4 t)
          else map_option (\<lambda>(x, r). (JNum x, r)) (parseNum (c # t)))"
| "parseArr 0 first s = None"
| "parseArr (Suc n) first s =
     (if first \<and> (case skipSpace s of c # t \<Rightarrow> c = CHR '']'' | [] \<Rightarrow> False)
      then Some ([], tl (skipSpace s))
      else case parseVal n s of
        None \<Rightarrow> None
      | Some (v, r) \<Rightarrow>
          (case skipSpace r of
             [] \<Rightarrow> None
           | c # t \<Rightarrow>
               if c = CHR '']'' then Some ([v], t)
               else if c = CHR '','' then map_option (\<lambda>(vs, r'). (v # vs, r')) (parseArr n False t)
               else None))"
| "parseObj 0 first s = None"
| "parseObj (Suc n) first s =
     (case skipSpace s of
        [] \<Rightarrow> None
      | c # t \<Rightarrow>
          if first \<and> c = CHR ''}'' then Some ([], t)
          else if byte c \<noteq> 34 then None
          else (case parseStr (length t) t of
             None \<Rightarrow> None
           | Some (k, r) \<Rightarrow>
               (case skipSpace r of
                  [] \<Rightarrow> None
                | c2 # t2 \<Rightarrow>
                    if c2 \<noteq> CHR '':'' then None
                    else (case parseVal n t2 of
                       None \<Rightarrow> None
                     | Some (v, r2) \<Rightarrow>
                         (case skipSpace r2 of
                            [] \<Rightarrow> None
                          | c3 # t3 \<Rightarrow>
                              if c3 = CHR ''}'' then Some ([(k, v)], t3)
                              else if c3 = CHR '','' then
                                map_option (\<lambda>(ms, r'). ((k, v) # ms, r')) (parseObj n False t3)
                              else None)))))"

declare parseVal.simps [simp del] parseArr.simps [simp del] parseObj.simps [simp del]

definition parseJson :: "string \<Rightarrow> json option" where
  "parseJson s =
     (case parseVal (2 * length s + 2) s of
        Some (v, r) \<Rightarrow> if skipSpace r = [] then Some v else None
      | None \<Rightarrow> None)"

lemma parseJson_examples:
  "parseJson ''[ \"a\", \"b\" ]'' = Some (JArr [JStr ''a'', JStr ''b''])"
  "parseJson ''12.5e3x'' = None" "parseJson ''null'' = Some JNull" "parseJson [] = None"
  by code_simp+

section \<open>Decoding into Go values\<close>

text \<open>Into a \<open>string\<close>: null leaves the zero value. Into a \<open>[]string\<close>: null is the nil slice, a
  null element the empty string.\<close>

definition unmarshalString :: "string \<Rightarrow> string option" where
  "unmarshalString raw =
     (case parseJson raw of Some (JStr s) \<Rightarrow> Some s | Some JNull \<Rightarrow> Some [] | _ \<Rightarrow> None)"

fun jsonStrings :: "json list \<Rightarrow> string list option" where
  "jsonStrings [] = Some []"
| "jsonStrings (v # vs) =
     (case v of
        JStr s \<Rightarrow> map_option ((#) s) (jsonStrings vs)
      | JNull \<Rightarrow> map_option ((#) []) (jsonStrings vs)
      | _ \<Rightarrow> None)"

definition unmarshalStrings :: "string \<Rightarrow> string list option" where
  "unmarshalStrings raw =
     (case parseJson raw of Some (JArr vs) \<Rightarrow> jsonStrings vs | Some JNull \<Rightarrow> Some [] | _ \<Rightarrow> None)"

text \<open>Into a struct with one string field: member names match by Unicode case folding, a later
  member overrides, a null leaves the field, any other type is an error.\<close>

definition foldName :: "string \<Rightarrow> rune list" where
  "foldName s = map (\<lambda>r. if 65 \<le> r \<and> r \<le> 90 then r + 32
     else if r = 8490 then 107 else if r = 383 then 115 else r) (runes s)"

fun structField :: "string \<Rightarrow> (string \<times> json) list \<Rightarrow> string \<Rightarrow> string option" where
  "structField name [] acc = Some acc"
| "structField name ((k, v) # ms) acc =
     (if foldName k \<noteq> foldName name then structField name ms acc
      else case v of
        JStr s \<Rightarrow> structField name ms s
      | JNull \<Rightarrow> structField name ms acc
      | _ \<Rightarrow> None)"

definition unmarshalField :: "string \<Rightarrow> string \<Rightarrow> string option" where
  "unmarshalField name raw =
     (case parseJson raw of
        Some (JObj ms) \<Rightarrow> structField name ms []
      | Some JNull \<Rightarrow> Some []
      | _ \<Rightarrow> None)"

section \<open>Numbers as float64\<close>

text \<open>The decimal value of a literal, rounded to the nearest binary64 with ties to even; \<open>None\<close>
  when it overflows.\<close>

definition pow2 :: "int \<Rightarrow> rat" where
  "pow2 e = (if 0 \<le> e then 2 ^ nat e else 1 / 2 ^ nat (- e))"

definition roundEven :: "rat \<Rightarrow> int" where
  "roundEven q =
     (let n = \<lfloor>q\<rfloor>; f = q - of_int n
      in if f < 1 / 2 \<or> (f = 1 / 2 \<and> even n) then n else n + 1)"

definition float64Abs :: "rat \<Rightarrow> rat option" where
  "float64Abs x =
     (if x = 0 then Some 0
      else let (a, b) = quotient_of x;
               e0 = max (- 1074) (bitlen a - bitlen b - 53);
               e = (if x / pow2 e0 \<ge> 2 ^ 53 then e0 + 1 else e0);
               y = of_int (roundEven (x / pow2 e)) * pow2 e
           in if y < pow2 1024 then Some y else None)"

definition float64 :: "rat \<Rightarrow> rat option" where
  "float64 x = (if x < 0 then map_option uminus (float64Abs (- x)) else float64Abs x)"

definition pow10 :: "int \<Rightarrow> rat" where
  "pow10 e = (if 0 \<le> e then 10 ^ nat e else 1 / 10 ^ nat (- e))"

definition parseFloat :: "string \<Rightarrow> rat option" where
  "parseFloat lit =
     (let neg = (lit \<noteq> [] \<and> hd lit = CHR ''-'');
          s = (if neg then tl lit else lit);
          ip = takeWhile isDigit s; r = dropWhile isDigit s;
          fp = (if r \<noteq> [] \<and> hd r = CHR ''.'' then takeWhile isDigit (tl r) else []);
          r2 = (if r \<noteq> [] \<and> hd r = CHR ''.'' then dropWhile isDigit (tl r) else r);
          ex = (case r2 of [] \<Rightarrow> 0 | _ # t \<Rightarrow>
                 (case t of c # u \<Rightarrow> if c = CHR ''-'' then - int (readNat u)
                    else if c = CHR ''+'' then int (readNat u) else int (readNat t) | [] \<Rightarrow> 0));
          x = of_nat (readNat (ip @ fp)) * pow10 (ex - int (length fp))
      in float64 (if neg then - x else x))"

text \<open>An integer of at most 53 bits is a float64.\<close>

lemma pow2_pos: "0 < pow2 e"
  by (simp add: pow2_def)

lemma roundEven_of_int [simp]: "roundEven (of_int n) = n"
  by (simp add: roundEven_def)

lemma float64Abs_int:
  assumes "0 \<le> n" and "n < 2 ^ 53"
  shows "float64Abs (of_int n) = Some (of_int n)"
proof (cases "n = 0")
  case True
  then show ?thesis by (simp add: float64Abs_def)
next
  case False
  with assms have n: "0 < n" by simp
  have q: "quotient_of (rat_of_int n) = (n, 1)" by (simp add: Rat.of_int_def quotient_of_Fract)
  have b: "bitlen n \<le> 53" using n assms(2) by (simp add: bitlen_le_iff_power)
  have b1: "bitlen 1 = 1" by (simp add: bitlen_def floorlog_def)
  define e0 where "e0 = max (- 1074) (bitlen n - bitlen 1 - 53)"
  define e where "e = (if rat_of_int n / pow2 e0 \<ge> 2 ^ 53 then e0 + 1 else e0)"
  have "e0 \<le> - 1" using b by (simp add: e0_def b1)
  then have "e \<le> 0" by (simp add: e_def)
  then have "rat_of_int n / pow2 e = of_int (n * 2 ^ nat (- e))"
    by (cases "e = 0") (simp_all add: pow2_def)
  then have "of_int (roundEven (rat_of_int n / pow2 e)) * pow2 e = rat_of_int n"
    using pow2_pos [of e] by (metis less_irrefl nonzero_eq_divide_eq roundEven_of_int)
  moreover have "rat_of_int n < pow2 1024"
  proof -
    have "rat_of_int n < 2 ^ 53" using assms(2) by (metis of_int_less_iff of_int_numeral of_int_power)
    also have "\<dots> < 2 ^ 1024" by (rule power_strict_increasing) simp_all
    finally show ?thesis by (simp add: pow2_def)
  qed
  ultimately show ?thesis
    unfolding float64Abs_def q Let_def prod.case e0_def [symmetric] e_def [symmetric] using n by simp
qed

lemma float64_int: "\<bar>n\<bar> < 2 ^ 53 \<Longrightarrow> float64 (of_int n) = Some (of_int n)"
  using float64Abs_int [of n] float64Abs_int [of "- n"] by (auto simp: float64_def)

section \<open>Decoding into any\<close>

text \<open>A Go \<open>any\<close> decoded from JSON; a map is its entries by key, so that equality is
  \<open>reflect.DeepEqual\<close>. A number out of range is an error and leaves nil in its place.\<close>

datatype gval = GNil | GBool bool | GNum rat | GStr string | GArr "gval list"
  | GMap "(string \<times> gval) list"

fun putKey :: "string \<Rightarrow> 'v \<Rightarrow> (string \<times> 'v) list \<Rightarrow> (string \<times> 'v) list" where
  "putKey k v [] = [(k, v)]"
| "putKey k v ((a, w) # r) =
     (if k = a then (k, v) # r else if k < a then (k, v) # (a, w) # r else (a, w) # putKey k v r)"

fun toAny :: "json \<Rightarrow> gval" where
  "toAny JNull = GNil"
| "toAny (JBool b) = GBool b"
| "toAny (JNum lit) = (case parseFloat lit of Some x \<Rightarrow> GNum x | None \<Rightarrow> GNil)"
| "toAny (JStr s) = GStr s"
| "toAny (JArr vs) = GArr (map toAny vs)"
| "toAny (JObj ms) = GMap (fold (\<lambda>(k, v). putKey k v) (map (\<lambda>(k, v). (k, toAny v)) ms) [])"

fun numsInRange :: "json \<Rightarrow> bool" where
  "numsInRange (JNum lit) = (parseFloat lit \<noteq> None)"
| "numsInRange (JArr vs) = list_all numsInRange vs"
| "numsInRange (JObj ms) = list_all (\<lambda>(k, v). numsInRange v) ms"
| "numsInRange _ = True"

text \<open>\<open>json.Unmarshal\<close> into a nil \<open>any\<close>: whether it succeeded, and the value left.\<close>

definition unmarshalAny :: "string \<Rightarrow> bool \<times> gval" where
  "unmarshalAny raw =
     (case parseJson raw of None \<Rightarrow> (False, GNil) | Some v \<Rightarrow> (numsInRange v, toAny v))"

text \<open>A number a client prints as Go or JavaScript prints an integer is read back as that number.\<close>

lemma showNat_leading_zero: "0 < n \<Longrightarrow> hd (showNat n) \<noteq> CHR ''0''"
proof (induction n rule: showNat.induct)
  case (1 n)
  have "digitChar n \<noteq> CHR ''0''" if "n < 10"
    using that 1(2) by (auto simp: digitChar_def dest!: arg_cong [where f = "of_char :: char \<Rightarrow> nat"])
  moreover have "hd (showNat (n div 10)) \<noteq> CHR ''0''" if "\<not> n < 10" using 1(1) that by simp
  ultimately show ?case by (subst showNat.simps) (simp add: hd_append showNat_nonempty)
qed

lemma spanDigits_showNat: "spanDigits (showNat n) = (showNat n, [])"
  using showNat_digits [of n]
  by (simp add: spanDigits_def list_all_iff takeWhile_eq_all_conv dropWhile_eq_Nil_conv)

lemma parseNum_showNat: "parseNum (showNat n) = Some (showNat n, [])"
proof -
  obtain c t where ct: "showNat n = c # t" by (meson neq_Nil_conv showNat_nonempty)
  have d: "spanDigits (c # t) = (c # t, [])" using spanDigits_showNat [of n] ct by simp
  have m: "c \<noteq> CHR ''-''" using showNat_hd [of n] ct by simp
  have "n = 0" if "c = CHR ''0''" using showNat_leading_zero [of n] that ct by auto
  then have z: "c = CHR ''0'' \<Longrightarrow> t = []" using ct by auto
  show ?thesis unfolding parseNum_def ct using m z by (auto simp: d)
qed

lemma parseJson_showNat: "parseJson (showNat n) = Some (JNum (showNat n))"
proof -
  obtain c t where ct: "showNat n = c # t" by (meson neq_Nil_conv showNat_nonempty)
  have c: "48 \<le> byte c" "byte c \<le> 57" using showNat_digits [of n] ct by (auto simp: isDigit_def)
  then have "c \<noteq> CHR ''{''" "c \<noteq> CHR ''[''" "c \<noteq> CHR ''n''" "c \<noteq> CHR ''t''" "c \<noteq> CHR ''f''" by auto
  moreover have "skipSpace (c # t) = c # t" using c by (auto simp: skipSpace_def isJsonSpace_def)
  ultimately have "parseVal (Suc (2 * length (c # t) + 1)) (c # t) = Some (JNum (c # t), [])"
    using c parseNum_showNat [of n] ct by (simp add: parseVal.simps)
  then show ?thesis by (simp add: parseJson_def ct skipSpace_def)
qed

lemma unmarshalAny_itoa:
  assumes "0 \<le> n" and "n < 2 ^ 53"
  shows "unmarshalAny (itoa n) = (True, GNum (of_int n))"
proof -
  have s: "list_all isDigit (showNat (nat n))" by (rule showNat_digits)
  have "parseFloat (showNat (nat n)) = float64 (of_nat (readNat (showNat (nat n))))"
    using showNat_hd [of "nat n"] s
    by (simp add: parseFloat_def Let_def takeWhile_eq_all_conv [THEN iffD2] dropWhile_eq_Nil_conv [THEN iffD2]
        list_all_iff pow10_def)
  also have "\<dots> = Some (of_int n)" using float64_int [of n] assms by (simp add: readNat_showNat)
  finally show ?thesis using assms by (simp add: unmarshalAny_def itoa_def parseJson_showNat)
qed

section \<open>Encoding\<close>

text \<open>\<open>json.Compact\<close> with the HTML escaping \<open>json.Marshal\<close> applies to a raw message: white space
  outside strings goes, angle brackets, ampersands and the two JavaScript line separators are
  escaped. The flags say whether the position is inside a string and after a backslash.\<close>

fun compactJson :: "bool \<Rightarrow> bool \<Rightarrow> string \<Rightarrow> string" where
  "compactJson inStr esc [] = []"
| "compactJson inStr esc (c # s) =
     (let inStr' = (if byte c = 34 \<and> \<not> esc then \<not> inStr else inStr);
          esc' = (inStr \<and> \<not> esc \<and> byte c = 92)
      in if \<not> inStr \<and> isJsonSpace c then compactJson inStr' esc' s
         else if byte c = 60 \<or> byte c = 62 \<or> byte c = 38
         then [CHR 0x5C, CHR ''u'', CHR ''0'', CHR ''0'', hexDigit (byte c div 16), hexDigit (byte c mod 16)]
              @ compactJson inStr' esc' s
         else if byte c = 226 \<and> (case s of a # b # _ \<Rightarrow> byte a = 128 \<and> (byte b = 168 \<or> byte b = 169) | _ \<Rightarrow> False)
         then [CHR 0x5C, CHR ''u'', CHR ''2'', CHR ''0'', CHR ''2'', hexDigit (byte (s ! 1) mod 16)]
              @ compactJson inStr' esc' (drop 2 s)
         else c # compactJson inStr' esc' s)"

text \<open>\<open>base64.StdEncoding\<close>: encoding, and strict decoding with padding, ignoring line breaks.\<close>

definition b64Char :: "nat \<Rightarrow> char" where
  "b64Char n = char_of (if n < 26 then 65 + n else if n < 52 then 71 + n
     else if n < 62 then n - 4 else if n = 62 then 43 else 47)"

definition b64Val :: "char \<Rightarrow> nat option" where
  "b64Val c =
     (let b = byte c in
      if 65 \<le> b \<and> b \<le> 90 then Some (b - 65)
      else if 97 \<le> b \<and> b \<le> 122 then Some (b - 71)
      else if 48 \<le> b \<and> b \<le> 57 then Some (b + 4)
      else if b = 43 then Some 62 else if b = 47 then Some 63 else None)"

fun base64Encode :: "string \<Rightarrow> string" where
  "base64Encode [] = []"
| "base64Encode [a] = (let x = byte a in [b64Char (x div 4), b64Char (x mod 4 * 16), CHR ''='', CHR ''=''])"
| "base64Encode [a, b] =
     (let x = byte a; y = byte b
      in [b64Char (x div 4), b64Char (x mod 4 * 16 + y div 16), b64Char (y mod 16 * 4), CHR ''=''])"
| "base64Encode (a # b # c # r) =
     (let x = byte a; y = byte b; z = byte c
      in [b64Char (x div 4), b64Char (x mod 4 * 16 + y div 16), b64Char (y mod 16 * 4 + z div 64),
          b64Char (z mod 64)] @ base64Encode r)"

fun decodeQuads :: "string \<Rightarrow> string option" where
  "decodeQuads [] = Some []"
| "decodeQuads (a # b # c # d # r) =
     (case (b64Val a, b64Val b) of
        (Some w, Some x) \<Rightarrow>
          (case (b64Val c, b64Val d) of
             (Some y, Some z) \<Rightarrow>
               map_option ((@) [char_of (w * 4 + x div 16), char_of (x mod 16 * 16 + y div 4), char_of (y mod 4 * 64 + z)])
                 (decodeQuads r)
           | (Some y, None) \<Rightarrow>
               if d = CHR ''='' \<and> r = [] then Some [char_of (w * 4 + x div 16), char_of (x mod 16 * 16 + y div 4)] else None
           | (None, _) \<Rightarrow>
               if c = CHR ''='' \<and> d = CHR ''='' \<and> r = [] then Some [char_of (w * 4 + x div 16)] else None)
      | _ \<Rightarrow> None)"
| "decodeQuads _ = None"

definition base64Decode :: "string \<Rightarrow> string option" where
  "base64Decode s = decodeQuads (filter (\<lambda>c. byte c \<noteq> 10 \<and> byte c \<noteq> 13) s)"

lemma base64_examples:
  "base64Encode ''Man'' = ''TWFu''" "base64Encode ''M'' = ''TQ==''"
  "base64Decode ''TWFuTQ=='' = Some ''ManM''" "base64Decode ''TQ='' = None"
  by code_simp+

end
