(* ===== verification/Storage_Types.thy ===== *)
theory Storage_Types
  imports Go_Strings
begin

text \<open>
  The data of the storage contract (\<open>pkg/storage/types.go\<close>, \<open>errors.go\<close>) and the driver
  connection both backends run their statements on.

  A statement is a function on the backend's data. Each round trip to the database consults a
  script of faults: the statement runs, or it is lost before it reaches the database, or it runs
  and its reply is lost, which the caller sees as the same driver error. The clock is read by the
  operations and advanced by the environment between them.
\<close>

section \<open>Errors and data\<close>

text \<open>The errors of the store, and the run-time panic of Go, which is not returned but ends the request
  that caused it.\<close>

datatype store_error = ErrDuplicateMessage | ErrInvalidQuery | ErrBackend | ErrPanic

definition FeeBlocked :: int where
  "FeeBlocked = - 1"

record NewMessage =
  nm_MessageID :: string
  nm_Recipient :: string
  nm_MessageBox :: string
  nm_Sender :: string
  nm_Body :: string

record Message =
  m_MessageID :: string
  m_Sender :: string
  m_Body :: string
  m_CreatedAt :: time
  m_UpdatedAt :: time

record MessagePageQuery =
  mq_Recipient :: string
  mq_MessageBox :: string
  mq_Offset :: int
  mq_FetchLimit :: int
  mq_MessageID :: "string option"

record Permission =
  p_Recipient :: string
  p_Sender :: "string option"
  p_MessageBox :: string
  p_RecipientFee :: int
  p_CreatedAt :: time
  p_UpdatedAt :: time

datatype SortOrder = SortDesc | SortAsc

record PermissionQuery =
  pq_Recipient :: string
  pq_MessageBox :: "string option"
  pq_Limit :: int
  pq_Offset :: int
  pq_Order :: SortOrder

text \<open>\<open>PermissionQuery.Validate\<close>.\<close>

definition Validate :: "PermissionQuery \<Rightarrow> store_error option" where
  "Validate q =
     (if pq_Limit q < 1 then Some ErrInvalidQuery
      else if pq_Offset q < 0 then Some ErrInvalidQuery
      else None)"

record PermissionPage =
  pp_Items :: "Permission list"
  pp_Total :: int

record NewDevice =
  nd_IdentityKey :: string
  nd_FCMToken :: string
  nd_DeviceID :: "string option"
  nd_Platform :: "string option"

record Device =
  dv_ID :: int
  dv_IdentityKey :: string
  dv_FCMToken :: string
  dv_DeviceID :: "string option"
  dv_Platform :: "string option"
  dv_Active :: bool
  dv_CreatedAt :: time
  dv_UpdatedAt :: time
  dv_LastUsed :: "time option"

definition DefaultDeliveryFees :: "(string \<times> int) list" where
  "DefaultDeliveryFees = [(''notifications'', 10), (''inbox'', 0), (''payment_inbox'', 0)]"

lemma Validate_None: "Validate q = None \<longleftrightarrow> 1 \<le> pq_Limit q \<and> 0 \<le> pq_Offset q"
  by (auto simp: Validate_def)

section \<open>Driver connections\<close>

datatype fault = NoFault | FailBefore | FailAfter

record 'd conn =
  conn_data :: 'd
  conn_faults :: "fault list"
  conn_clock :: time

text \<open>One round trip: run the statement \<open>f\<close> on the data.\<close>

definition call :: "('d \<Rightarrow> 'a \<times> 'd) \<Rightarrow> 'd conn \<Rightarrow> (store_error + 'a) \<times> 'd conn" where
  "call f c =
     (let (a, d) = f (conn_data c) in
      case conn_faults c of
        [] \<Rightarrow> (Inr a, c\<lparr>conn_data := d\<rparr>)
      | NoFault # fs \<Rightarrow> (Inr a, c\<lparr>conn_data := d, conn_faults := fs\<rparr>)
      | FailBefore # fs \<Rightarrow> (Inl ErrBackend, c\<lparr>conn_faults := fs\<rparr>)
      | FailAfter # fs \<Rightarrow> (Inl ErrBackend, c\<lparr>conn_data := d, conn_faults := fs\<rparr>))"

text \<open>No fault is scheduled: the database answers.\<close>

definition healthy :: "'d conn \<Rightarrow> bool" where
  "healthy c \<longleftrightarrow> set (conn_faults c) \<subseteq> {NoFault}"

lemma call_Inr: "call f c = (Inr a, c') \<Longrightarrow> f (conn_data c) = (a, conn_data c')"
  by (auto simp: call_def Let_def split: prod.splits list.splits fault.splits)

lemma call_Inl:
  "call f c = (Inl e, c') \<Longrightarrow>
     e = ErrBackend \<and> (conn_data c' = conn_data c \<or> conn_data c' = snd (f (conn_data c)))"
  by (auto simp: call_def Let_def split: prod.splits list.splits fault.splits)

lemma call_clock: "call f c = (r, c') \<Longrightarrow> conn_clock c' = conn_clock c"
  by (auto simp: call_def Let_def split: prod.splits list.splits fault.splits)

lemma call_healthy:
  "healthy c \<Longrightarrow> \<exists>c'. call f c = (Inr (fst (f (conn_data c))), c') \<and> healthy c'
     \<and> conn_data c' = snd (f (conn_data c)) \<and> conn_clock c' = conn_clock c"
  by (auto simp: call_def Let_def healthy_def split: prod.splits list.splits fault.splits)

lemma call_cases:
  assumes "call f c = (x, c')" and "f (conn_data c) = (a, d)"
  shows "(x = Inr a \<and> conn_data c' = d \<and> (healthy c \<longrightarrow> healthy c')) \<or>
    (x = Inl ErrBackend \<and> \<not> healthy c \<and> (conn_data c' = conn_data c \<or> conn_data c' = d))"
  using assms by (auto simp: call_def Let_def healthy_def split: prod.splits list.splits fault.splits)

lemma call_data:
  "call f c = (x, c') \<Longrightarrow> conn_data c' = conn_data c \<or> conn_data c' = snd (f (conn_data c))"
  by (auto simp: call_def Let_def split: prod.splits list.splits fault.splits)

text \<open>A query changes nothing, whether or not its reply arrives.\<close>

lemma call_query:
  "call (\<lambda>d. (g d, d)) c = (r, c') \<Longrightarrow> conn_data c' = conn_data c \<and> conn_clock c' = conn_clock c"
  by (auto simp: call_def split: list.splits fault.splits)

lemma call_query_Inr: "call (\<lambda>d. (g d, d)) c = (Inr a, c') \<Longrightarrow> a = g (conn_data c)"
  by (auto simp: call_def split: list.splits fault.splits)

end
