(* ===== verification/Http.thy ===== *)
theory Http
  imports Json Storage_Types
begin

text \<open>
  What every handler of \<open>pkg/handlers\<close> shares: the two ways to answer (\<open>writeError\<close> and
  \<open>writeJSON\<close>, \<open>helpers.go\<close>), the result of decoding a JSON body, and the wire form of times.

  The authenticated identity key is an argument of each handler, empty when the request is not
  authenticated (\<open>getIdentityKey\<close>). The HTTP middleware, the routing and the writing of bytes are
  outside the model: a handler returns the status and the payload it would encode.
\<close>

datatype 'b response = ErrorReply (err_status: nat) (err_code: string) (err_desc: string)
  | JsonReply (ok_status: nat) (ok_body: 'b)

definition writeError :: "nat \<Rightarrow> string \<Rightarrow> string \<Rightarrow> 'b response" where
  "writeError status code description = ErrorReply status code description"

definition writeJSON :: "nat \<Rightarrow> 'b \<Rightarrow> 'b response" where
  "writeJSON status v = JsonReply status v"

datatype 'a decoded = DecodeError | DecodeEOF | Decoded 'a

definition formatTime :: "time \<Rightarrow> string" where
  "formatTime t = formatLayout t"

definition statusOf :: "'b response \<Rightarrow> nat" where
  "statusOf r = (case r of ErrorReply s _ _ \<Rightarrow> s | JsonReply s _ \<Rightarrow> s)"

lemma write_simps [simp]:
  "writeError s c d = ErrorReply s c d" "writeJSON s v = JsonReply s v"
  "statusOf (ErrorReply s c d) = s" "statusOf (JsonReply s v) = s"
  by (simp_all add: writeError_def writeJSON_def statusOf_def)

end
