(* ===== verification/Sql_Store.thy ===== *)
theory Sql_Store
  imports Storage_Types
begin

text \<open>
  The SQL backend (\<open>pkg/storage/sqlstore\<close>): tables as lists of rows, each SQL statement of
  \<open>queries.go\<close> as a function on the tables with the meaning its text has (\<open>WHERE\<close>,
  \<open>ON CONFLICT\<close>, \<open>ORDER BY\<close>, \<open>LIMIT\<close>/\<open>OFFSET\<close>), each operation as the sequence of driver
  calls the code makes. Column widths are not modelled. Row order of an unordered \<open>SELECT\<close> is
  insertion order; every listing the contract orders is sorted by the statement.
\<close>

section \<open>Tables\<close>

record messageBox_row =
  mb_Id :: int
  mb_Type :: string
  mb_IdentityKey :: string
  mb_CreatedAt :: time
  mb_UpdatedAt :: time

record message_row =
  mr_MessageId :: string
  mr_BoxId :: int
  mr_Sender :: string
  mr_Recipient :: string
  mr_Body :: string
  mr_CreatedAt :: time
  mr_UpdatedAt :: time

text \<open>A permission row is a surrogate id and the permission; a device row is a \<open>Device\<close>, whose
  \<open>ID\<close> is the surrogate key. \<open>burns_ids\<close> says whether an insert that meets a conflict uses up a
  sequence value, which the engines decide differently. \<open>devices_table\<close> says whether the device table
  exists; one that does not has no rows and no keys. \<open>legacy_token_key\<close> and \<open>pair_index\<close> are the two
  unique keys it can have. \<open>t_staging\<close> is the table a rebuild copies its rows to, with its sequence,
  where there is one. Any other table that is missing is represented by an empty one.\<close>

record sql_db =
  t_messageBox :: "messageBox_row list"
  seq_messageBox :: int
  t_messages :: "message_row list"
  t_permissions :: "(int \<times> Permission) list"
  seq_permissions :: int
  t_fees :: "(string \<times> int) list"
  t_devices :: "Device list"
  seq_devices :: int
  burns_ids :: bool
  devices_table :: bool
  legacy_token_key :: bool
  pair_index :: bool
  t_staging :: "(Device list \<times> int) option"

type_synonym sql = "sql_db conn"

section \<open>Placeholders\<close>

text \<open>\<open>rebind\<close>: for PostgreSQL the \<open>?\<close> placeholders become \<open>$1\<close>, \<open>$2\<close>, \<dots>.\<close>

fun rebind_from :: "nat \<Rightarrow> string \<Rightarrow> string" where
  "rebind_from n [] = []"
| "rebind_from n (c # cs) =
     (if c = CHR ''?'' then CHR ''$'' # showNat n @ rebind_from (Suc n) cs
      else c # rebind_from n cs)"

definition rebind :: "string \<Rightarrow> string \<Rightarrow> string" where
  "rebind driver query = (if driver \<noteq> ''postgres'' then query else rebind_from 1 query)"

section \<open>Messages\<close>

definition insert_messageBox :: "string \<Rightarrow> string \<Rightarrow> time \<Rightarrow> sql_db \<Rightarrow> unit \<times> sql_db" where
  "insert_messageBox identityKey boxType now d =
     (if \<exists>b \<in> set (t_messageBox d). mb_Type b = boxType \<and> mb_IdentityKey b = identityKey
      then ((), if burns_ids d then d\<lparr>seq_messageBox := seq_messageBox d + 1\<rparr> else d)
      else ((), d\<lparr>t_messageBox := t_messageBox d @
          [\<lparr>mb_Id = seq_messageBox d + 1, mb_Type = boxType, mb_IdentityKey = identityKey,
            mb_CreatedAt = now, mb_UpdatedAt = now\<rparr>],
        seq_messageBox := seq_messageBox d + 1\<rparr>))"

definition select_messageBoxId :: "string \<Rightarrow> string \<Rightarrow> sql_db \<Rightarrow> int option" where
  "select_messageBoxId identityKey boxType d =
     map_option mb_Id
       (find (\<lambda>b. mb_IdentityKey b = identityKey \<and> mb_Type b = boxType) (t_messageBox d))"

definition ensureMessageBox :: "string \<Rightarrow> string \<Rightarrow> sql \<Rightarrow> (store_error + int) \<times> sql" where
  "ensureMessageBox identityKey boxType s =
     (case call (insert_messageBox identityKey boxType (conn_clock s)) s of
        (Inl e, s1) \<Rightarrow> (Inl e, s1)
      | (Inr _, s1) \<Rightarrow>
          (case call (\<lambda>d. (select_messageBoxId identityKey boxType d, d)) s1 of
             (Inl e, s2) \<Rightarrow> (Inl e, s2)
           | (Inr None, s2) \<Rightarrow> (Inl ErrBackend, s2)
           | (Inr (Some i), s2) \<Rightarrow> (Inr i, s2)))"

definition messageBoxID :: "string \<Rightarrow> string \<Rightarrow> sql \<Rightarrow> (store_error + int) \<times> sql" where
  "messageBoxID identityKey boxType s =
     (case call (\<lambda>d. (select_messageBoxId identityKey boxType d, d)) s of
        (Inl e, s1) \<Rightarrow> (Inl e, s1)
      | (Inr None, s1) \<Rightarrow> (Inr 0, s1)
      | (Inr (Some i), s1) \<Rightarrow> (Inr i, s1))"

text \<open>\<open>INSERT INTO messages \<dots> ON CONFLICT (messageId) DO NOTHING\<close>, with its affected rows.\<close>

definition insert_message :: "NewMessage \<Rightarrow> int \<Rightarrow> time \<Rightarrow> sql_db \<Rightarrow> nat \<times> sql_db" where
  "insert_message m boxID now d =
     (if \<exists>r \<in> set (t_messages d). mr_MessageId r = nm_MessageID m then (0, d)
      else (1, d\<lparr>t_messages := t_messages d @
          [\<lparr>mr_MessageId = nm_MessageID m, mr_BoxId = boxID, mr_Sender = nm_Sender m,
            mr_Recipient = nm_Recipient m, mr_Body = nm_Body m,
            mr_CreatedAt = now, mr_UpdatedAt = now\<rparr>]\<rparr>))"

definition sql_InsertMessage :: "NewMessage \<Rightarrow> sql \<Rightarrow> (store_error + unit) \<times> sql" where
  "sql_InsertMessage m s =
     (case ensureMessageBox (nm_Recipient m) (nm_MessageBox m) s of
        (Inl e, s1) \<Rightarrow> (Inl e, s1)
      | (Inr boxID, s1) \<Rightarrow>
          (case call (insert_message m boxID (conn_clock s1)) s1 of
             (Inl e, s2) \<Rightarrow> (Inl e, s2)
           | (Inr affected, s2) \<Rightarrow>
               if affected = 0 then (Inl ErrDuplicateMessage, s2) else (Inr (), s2)))"

definition scan_message :: "message_row \<Rightarrow> Message" where
  "scan_message r = \<lparr>m_MessageID = mr_MessageId r, m_Sender = mr_Sender r, m_Body = mr_Body r,
     m_CreatedAt = mr_CreatedAt r, m_UpdatedAt = mr_UpdatedAt r\<rparr>"

text \<open>\<open>messagesOrderBy\<close>: by creation time, then by message id bytewise (\<open>COLLATE "C"\<close> on
  PostgreSQL, \<open>BINARY\<close> on SQLite).\<close>

definition messagesOrderBy :: "message_row \<Rightarrow> time \<times> string" where
  "messagesOrderBy r = (mr_CreatedAt r, mr_MessageId r)"

definition select_messages :: "string \<Rightarrow> int \<Rightarrow> string option \<Rightarrow> sql_db \<Rightarrow> message_row list" where
  "select_messages recipient boxID messageID d =
     sort_key messagesOrderBy
       (filter (\<lambda>r. mr_Recipient r = recipient \<and> mr_BoxId r = boxID
                 \<and> (messageID = None \<or> messageID = Some (mr_MessageId r))) (t_messages d))"

definition sql_ListMessages :: "string \<Rightarrow> string \<Rightarrow> sql \<Rightarrow> (store_error + Message list) \<times> sql" where
  "sql_ListMessages recipient messageBox s =
     (case messageBoxID recipient messageBox s of
        (Inl e, s1) \<Rightarrow> (Inl e, s1)
      | (Inr boxID, s1) \<Rightarrow>
          if boxID = 0 then (Inr [], s1)
          else (case call (\<lambda>d. (select_messages recipient boxID None d, d)) s1 of
                  (Inl e, s2) \<Rightarrow> (Inl e, s2)
                | (Inr rows, s2) \<Rightarrow> (Inr (map scan_message rows), s2)))"

text \<open>\<open>LIMIT ? OFFSET ?\<close>: SQLite reads a negative limit as no limit and a negative offset as
  zero; PostgreSQL refuses both.\<close>

definition sql_window :: "string \<Rightarrow> int \<Rightarrow> int \<Rightarrow> 'a list \<Rightarrow> store_error + 'a list" where
  "sql_window driver lim off xs =
     (if driver = ''postgres'' \<and> (lim < 0 \<or> off < 0) then Inl ErrBackend
      else if lim < 0 then Inr (drop (nat off) xs)
      else Inr (take (nat lim) (drop (nat off) xs)))"

definition sql_PageMessages ::
  "string \<Rightarrow> MessagePageQuery \<Rightarrow> sql \<Rightarrow> (store_error + Message list) \<times> sql" where
  "sql_PageMessages driver q s =
     (case messageBoxID (mq_Recipient q) (mq_MessageBox q) s of
        (Inl e, s1) \<Rightarrow> (Inl e, s1)
      | (Inr boxID, s1) \<Rightarrow>
          if boxID = 0 then (Inr [], s1)
          else (case call (\<lambda>d. (sql_window driver (mq_FetchLimit q) (mq_Offset q)
                        (select_messages (mq_Recipient q) boxID (mq_MessageID q) d), d)) s1 of
                  (Inl e, s2) \<Rightarrow> (Inl e, s2)
                | (Inr (Inl e), s2) \<Rightarrow> (Inl e, s2)
                | (Inr (Inr rows), s2) \<Rightarrow> (Inr (map scan_message rows), s2)))"

definition delete_messages :: "string \<Rightarrow> string list \<Rightarrow> sql_db \<Rightarrow> int \<times> sql_db" where
  "delete_messages recipient ids d =
     (let hit = (\<lambda>r. mr_Recipient r = recipient \<and> mr_MessageId r \<in> set ids)
      in (int (length (filter hit (t_messages d))),
          d\<lparr>t_messages := filter (\<lambda>r. \<not> hit r) (t_messages d)\<rparr>))"

definition sql_AcknowledgeMessages :: "string \<Rightarrow> string list \<Rightarrow> sql \<Rightarrow> (store_error + int) \<times> sql" where
  "sql_AcknowledgeMessages recipient messageIDs s =
     (if messageIDs = [] then (Inr 0, s) else call (delete_messages recipient messageIDs) s)"

section \<open>Fees\<close>

definition sql_GetServerDeliveryFee :: "string \<Rightarrow> sql \<Rightarrow> (store_error + int) \<times> sql" where
  "sql_GetServerDeliveryFee messageBox s =
     (case call (\<lambda>d. (map_of (t_fees d) messageBox, d)) s of
        (Inl e, s1) \<Rightarrow> (Inl e, s1)
      | (Inr None, s1) \<Rightarrow> (Inr 0, s1)
      | (Inr (Some fee), s1) \<Rightarrow> (Inr fee, s1))"

section \<open>Permissions\<close>

definition perm_key :: "Permission \<Rightarrow> string \<times> string option \<times> string" where
  "perm_key p = (p_Recipient p, p_Sender p, p_MessageBox p)"

text \<open>A transaction: nothing is visible until the commit, and an error rolls back.\<close>

definition withTx :: "(sql \<Rightarrow> (store_error + 'a) \<times> sql) \<Rightarrow> sql \<Rightarrow> (store_error + 'a) \<times> sql" where
  "withTx fn s =
     (case call (\<lambda>d. ((), d)) s of
        (Inl e, s1) \<Rightarrow> (Inl e, s1)
      | (Inr _, s1) \<Rightarrow>
          (case fn s1 of
             (Inl e, s2) \<Rightarrow> (Inl e, s2\<lparr>conn_data := conn_data s1\<rparr>)
           | (Inr a, s2) \<Rightarrow>
               (case call (\<lambda>d. ((), conn_data s2)) (s2\<lparr>conn_data := conn_data s1\<rparr>) of
                  (Inl e, s3) \<Rightarrow> (Inl e, s3)
                | (Inr _, s3) \<Rightarrow> (Inr a, s3))))"

text \<open>\<open>withBoxWideLock\<close>: on PostgreSQL the statements run in a transaction behind an advisory
  lock on the row's key; on SQLite they run as they are.\<close>

definition withBoxWideLock ::
  "string \<Rightarrow> (sql \<Rightarrow> (store_error + unit) \<times> sql) \<Rightarrow> sql \<Rightarrow> (store_error + unit) \<times> sql" where
  "withBoxWideLock driver fn s =
     (if driver \<noteq> ''postgres'' then fn s
      else withTx (\<lambda>s1.
        (case call (\<lambda>d. ((), d)) s1 of
           (Inl e, s2) \<Rightarrow> (Inl e, s2)
         | (Inr _, s2) \<Rightarrow> fn s2)) s)"

definition new_permission :: "string \<Rightarrow> string option \<Rightarrow> string \<Rightarrow> int \<Rightarrow> time \<Rightarrow> Permission" where
  "new_permission recipient sender messageBox fee now =
     \<lparr>p_Recipient = recipient, p_Sender = sender, p_MessageBox = messageBox,
      p_RecipientFee = fee, p_CreatedAt = now, p_UpdatedAt = now\<rparr>"

definition has_perm :: "string \<times> string option \<times> string \<Rightarrow> sql_db \<Rightarrow> bool" where
  "has_perm k d \<longleftrightarrow> (\<exists>x \<in> set (t_permissions d). perm_key (snd x) = k)"

definition append_perm :: "Permission \<Rightarrow> sql_db \<Rightarrow> sql_db" where
  "append_perm p d =
     d\<lparr>t_permissions := t_permissions d @ [(seq_permissions d + 1, p)],
       seq_permissions := seq_permissions d + 1\<rparr>"

definition burn_perm :: "sql_db \<Rightarrow> sql_db" where
  "burn_perm d = (if burns_ids d then d\<lparr>seq_permissions := seq_permissions d + 1\<rparr> else d)"

definition set_perm_fee ::
  "string \<times> string option \<times> string \<Rightarrow> int \<Rightarrow> time \<Rightarrow> sql_db \<Rightarrow> sql_db" where
  "set_perm_fee k fee now d =
     d\<lparr>t_permissions := map (\<lambda>(i, p). if perm_key p = k
         then (i, p\<lparr>p_RecipientFee := fee, p_UpdatedAt := now\<rparr>) else (i, p)) (t_permissions d)\<rparr>"

text \<open>\<open>insertBoxWideSQL\<close> and \<open>updateBoxWideFeeSQL\<close>: the rows whose sender is null.\<close>

definition insertBoxWideSQL :: "string \<Rightarrow> string \<Rightarrow> int \<Rightarrow> time \<Rightarrow> sql_db \<Rightarrow> nat \<times> sql_db" where
  "insertBoxWideSQL recipient messageBox fee now d =
     (if has_perm (recipient, None, messageBox) d then (0, d)
      else (1, append_perm (new_permission recipient None messageBox fee now) d))"

definition updateBoxWideFeeSQL :: "string \<Rightarrow> string \<Rightarrow> int \<Rightarrow> time \<Rightarrow> sql_db \<Rightarrow> unit \<times> sql_db" where
  "updateBoxWideFeeSQL recipient messageBox fee now d =
     ((), set_perm_fee (recipient, None, messageBox) fee now d)"

definition insertBoxWideIfAbsent ::
  "string \<Rightarrow> string \<Rightarrow> int \<Rightarrow> time \<Rightarrow> sql \<Rightarrow> (store_error + bool) \<times> sql" where
  "insertBoxWideIfAbsent recipient messageBox fee now s =
     (case call (insertBoxWideSQL recipient messageBox fee now) s of
        (Inl e, s1) \<Rightarrow> (Inl e, s1)
      | (Inr affected, s1) \<Rightarrow> (Inr (0 < affected), s1))"

definition upsert_perm ::
  "string \<Rightarrow> string \<Rightarrow> string \<Rightarrow> int \<Rightarrow> time \<Rightarrow> sql_db \<Rightarrow> unit \<times> sql_db" where
  "upsert_perm recipient sender messageBox fee now d =
     (if has_perm (recipient, Some sender, messageBox) d
      then ((), burn_perm (set_perm_fee (recipient, Some sender, messageBox) fee now d))
      else ((), append_perm (new_permission recipient (Some sender) messageBox fee now) d))"

definition insert_perm_if_absent ::
  "string \<Rightarrow> string \<Rightarrow> string \<Rightarrow> int \<Rightarrow> time \<Rightarrow> sql_db \<Rightarrow> unit \<times> sql_db" where
  "insert_perm_if_absent recipient sender messageBox fee now d =
     (if has_perm (recipient, Some sender, messageBox) d then ((), burn_perm d)
      else ((), append_perm (new_permission recipient (Some sender) messageBox fee now) d))"

definition sql_SetPermission ::
  "string \<Rightarrow> string \<Rightarrow> string option \<Rightarrow> string \<Rightarrow> int \<Rightarrow> sql \<Rightarrow> (store_error + unit) \<times> sql" where
  "sql_SetPermission driver recipient sender messageBox recipientFee s =
     (let now = conn_clock s in
      case sender of
        None \<Rightarrow>
          withBoxWideLock driver (\<lambda>ex.
            (case insertBoxWideIfAbsent recipient messageBox recipientFee now ex of
               (Inl e, s1) \<Rightarrow> (Inl e, s1)
             | (Inr inserted, s1) \<Rightarrow>
                 if inserted then (Inr (), s1)
                 else call (updateBoxWideFeeSQL recipient messageBox recipientFee now) s1)) s
      | Some sndr \<Rightarrow> call (upsert_perm recipient sndr messageBox recipientFee now) s)"

definition sql_SetPermissionIfAbsent ::
  "string \<Rightarrow> string \<Rightarrow> string option \<Rightarrow> string \<Rightarrow> int \<Rightarrow> sql \<Rightarrow> (store_error + unit) \<times> sql" where
  "sql_SetPermissionIfAbsent driver recipient sender messageBox recipientFee s =
     (let now = conn_clock s in
      case sender of
        None \<Rightarrow>
          withBoxWideLock driver (\<lambda>ex.
            (case insertBoxWideIfAbsent recipient messageBox recipientFee now ex of
               (Inl e, s1) \<Rightarrow> (Inl e, s1)
             | (Inr _, s1) \<Rightarrow> (Inr (), s1))) s
      | Some sndr \<Rightarrow> call (insert_perm_if_absent recipient sndr messageBox recipientFee now) s)"

definition select_permission :: "string \<times> string option \<times> string \<Rightarrow> sql_db \<Rightarrow> Permission option" where
  "select_permission k d = map_option snd (find (\<lambda>x. perm_key (snd x) = k) (t_permissions d))"

definition sql_GetPermission ::
  "string \<Rightarrow> string option \<Rightarrow> string \<Rightarrow> sql \<Rightarrow> (store_error + Permission option) \<times> sql" where
  "sql_GetPermission recipient sender messageBox s =
     call (\<lambda>d. (select_permission (recipient, sender, messageBox) d, d)) s"

text \<open>The \<open>ORDER BY\<close> of \<open>ListPermissions\<close>: message box, box-wide rows first, sender, creation
  time in the direction asked for.\<close>

definition perm_order :: "SortOrder \<Rightarrow> Permission \<Rightarrow> string \<times> string option \<times> int" where
  "perm_order ord p = (p_MessageBox p, p_Sender p,
     (case ord of SortAsc \<Rightarrow> p_CreatedAt p | SortDesc \<Rightarrow> - p_CreatedAt p))"

definition match_perms :: "string \<Rightarrow> string option \<Rightarrow> Permission list \<Rightarrow> Permission list" where
  "match_perms recipient messageBox ps =
     filter (\<lambda>p. p_Recipient p = recipient
               \<and> (messageBox = None \<or> messageBox = Some (p_MessageBox p))) ps"

definition sql_ListPermissions ::
  "string \<Rightarrow> PermissionQuery \<Rightarrow> sql \<Rightarrow> (store_error + PermissionPage) \<times> sql" where
  "sql_ListPermissions driver q s =
     (case Validate q of
        Some e \<Rightarrow> (Inl e, s)
      | None \<Rightarrow>
          (case call (\<lambda>d. (int (length (match_perms (pq_Recipient q) (pq_MessageBox q)
                         (map snd (t_permissions d)))), d)) s of
             (Inl e, s1) \<Rightarrow> (Inl e, s1)
           | (Inr cnt, s1) \<Rightarrow>
               (case call (\<lambda>d. (sql_window driver (pq_Limit q) (pq_Offset q)
                          (sort_key (perm_order (pq_Order q))
                            (match_perms (pq_Recipient q) (pq_MessageBox q)
                              (map snd (t_permissions d)))), d)) s1 of
                  (Inl e, s2) \<Rightarrow> (Inl e, s2)
                | (Inr (Inl e), s2) \<Rightarrow> (Inl e, s2)
                | (Inr (Inr items), s2) \<Rightarrow> (Inr \<lparr>pp_Items = items, pp_Total = cnt\<rparr>, s2))))"

section \<open>Devices\<close>

definition same_pair :: "NewDevice \<Rightarrow> Device \<Rightarrow> bool" where
  "same_pair nd dv \<longleftrightarrow> dv_IdentityKey dv = nd_IdentityKey nd \<and> dv_FCMToken dv = nd_FCMToken nd"

text \<open>The upsert of \<open>RegisterDevice\<close>, with the schema's unique keys deciding: without the pair
  index the conflict target does not exist, and a unique key on the token alone refuses a second
  identity.\<close>

definition upsert_device :: "NewDevice \<Rightarrow> time \<Rightarrow> sql_db \<Rightarrow> (store_error + int) \<times> sql_db" where
  "upsert_device nd now d =
     (if \<not> pair_index d then (Inl ErrBackend, d)
      else case find (same_pair nd) (t_devices d) of
        Some dv \<Rightarrow>
          (Inr (dv_ID dv),
           d\<lparr>t_devices := map (\<lambda>x. if same_pair nd x
               then x\<lparr>dv_DeviceID := nd_DeviceID nd, dv_Platform := nd_Platform nd,
                      dv_UpdatedAt := now, dv_Active := True, dv_LastUsed := Some now\<rparr>
               else x) (t_devices d),
             seq_devices := (if burns_ids d then seq_devices d + 1 else seq_devices d)\<rparr>)
      | None \<Rightarrow>
          if legacy_token_key d \<and> (\<exists>x \<in> set (t_devices d). dv_FCMToken x = nd_FCMToken nd)
          then (Inl ErrBackend, d)
          else (Inr (seq_devices d + 1),
                d\<lparr>t_devices := t_devices d @
                    [\<lparr>dv_ID = seq_devices d + 1, dv_IdentityKey = nd_IdentityKey nd,
                      dv_FCMToken = nd_FCMToken nd, dv_DeviceID = nd_DeviceID nd,
                      dv_Platform = nd_Platform nd, dv_Active = True,
                      dv_CreatedAt = now, dv_UpdatedAt = now, dv_LastUsed = Some now\<rparr>],
                  seq_devices := seq_devices d + 1\<rparr>))"

definition sql_RegisterDevice :: "NewDevice \<Rightarrow> sql \<Rightarrow> (store_error + int) \<times> sql" where
  "sql_RegisterDevice nd s =
     (case call (upsert_device nd (conn_clock s)) s of
        (Inl e, s1) \<Rightarrow> (Inl e, s1)
      | (Inr r, s1) \<Rightarrow> (r, s1))"

definition sql_listDevices :: "string \<Rightarrow> bool \<Rightarrow> sql \<Rightarrow> (store_error + Device list) \<times> sql" where
  "sql_listDevices identityKey activeOnly s =
     call (\<lambda>d. (sort_key (\<lambda>dv. - dv_UpdatedAt dv)
        (filter (\<lambda>dv. dv_IdentityKey dv = identityKey \<and> (activeOnly \<longrightarrow> dv_Active dv))
          (t_devices d)), d)) s"

definition sql_ListDevices :: "string \<Rightarrow> sql \<Rightarrow> (store_error + Device list) \<times> sql" where
  "sql_ListDevices identityKey = sql_listDevices identityKey False"

definition sql_ListActiveDevices :: "string \<Rightarrow> sql \<Rightarrow> (store_error + Device list) \<times> sql" where
  "sql_ListActiveDevices identityKey = sql_listDevices identityKey True"

definition update_token :: "string \<Rightarrow> (Device \<Rightarrow> Device) \<Rightarrow> sql_db \<Rightarrow> unit \<times> sql_db" where
  "update_token fcmToken f d =
     ((), d\<lparr>t_devices := map (\<lambda>dv. if dv_FCMToken dv = fcmToken then f dv else dv) (t_devices d)\<rparr>)"

definition sql_UpdateDeviceLastUsed :: "string \<Rightarrow> sql \<Rightarrow> (store_error + unit) \<times> sql" where
  "sql_UpdateDeviceLastUsed fcmToken s =
     call (update_token fcmToken
       (\<lambda>dv. dv\<lparr>dv_LastUsed := Some (conn_clock s), dv_UpdatedAt := conn_clock s\<rparr>)) s"

definition sql_DeactivateDevice :: "string \<Rightarrow> sql \<Rightarrow> (store_error + unit) \<times> sql" where
  "sql_DeactivateDevice fcmToken s =
     call (update_token fcmToken (\<lambda>dv. dv\<lparr>dv_Active := False, dv_UpdatedAt := conn_clock s\<rparr>)) s"

definition sql_UnregisterDevice :: "string \<Rightarrow> string \<Rightarrow> sql \<Rightarrow> (store_error + unit) \<times> sql" where
  "sql_UnregisterDevice identityKey fcmToken s =
     call (\<lambda>d. ((), d\<lparr>t_devices := filter (\<lambda>dv. \<not> (dv_IdentityKey dv = identityKey
        \<and> dv_FCMToken dv = fcmToken)) (t_devices d)\<rparr>)) s"

section \<open>Schema\<close>

text \<open>The migrations as effects on the catalog and the tables, one driver call each. A missing device table
  is created empty and without keys, an index needs its table, and the unique pair index cannot be
  built over duplicate pairs.\<close>

definition createIfMissing :: "sql_db \<Rightarrow> (store_error + unit) \<times> sql_db" where
  "createIfMissing d = (Inr (), d)"

definition createDevicesTable :: "sql_db \<Rightarrow> (store_error + unit) \<times> sql_db" where
  "createDevicesTable d =
     (if devices_table d then (Inr (), d)
      else (Inr (), d\<lparr>devices_table := True, t_devices := [], seq_devices := 0,
              legacy_token_key := False, pair_index := False\<rparr>))"

definition createDevicesIndex :: "sql_db \<Rightarrow> (store_error + unit) \<times> sql_db" where
  "createDevicesIndex d = (if devices_table d then (Inr (), d) else (Inl ErrBackend, d))"

definition createPairIndex :: "sql_db \<Rightarrow> (store_error + unit) \<times> sql_db" where
  "createPairIndex d =
     (if \<not> devices_table d then (Inl ErrBackend, d)
      else if pair_index d then (Inr (), d)
      else if distinct (map (\<lambda>dv. (dv_IdentityKey dv, dv_FCMToken dv)) (t_devices d))
      then (Inr (), d\<lparr>pair_index := True\<rparr>)
      else (Inl ErrBackend, d))"

definition dropLegacyTokenKey :: "sql_db \<Rightarrow> (store_error + unit) \<times> sql_db" where
  "dropLegacyTokenKey d = (Inr (), d\<lparr>legacy_token_key := False\<rparr>)"

definition commonMigrations :: "(sql_db \<Rightarrow> (store_error + unit) \<times> sql_db) list" where
  "commonMigrations = replicate 4 createIfMissing @
     [createDevicesIndex, createDevicesIndex, createPairIndex, createDevicesIndex]"

definition sqliteMigrations :: "(sql_db \<Rightarrow> (store_error + unit) \<times> sql_db) list" where
  "sqliteMigrations = replicate 4 createIfMissing @ [createDevicesTable] @ [createIfMissing] @ commonMigrations"

definition postgresMigrations :: "(sql_db \<Rightarrow> (store_error + unit) \<times> sql_db) list" where
  "postgresMigrations =
     replicate 4 createIfMissing @ [createDevicesTable] @ replicate 2 createIfMissing @ commonMigrations @
     [dropLegacyTokenKey]"

fun run_statements ::
  "(sql_db \<Rightarrow> (store_error + unit) \<times> sql_db) list \<Rightarrow> sql \<Rightarrow> (store_error + unit) \<times> sql" where
  "run_statements [] s = (Inr (), s)"
| "run_statements (m # ms) s =
     (case call m s of
        (Inl e, s1) \<Rightarrow> (Inl e, s1)
      | (Inr (Inl e), s1) \<Rightarrow> (Inl e, s1)
      | (Inr (Inr _), s1) \<Rightarrow> run_statements ms s1)"

text \<open>The statements of \<open>rebuildSQLiteDevicesTable\<close>: dropping a left-over staging table, creating it, copying
  the rows with their ids, which makes the largest id the sequence, dropping the device table and its
  keys with it, and renaming the staging table, which takes its sequence along. Between the last two
  there is no device table, and the copy, the second drop and the renaming fail where a table they need
  is missing or one they would make is there.\<close>

definition dropStaging :: "sql_db \<Rightarrow> (store_error + unit) \<times> sql_db" where
  "dropStaging d = (Inr (), d\<lparr>t_staging := None\<rparr>)"

definition createStaging :: "sql_db \<Rightarrow> (store_error + unit) \<times> sql_db" where
  "createStaging d =
     (Inr (), case t_staging d of None \<Rightarrow> d\<lparr>t_staging := Some ([], 0)\<rparr> | Some _ \<Rightarrow> d)"

definition copyToStaging :: "sql_db \<Rightarrow> (store_error + unit) \<times> sql_db" where
  "copyToStaging d =
     (case t_staging d of
        None \<Rightarrow> (Inl ErrBackend, d)
      | Some (rows, seq) \<Rightarrow>
          if devices_table d \<and> distinct (map dv_ID (rows @ t_devices d))
          then (Inr (), d\<lparr>t_staging := Some (rows @ t_devices d, Max (insert seq (set (map dv_ID (t_devices d)))))\<rparr>)
          else (Inl ErrBackend, d))"

definition dropDevicesTable :: "sql_db \<Rightarrow> (store_error + unit) \<times> sql_db" where
  "dropDevicesTable d =
     (if devices_table d
      then (Inr (), d\<lparr>devices_table := False, t_devices := [], seq_devices := 0,
              legacy_token_key := False, pair_index := False\<rparr>)
      else (Inl ErrBackend, d))"

definition renameStaging :: "sql_db \<Rightarrow> (store_error + unit) \<times> sql_db" where
  "renameStaging d =
     (case t_staging d of
        None \<Rightarrow> (Inl ErrBackend, d)
      | Some (rows, seq) \<Rightarrow>
          if devices_table d then (Inl ErrBackend, d)
          else (Inr (), d\<lparr>devices_table := True, t_devices := rows, seq_devices := seq, t_staging := None\<rparr>))"

definition rebuildStatements :: "(sql_db \<Rightarrow> (store_error + unit) \<times> sql_db) list" where
  "rebuildStatements = [dropStaging, createStaging, copyToStaging, dropDevicesTable, renameStaging]"

definition hasLegacyTokenKey :: "sql \<Rightarrow> (store_error + bool) \<times> sql" where
  "hasLegacyTokenKey = call (\<lambda>d. (devices_table d \<and> legacy_token_key d, d))"

text \<open>The statements run in one transaction, behind the check for the old key.\<close>

definition rebuildSQLiteDevicesTable :: "sql \<Rightarrow> (store_error + unit) \<times> sql" where
  "rebuildSQLiteDevicesTable s =
     (case hasLegacyTokenKey s of
        (Inl e, s1) \<Rightarrow> (Inl e, s1)
      | (Inr legacy, s1) \<Rightarrow>
          if \<not> legacy then (Inr (), s1)
          else withTx (run_statements rebuildStatements) s1)"

definition seed_fee :: "string \<times> int \<Rightarrow> sql_db \<Rightarrow> (store_error + unit) \<times> sql_db" where
  "seed_fee f d =
     (if fst f \<in> set (map fst (t_fees d)) then (Inr (), d)
      else (Inr (), d\<lparr>t_fees := t_fees d @ [f]\<rparr>))"

definition sql_EnsureSchema :: "string \<Rightarrow> sql \<Rightarrow> (store_error + unit) \<times> sql" where
  "sql_EnsureSchema driver s =
     (let prepare = (if driver = ''postgres'' then (Inr (), s) else rebuildSQLiteDevicesTable s);
          migrations = (if driver = ''postgres'' then postgresMigrations else sqliteMigrations)
      in case prepare of
           (Inl e, s1) \<Rightarrow> (Inl e, s1)
         | (Inr _, s1) \<Rightarrow>
             (case run_statements migrations s1 of
                (Inl e, s2) \<Rightarrow> (Inl e, s2)
              | (Inr _, s2) \<Rightarrow> run_statements (map seed_fee DefaultDeliveryFees) s2))"

end
