(* ===== verification/Store_Contract.thy ===== *)
theory Store_Contract
  imports Storage_Types
begin

text \<open>
  The persistence contract (\<open>pkg/storage/storage.go\<close>): the Go interface \<open>storage.Store\<close> as a record
  of operations over a state, and its documented promises as locales over an abstract state.

  A backend provides the operations, an invariant \<open>invar\<close>, a predicate \<open>up\<close> (the database answers)
  and an abstraction \<open>view\<close> to \<open>abs_store\<close>. Every promise is one of two shapes: a read leaves the
  abstract state alone and returns what it holds, a write that succeeds changes the abstract state
  as documented, and a write that reports a driver error has changed it that way or not at all. A
  document a previous release wrote has no registration id, which reads as 0 until the pair is
  registered again; a device registration that fails half way has touched no other pair.
\<close>

section \<open>The interface\<close>

record 's Store =
  InsertMessage :: "NewMessage \<Rightarrow> 's \<Rightarrow> (store_error + unit) \<times> 's"
  ListMessages :: "string \<Rightarrow> string \<Rightarrow> 's \<Rightarrow> (store_error + Message list) \<times> 's"
  AcknowledgeMessages :: "string \<Rightarrow> string list \<Rightarrow> 's \<Rightarrow> (store_error + int) \<times> 's"
  PageMessages :: "(MessagePageQuery \<Rightarrow> 's \<Rightarrow> (store_error + Message list) \<times> 's) option"
  SetPermission :: "string \<Rightarrow> string option \<Rightarrow> string \<Rightarrow> int \<Rightarrow> 's \<Rightarrow> (store_error + unit) \<times> 's"
  SetPermissionIfAbsent :: "string \<Rightarrow> string option \<Rightarrow> string \<Rightarrow> int \<Rightarrow> 's \<Rightarrow> (store_error + unit) \<times> 's"
  GetPermission :: "string \<Rightarrow> string option \<Rightarrow> string \<Rightarrow> 's \<Rightarrow> (store_error + Permission option) \<times> 's"
  ListPermissions :: "PermissionQuery \<Rightarrow> 's \<Rightarrow> (store_error + PermissionPage) \<times> 's"
  RegisterDevice :: "NewDevice \<Rightarrow> 's \<Rightarrow> (store_error + int) \<times> 's"
  ListDevices :: "string \<Rightarrow> 's \<Rightarrow> (store_error + Device list) \<times> 's"
  ListActiveDevices :: "string \<Rightarrow> 's \<Rightarrow> (store_error + Device list) \<times> 's"
  UpdateDeviceLastUsed :: "string \<Rightarrow> 's \<Rightarrow> (store_error + unit) \<times> 's"
  DeactivateDevice :: "string \<Rightarrow> 's \<Rightarrow> (store_error + unit) \<times> 's"
  UnregisterDevice :: "string \<Rightarrow> string \<Rightarrow> 's \<Rightarrow> (store_error + unit) \<times> 's"
  GetServerDeliveryFee :: "string \<Rightarrow> 's \<Rightarrow> (store_error + int) \<times> 's"
  EnsureSchema :: "'s \<Rightarrow> (store_error + unit) \<times> 's"

section \<open>The abstract state\<close>

text \<open>Stored messages with their creation and update times, permissions by key, the configured
  delivery fees (0 where none is configured) and the device registrations.\<close>

type_synonym stored_message = "NewMessage \<times> time \<times> time"
type_synonym perm_id = "string \<times> string option \<times> string"

record abs_store =
  a_msgs :: "stored_message set"
  a_perms :: "perm_id \<rightharpoonup> int \<times> time \<times> time"
  a_fees :: "string \<Rightarrow> int"
  a_devs :: "Device set"

definition msg_id :: "stored_message \<Rightarrow> string" where
  "msg_id v = nm_MessageID (fst v)"

definition msg_ids :: "abs_store \<Rightarrow> string set" where
  "msg_ids A = msg_id ` a_msgs A"

fun toMessage :: "stored_message \<Rightarrow> Message" where
  "toMessage (m, c, u) = \<lparr>m_MessageID = nm_MessageID m, m_Sender = nm_Sender m,
     m_Body = nm_Body m, m_CreatedAt = c, m_UpdatedAt = u\<rparr>"

definition in_box :: "string \<Rightarrow> string \<Rightarrow> stored_message \<Rightarrow> bool" where
  "in_box recipient messageBox v \<longleftrightarrow>
     nm_Recipient (fst v) = recipient \<and> nm_MessageBox (fst v) = messageBox"

definition msg_order :: "Message \<Rightarrow> time \<times> string" where
  "msg_order m = (m_CreatedAt m, m_MessageID m)"

text \<open>The listing of a box: its messages, by creation time and then message id, each once.\<close>

definition listing :: "abs_store \<Rightarrow> string \<Rightarrow> string \<Rightarrow> Message list \<Rightarrow> bool" where
  "listing A recipient messageBox xs \<longleftrightarrow>
     sorted_wrt (<) (map msg_order xs) \<and>
     set xs = toMessage ` {v \<in> a_msgs A. in_box recipient messageBox v}"

definition id_filter :: "string option \<Rightarrow> Message list \<Rightarrow> Message list" where
  "id_filter messageID xs =
     (case messageID of None \<Rightarrow> xs | Some i \<Rightarrow> filter (\<lambda>m. m_MessageID m = i) xs)"

definition perm_of :: "perm_id \<Rightarrow> int \<times> time \<times> time \<Rightarrow> Permission" where
  "perm_of k v = (case (k, v) of ((r, s, b), (fee, c, u)) \<Rightarrow>
     \<lparr>p_Recipient = r, p_Sender = s, p_MessageBox = b, p_RecipientFee = fee,
      p_CreatedAt = c, p_UpdatedAt = u\<rparr>)"

definition perm_at :: "abs_store \<Rightarrow> perm_id \<Rightarrow> Permission option" where
  "perm_at A k = map_option (perm_of k) (a_perms A k)"

text \<open>The documented effects of the writes, as relations between the result and the new state.\<close>

definition inserted :: "NewMessage \<Rightarrow> abs_store \<Rightarrow> abs_store \<Rightarrow> bool" where
  "inserted m A A' \<longleftrightarrow> nm_MessageID m \<notin> msg_ids A \<and>
     (\<exists>t. A' = A\<lparr>a_msgs := insert (m, t, t) (a_msgs A)\<rparr>)"

definition acked :: "string \<Rightarrow> string list \<Rightarrow> abs_store \<Rightarrow> stored_message set" where
  "acked recipient ids A = {v \<in> a_msgs A. nm_Recipient (fst v) = recipient \<and> msg_id v \<in> set ids}"

definition perm_set :: "perm_id \<Rightarrow> int \<Rightarrow> abs_store \<Rightarrow> abs_store \<Rightarrow> bool" where
  "perm_set k fee A A' \<longleftrightarrow>
     (\<exists>t. A' = A\<lparr>a_perms := (a_perms A)(k \<mapsto>
        (fee, (case a_perms A k of Some (f, c, u) \<Rightarrow> c | None \<Rightarrow> t), t))\<rparr>)"

definition perm_set_if_absent :: "perm_id \<Rightarrow> int \<Rightarrow> abs_store \<Rightarrow> abs_store \<Rightarrow> bool" where
  "perm_set_if_absent k fee A A' \<longleftrightarrow>
     (if a_perms A k \<noteq> None then A' = A
      else \<exists>t. A' = A\<lparr>a_perms := (a_perms A)(k \<mapsto> (fee, t, t))\<rparr>)"

definition dev_pair :: "Device \<Rightarrow> string \<times> string" where
  "dev_pair dv = (dv_IdentityKey dv, dv_FCMToken dv)"

definition registered :: "NewDevice \<Rightarrow> int \<Rightarrow> abs_store \<Rightarrow> abs_store \<Rightarrow> bool" where
  "registered nd i A A' \<longleftrightarrow>
     (\<exists>t dv. A' = A\<lparr>a_devs := insert dv {x \<in> a_devs A. dev_pair x \<noteq> (nd_IdentityKey nd, nd_FCMToken nd)}\<rparr>
       \<and> dev_pair dv = (nd_IdentityKey nd, nd_FCMToken nd) \<and> dv_ID dv = i \<and> 0 < i
       \<and> dv_Active dv \<and> dv_DeviceID dv = nd_DeviceID nd \<and> dv_Platform dv = nd_Platform nd
       \<and> dv_UpdatedAt dv = t \<and> dv_LastUsed dv = Some t
       \<and> (\<forall>old \<in> a_devs A. dev_pair old = dev_pair dv \<longrightarrow>
            (dv_ID old = i \<or> dv_ID old = 0) \<and> dv_CreatedAt dv = dv_CreatedAt old)
       \<and> (\<forall>other \<in> a_devs A. dev_pair other \<noteq> dev_pair dv \<longrightarrow> dv_ID other \<noteq> i))"

definition others_kept :: "NewDevice \<Rightarrow> abs_store \<Rightarrow> abs_store \<Rightarrow> bool" where
  "others_kept nd A A' \<longleftrightarrow> (\<exists>D. A' = A\<lparr>a_devs := D\<rparr> \<and>
     {x \<in> D. dev_pair x \<noteq> (nd_IdentityKey nd, nd_FCMToken nd)} =
     {x \<in> a_devs A. dev_pair x \<noteq> (nd_IdentityKey nd, nd_FCMToken nd)})"

lemma others_kept_refl: "others_kept nd A A"
  by (auto simp: others_kept_def intro!: exI [of _ "a_devs A"])

lemma registered_others: "registered nd i A A' \<Longrightarrow> others_kept nd A A'"
  by (auto simp: registered_def others_kept_def)

definition token_updated :: "string \<Rightarrow> (time \<Rightarrow> Device \<Rightarrow> Device) \<Rightarrow> abs_store \<Rightarrow> abs_store \<Rightarrow> bool" where
  "token_updated tok f A A' \<longleftrightarrow>
     (\<exists>t. A' = A\<lparr>a_devs := (\<lambda>dv. if dv_FCMToken dv = tok then f t dv else dv) ` a_devs A\<rparr>)"

definition token_set :: "string \<Rightarrow> (Device \<Rightarrow> Device) \<Rightarrow> abs_store \<Rightarrow> abs_store" where
  "token_set tok f A = A\<lparr>a_devs := (\<lambda>dv. if dv_FCMToken dv = tok then f dv else dv) ` a_devs A\<rparr>"

lemma token_updated_const: "token_updated tok (\<lambda>_. f) A A' \<longleftrightarrow> A' = token_set tok f A"
  by (simp add: token_updated_def token_set_def)

section \<open>Reads and writes\<close>

definition reads ::
  "('s \<Rightarrow> bool) \<Rightarrow> ('s \<Rightarrow> bool) \<Rightarrow> ('s \<Rightarrow> 'v) \<Rightarrow> ('s \<Rightarrow> (store_error + 'a) \<times> 's) \<Rightarrow> 's \<Rightarrow>
   ('a \<Rightarrow> bool) \<Rightarrow> bool" where
  "reads invar up view f s P \<longleftrightarrow> (\<forall>x s'. f s = (x, s') \<longrightarrow>
     invar s' \<and> view s' = view s \<and> (up s \<longrightarrow> up s' \<and> (\<exists>a. x = Inr a)) \<and>
     (case x of Inr a \<Rightarrow> P a | Inl e \<Rightarrow> e = ErrBackend))"

definition writes ::
  "('s \<Rightarrow> bool) \<Rightarrow> ('s \<Rightarrow> bool) \<Rightarrow> ('s \<Rightarrow> 'v) \<Rightarrow> ('s \<Rightarrow> (store_error + 'a) \<times> 's) \<Rightarrow> 's \<Rightarrow>
   ('a \<Rightarrow> 'v \<Rightarrow> bool) \<Rightarrow> bool" where
  "writes invar up view f s R \<longleftrightarrow> (\<forall>x s'. f s = (x, s') \<longrightarrow>
     invar s' \<and> (up s \<longrightarrow> up s' \<and> (\<exists>a. x = Inr a)) \<and>
     (case x of Inr a \<Rightarrow> R a (view s')
      | Inl e \<Rightarrow> e = ErrBackend \<and> (view s' = view s \<or> (\<exists>a. R a (view s')))))"

lemma readsD:
  assumes "reads invar up view f s P" and "f s = (x, s')"
  shows "invar s'" and "view s' = view s" and "up s \<Longrightarrow> up s'" and "up s \<Longrightarrow> \<exists>a. x = Inr a"
    and "x = Inr a \<Longrightarrow> P a" and "x = Inl e \<Longrightarrow> e = ErrBackend"
  using assms by (auto simp: reads_def)

lemma writesD:
  assumes "writes invar up view f s R" and "f s = (x, s')"
  shows "invar s'" and "up s \<Longrightarrow> up s'" and "up s \<Longrightarrow> \<exists>a. x = Inr a"
    and "x = Inr a \<Longrightarrow> R a (view s')" and "x = Inl e \<Longrightarrow> e = ErrBackend"
    and "x = Inl e \<Longrightarrow> view s' = view s \<or> (\<exists>a. R a (view s'))"
  using assms by (auto simp: writes_def)

lemma readsI:
  assumes "\<And>a s'. f s = (Inr a, s') \<Longrightarrow> invar s' \<and> view s' = view s \<and> (up s \<longrightarrow> up s') \<and> P a"
    and "\<And>e s'. f s = (Inl e, s') \<Longrightarrow> e = ErrBackend \<and> invar s' \<and> view s' = view s \<and> \<not> up s"
  shows "reads invar up view f s P"
  unfolding reads_def
proof (intro allI impI)
  fix x s'
  assume "f s = (x, s')"
  then show "invar s' \<and> view s' = view s \<and> (up s \<longrightarrow> up s' \<and> (\<exists>a. x = Inr a)) \<and>
     (case x of Inr a \<Rightarrow> P a | Inl e \<Rightarrow> e = ErrBackend)"
    using assms by (cases x) simp_all
qed

lemma writesI:
  assumes "\<And>a s'. f s = (Inr a, s') \<Longrightarrow> invar s' \<and> (up s \<longrightarrow> up s') \<and> R a (view s')"
    and "\<And>e s'. f s = (Inl e, s') \<Longrightarrow>
      e = ErrBackend \<and> invar s' \<and> \<not> up s \<and> (view s' = view s \<or> (\<exists>a. R a (view s')))"
  shows "writes invar up view f s R"
  unfolding writes_def
proof (intro allI impI)
  fix x s'
  assume eq: "f s = (x, s')"
  show "invar s' \<and> (up s \<longrightarrow> up s' \<and> (\<exists>a. x = Inr a)) \<and>
    (case x of Inr a \<Rightarrow> R a (view s')
     | Inl e \<Rightarrow> e = ErrBackend \<and> (view s' = view s \<or> (\<exists>a. R a (view s'))))"
  proof (cases x)
    case (Inl e)
    with assms(2) [of e s'] eq show ?thesis by auto
  next
    case (Inr a)
    with assms(1) [of a s'] eq show ?thesis by auto
  qed
qed

text \<open>One round trip is a read or a write, an operation in sequence composes, and a coarser
  abstraction keeps what a finer one shows.\<close>

lemma call_reads:
  assumes "I (conn_data s)" and "P (g (conn_data s))"
  shows "reads (\<lambda>s. I (conn_data s)) healthy conn_data (call (\<lambda>d. (g d, d))) s P"
proof (rule readsI)
  fix a s'
  assume eq: "call (\<lambda>d. (g d, d)) s = (Inr a, s')"
  then show "I (conn_data s') \<and> conn_data s' = conn_data s \<and> (healthy s \<longrightarrow> healthy s') \<and> P a"
    using call_query [OF eq] call_query_Inr [OF eq] call_healthy [of s "\<lambda>d. (g d, d)"] assms by auto
next
  fix e s'
  assume eq: "call (\<lambda>d. (g d, d)) s = (Inl e, s')"
  then show "e = ErrBackend \<and> I (conn_data s') \<and> conn_data s' = conn_data s \<and> \<not> healthy s"
    using call_query [OF eq] call_Inl [OF eq] call_healthy [of s "\<lambda>d. (g d, d)"] assms by auto
qed

lemma call_writes:
  assumes "f (conn_data s) = (a, d)" and "I (conn_data s)" and "I d" and "R a d"
  shows "writes (\<lambda>s. I (conn_data s)) healthy conn_data (call f) s R"
proof (rule writesI)
  fix b s'
  assume eq: "call f s = (Inr b, s')"
  then show "I (conn_data s') \<and> (healthy s \<longrightarrow> healthy s') \<and> R b (conn_data s')"
    using call_Inr [OF eq] call_healthy [of s f] assms by auto
next
  fix e s'
  assume eq: "call f s = (Inl e, s')"
  then show "e = ErrBackend \<and> I (conn_data s') \<and> \<not> healthy s \<and>
      (conn_data s' = conn_data s \<or> (\<exists>a. R a (conn_data s')))"
    using call_Inl [OF eq] call_healthy [of s f] assms by auto
qed

lemma reads_bind:
  assumes f: "reads I up V f s P"
    and g: "\<And>a s'. f s = (Inr a, s') \<Longrightarrow> I s' \<Longrightarrow> V s' = V s \<Longrightarrow> P a \<Longrightarrow> reads I up V (g a) s' Q"
  shows "reads I up V (\<lambda>s. case f s of (Inl e, s1) \<Rightarrow> (Inl e, s1) | (Inr a, s1) \<Rightarrow> g a s1) s Q"
proof -
  obtain y s1 where fs: "f s = (y, s1)" by fastforce
  note r = readsD [OF f fs]
  show ?thesis
  proof (cases y)
    case (Inl e)
    with r fs show ?thesis by (auto simp: reads_def)
  next
    case (Inr a)
    with fs r g have "reads I up V (g a) s1 Q" by simp
    with Inr fs r show ?thesis by (simp add: reads_def)
  qed
qed

lemma writes_after_read:
  assumes f: "reads I up V f s P"
    and g: "\<And>a s'. f s = (Inr a, s') \<Longrightarrow> I s' \<Longrightarrow> V s' = V s \<Longrightarrow> P a \<Longrightarrow> writes I up V (g a) s' R"
  shows "writes I up V (\<lambda>s. case f s of (Inl e, s1) \<Rightarrow> (Inl e, s1) | (Inr a, s1) \<Rightarrow> g a s1) s R"
proof -
  obtain y s1 where fs: "f s = (y, s1)" by fastforce
  note r = readsD [OF f fs]
  show ?thesis
  proof (cases y)
    case (Inl e)
    with r fs show ?thesis by (auto simp: writes_def)
  next
    case (Inr a)
    with fs r g have "writes I up V (g a) s1 R" by simp
    with Inr fs r show ?thesis by (auto simp: writes_def split: sum.splits)
  qed
qed

lemma reads_view:
  assumes r: "reads I up V f s P" and q: "\<And>a. P a \<Longrightarrow> Q a"
  shows "reads I up (\<lambda>s. W (V s)) f s Q"
proof (rule readsI)
  fix a s'
  assume "f s = (Inr a, s')"
  from readsD [OF r this] q
  show "I s' \<and> W (V s') = W (V s) \<and> (up s \<longrightarrow> up s') \<and> Q a" by simp
next
  fix e s'
  assume "f s = (Inl e, s')"
  from readsD(1-4) [OF r this] readsD(6) [OF r this refl]
  show "e = ErrBackend \<and> I s' \<and> W (V s') = W (V s) \<and> \<not> up s" by auto
qed

lemma writes_view:
  assumes w: "writes I up V f s R" and q: "\<And>a d. R a d \<Longrightarrow> Q a (W d)"
  shows "writes I up (\<lambda>s. W (V s)) f s Q"
proof (rule writesI)
  fix a s'
  assume "f s = (Inr a, s')"
  from writesD [OF w this] q
  show "I s' \<and> (up s \<longrightarrow> up s') \<and> Q a (W (V s'))" by simp
next
  fix e s'
  assume "f s = (Inl e, s')"
  from writesD(1-3) [OF w this] writesD(5,6) [OF w this refl] q
  show "e = ErrBackend \<and> I s' \<and> \<not> up s \<and> (W (V s') = W (V s) \<or> (\<exists>a. Q a (W (V s'))))"
    by fastforce
qed

lemma call_writes_view:
  assumes "f (conn_data s) = (a, d)" and "I (conn_data s)" and "I d" and "R a (W d)"
  shows "writes (\<lambda>s. I (conn_data s)) healthy (\<lambda>s. W (conn_data s)) (call f) s R"
  by (rule writes_view [where R = "\<lambda>a d. R a (W d)"], rule call_writes [where I = I], (rule assms)+)

lemma call_reads_view:
  assumes "I (conn_data s)" and "P (g (conn_data s))"
  shows "reads (\<lambda>s. I (conn_data s)) healthy (\<lambda>s. W (conn_data s)) (call (\<lambda>d. (g d, d))) s P"
  by (rule reads_view [where P = P], rule call_reads [where I = I], (rule assms)+)

lemma call_reads_same:
  assumes "f (conn_data s) = (a, conn_data s)" and "I (conn_data s)" and "P a"
  shows "reads (\<lambda>s. I (conn_data s)) healthy (\<lambda>s. W (conn_data s)) (call f) s P"
proof (rule readsI)
  fix b s'
  assume "call f s = (Inr b, s')"
  from call_cases [OF this assms(1)] assms
  show "I (conn_data s') \<and> W (conn_data s') = W (conn_data s) \<and> (healthy s \<longrightarrow> healthy s') \<and> P b" by auto
next
  fix e s'
  assume "call f s = (Inl e, s')"
  from call_cases [OF this assms(1)] assms
  show "e = ErrBackend \<and> I (conn_data s') \<and> W (conn_data s') = W (conn_data s) \<and> \<not> healthy s" by auto
qed

lemma writes_map:
  assumes w: "writes I up V f s R" and q: "\<And>a v. R a v \<Longrightarrow> Q (h a) v"
  shows "writes I up V (\<lambda>s. case f s of (Inl e, s1) \<Rightarrow> (Inl e, s1) | (Inr a, s1) \<Rightarrow> (Inr (h a), s1)) s Q"
proof (rule writesI)
  fix b s'
  assume "(case f s of (Inl e, s1) \<Rightarrow> (Inl e, s1) | (Inr a, s1) \<Rightarrow> (Inr (h a), s1)) = (Inr b, s')"
  then obtain a where "f s = (Inr a, s')" and "b = h a"
    by (auto split: prod.splits sum.splits)
  with writesD [OF w this(1)] q show "I s' \<and> (up s \<longrightarrow> up s') \<and> Q b (V s')" by simp
next
  fix e s'
  assume "(case f s of (Inl e, s1) \<Rightarrow> (Inl e, s1) | (Inr a, s1) \<Rightarrow> (Inr (h a), s1)) = (Inl e, s')"
  then have "f s = (Inl e, s')" by (auto split: prod.splits sum.splits)
  from writesD(1-3) [OF w this] writesD(5,6) [OF w this refl] q
  show "e = ErrBackend \<and> I s' \<and> \<not> up s \<and> (V s' = V s \<or> (\<exists>a. Q a (V s')))" by fastforce
qed

lemma reads_return: "I s \<Longrightarrow> P a \<Longrightarrow> reads I up V (\<lambda>s. (Inr a, s)) s P"
  by (simp add: reads_def)

lemma writes_return: "I s \<Longrightarrow> R a (V s) \<Longrightarrow> writes I up V (\<lambda>s. (Inr a, s)) s R"
  by (simp add: writes_def)

lemma call_reads_map:
  assumes "I (conn_data s)" and "P (h (g (conn_data s)))"
  shows "reads (\<lambda>s. I (conn_data s)) healthy (\<lambda>s. W (conn_data s))
    (\<lambda>s. case call (\<lambda>d. (g d, d)) s of (Inl e, s1) \<Rightarrow> (Inl e, s1) | (Inr w, s1) \<Rightarrow> (Inr (h w), s1)) s P"
proof (rule reads_bind)
  show "reads (\<lambda>s. I (conn_data s)) healthy (\<lambda>s. W (conn_data s)) (call (\<lambda>d. (g d, d))) s (\<lambda>w. w = g (conn_data s))"
    by (rule call_reads_view [where I = I]) (use assms in simp_all)
qed (use assms in \<open>auto intro!: reads_return\<close>)

lemma reads_cong: "f s = g s \<Longrightarrow> reads I up V g s P \<Longrightarrow> reads I up V f s P"
  by (simp add: reads_def)

lemma writes_cong: "f s = g s \<Longrightarrow> writes I up V g s R \<Longrightarrow> writes I up V f s R"
  by (simp add: writes_def)

section \<open>The contract\<close>

locale store_base =
  fixes S :: "'s Store"
    and invar :: "'s \<Rightarrow> bool"
    and up :: "'s \<Rightarrow> bool"
    and view :: "'s \<Rightarrow> abs_store"

locale message_store = store_base +
  assumes msgs_finite: "invar s \<Longrightarrow> finite (a_msgs (view s))"
    and msgs_unique: "invar s \<Longrightarrow> inj_on msg_id (a_msgs (view s))"
    and insert_inv: "invar s \<Longrightarrow> InsertMessage S m s = (x, s') \<Longrightarrow> invar s' \<and> (up s \<longrightarrow> up s' \<and> x \<noteq> Inl ErrBackend)"
    and insert_ok: "invar s \<Longrightarrow> InsertMessage S m s = (Inr (), s') \<Longrightarrow> inserted m (view s) (view s')"
    and insert_dup: "invar s \<Longrightarrow> InsertMessage S m s = (Inl ErrDuplicateMessage, s') \<Longrightarrow>
          nm_MessageID m \<in> msg_ids (view s) \<and> view s' = view s"
    and insert_err: "invar s \<Longrightarrow> InsertMessage S m s = (Inl e, s') \<Longrightarrow>
          e \<in> {ErrDuplicateMessage, ErrBackend} \<and> (view s' = view s \<or> inserted m (view s) (view s'))"
    and list_reads: "invar s \<Longrightarrow>
          reads invar up view (ListMessages S r b) s (listing (view s) r b)"
    and ack_writes: "invar s \<Longrightarrow>
          writes invar up view (AcknowledgeMessages S r ids) s
            (\<lambda>n A'. n = int (card (acked r ids (view s))) \<and>
               A' = (view s)\<lparr>a_msgs := a_msgs (view s) - acked r ids (view s)\<rparr>)"
    and page_reads: "invar s \<Longrightarrow> PageMessages S = Some f \<Longrightarrow> 1 \<le> mq_FetchLimit q \<Longrightarrow> 0 \<le> mq_Offset q \<Longrightarrow>
          reads invar up view (f q) s
            (\<lambda>xs. \<exists>all. listing (view s) (mq_Recipient q) (mq_MessageBox q) all \<and>
               xs = take (nat (mq_FetchLimit q)) (drop (nat (mq_Offset q)) (id_filter (mq_MessageID q) all)))"

locale permission_store = store_base +
  assumes get_reads: "invar s \<Longrightarrow>
          reads invar up view (GetPermission S r sd b) s (\<lambda>p. p = perm_at (view s) (r, sd, b))"
    and set_writes: "invar s \<Longrightarrow>
          writes invar up view (SetPermission S r sd b fee) s (\<lambda>_. perm_set (r, sd, b) fee (view s))"
    and absent_writes: "invar s \<Longrightarrow>
          writes invar up view (SetPermissionIfAbsent S r sd b fee) s
            (\<lambda>_. perm_set_if_absent (r, sd, b) fee (view s))"

locale fee_store = store_base +
  assumes fee_reads: "invar s \<Longrightarrow>
          reads invar up view (GetServerDeliveryFee S b) s (\<lambda>fee. fee = a_fees (view s) b)"

locale device_store = store_base +
  assumes devs_unique: "invar s \<Longrightarrow> inj_on dev_pair (a_devs (view s))"
    and register_inv: "invar s \<Longrightarrow> RegisterDevice S nd s = (x, s') \<Longrightarrow>
          invar s' \<and> (up s \<longrightarrow> up s' \<and> (\<exists>i. x = Inr i))"
    and register_ok: "invar s \<Longrightarrow> RegisterDevice S nd s = (Inr i, s') \<Longrightarrow>
          registered nd i (view s) (view s')"
    and register_err: "invar s \<Longrightarrow> RegisterDevice S nd s = (Inl e, s') \<Longrightarrow>
          e = ErrBackend \<and> others_kept nd (view s) (view s')"
    and devices_reads: "invar s \<Longrightarrow>
          reads invar up view (ListDevices S k) s
            (\<lambda>ds. sorted (map (\<lambda>dv. - dv_UpdatedAt dv) ds) \<and>
               set ds = {dv \<in> a_devs (view s). dv_IdentityKey dv = k} \<and> distinct ds)"
    and active_reads: "invar s \<Longrightarrow>
          reads invar up view (ListActiveDevices S k) s
            (\<lambda>ds. set ds = {dv \<in> a_devs (view s). dv_IdentityKey dv = k \<and> dv_Active dv} \<and> distinct ds)"
    and last_used_writes: "invar s \<Longrightarrow>
          writes invar up view (UpdateDeviceLastUsed S tok) s
            (\<lambda>_. token_updated tok (\<lambda>t dv. dv\<lparr>dv_LastUsed := Some t, dv_UpdatedAt := t\<rparr>) (view s))"
    and deactivate_writes: "invar s \<Longrightarrow>
          writes invar up view (DeactivateDevice S tok) s
            (\<lambda>_. token_updated tok (\<lambda>t dv. dv\<lparr>dv_Active := False, dv_UpdatedAt := t\<rparr>) (view s))"
    and unregister_writes: "invar s \<Longrightarrow>
          writes invar up view (UnregisterDevice S k tok) s
            (\<lambda>_ A'. A' = (view s)\<lparr>a_devs := {dv \<in> a_devs (view s). dev_pair dv \<noteq> (k, tok)}\<rparr>)"

text \<open>The time a backend stamps a row with, as its operations read it.\<close>

locale stamped_store = device_store +
  fixes now :: "'a \<Rightarrow> time"
  assumes stamp_writes: "invar s \<Longrightarrow>
          writes invar up view (UpdateDeviceLastUsed S tok) s
            (\<lambda>_ A'. A' = token_set tok (\<lambda>dv. dv\<lparr>dv_LastUsed := Some (now s), dv_UpdatedAt := now s\<rparr>) (view s))"
    and drop_writes: "invar s \<Longrightarrow>
          writes invar up view (DeactivateDevice S tok) s
            (\<lambda>_ A'. A' = token_set tok (\<lambda>dv. dv\<lparr>dv_Active := False, dv_UpdatedAt := now s\<rparr>) (view s))"
    and stamp_now: "now (snd (UpdateDeviceLastUsed S tok s)) = now s"
    and drop_now: "now (snd (DeactivateDevice S tok s)) = now s"
    and active_now: "now (snd (ListActiveDevices S k s)) = now s"

locale full_store = message_store + permission_store + fee_store + device_store

section \<open>Consequences for clients\<close>

lemma toMessage_order: "msg_order (toMessage v) = (fst (snd v), msg_id v)"
  by (cases v) (simp add: msg_order_def msg_id_def)

context message_store
begin

lemma msg_order_inj:
  assumes "invar s"
  shows "inj_on msg_order (toMessage ` a_msgs (view s))"
proof (rule inj_onI, elim imageE)
  fix x y v w
  assume xy: "msg_order x = msg_order y" "x = toMessage v" "v \<in> a_msgs (view s)"
    "y = toMessage w" "w \<in> a_msgs (view s)"
  then have "msg_id v = msg_id w" by (simp add: toMessage_order)
  with xy msgs_unique [OF assms] show "x = y" by (metis inj_onD)
qed

lemma listing_unique:
  assumes "invar s" and "listing (view s) r b xs" and "listing (view s) r b ys"
  shows "xs = ys"
proof (rule strict_sorted_map_key_unique)
  show "sorted_wrt (<) (map msg_order xs)" "sorted_wrt (<) (map msg_order ys)" "set xs = set ys"
    using assms by (auto simp: listing_def)
  show "inj_on msg_order (set xs)"
    using assms msg_order_inj [OF assms(1)]
    by (auto simp: listing_def intro: inj_on_subset)
qed

lemma listing_ids:
  assumes "invar s" and "listing (view s) r b xs"
  shows "distinct (map m_MessageID xs)"
proof -
  have "inj_on m_MessageID (toMessage ` a_msgs (view s))"
    using msgs_unique [OF assms(1)] by (auto simp: inj_on_def msg_id_def image_iff)
  then have "inj_on m_MessageID (set xs)"
    using assms(2) by (auto simp: listing_def intro: inj_on_subset)
  moreover have "distinct xs"
    using assms(2) by (metis distinct_map listing_def strict_sorted_iff)
  ultimately show ?thesis by (simp add: distinct_map)
qed

end

end
