(* ===== verification/Sql_Refinement.thy ===== *)
theory Sql_Refinement
  imports Sql_Store Store_Contract
begin

text \<open>
  The SQL backend implements the storage contract: the invariant the schema's keys give the
  tables, the abstraction of the tables to the abstract state, the effect of every statement on
  both, and the interpretation of the contract's locales for both drivers.
\<close>

section \<open>Invariant and abstraction\<close>

definition messages_inv :: "sql_db \<Rightarrow> bool" where
  "messages_inv d \<longleftrightarrow>
     distinct (map mr_MessageId (t_messages d)) \<and>
     distinct (map (\<lambda>b. (mb_IdentityKey b, mb_Type b)) (t_messageBox d)) \<and>
     distinct (map mb_Id (t_messageBox d)) \<and>
     (\<forall>b \<in> set (t_messageBox d). 0 < mb_Id b \<and> mb_Id b \<le> seq_messageBox d) \<and>
     0 \<le> seq_messageBox d \<and>
     (\<forall>r \<in> set (t_messages d). \<exists>b \<in> set (t_messageBox d).
        mb_Id b = mr_BoxId r \<and> mb_IdentityKey b = mr_Recipient r)"

definition permissions_inv :: "sql_db \<Rightarrow> bool" where
  "permissions_inv d \<longleftrightarrow> distinct (map (\<lambda>x. perm_key (snd x)) (t_permissions d))"

definition devices_inv :: "sql_db \<Rightarrow> bool" where
  "devices_inv d \<longleftrightarrow>
     distinct (map dev_pair (t_devices d)) \<and>
     distinct (map dv_ID (t_devices d)) \<and>
     (\<forall>x \<in> set (t_devices d). 0 < dv_ID x \<and> dv_ID x \<le> seq_devices d) \<and>
     0 \<le> seq_devices d"

definition schema_current :: "sql_db \<Rightarrow> bool" where
  "schema_current d \<longleftrightarrow> devices_table d \<and> pair_index d \<and> \<not> legacy_token_key d"

definition sql_ok :: "sql_db \<Rightarrow> bool" where
  "sql_ok d \<longleftrightarrow> messages_inv d \<and> permissions_inv d \<and> devices_inv d \<and> schema_current d"

text \<open>The type of the box a message row points to, and the message the row stands for.\<close>

definition box_type :: "messageBox_row list \<Rightarrow> int \<Rightarrow> string" where
  "box_type bs i = (case find (\<lambda>b. mb_Id b = i) bs of Some b \<Rightarrow> mb_Type b | None \<Rightarrow> [])"

definition row_message :: "messageBox_row list \<Rightarrow> message_row \<Rightarrow> stored_message" where
  "row_message bs r =
     (\<lparr>nm_MessageID = mr_MessageId r, nm_Recipient = mr_Recipient r,
       nm_MessageBox = box_type bs (mr_BoxId r), nm_Sender = mr_Sender r, nm_Body = mr_Body r\<rparr>,
      mr_CreatedAt r, mr_UpdatedAt r)"

definition perm_entry :: "int \<times> Permission \<Rightarrow> perm_id \<times> int \<times> time \<times> time" where
  "perm_entry x = (perm_key (snd x), p_RecipientFee (snd x), p_CreatedAt (snd x), p_UpdatedAt (snd x))"

definition sql_view :: "sql_db \<Rightarrow> abs_store" where
  "sql_view d =
     \<lparr>a_msgs = row_message (t_messageBox d) ` set (t_messages d),
      a_perms = map_of (map perm_entry (t_permissions d)),
      a_fees = (\<lambda>b. case map_of (t_fees d) b of None \<Rightarrow> 0 | Some fee \<Rightarrow> fee),
      a_devs = set (t_devices d)\<rparr>"

lemmas sql_inv_defs = messages_inv_def permissions_inv_def devices_inv_def schema_current_def

lemma row_message_sel [simp]:
  "msg_id (row_message bs r) = mr_MessageId r"
  "toMessage (row_message bs r) = scan_message r"
  "nm_Recipient (fst (row_message bs r)) = mr_Recipient r"
  "nm_MessageBox (fst (row_message bs r)) = box_type bs (mr_BoxId r)"
  by (simp_all add: row_message_def msg_id_def scan_message_def)

lemma sql_view_sel [simp]:
  "a_msgs (sql_view d) = row_message (t_messageBox d) ` set (t_messages d)"
  "a_perms (sql_view d) = map_of (map perm_entry (t_permissions d))"
  "a_devs (sql_view d) = set (t_devices d)"
  by (simp_all add: sql_view_def)

lemma sql_view_upd [simp]:
  "sql_view (d\<lparr>t_messages := ms\<rparr>) = (sql_view d)\<lparr>a_msgs := row_message (t_messageBox d) ` set ms\<rparr>"
  "sql_view (d\<lparr>t_permissions := ps\<rparr>) = (sql_view d)\<lparr>a_perms := map_of (map perm_entry ps)\<rparr>"
  "sql_view (d\<lparr>t_devices := ds\<rparr>) = (sql_view d)\<lparr>a_devs := set ds\<rparr>"
  "sql_view (d\<lparr>seq_permissions := n\<rparr>) = sql_view d"
  "sql_view (d\<lparr>seq_devices := n\<rparr>) = sql_view d"
  by (simp_all add: sql_view_def)

lemma msg_order_scan: "msg_order (scan_message r) = messagesOrderBy r"
  by (simp add: msg_order_def scan_message_def messagesOrderBy_def)

lemma msg_ids_sql_view: "msg_ids (sql_view d) = mr_MessageId ` set (t_messages d)"
  by (simp add: msg_ids_def sql_view_def image_image)

section \<open>Boxes\<close>

lemma box_type_eq:
  assumes "distinct (map mb_Id bs)" and "b \<in> set bs"
  shows "box_type bs (mb_Id b) = mb_Type b"
proof -
  have "find (\<lambda>x. mb_Id x = mb_Id b) bs = Some b"
    using assms by (intro find_unique [where f = mb_Id]) auto
  then show ?thesis by (simp add: box_type_def)
qed

lemma select_messageBoxId_Some:
  assumes "select_messageBoxId k t d = Some i" and "messages_inv d"
  shows "\<exists>b \<in> set (t_messageBox d). mb_Id b = i \<and> mb_IdentityKey b = k \<and> mb_Type b = t \<and> i \<noteq> 0"
  using assms by (fastforce simp: select_messageBoxId_def messages_inv_def dest: find_Some_mem)

lemma select_messageBoxId_None:
  "select_messageBoxId k t d = None \<longleftrightarrow>
     (\<forall>b \<in> set (t_messageBox d). \<not> (mb_IdentityKey b = k \<and> mb_Type b = t))"
  by (simp add: select_messageBoxId_def find_None_all)

text \<open>A row is in the box found by key and type exactly when it points to that box.\<close>

lemma in_box_row:
  assumes "messages_inv d" and "r \<in> set (t_messages d)"
  shows "in_box k t (row_message (t_messageBox d) r) \<longleftrightarrow>
     mr_Recipient r = k \<and> select_messageBoxId k t d = Some (mr_BoxId r)"
proof -
  obtain b where b: "b \<in> set (t_messageBox d)" "mb_Id b = mr_BoxId r" "mb_IdentityKey b = mr_Recipient r"
    using assms by (auto simp: messages_inv_def)
  then have bt: "box_type (t_messageBox d) (mr_BoxId r) = mb_Type b"
    using box_type_eq [of "t_messageBox d" b] assms(1) by (simp add: messages_inv_def)
  have "find (\<lambda>x. mb_IdentityKey x = mr_Recipient r \<and> mb_Type x = mb_Type b) (t_messageBox d) = Some b"
    using b assms(1)
    by (intro find_unique [where f = "\<lambda>b. (mb_IdentityKey b, mb_Type b)"]) (auto simp: messages_inv_def)
  then have sel: "select_messageBoxId (mr_Recipient r) (mb_Type b) d = Some (mr_BoxId r)"
    by (simp add: select_messageBoxId_def b(2))
  show ?thesis
  proof
    assume "in_box k t (row_message (t_messageBox d) r)"
    with bt sel show "mr_Recipient r = k \<and> select_messageBoxId k t d = Some (mr_BoxId r)"
      by (auto simp: in_box_def)
  next
    assume rhs: "mr_Recipient r = k \<and> select_messageBoxId k t d = Some (mr_BoxId r)"
    then obtain b' where "b' \<in> set (t_messageBox d)" "mb_Id b' = mr_BoxId r" "mb_Type b' = t"
      using select_messageBoxId_Some [OF _ assms(1), of k t] by blast
    with box_type_eq [of "t_messageBox d" b'] assms(1) rhs
    show "in_box k t (row_message (t_messageBox d) r)" by (auto simp: in_box_def messages_inv_def)
  qed
qed

text \<open>The rows a \<open>SELECT\<close> returns are the listing of the box, and of no box when there is none.\<close>

lemma select_listing:
  assumes "messages_inv d" and "select_messageBoxId k t d = Some i"
  shows "listing (sql_view d) k t (map scan_message (select_messages k i None d))"
proof -
  let ?rows = "filter (\<lambda>r. mr_Recipient r = k \<and> mr_BoxId r = i) (t_messages d)"
  have "distinct (map messagesOrderBy ?rows)"
    using assms(1) by (auto simp: messages_inv_def distinct_map messagesOrderBy_def inj_on_def)
  then have "sorted_wrt (<) (map messagesOrderBy (sort_key messagesOrderBy ?rows))"
    by (rule strict_sorted_sort_key)
  moreover have "row_message (t_messageBox d) ` set ?rows =
      {v \<in> a_msgs (sql_view d). in_box k t v}"
    using in_box_row [OF assms(1)] assms(2) by (auto simp: sql_view_def)
  then have "scan_message ` set ?rows = toMessage ` {v \<in> a_msgs (sql_view d). in_box k t v}"
    by (metis (no_types, lifting) image_cong image_image row_message_sel(2))
  ultimately show ?thesis
    by (simp add: listing_def select_messages_def comp_def msg_order_scan)
qed

lemma select_listing_empty:
  assumes "messages_inv d" and "select_messageBoxId k t d = None"
  shows "listing (sql_view d) k t []"
  using in_box_row [OF assms(1), of _ k t] assms(2) by (auto simp: listing_def sql_view_def)

lemma select_by_id:
  "select_messages k i mid d = (case mid of None \<Rightarrow> select_messages k i None d
     | Some m \<Rightarrow> filter (\<lambda>r. mr_MessageId r = m) (select_messages k i None d))"
  by (cases mid) (auto simp: select_messages_def filter_sort intro!: arg_cong [of _ _ "sort_key _"] filter_cong)

lemma id_filter_scan:
  "id_filter mid (map scan_message (select_messages k i None d)) = map scan_message (select_messages k i mid d)"
  by (cases mid) (simp_all add: id_filter_def select_by_id [of k i "Some _"] filter_map comp_def scan_message_def)

section \<open>Inserting a message\<close>

lemma box_type_append:
  "i \<noteq> mb_Id b \<Longrightarrow> box_type (bs @ [b]) i = box_type bs i"
  by (induction bs) (auto simp: box_type_def)

lemma insert_messageBox_ok:
  assumes "sql_ok d"
  shows "sql_ok (snd (insert_messageBox k t now d))"
    and "sql_view (snd (insert_messageBox k t now d)) = sql_view d"
    and "\<exists>i. select_messageBoxId k t (snd (insert_messageBox k t now d)) = Some i"
proof -
  show "sql_ok (snd (insert_messageBox k t now d))"
    using assms by (fastforce simp: sql_ok_def sql_inv_defs insert_messageBox_def)
  show "\<exists>i. select_messageBoxId k t (snd (insert_messageBox k t now d)) = Some i"
    by (auto simp: not_None_eq [symmetric] select_messageBoxId_None insert_messageBox_def
        simp del: not_None_eq)
  have "mr_BoxId r \<noteq> seq_messageBox d + 1" if "r \<in> set (t_messages d)" for r
    using that assms by (fastforce simp: sql_ok_def messages_inv_def)
  then show "sql_view (snd (insert_messageBox k t now d)) = sql_view d"
    by (auto simp: sql_view_def insert_messageBox_def row_message_def box_type_append
        intro!: image_cong)
qed

lemma ensureMessageBox_ok:
  assumes "sql_ok (conn_data s)" and "ensureMessageBox k t s = (x, s')"
  shows "sql_ok (conn_data s')" and "sql_view (conn_data s') = sql_view (conn_data s)"
    and "healthy s \<Longrightarrow> healthy s' \<and> (\<exists>i. x = Inr i)"
    and "x = Inr i \<Longrightarrow> select_messageBoxId k t (conn_data s') = Some i"
    and "x = Inl e \<Longrightarrow> e = ErrBackend"
proof -
  let ?f = "insert_messageBox k t (conn_clock s)"
  let ?g = "select_messageBoxId k t"
  note f = insert_messageBox_ok [OF assms(1), of k t "conn_clock s"]
  obtain y s1 where y: "call ?f s = (y, s1)" by fastforce
  obtain z s2 where z: "call (\<lambda>d. (?g d, d)) s1 = (z, s2)" by fastforce
  have d1: "conn_data s1 = conn_data s \<or> conn_data s1 = snd (?f (conn_data s))"
    by (rule call_data [OF y])
  have y_ok: "conn_data s1 = snd (?f (conn_data s))" if "y = Inr ()"
    using call_Inr [of ?f s "()" s1] y that by (metis snd_conv)
  have d2: "conn_data s2 = conn_data s1" using call_query [OF z] by simp
  have z_ok: "w = ?g (conn_data s1)" if "z = Inr w" for w
    using call_query_Inr [of ?g s1 w s2] z that by simp
  have errs: "y = Inl e \<Longrightarrow> e = ErrBackend" "z = Inl e \<Longrightarrow> e = ErrBackend" for e
    using call_Inl y z by blast+
  have h: "healthy s \<Longrightarrow> y = Inr () \<and> healthy s1" "healthy s1 \<Longrightarrow> (\<exists>w. z = Inr w) \<and> healthy s2"
    using call_healthy [of s ?f] call_healthy [of s1 "\<lambda>d. (?g d, d)"] y z by auto
  note eq = assms(2) [unfolded ensureMessageBox_def y prod.case]
  show "sql_ok (conn_data s')" "sql_view (conn_data s') = sql_view (conn_data s)"
    using eq z d1 d2 f(1,2) assms(1) by (auto split: sum.splits option.splits)
  show "x = Inr i \<Longrightarrow> select_messageBoxId k t (conn_data s') = Some i"
    using eq z d2 z_ok by (auto split: sum.splits option.splits)
  show "healthy s \<Longrightarrow> healthy s' \<and> (\<exists>i. x = Inr i)"
    using eq z y_ok z_ok f(3) h by (auto split: sum.splits option.splits)
  show "x = Inl e \<Longrightarrow> e = ErrBackend"
    using eq z errs by (auto split: sum.splits option.splits)
qed

lemma row_message_new:
  "box_type bs i = nm_MessageBox m \<Longrightarrow>
   row_message bs \<lparr>mr_MessageId = nm_MessageID m, mr_BoxId = i, mr_Sender = nm_Sender m,
     mr_Recipient = nm_Recipient m, mr_Body = nm_Body m, mr_CreatedAt = now, mr_UpdatedAt = now\<rparr> = (m, now, now)"
  by (simp add: row_message_def)

lemma insert_message_ok:
  assumes "sql_ok d" and "select_messageBoxId (nm_Recipient m) (nm_MessageBox m) d = Some i"
    and "insert_message m i now d = (n, d')"
  shows "sql_ok d'"
    and "n = 0 \<longleftrightarrow> nm_MessageID m \<in> msg_ids (sql_view d)" and "n = 0 \<Longrightarrow> d' = d"
    and "n \<noteq> 0 \<Longrightarrow> inserted m (sql_view d) (sql_view d')"
proof -
  from assms obtain b where b: "b \<in> set (t_messageBox d)" "mb_Id b = i"
      "mb_IdentityKey b = nm_Recipient m" "mb_Type b = nm_MessageBox m"
    using select_messageBoxId_Some by (metis sql_ok_def)
  then have bt: "box_type (t_messageBox d) i = nm_MessageBox m"
    using box_type_eq [of "t_messageBox d" b] assms(1) by (auto simp: sql_ok_def messages_inv_def)
  show "n = 0 \<longleftrightarrow> nm_MessageID m \<in> msg_ids (sql_view d)" "n = 0 \<Longrightarrow> d' = d"
    using assms(3) by (force simp: insert_message_def msg_ids_sql_view split: if_splits)+
  show "sql_ok d'"
    using assms(1,3) b
    by (fastforce simp: insert_message_def sql_ok_def sql_inv_defs split: if_splits)
  show "inserted m (sql_view d) (sql_view d')" if "n \<noteq> 0"
    using assms(3) that bt
    by (auto simp: insert_message_def inserted_def msg_ids_sql_view row_message_new
        split: if_splits intro!: exI [of _ now])
qed

lemma sql_InsertMessage_ok:
  assumes "sql_ok (conn_data s)" and "sql_InsertMessage m s = (x, s')"
  shows "sql_ok (conn_data s')"
    and "healthy s \<Longrightarrow> healthy s' \<and> x \<noteq> Inl ErrBackend"
    and "x = Inr () \<Longrightarrow> inserted m (sql_view (conn_data s)) (sql_view (conn_data s'))"
    and "x = Inl ErrDuplicateMessage \<Longrightarrow> nm_MessageID m \<in> msg_ids (sql_view (conn_data s))
      \<and> sql_view (conn_data s') = sql_view (conn_data s)"
    and "x = Inl e \<Longrightarrow> e \<in> {ErrDuplicateMessage, ErrBackend} \<and> (sql_view (conn_data s') = sql_view (conn_data s)
      \<or> inserted m (sql_view (conn_data s)) (sql_view (conn_data s')))"
proof -
  obtain y s1 where y: "ensureMessageBox (nm_Recipient m) (nm_MessageBox m) s = (y, s1)" by fastforce
  note e = ensureMessageBox_ok [OF assms(1) y]
  note eq = assms(2) [unfolded sql_InsertMessage_def y prod.case]
  have "sql_ok (conn_data s') \<and> (healthy s \<longrightarrow> healthy s' \<and> x \<noteq> Inl ErrBackend) \<and>
    (x = Inr () \<longrightarrow> inserted m (sql_view (conn_data s)) (sql_view (conn_data s'))) \<and>
    (x = Inl ErrDuplicateMessage \<longrightarrow> nm_MessageID m \<in> msg_ids (sql_view (conn_data s))
      \<and> sql_view (conn_data s') = sql_view (conn_data s)) \<and>
    (\<forall>e. x = Inl e \<longrightarrow> e \<in> {ErrDuplicateMessage, ErrBackend} \<and> (sql_view (conn_data s') = sql_view (conn_data s)
      \<or> inserted m (sql_view (conn_data s)) (sql_view (conn_data s'))))"
  proof (cases y)
    case (Inl er)
    with eq e show ?thesis by auto
  next
    case (Inr i)
    let ?f = "insert_message m i (conn_clock s1)"
    obtain n d' where nd: "?f (conn_data s1) = (n, d')" by fastforce
    note i = insert_message_ok [OF e(1) e(4) [OF Inr] nd]
    obtain z s2 where z: "call ?f s1 = (z, s2)" by fastforce
    have c: "(z = Inl ErrBackend \<and> \<not> healthy s1 \<and> (conn_data s2 = conn_data s1 \<or> conn_data s2 = d')) \<or>
        (z = Inr n \<and> conn_data s2 = d' \<and> (healthy s1 \<longrightarrow> healthy s2))"
      using call_cases [OF z nd] by blast
    then show ?thesis
      using eq Inr z e(2,3) e(1) i by (cases "n = 0") (auto split: sum.splits if_splits)
  qed
  then show "sql_ok (conn_data s')" "healthy s \<Longrightarrow> healthy s' \<and> x \<noteq> Inl ErrBackend"
    "x = Inr () \<Longrightarrow> inserted m (sql_view (conn_data s)) (sql_view (conn_data s'))"
    "x = Inl ErrDuplicateMessage \<Longrightarrow> nm_MessageID m \<in> msg_ids (sql_view (conn_data s))
      \<and> sql_view (conn_data s') = sql_view (conn_data s)"
    "x = Inl e \<Longrightarrow> e \<in> {ErrDuplicateMessage, ErrBackend} \<and> (sql_view (conn_data s') = sql_view (conn_data s)
      \<or> inserted m (sql_view (conn_data s)) (sql_view (conn_data s')))"
    by blast+
qed

section \<open>Listing, paging and acknowledging\<close>

abbreviation sql_reads :: "(sql \<Rightarrow> (store_error + 'a) \<times> sql) \<Rightarrow> sql \<Rightarrow> ('a \<Rightarrow> bool) \<Rightarrow> bool" where
  "sql_reads \<equiv> reads (\<lambda>s. sql_ok (conn_data s)) healthy (\<lambda>s. sql_view (conn_data s))"

abbreviation sql_writes ::
  "(sql \<Rightarrow> (store_error + 'a) \<times> sql) \<Rightarrow> sql \<Rightarrow> ('a \<Rightarrow> abs_store \<Rightarrow> bool) \<Rightarrow> bool" where
  "sql_writes \<equiv> writes (\<lambda>s. sql_ok (conn_data s)) healthy (\<lambda>s. sql_view (conn_data s))"

text \<open>Looking the box up and then querying it, as \<open>ListMessages\<close> and \<open>PageMessages\<close> do.\<close>

definition in_found_box ::
  "string \<Rightarrow> string \<Rightarrow> (int \<Rightarrow> sql_db \<Rightarrow> store_error + message_row list) \<Rightarrow> sql \<Rightarrow>
   (store_error + Message list) \<times> sql" where
  "in_found_box k t q s =
     (case messageBoxID k t s of
        (Inl e, s1) \<Rightarrow> (Inl e, s1)
      | (Inr boxID, s1) \<Rightarrow>
          if boxID = 0 then (Inr [], s1)
          else (case call (\<lambda>d. (q boxID d, d)) s1 of
                  (Inl e, s2) \<Rightarrow> (Inl e, s2)
                | (Inr (Inl e), s2) \<Rightarrow> (Inl e, s2)
                | (Inr (Inr rows), s2) \<Rightarrow> (Inr (map scan_message rows), s2)))"

lemma messageBoxID_reads:
  assumes "sql_ok (conn_data s)"
  shows "reads (\<lambda>s. sql_ok (conn_data s)) healthy conn_data (messageBoxID k t) s
     (\<lambda>i. select_messageBoxId k t (conn_data s) = (if i = 0 then None else Some i))"
proof -
  let ?g = "select_messageBoxId k t"
  have "messageBoxID k t = (\<lambda>s. case call (\<lambda>d. (?g d, d)) s of (Inl e, s1) \<Rightarrow> (Inl e, s1)
     | (Inr w, s1) \<Rightarrow> (Inr (case w of None \<Rightarrow> 0 | Some i \<Rightarrow> i), s1))"
    by (auto simp: messageBoxID_def fun_eq_iff split: prod.splits sum.splits option.splits)
  moreover have "select_messageBoxId k t (conn_data s) \<noteq> Some 0"
    using select_messageBoxId_Some [of k t "conn_data s" 0] assms by (auto simp: sql_ok_def)
  ultimately show ?thesis
    using assms
    by (auto intro!: reads_bind [OF call_reads [where P = "\<lambda>w. w = ?g (conn_data s)"]] reads_return
        split: option.splits)
qed

lemma in_found_box_reads:
  assumes ok: "sql_ok (conn_data s)"
    and q: "\<And>i. select_messageBoxId k t (conn_data s) = Some i \<Longrightarrow> q i (conn_data s) = Inr (rows i)"
  shows "reads (\<lambda>s. sql_ok (conn_data s)) healthy conn_data (in_found_box k t q) s
    (\<lambda>ms. ms = (case select_messageBoxId k t (conn_data s) of None \<Rightarrow> [] | Some i \<Rightarrow> map scan_message (rows i)))"
  unfolding in_found_box_def
proof (rule reads_bind [OF messageBoxID_reads [OF ok]])
  fix i and s' :: sql
  assume s': "sql_ok (conn_data s')" "conn_data s' = conn_data s"
    and i: "select_messageBoxId k t (conn_data s) = (if i = 0 then None else Some i)"
  show "reads (\<lambda>s. sql_ok (conn_data s)) healthy conn_data
     (\<lambda>s1. if i = 0 then (Inr [], s1)
          else (case call (\<lambda>d. (q i d, d)) s1 of
                  (Inl e, s2) \<Rightarrow> (Inl e, s2)
                | (Inr (Inl e), s2) \<Rightarrow> (Inl e, s2)
                | (Inr (Inr rows), s2) \<Rightarrow> (Inr (map scan_message rows), s2))) s'
     (\<lambda>ms. ms = (case select_messageBoxId k t (conn_data s) of None \<Rightarrow> [] | Some i \<Rightarrow> map scan_message (rows i)))"
  proof (cases "i = 0")
    case True
    with s' i show ?thesis by (simp add: reads_return)
  next
    case False
    with i q s'(2) have "q i (conn_data s') = Inr (rows i)" by simp
    with s' have "reads (\<lambda>s. sql_ok (conn_data s)) healthy conn_data (call (\<lambda>d. (q i d, d))) s' (\<lambda>x. x = Inr (rows i))"
      by (intro call_reads) auto
    then have "reads (\<lambda>s. sql_ok (conn_data s)) healthy conn_data
      (\<lambda>s1. case call (\<lambda>d. (q i d, d)) s1 of (Inl e, s2) \<Rightarrow> (Inl e, s2)
         | (Inr x, s2) \<Rightarrow> (case x of Inl e \<Rightarrow> (Inl e, s2) | Inr rows \<Rightarrow> (Inr (map scan_message rows), s2))) s'
      (\<lambda>ms. ms = map scan_message (rows i))"
      by (rule reads_bind) (simp add: reads_return)
    with False i show ?thesis
      by (auto elim!: reads_cong [rotated] split: prod.splits sum.splits)
  qed
qed

lemma sql_ListMessages_reads:
  assumes "sql_ok (conn_data s)"
  shows "sql_reads (sql_ListMessages k t) s (listing (sql_view (conn_data s)) k t)"
proof -
  have "sql_ListMessages k t s = in_found_box k t (\<lambda>i d. Inr (select_messages k i None d)) s"
    by (auto simp: sql_ListMessages_def in_found_box_def call_def split: prod.splits sum.splits list.splits fault.splits)
  then show ?thesis
    by (rule reads_cong, intro reads_view [OF in_found_box_reads [OF assms]])
      (use assms in \<open>auto simp: sql_ok_def select_listing select_listing_empty split: option.splits\<close>)
qed

lemma sql_PageMessages_reads:
  assumes "sql_ok (conn_data s)" and "1 \<le> mq_FetchLimit q" and "0 \<le> mq_Offset q"
  shows "sql_reads (sql_PageMessages driver q) s
    (\<lambda>xs. \<exists>all. listing (sql_view (conn_data s)) (mq_Recipient q) (mq_MessageBox q) all \<and>
       xs = take (nat (mq_FetchLimit q)) (drop (nat (mq_Offset q)) (id_filter (mq_MessageID q) all)))"
proof -
  let ?k = "mq_Recipient q" and ?t = "mq_MessageBox q" and ?d = "conn_data s"
  let ?win = "\<lambda>xs. take (nat (mq_FetchLimit q)) (drop (nat (mq_Offset q)) xs)"
  have eq: "sql_PageMessages driver q s = in_found_box ?k ?t (\<lambda>i d. sql_window driver (mq_FetchLimit q)
      (mq_Offset q) (select_messages ?k i (mq_MessageID q) d)) s"
    by (simp add: sql_PageMessages_def in_found_box_def)
  show ?thesis
  proof (rule reads_cong, rule eq, rule reads_view [OF in_found_box_reads [OF assms(1)]])
    fix i
    show "sql_window driver (mq_FetchLimit q) (mq_Offset q) (select_messages ?k i (mq_MessageID q) ?d) =
        Inr (?win (select_messages ?k i (mq_MessageID q) ?d))"
      using assms(2,3) by (simp add: sql_window_def)
  next
    fix ms
    assume "ms = (case select_messageBoxId ?k ?t ?d of None \<Rightarrow> []
      | Some i \<Rightarrow> map scan_message (?win (select_messages ?k i (mq_MessageID q) ?d)))"
    moreover have "messages_inv ?d" using assms(1) by (simp add: sql_ok_def)
    ultimately show "\<exists>all. listing (sql_view ?d) ?k ?t all \<and> ms = ?win (id_filter (mq_MessageID q) all)"
    proof (cases "select_messageBoxId ?k ?t ?d")
      case None
      with \<open>ms = _\<close> select_listing_empty [OF \<open>messages_inv ?d\<close> None] show ?thesis
        by (intro exI [of _ "[]"]) (simp add: id_filter_def split: option.splits)
    next
      case (Some i)
      with \<open>ms = _\<close> select_listing [OF \<open>messages_inv ?d\<close> Some] show ?thesis
        by (intro exI [of _ "map scan_message (select_messages ?k i None ?d)"])
          (simp add: id_filter_scan take_map drop_map)
    qed
  qed
qed

lemma acked_sql_view:
  "acked k ids (sql_view d) = row_message (t_messageBox d) `
     {r \<in> set (t_messages d). mr_Recipient r = k \<and> mr_MessageId r \<in> set ids}"
  by (auto simp: acked_def sql_view_def)

lemma row_message_inj: "messages_inv d \<Longrightarrow> inj_on (row_message (t_messageBox d)) (set (t_messages d))"
proof (rule inj_onI)
  fix x y
  assume "messages_inv d" and xy: "x \<in> set (t_messages d)" "y \<in> set (t_messages d)"
    and eq: "row_message (t_messageBox d) x = row_message (t_messageBox d) y"
  then have "distinct (map mr_MessageId (t_messages d))" by (simp add: messages_inv_def)
  moreover from eq have "mr_MessageId x = mr_MessageId y" by (simp add: row_message_def)
  ultimately show "x = y" using xy map_of_distinct_eq [of mr_MessageId "t_messages d" x y] by simp
qed

lemma delete_messages_ok:
  assumes "sql_ok d" and "delete_messages k ids d = (n, d')"
  shows "sql_ok d'" and "n = int (card (acked k ids (sql_view d)))"
    and "sql_view d' = (sql_view d)\<lparr>a_msgs := a_msgs (sql_view d) - acked k ids (sql_view d)\<rparr>"
proof -
  let ?hit = "{r \<in> set (t_messages d). mr_Recipient r = k \<and> mr_MessageId r \<in> set ids}"
  have inj: "inj_on (row_message (t_messageBox d)) (set (t_messages d))"
    using assms(1) row_message_inj sql_ok_def by blast
  show "sql_ok d'"
    using assms by (auto simp: delete_messages_def Let_def sql_ok_def sql_inv_defs)
  have "distinct (t_messages d)"
    using assms(1) by (auto simp: sql_ok_def messages_inv_def distinct_map)
  then have "length (filter (\<lambda>r. mr_Recipient r = k \<and> mr_MessageId r \<in> set ids) (t_messages d)) = card ?hit"
    by (simp add: distinct_length_filter Int_def conj_commute)
  moreover have "card (row_message (t_messageBox d) ` ?hit) = card ?hit"
    by (rule card_image) (rule inj_on_subset [OF inj], auto)
  ultimately show "n = int (card (acked k ids (sql_view d)))"
    using assms(2) by (auto simp: delete_messages_def Let_def acked_sql_view)
  have "row_message (t_messageBox d) ` {r \<in> set (t_messages d). \<not> (mr_Recipient r = k \<and> mr_MessageId r \<in> set ids)}
      = row_message (t_messageBox d) ` set (t_messages d) - row_message (t_messageBox d) ` ?hit"
    using inj by (subst inj_on_image_set_diff [symmetric, OF inj]) (auto intro!: arg_cong2 [of _ _ _ _ "(`)"])
  then show "sql_view d' = (sql_view d)\<lparr>a_msgs := a_msgs (sql_view d) - acked k ids (sql_view d)\<rparr>"
    using assms(2) by (auto simp: delete_messages_def Let_def acked_sql_view)
qed

lemma sql_Acknowledge_writes:
  assumes "sql_ok (conn_data s)"
  shows "sql_writes (sql_AcknowledgeMessages k ids) s
    (\<lambda>n A'. n = int (card (acked k ids (sql_view (conn_data s)))) \<and>
       A' = (sql_view (conn_data s))\<lparr>a_msgs := a_msgs (sql_view (conn_data s)) - acked k ids (sql_view (conn_data s))\<rparr>)"
proof (cases "ids = []")
  case True
  then show ?thesis
    using assms by (intro writes_cong [OF _ writes_return [where a = 0]])
      (auto simp: sql_AcknowledgeMessages_def acked_def)
next
  case False
  obtain n d' where nd: "delete_messages k ids (conn_data s) = (n, d')" by fastforce
  note del = delete_messages_ok [OF assms nd]
  have "sql_AcknowledgeMessages k ids s = call (delete_messages k ids) s"
    using False by (simp add: sql_AcknowledgeMessages_def)
  then show ?thesis
    by (rule writes_cong) (rule call_writes_view [where I = sql_ok], use assms nd del in auto)
qed

section \<open>Fees and permissions\<close>

lemma sql_fee_reads:
  assumes "sql_ok (conn_data s)"
  shows "sql_reads (sql_GetServerDeliveryFee b) s (\<lambda>fee. fee = a_fees (sql_view (conn_data s)) b)"
proof -
  have "sql_GetServerDeliveryFee b s = (case call (\<lambda>d. (map_of (t_fees d) b, d)) s of
      (Inl e, s1) \<Rightarrow> (Inl e, s1) | (Inr w, s1) \<Rightarrow> (Inr (case w of None \<Rightarrow> 0 | Some fee \<Rightarrow> fee), s1))"
    by (auto simp: sql_GetServerDeliveryFee_def split: prod.splits sum.splits option.splits)
  then show ?thesis
    by (rule reads_cong, intro reads_bind
        [OF call_reads_view [where I = sql_ok and P = "\<lambda>w. w = map_of (t_fees (conn_data s)) b"]] reads_return)
      (simp_all add: assms sql_view_def)
qed

lemma perm_lookup:
  assumes "permissions_inv d"
  shows "select_permission k d = perm_at (sql_view d) k"
proof (cases "find (\<lambda>x. perm_key (snd x) = k) (t_permissions d)")
  case None
  then have "k \<notin> set (map fst (map perm_entry (t_permissions d)))"
    by (auto simp: find_None_all perm_entry_def)
  then have "map_of (map perm_entry (t_permissions d)) k = None" by (simp only: map_of_eq_None_iff set_map not_False_eq_True)
  with None show ?thesis by (simp add: select_permission_def perm_at_def)
next
  case (Some x)
  then have x: "x \<in> set (t_permissions d)" "perm_key (snd x) = k" by (auto dest: find_Some_mem)
  have "map fst (map perm_entry (t_permissions d)) = map (\<lambda>x. perm_key (snd x)) (t_permissions d)"
    by (simp add: perm_entry_def)
  then have "distinct (map fst (map perm_entry (t_permissions d)))"
    using assms by (simp only: permissions_inv_def)
  moreover have "(k, snd (perm_entry x)) \<in> set (map perm_entry (t_permissions d))"
    using x by (force simp: perm_entry_def)
  ultimately have "map_of (map perm_entry (t_permissions d)) k = Some (snd (perm_entry x))"
    by (rule map_of_is_SomeI)
  with Some x show ?thesis
    by (auto simp: select_permission_def perm_at_def perm_of_def perm_entry_def perm_key_def)
qed

lemma sql_GetPermission_reads:
  assumes "sql_ok (conn_data s)"
  shows "sql_reads (sql_GetPermission r sd b) s (\<lambda>p. p = perm_at (sql_view (conn_data s)) (r, sd, b))"
proof -
  have "sql_GetPermission r sd b = call (\<lambda>d. (select_permission (r, sd, b) d, d))"
    by (simp add: sql_GetPermission_def fun_eq_iff)
  moreover have "select_permission (r, sd, b) (conn_data s) = perm_at (sql_view (conn_data s)) (r, sd, b)"
    using assms perm_lookup by (simp add: sql_ok_def)
  ultimately show ?thesis
    using call_reads_view [where I = sql_ok and s = s and g = "select_permission (r, sd, b)" and W = sql_view
        and P = "\<lambda>p. p = perm_at (sql_view (conn_data s)) (r, sd, b)"] assms by simp
qed

text \<open>The three changes a permission statement can make to the table.\<close>

lemma has_perm_view: "has_perm k d \<longleftrightarrow> a_perms (sql_view d) k \<noteq> None"
  by (force simp: has_perm_def map_of_eq_None_iff perm_entry_def)

lemma perm_frame:
  "sql_ok d \<Longrightarrow> permissions_inv (d\<lparr>t_permissions := ps, seq_permissions := n\<rparr>) \<Longrightarrow>
   sql_ok (d\<lparr>t_permissions := ps, seq_permissions := n\<rparr>)"
  "sql_ok d \<Longrightarrow> permissions_inv (d\<lparr>t_permissions := ps\<rparr>) \<Longrightarrow> sql_ok (d\<lparr>t_permissions := ps\<rparr>)"
  by (simp_all add: sql_ok_def messages_inv_def devices_inv_def schema_current_def)

lemma burn_perm_ok: "sql_ok d \<Longrightarrow> sql_ok (burn_perm d)" "sql_view (burn_perm d) = sql_view d"
  by (simp_all add: burn_perm_def sql_ok_def sql_inv_defs)

lemma map_of_append_new: "k \<notin> fst ` set xs \<Longrightarrow> map_of (xs @ [(k, v)]) = (map_of xs)(k \<mapsto> v)"
  by (auto simp: fun_eq_iff map_add_def image_iff split: option.splits dest!: map_of_SomeD)

lemma append_perm_ok:
  assumes "sql_ok d" and "\<not> has_perm (r, sd, b) d"
  shows "sql_ok (append_perm (new_permission r sd b fee now) d)"
    and "sql_view (append_perm (new_permission r sd b fee now) d) =
      (sql_view d)\<lparr>a_perms := (a_perms (sql_view d))((r, sd, b) \<mapsto> (fee, now, now))\<rparr>"
proof -
  have key: "perm_key (new_permission r sd b fee now) = (r, sd, b)"
    by (simp add: new_permission_def perm_key_def)
  show "sql_ok (append_perm (new_permission r sd b fee now) d)"
    unfolding append_perm_def using assms key
    by (intro perm_frame) (auto simp: permissions_inv_def has_perm_def sql_ok_def)
  have "(r, sd, b) \<notin> fst ` set (map perm_entry (t_permissions d))"
    using assms(2) by (auto simp: has_perm_def perm_entry_def)
  then show "sql_view (append_perm (new_permission r sd b fee now) d) =
      (sql_view d)\<lparr>a_perms := (a_perms (sql_view d))((r, sd, b) \<mapsto> (fee, now, now))\<rparr>"
    by (simp add: append_perm_def perm_entry_def key map_of_append_new del: map_of_append)
      (simp add: new_permission_def)
qed

lemma set_perm_fee_ok:
  assumes "sql_ok d" and "has_perm k d"
  shows "sql_ok (set_perm_fee k fee now d)"
    and "perm_set k fee (sql_view d) (sql_view (set_perm_fee k fee now d))"
proof -
  let ?f = "\<lambda>(i, p). if perm_key p = k then (i, p\<lparr>p_RecipientFee := fee, p_UpdatedAt := now\<rparr>) else (i, p)"
  have key: "perm_key (snd (?f x)) = perm_key (snd x)" for x :: "int \<times> Permission"
    by (cases x) (simp add: perm_key_def)
  then have "map (\<lambda>x. perm_key (snd x)) (map ?f (t_permissions d)) = map (\<lambda>x. perm_key (snd x)) (t_permissions d)"
    by simp
  then have "permissions_inv (d\<lparr>t_permissions := map ?f (t_permissions d)\<rparr>)"
    using assms(1) by (simp add: permissions_inv_def sql_ok_def del: map_map)
  with assms(1) show "sql_ok (set_perm_fee k fee now d)"
    unfolding set_perm_fee_def by (rule perm_frame(2))
  have eq: "map_of (map perm_entry (map ?f ps)) = (\<lambda>k'. if k' = k
      then map_option (\<lambda>(f, c, u). (fee, c, now)) (map_of (map perm_entry ps) k')
      else map_of (map perm_entry ps) k')" for ps
    by (induction ps) (auto simp: perm_entry_def fun_eq_iff perm_key_def split: prod.splits)
  obtain f c u where "a_perms (sql_view d) k = Some (f, c, u)"
    using assms(2) by (auto simp: has_perm_view)
  then show "perm_set k fee (sql_view d) (sql_view (set_perm_fee k fee now d))"
    unfolding perm_set_def set_perm_fee_def
    by (intro exI [of _ now]) (simp add: eq fun_eq_iff del: map_map)
qed

text \<open>A transaction whose body writes as promised does so as a whole.\<close>

lemma healthy_data [simp]: "healthy (s\<lparr>conn_data := d\<rparr>) = healthy s"
  by (simp add: healthy_def)

lemma withTx_writes:
  assumes ok: "sql_ok (conn_data s)"
    and fn: "\<And>s1. conn_data s1 = conn_data s \<Longrightarrow> sql_writes fn s1 R"
  shows "sql_writes (withTx fn) s R"
proof -
  obtain x s1 where x: "call (\<lambda>d. ((), d)) s = (x, s1)" by fastforce
  from call_cases [OF x] have c1: "conn_data s1 = conn_data s"
      "(x = Inr () \<and> (healthy s \<longrightarrow> healthy s1)) \<or> (x = Inl ErrBackend \<and> \<not> healthy s)" by auto
  obtain y s2 where y: "fn s1 = (y, s2)" by fastforce
  note w = writesD [OF fn [OF c1(1)] y]
  let ?c = "\<lambda>d. ((), conn_data s2)" and ?s2 = "s2\<lparr>conn_data := conn_data s1\<rparr>"
  obtain z s3 where z: "call ?c ?s2 = (z, s3)" by fastforce
  from call_cases [OF z, of "()" "conn_data s2"] have c3:
      "(z = Inr () \<and> conn_data s3 = conn_data s2 \<and> (healthy s2 \<longrightarrow> healthy s3)) \<or>
       (z = Inl ErrBackend \<and> \<not> healthy s2 \<and> (conn_data s3 = conn_data s1 \<or> conn_data s3 = conn_data s2))" by auto
  show ?thesis
  proof (rule writesI)
    fix a s'
    assume "withTx fn s = (Inr a, s')"
    then have "x = Inr ()" "y = Inr a" "z = Inr ()" "s' = s3"
      using x y z by (auto simp: withTx_def split: sum.splits prod.splits)
    with c1 c3 w show "sql_ok (conn_data s') \<and> (healthy s \<longrightarrow> healthy s') \<and> R a (sql_view (conn_data s'))"
      by auto
  next
    fix e s'
    assume "withTx fn s = (Inl e, s')"
    then consider (start) "x = Inl e" "s' = s1" | (body) "x = Inr ()" "y = Inl e" "s' = ?s2"
      | (commit) a where "x = Inr ()" "y = Inr a" "z = Inl e" "s' = s3"
      using x y z by (auto simp: withTx_def split: sum.splits prod.splits)
    then show "e = ErrBackend \<and> sql_ok (conn_data s') \<and> \<not> healthy s \<and>
        (sql_view (conn_data s') = sql_view (conn_data s) \<or> (\<exists>a. R a (sql_view (conn_data s'))))"
    proof cases
      case start
      with c1 ok show ?thesis by auto
    next
      case body
      with c1 ok w(3) w(5) [OF body(2)] show ?thesis by auto
    next
      case commit
      with c1 c3 ok w(1,2) w(4) [OF commit(2)] show ?thesis by auto
    qed
  qed
qed

lemma withBoxWideLock_writes:
  assumes ok: "sql_ok (conn_data s)"
    and fn: "\<And>s1. conn_data s1 = conn_data s \<Longrightarrow> sql_writes fn s1 R"
  shows "sql_writes (withBoxWideLock driver fn) s R"
proof (cases "driver = ''postgres''")
  case True
  have "sql_writes (withTx (\<lambda>s1. case call (\<lambda>d. ((), d)) s1 of (Inl e, s2) \<Rightarrow> (Inl e, s2) | (Inr _, s2) \<Rightarrow> fn s2)) s R"
  proof (rule withTx_writes [OF ok])
    fix s1 :: sql
    assume s1: "conn_data s1 = conn_data s"
    have "reads (\<lambda>s. sql_ok (conn_data s)) healthy conn_data (call (\<lambda>d. ((), d))) s1 (\<lambda>_. True)"
      using s1 ok by (intro call_reads) auto
    then show "sql_writes (\<lambda>s1. case call (\<lambda>d. ((), d)) s1 of (Inl e, s2) \<Rightarrow> (Inl e, s2) | (Inr _, s2) \<Rightarrow> fn s2) s1 R"
    proof (rule writes_after_read [OF reads_view])
      fix a and s' :: sql
      assume "call (\<lambda>d. ((), d)) s1 = (Inr a, s')"
      from call_query [OF this] s1 show "sql_writes fn s' R" by (intro fn) simp
    qed simp
  qed
  then show ?thesis
    by (rule writes_cong [rotated]) (simp add: withBoxWideLock_def True)
next
  case False
  then show ?thesis using fn [of s] by (intro writes_cong [OF _ fn]) (simp_all add: withBoxWideLock_def)
qed

lemma sql_SetPermission_writes:
  assumes ok: "sql_ok (conn_data s)"
  shows "sql_writes (sql_SetPermission driver r sd b fee) s (\<lambda>_. perm_set (r, sd, b) fee (sql_view (conn_data s)))"
proof -
  let ?now = "conn_clock s" and ?R = "\<lambda>_. perm_set (r, sd, b) fee (sql_view (conn_data s))"
  have set_new: "perm_set (r, sd, b) fee (sql_view (conn_data s))
      (sql_view (append_perm (new_permission r sd b fee ?now) (conn_data s)))" if "\<not> has_perm (r, sd, b) (conn_data s)"
  proof -
    have "a_perms (sql_view (conn_data s)) (r, sd, b) = None"
      using that by (metis has_perm_view)
    then show ?thesis
      unfolding perm_set_def append_perm_ok(2) [OF ok that]
      by (intro exI [of _ ?now]) (simp del: sql_view_sel)
  qed
  show ?thesis
  proof (cases sd)
    case (Some sndr)
    have "sql_writes (call (upsert_perm r sndr b fee ?now)) s ?R"
    proof (cases "has_perm (r, sd, b) (conn_data s)")
      case True
      with set_perm_fee_ok [OF ok True] burn_perm_ok Some ok show ?thesis
        by (intro call_writes_view [where I = sql_ok and
              d = "burn_perm (set_perm_fee (r, sd, b) fee ?now (conn_data s))"]) (auto simp: upsert_perm_def)
    next
      case False
      with append_perm_ok(1) [OF ok False] set_new Some ok show ?thesis
        by (intro call_writes_view [where I = sql_ok and
              d = "append_perm (new_permission r sd b fee ?now) (conn_data s)"]) (auto simp: upsert_perm_def)
    qed
    then show ?thesis by (rule writes_cong [rotated]) (simp add: sql_SetPermission_def Some)
  next
    case None
    let ?fn = "\<lambda>ex. case insertBoxWideIfAbsent r b fee ?now ex of (Inl e, s1) \<Rightarrow> (Inl e, s1)
       | (Inr i, s1) \<Rightarrow> if i then (Inr (), s1) else call (updateBoxWideFeeSQL r b fee ?now) s1"
    have "sql_writes ?fn s1 ?R" if s1: "conn_data s1 = conn_data s" for s1
    proof (cases "has_perm (r, None, b) (conn_data s)")
      case True
      have "sql_writes (\<lambda>ex. case call (insertBoxWideSQL r b fee ?now) ex of (Inl e, s1) \<Rightarrow> (Inl e, s1)
         | (Inr n, s1) \<Rightarrow> if 0 < n then (Inr (), s1) else call (updateBoxWideFeeSQL r b fee ?now) s1) s1 ?R"
      proof (rule writes_after_read)
        show "sql_reads (call (insertBoxWideSQL r b fee ?now)) s1 (\<lambda>n. n = 0)"
          using True s1 ok by (intro call_reads_same) (simp_all add: insertBoxWideSQL_def)
      next
        fix n and s2 :: sql
        assume "call (insertBoxWideSQL r b fee ?now) s1 = (Inr n, s2)" and n: "n = 0"
        from call_cases [OF this(1)] True s1 have s2: "conn_data s2 = conn_data s"
          by (simp add: insertBoxWideSQL_def)
        have "sql_writes (call (updateBoxWideFeeSQL r b fee ?now)) s2 ?R"
          using set_perm_fee_ok [OF ok True, of fee ?now] None ok s2
          by (intro call_writes_view [where I = sql_ok]) (auto simp: updateBoxWideFeeSQL_def)
        with n show "sql_writes (\<lambda>s1. if 0 < n then (Inr (), s1) else call (updateBoxWideFeeSQL r b fee ?now) s1) s2 ?R"
          by simp
      qed
      then show ?thesis
        by (rule writes_cong [rotated]) (auto simp: insertBoxWideIfAbsent_def split: prod.splits sum.splits)
    next
      case False
      have "sql_writes (call (insertBoxWideSQL r b fee ?now)) s1
          (\<lambda>n A. n = 1 \<and> A = sql_view (append_perm (new_permission r None b fee ?now) (conn_data s)))"
        using append_perm_ok(1) [OF ok False] ok s1 False
        by (intro call_writes_view [where I = sql_ok]) (auto simp: insertBoxWideSQL_def)
      then have "sql_writes (\<lambda>ex. case call (insertBoxWideSQL r b fee ?now) ex of (Inl e, s1) \<Rightarrow> (Inl e, s1)
         | (Inr n, s1) \<Rightarrow> (Inr (), s1)) s1 ?R"
        by (rule writes_map) (use set_new False None in auto)
      moreover have "?fn s1 = (case call (insertBoxWideSQL r b fee ?now) s1 of (Inl e, s1) \<Rightarrow> (Inl e, s1)
         | (Inr n, s1) \<Rightarrow> (Inr (), s1))"
        using call_cases [of "insertBoxWideSQL r b fee ?now" s1] False s1
        by (auto simp: insertBoxWideIfAbsent_def insertBoxWideSQL_def split: prod.splits sum.splits)
      ultimately show ?thesis by (rule writes_cong [rotated])
    qed
    then have "sql_writes (withBoxWideLock driver ?fn) s ?R" by (rule withBoxWideLock_writes [OF ok])
    then show ?thesis by (rule writes_cong [rotated]) (simp add: sql_SetPermission_def None Let_def)
  qed
qed

lemma sql_SetPermissionIfAbsent_writes:
  assumes ok: "sql_ok (conn_data s)"
  shows "sql_writes (sql_SetPermissionIfAbsent driver r sd b fee) s
     (\<lambda>_. perm_set_if_absent (r, sd, b) fee (sql_view (conn_data s)))"
proof -
  let ?now = "conn_clock s" and ?R = "\<lambda>_. perm_set_if_absent (r, sd, b) fee (sql_view (conn_data s))"
  let ?ins = "\<lambda>d. if has_perm (r, sd, b) d then d else append_perm (new_permission r sd b fee ?now) d"
  have set_new: "sql_ok (?ins (conn_data s))" "?R u (sql_view (?ins (conn_data s)))" for u :: unit
    using append_perm_ok [OF ok] ok
    by (auto simp: perm_set_if_absent_def has_perm_view simp del: sql_view_sel intro!: exI [of _ ?now])
  show ?thesis
  proof (cases sd)
    case (Some sndr)
    let ?d = "if has_perm (r, sd, b) (conn_data s) then burn_perm (conn_data s) else ?ins (conn_data s)"
    have "sql_writes (call (insert_perm_if_absent r sndr b fee ?now)) s ?R"
    proof (rule call_writes_view [where I = sql_ok])
      show "insert_perm_if_absent r sndr b fee ?now (conn_data s) = ((), ?d)"
        by (simp add: insert_perm_if_absent_def Some)
      show "sql_ok ?d" "?R () (sql_view ?d)"
        using set_new burn_perm_ok ok by (simp_all split: if_splits)
    qed (rule ok)
    then show ?thesis by (rule writes_cong [rotated]) (simp add: sql_SetPermissionIfAbsent_def Some)
  next
    case None
    let ?fn = "\<lambda>ex. case insertBoxWideIfAbsent r b fee ?now ex of (Inl e, s1) \<Rightarrow> (Inl e, s1)
       | (Inr _, s1) \<Rightarrow> (Inr (), s1)"
    have "sql_writes ?fn s1 ?R" if s1: "conn_data s1 = conn_data s" for s1
    proof -
      have "sql_writes (call (insertBoxWideSQL r b fee ?now)) s1 (\<lambda>n A. ?R () A)"
      proof (rule call_writes_view [where I = sql_ok])
        show "insertBoxWideSQL r b fee ?now (conn_data s1) =
          (if has_perm (r, sd, b) (conn_data s) then 0 else 1, ?ins (conn_data s))"
          by (simp add: insertBoxWideSQL_def None s1)
      qed (use set_new ok s1 in simp_all)
      then have "sql_writes (\<lambda>ex. case call (insertBoxWideSQL r b fee ?now) ex of (Inl e, s1) \<Rightarrow> (Inl e, s1)
         | (Inr n, s1) \<Rightarrow> (Inr (), s1)) s1 ?R"
        by (rule writes_map)
      then show ?thesis
        by (rule writes_cong [rotated]) (auto simp: insertBoxWideIfAbsent_def split: prod.splits sum.splits)
    qed
    then have "sql_writes (withBoxWideLock driver ?fn) s ?R" by (rule withBoxWideLock_writes [OF ok])
    then show ?thesis by (rule writes_cong [rotated]) (simp add: sql_SetPermissionIfAbsent_def None Let_def)
  qed
qed

section \<open>Devices\<close>

lemma same_pair_iff: "same_pair nd x \<longleftrightarrow> dev_pair x = (nd_IdentityKey nd, nd_FCMToken nd)"
  by (simp add: same_pair_def dev_pair_def)

lemma devices_frame:
  "sql_ok d \<Longrightarrow> devices_inv (d\<lparr>t_devices := ds, seq_devices := n\<rparr>) \<Longrightarrow>
     sql_ok (d\<lparr>t_devices := ds, seq_devices := n\<rparr>)"
  "sql_ok d \<Longrightarrow> devices_inv (d\<lparr>t_devices := ds\<rparr>) \<Longrightarrow> sql_ok (d\<lparr>t_devices := ds\<rparr>)"
  by (simp_all add: sql_ok_def messages_inv_def permissions_inv_def schema_current_def)

lemma devices_inv_map:
  assumes "devices_inv d" and "\<And>x. dev_pair (f x) = dev_pair x" and "\<And>x. dv_ID (f x) = dv_ID x"
    and "seq_devices d \<le> n"
  shows "devices_inv (d\<lparr>t_devices := map f (t_devices d), seq_devices := n\<rparr>)"
  using assms by (fastforce simp: devices_inv_def comp_def)

definition refresh :: "NewDevice \<Rightarrow> time \<Rightarrow> Device \<Rightarrow> Device" where
  "refresh nd now x = (if same_pair nd x
     then x\<lparr>dv_DeviceID := nd_DeviceID nd, dv_Platform := nd_Platform nd,
            dv_UpdatedAt := now, dv_Active := True, dv_LastUsed := Some now\<rparr> else x)"

lemma refresh_sel [simp]: "dev_pair (refresh nd now x) = dev_pair x" "dv_ID (refresh nd now x) = dv_ID x"
  "dv_CreatedAt (refresh nd now x) = dv_CreatedAt x"
  by (simp_all add: refresh_def dev_pair_def)

lemma refresh_set:
  assumes "distinct (map dev_pair ds)" and "dv \<in> set ds" and "same_pair nd dv"
  shows "set (map (refresh nd now) ds) =
    insert (refresh nd now dv) {x \<in> set ds. dev_pair x \<noteq> (nd_IdentityKey nd, nd_FCMToken nd)}"
proof -
  have "{x \<in> set ds. same_pair nd x} = {dv}"
    using assms map_of_distinct_eq [OF assms(1)] by (auto simp: same_pair_iff)
  then have "set ds = insert dv {x \<in> set ds. \<not> same_pair nd x}" by auto
  then have "set (map (refresh nd now) ds) = refresh nd now ` insert dv {x \<in> set ds. \<not> same_pair nd x}" by simp
  also have "\<dots> = insert (refresh nd now dv) {x \<in> set ds. \<not> same_pair nd x}"
    by (auto simp: refresh_def image_iff)
  finally show ?thesis by (simp add: same_pair_iff)
qed

lemma upsert_device_ok:
  assumes ok: "sql_ok d" and up: "upsert_device nd now d = (x, d')"
  shows "sql_ok d'" and "\<exists>i. x = Inr i \<and> registered nd i (sql_view d) (sql_view d')"
proof -
  have inv: "devices_inv d" and sch: "pair_index d" "\<not> legacy_token_key d"
    using ok by (auto simp: sql_ok_def schema_current_def)
  let ?pair = "(nd_IdentityKey nd, nd_FCMToken nd)"
  show "sql_ok d'" "\<exists>i. x = Inr i \<and> registered nd i (sql_view d) (sql_view d')"
  proof (atomize (full), cases "find (same_pair nd) (t_devices d)")
    case (Some dv)
    then have dv: "dv \<in> set (t_devices d)" "same_pair nd dv" by (auto dest: find_Some_mem)
    let ?n = "if burns_ids d then seq_devices d + 1 else seq_devices d"
    have d': "d' = d\<lparr>t_devices := map (refresh nd now) (t_devices d), seq_devices := ?n\<rparr>" "x = Inr (dv_ID dv)"
      using up Some sch by (auto simp: upsert_device_def refresh_def [abs_def])
    have "sql_ok d'"
      unfolding d' by (intro devices_frame(1) ok devices_inv_map inv) auto
    moreover have "registered nd (dv_ID dv) (sql_view d) (sql_view d')"
      unfolding registered_def
    proof (intro exI conjI ballI impI)
      show "sql_view d' = (sql_view d)\<lparr>a_devs := insert (refresh nd now dv) {x \<in> a_devs (sql_view d). dev_pair x \<noteq> ?pair}\<rparr>"
        using refresh_set [OF _ dv] inv by (simp add: d' devices_inv_def del: set_map)
      fix other
      assume other: "other \<in> a_devs (sql_view d)"
      show "dev_pair other = dev_pair (refresh nd now dv) \<Longrightarrow> dv_ID other = dv_ID dv \<or> dv_ID other = 0"
        "dev_pair other = dev_pair (refresh nd now dv) \<Longrightarrow> dv_CreatedAt (refresh nd now dv) = dv_CreatedAt other"
        using other dv inv map_of_distinct_eq [of dev_pair "t_devices d" other dv]
        by (auto simp: devices_inv_def)
      show "dev_pair other \<noteq> dev_pair (refresh nd now dv) \<Longrightarrow> dv_ID other \<noteq> dv_ID dv"
        using other dv inv map_of_distinct_eq [of dv_ID "t_devices d" other dv]
        by (auto simp: devices_inv_def)
    qed (use dv inv in \<open>auto simp: refresh_def same_pair_iff devices_inv_def dev_pair_def\<close>)
    ultimately show "sql_ok d' \<and> (\<exists>i. x = Inr i \<and> registered nd i (sql_view d) (sql_view d'))"
      using d'(2) by blast
  next
    case None
    then have new: "\<forall>x \<in> set (t_devices d). dev_pair x \<noteq> ?pair" by (simp add: find_None_all same_pair_iff)
    let ?dv = "\<lparr>dv_ID = seq_devices d + 1, dv_IdentityKey = nd_IdentityKey nd,
      dv_FCMToken = nd_FCMToken nd, dv_DeviceID = nd_DeviceID nd, dv_Platform = nd_Platform nd, dv_Active = True,
      dv_CreatedAt = now, dv_UpdatedAt = now, dv_LastUsed = Some now\<rparr>"
    have d': "d' = d\<lparr>t_devices := t_devices d @ [?dv], seq_devices := seq_devices d + 1\<rparr>" "x = Inr (seq_devices d + 1)"
      using up None sch by (auto simp: upsert_device_def)
    have pair: "dev_pair ?dv = ?pair" by (simp add: dev_pair_def)
    have ids: "0 < dv_ID y \<and> dv_ID y \<le> seq_devices d" if "y \<in> set (t_devices d)" for y
      using that inv by (simp add: devices_inv_def)
    have "sql_ok d'"
      unfolding d' using inv new ids pair
      by (intro devices_frame(1) ok) (fastforce simp: devices_inv_def)
    moreover have "registered nd (seq_devices d + 1) (sql_view d) (sql_view d')"
      unfolding registered_def
    proof (intro exI conjI)
      show "sql_view d' = (sql_view d)\<lparr>a_devs := insert ?dv {x \<in> a_devs (sql_view d). dev_pair x \<noteq> ?pair}\<rparr>"
      proof -
        have "{x \<in> set (t_devices d). dev_pair x \<noteq> ?pair} = set (t_devices d)" using new by auto
        then show ?thesis by (simp add: d')
      qed
    qed (use new ids pair inv in \<open>fastforce simp: devices_inv_def\<close>)+
    ultimately show "sql_ok d' \<and> (\<exists>i. x = Inr i \<and> registered nd i (sql_view d) (sql_view d'))"
      using d'(2) by blast
  qed
qed

lemma sql_RegisterDevice_writes:
  assumes ok: "sql_ok (conn_data s)"
  shows "sql_writes (sql_RegisterDevice nd) s (\<lambda>i. registered nd i (sql_view (conn_data s)))"
proof -
  obtain x d' where x: "upsert_device nd (conn_clock s) (conn_data s) = (x, d')" by fastforce
  obtain i where i: "x = Inr i" "registered nd i (sql_view (conn_data s)) (sql_view d')"
    using upsert_device_ok(2) [OF ok x] by blast
  have "sql_writes (call (upsert_device nd (conn_clock s))) s (\<lambda>y A. y = Inr i \<and> A = sql_view d')"
    by (rule call_writes_view [where I = sql_ok], rule x, rule ok, rule upsert_device_ok(1) [OF ok x])
      (simp add: i)
  then have "sql_writes (\<lambda>s1. case call (upsert_device nd (conn_clock s)) s1 of (Inl e, s1) \<Rightarrow> (Inl e, s1)
      | (Inr y, s1) \<Rightarrow> (Inr (projr y), s1)) s (\<lambda>i. registered nd i (sql_view (conn_data s)))"
    by (rule writes_map) (simp add: i)
  moreover have "sql_RegisterDevice nd s = (case call (upsert_device nd (conn_clock s)) s of (Inl e, s1) \<Rightarrow> (Inl e, s1)
      | (Inr y, s1) \<Rightarrow> (Inr (projr y), s1))"
    using call_Inr [of "upsert_device nd (conn_clock s)" s] x i
    by (auto simp: sql_RegisterDevice_def split: prod.splits sum.splits)
  ultimately show ?thesis by (rule writes_cong [rotated])
qed

lemma sql_listDevices_reads:
  assumes ok: "sql_ok (conn_data s)"
  shows "sql_reads (sql_listDevices k act) s
    (\<lambda>ds. sorted (map (\<lambda>dv. - dv_UpdatedAt dv) ds) \<and> distinct ds \<and>
       set ds = {dv \<in> a_devs (sql_view (conn_data s)). dv_IdentityKey dv = k \<and> (act \<longrightarrow> dv_Active dv)})"
proof -
  have "distinct (t_devices (conn_data s))"
    using ok by (auto simp: sql_ok_def devices_inv_def distinct_map)
  then show ?thesis
    by (intro reads_cong [OF _ call_reads_view [where I = sql_ok]] ok) (auto simp: sql_listDevices_def)
qed

lemma update_token_writes:
  assumes ok: "sql_ok (conn_data s)"
    and f: "\<And>x. dev_pair (f t x) = dev_pair x" "\<And>x. dv_ID (f t x) = dv_ID x"
  shows "sql_writes (call (update_token tok (f t))) s (\<lambda>_. token_updated tok f (sql_view (conn_data s)))"
proof -
  let ?d = "conn_data s" and ?g = "\<lambda>dv. if dv_FCMToken dv = tok then f t dv else dv"
  have "devices_inv (?d\<lparr>t_devices := map ?g (t_devices ?d), seq_devices := seq_devices ?d\<rparr>)"
    using ok f by (intro devices_inv_map) (auto simp: sql_ok_def)
  then have "sql_ok (?d\<lparr>t_devices := map ?g (t_devices ?d)\<rparr>)"
    using ok by (intro devices_frame(2)) (simp_all add: devices_inv_def)
  then show ?thesis
    using ok by (intro call_writes_view [where I = sql_ok and d = "?d\<lparr>t_devices := map ?g (t_devices ?d)\<rparr>"])
      (auto simp: update_token_def token_updated_def intro!: exI [of _ t])
qed

lemma sql_UnregisterDevice_writes:
  assumes ok: "sql_ok (conn_data s)"
  shows "sql_writes (sql_UnregisterDevice k tok) s
    (\<lambda>_ A'. A' = (sql_view (conn_data s))\<lparr>a_devs := {dv \<in> a_devs (sql_view (conn_data s)). dev_pair dv \<noteq> (k, tok)}\<rparr>)"
proof -
  let ?d = "conn_data s"
  let ?ds = "filter (\<lambda>dv. \<not> (dv_IdentityKey dv = k \<and> dv_FCMToken dv = tok)) (t_devices ?d)"
  have "devices_inv (?d\<lparr>t_devices := ?ds\<rparr>)"
    using ok by (auto simp: sql_ok_def devices_inv_def)
  then have "sql_ok (?d\<lparr>t_devices := ?ds\<rparr>)" using ok by (intro devices_frame(2))
  then show ?thesis
    by (intro writes_cong [OF _ call_writes_view [where I = sql_ok and d = "?d\<lparr>t_devices := ?ds\<rparr>"]] ok)
      (auto simp: sql_UnregisterDevice_def dev_pair_def)
qed

section \<open>The interpretation\<close>

definition SqlStore :: "string \<Rightarrow> sql Store" where
  "SqlStore driver =
     \<lparr>InsertMessage = sql_InsertMessage, ListMessages = sql_ListMessages,
      AcknowledgeMessages = sql_AcknowledgeMessages, PageMessages = Some (sql_PageMessages driver),
      SetPermission = sql_SetPermission driver, SetPermissionIfAbsent = sql_SetPermissionIfAbsent driver,
      GetPermission = sql_GetPermission, ListPermissions = sql_ListPermissions driver,
      RegisterDevice = sql_RegisterDevice, ListDevices = sql_ListDevices,
      ListActiveDevices = sql_ListActiveDevices, UpdateDeviceLastUsed = sql_UpdateDeviceLastUsed,
      DeactivateDevice = sql_DeactivateDevice, UnregisterDevice = sql_UnregisterDevice,
      GetServerDeliveryFee = sql_GetServerDeliveryFee, EnsureSchema = sql_EnsureSchema driver\<rparr>"

interpretation sqlStore: full_store "SqlStore driver" "\<lambda>s. sql_ok (conn_data s)" healthy "\<lambda>s. sql_view (conn_data s)"
  for driver
proof unfold_locales
  fix s s' :: sql and m x e and q :: MessagePageQuery and nd k tok f and i :: int and y
  assume ok: "sql_ok (conn_data s)"
  show "finite (a_msgs (sql_view (conn_data s)))" by simp
  show "inj_on msg_id (a_msgs (sql_view (conn_data s)))"
    using ok by (auto simp: sql_ok_def messages_inv_def distinct_map inj_on_def)
  show "inj_on dev_pair (a_devs (sql_view (conn_data s)))"
    using ok by (simp add: sql_ok_def devices_inv_def distinct_map)
  show "sql_ok (conn_data s') \<and> (healthy s \<longrightarrow> healthy s' \<and> x \<noteq> Inl ErrBackend)"
    if "InsertMessage (SqlStore driver) m s = (x, s')"
    using sql_InsertMessage_ok(1,2) [OF ok, of m x s'] that by (simp add: SqlStore_def)
  show "inserted m (sql_view (conn_data s)) (sql_view (conn_data s'))"
    if "InsertMessage (SqlStore driver) m s = (Inr (), s')"
    using sql_InsertMessage_ok(3) [OF ok, of m "Inr ()" s'] that by (simp add: SqlStore_def)
  show "nm_MessageID m \<in> msg_ids (sql_view (conn_data s)) \<and> sql_view (conn_data s') = sql_view (conn_data s)"
    if "InsertMessage (SqlStore driver) m s = (Inl ErrDuplicateMessage, s')"
    using sql_InsertMessage_ok(4) [OF ok, of m _ s'] that by (simp add: SqlStore_def)
  show "e \<in> {ErrDuplicateMessage, ErrBackend} \<and> (sql_view (conn_data s') = sql_view (conn_data s) \<or>
      inserted m (sql_view (conn_data s)) (sql_view (conn_data s')))"
    if "InsertMessage (SqlStore driver) m s = (Inl e, s')"
    using sql_InsertMessage_ok(5) [OF ok, of m _ s' e] that by (simp add: SqlStore_def)
  show "sql_reads (f q) s (\<lambda>xs. \<exists>all. listing (sql_view (conn_data s)) (mq_Recipient q) (mq_MessageBox q) all \<and>
      xs = take (nat (mq_FetchLimit q)) (drop (nat (mq_Offset q)) (id_filter (mq_MessageID q) all)))"
    if "PageMessages (SqlStore driver) = Some f" "1 \<le> mq_FetchLimit q" "0 \<le> mq_Offset q"
    using sql_PageMessages_reads [OF ok that(2,3)] that(1) by (auto simp: SqlStore_def)
  note reg = writesD [OF sql_RegisterDevice_writes [OF ok, of nd]]
  show "sql_ok (conn_data s') \<and> (healthy s \<longrightarrow> healthy s' \<and> (\<exists>i. y = Inr i))"
    if "RegisterDevice (SqlStore driver) nd s = (y, s')"
    using reg(1-3) that by (simp add: SqlStore_def)
  show "registered nd i (sql_view (conn_data s)) (sql_view (conn_data s'))"
    if "RegisterDevice (SqlStore driver) nd s = (Inr i, s')"
    using reg(4) that by (simp add: SqlStore_def)
  show "e = ErrBackend \<and> others_kept nd (sql_view (conn_data s)) (sql_view (conn_data s'))"
    if "RegisterDevice (SqlStore driver) nd s = (Inl e, s')"
    using reg(5,6) [of "Inl e" s' e] that registered_others others_kept_refl by (fastforce simp: SqlStore_def)
  show "sql_writes (UpdateDeviceLastUsed (SqlStore driver) tok) s
     (\<lambda>_. token_updated tok (\<lambda>t dv. dv\<lparr>dv_LastUsed := Some t, dv_UpdatedAt := t\<rparr>) (sql_view (conn_data s)))"
    by (rule writes_cong [OF _ update_token_writes [OF ok, where t = "conn_clock s"]])
      (simp_all add: SqlStore_def sql_UpdateDeviceLastUsed_def dev_pair_def)
  show "sql_writes (DeactivateDevice (SqlStore driver) tok) s
     (\<lambda>_. token_updated tok (\<lambda>t dv. dv\<lparr>dv_Active := False, dv_UpdatedAt := t\<rparr>) (sql_view (conn_data s)))"
    by (rule writes_cong [OF _ update_token_writes [OF ok, where t = "conn_clock s"]])
      (simp_all add: SqlStore_def sql_DeactivateDevice_def dev_pair_def)
qed (auto simp: SqlStore_def sql_ListDevices_def sql_ListActiveDevices_def simp del: sql_view_sel
      intro: sql_ListMessages_reads sql_Acknowledge_writes sql_GetPermission_reads
        sql_SetPermission_writes sql_SetPermissionIfAbsent_writes sql_fee_reads
        sql_UnregisterDevice_writes
        sql_listDevices_reads [THEN reads_view [where W = "\<lambda>x. x"]])

interpretation sqlStamped: stamped_store "SqlStore driver" "\<lambda>s. sql_ok (conn_data s)" healthy
  "\<lambda>s. sql_view (conn_data s)" conn_clock for driver
proof unfold_locales
  fix s :: sql and tok k
  show "conn_clock (snd (UpdateDeviceLastUsed (SqlStore driver) tok s)) = conn_clock s"
    "conn_clock (snd (DeactivateDevice (SqlStore driver) tok s)) = conn_clock s"
    "conn_clock (snd (ListActiveDevices (SqlStore driver) k s)) = conn_clock s"
    by (simp_all add: SqlStore_def sql_UpdateDeviceLastUsed_def sql_DeactivateDevice_def sql_ListActiveDevices_def
        sql_listDevices_def call_clock [OF prod.collapse [symmetric]])
  assume ok: "sql_ok (conn_data s)"
  show "sql_writes (UpdateDeviceLastUsed (SqlStore driver) tok) s (\<lambda>_ A'. A' =
      token_set tok (\<lambda>dv. dv\<lparr>dv_LastUsed := Some (conn_clock s), dv_UpdatedAt := conn_clock s\<rparr>) (sql_view (conn_data s)))"
    by (rule writes_cong [OF _ update_token_writes [OF ok,
            where f = "\<lambda>_ dv. dv\<lparr>dv_LastUsed := Some (conn_clock s), dv_UpdatedAt := conn_clock s\<rparr>", unfolded token_updated_const]])
      (simp_all add: SqlStore_def sql_UpdateDeviceLastUsed_def dev_pair_def)
  show "sql_writes (DeactivateDevice (SqlStore driver) tok) s (\<lambda>_ A'. A' =
      token_set tok (\<lambda>dv. dv\<lparr>dv_Active := False, dv_UpdatedAt := conn_clock s\<rparr>) (sql_view (conn_data s)))"
    by (rule writes_cong [OF _ update_token_writes [OF ok,
            where f = "\<lambda>_ dv. dv\<lparr>dv_Active := False, dv_UpdatedAt := conn_clock s\<rparr>", unfolded token_updated_const]])
      (simp_all add: SqlStore_def sql_DeactivateDevice_def dev_pair_def)
qed

end
