(* ===== verification/Mongo_Store.thy ===== *)
theory Mongo_Store
  imports Storage_Types
begin

text \<open>
  The MongoDB backend (\<open>pkg/storage/mongostore/mongostore.go\<close>): collections as lists of
  documents, each driver call as a function on the collections with the meaning of its filter,
  update operators, sort and options. A call can end in a duplicate key error, which the code
  tells from every other driver error. Strings sort bytewise and null sorts before strings.
\<close>

section \<open>Documents\<close>

record messageDoc =
  md_MessageID :: string
  md_Recipient :: string
  md_MessageBox :: string
  md_Sender :: string
  md_Body :: string
  md_CreatedAt :: time
  md_UpdatedAt :: time

record permissionDoc =
  pd_Recipient :: string
  pd_Sender :: "string option"
  pd_MessageBox :: string
  pd_RecipientFee :: int
  pd_CreatedAt :: time
  pd_UpdatedAt :: time

text \<open>A device document is keyed by the token (previous release) or by an ObjectID; the token
  and the registration id can be missing.\<close>

datatype doc_id = StringKey string | ObjectID nat

record deviceDoc =
  dd_DocID :: doc_id
  dd_FCMToken :: "string option"
  dd_IdentityKey :: string
  dd_DeviceID :: "string option"
  dd_Platform :: "string option"
  dd_Active :: bool
  dd_CreatedAt :: time
  dd_UpdatedAt :: time
  dd_LastUsed :: "time option"
  dd_ID :: "int option"

text \<open>\<open>pair_unique\<close> and \<open>perm_unique\<close> say whether the unique indexes on device pairs and on
  permission keys exist; \<open>next_oid\<close> is the server's supply of fresh ObjectIDs.\<close>

record mongo_db =
  c_messages :: "messageDoc list"
  c_permissions :: "permissionDoc list"
  c_fees :: "(string \<times> int) list"
  c_devices :: "deviceDoc list"
  c_counters :: "string \<rightharpoonup> int"
  next_oid :: nat
  pair_unique :: bool
  perm_unique :: bool

type_synonym mongo = "mongo_db conn"

datatype 'a reply = DuplicateKey | Reply 'a

text \<open>\<open>now\<close>: the clock at the precision BSON can store.\<close>

definition mongo_now :: "mongo \<Rightarrow> time" where
  "mongo_now s = truncMs (conn_clock s)"

section \<open>Messages\<close>

definition insert_messageDoc :: "messageDoc \<Rightarrow> mongo_db \<Rightarrow> unit reply \<times> mongo_db" where
  "insert_messageDoc doc d =
     (if \<exists>x \<in> set (c_messages d). md_MessageID x = md_MessageID doc then (DuplicateKey, d)
      else (Reply (), d\<lparr>c_messages := c_messages d @ [doc]\<rparr>))"

definition mongo_InsertMessage :: "NewMessage \<Rightarrow> mongo \<Rightarrow> (store_error + unit) \<times> mongo" where
  "mongo_InsertMessage m s =
     (let ts = mongo_now s in
      case call (insert_messageDoc \<lparr>md_MessageID = nm_MessageID m, md_Recipient = nm_Recipient m,
           md_MessageBox = nm_MessageBox m, md_Sender = nm_Sender m, md_Body = nm_Body m,
           md_CreatedAt = ts, md_UpdatedAt = ts\<rparr>) s of
        (Inl e, s1) \<Rightarrow> (Inl e, s1)
      | (Inr DuplicateKey, s1) \<Rightarrow> (Inl ErrDuplicateMessage, s1)
      | (Inr (Reply _), s1) \<Rightarrow> (Inr (), s1))"

definition messageDoc_message :: "messageDoc \<Rightarrow> Message" where
  "messageDoc_message x = \<lparr>m_MessageID = md_MessageID x, m_Sender = md_Sender x, m_Body = md_Body x,
     m_CreatedAt = md_CreatedAt x, m_UpdatedAt = md_UpdatedAt x\<rparr>"

definition md_order :: "messageDoc \<Rightarrow> time \<times> string" where
  "md_order x = (md_CreatedAt x, md_MessageID x)"

definition find_messages :: "string \<Rightarrow> string \<Rightarrow> string option \<Rightarrow> mongo_db \<Rightarrow> messageDoc list" where
  "find_messages recipient messageBox messageID d =
     sort_key md_order
       (filter (\<lambda>x. md_Recipient x = recipient \<and> md_MessageBox x = messageBox
                 \<and> (messageID = None \<or> messageID = Some (md_MessageID x))) (c_messages d))"

definition mongo_ListMessages :: "string \<Rightarrow> string \<Rightarrow> mongo \<Rightarrow> (store_error + Message list) \<times> mongo" where
  "mongo_ListMessages recipient messageBox s =
     (case call (\<lambda>d. (find_messages recipient messageBox None d, d)) s of
        (Inl e, s1) \<Rightarrow> (Inl e, s1)
      | (Inr docs, s1) \<Rightarrow> (Inr (map messageDoc_message docs), s1))"

text \<open>\<open>SetSkip\<close> and \<open>SetLimit\<close> with a positive limit: the server refuses a negative skip.\<close>

definition mongo_window :: "int \<Rightarrow> int \<Rightarrow> 'a list \<Rightarrow> store_error + 'a list" where
  "mongo_window lim skip xs =
     (if skip < 0 then Inl ErrBackend else Inr (take (nat lim) (drop (nat skip) xs)))"

definition mongo_PageMessages :: "MessagePageQuery \<Rightarrow> mongo \<Rightarrow> (store_error + Message list) \<times> mongo" where
  "mongo_PageMessages q s =
     (if mq_FetchLimit q \<le> 0 then (Inr [], s)
      else case call (\<lambda>d. (mongo_window (mq_FetchLimit q) (mq_Offset q)
               (find_messages (mq_Recipient q) (mq_MessageBox q) (mq_MessageID q) d), d)) s of
        (Inl e, s1) \<Rightarrow> (Inl e, s1)
      | (Inr (Inl e), s1) \<Rightarrow> (Inl e, s1)
      | (Inr (Inr docs), s1) \<Rightarrow> (Inr (map messageDoc_message docs), s1))"

definition delete_messageDocs :: "string \<Rightarrow> string list \<Rightarrow> mongo_db \<Rightarrow> int \<times> mongo_db" where
  "delete_messageDocs recipient ids d =
     (let hit = (\<lambda>x. md_Recipient x = recipient \<and> md_MessageID x \<in> set ids)
      in (int (length (filter hit (c_messages d))),
          d\<lparr>c_messages := filter (\<lambda>x. \<not> hit x) (c_messages d)\<rparr>))"

definition mongo_AcknowledgeMessages ::
  "string \<Rightarrow> string list \<Rightarrow> mongo \<Rightarrow> (store_error + int) \<times> mongo" where
  "mongo_AcknowledgeMessages recipient messageIDs s =
     (if messageIDs = [] then (Inr 0, s) else call (delete_messageDocs recipient messageIDs) s)"

section \<open>Fees\<close>

definition mongo_GetServerDeliveryFee :: "string \<Rightarrow> mongo \<Rightarrow> (store_error + int) \<times> mongo" where
  "mongo_GetServerDeliveryFee messageBox s =
     (case call (\<lambda>d. (map_of (c_fees d) messageBox, d)) s of
        (Inl e, s1) \<Rightarrow> (Inl e, s1)
      | (Inr None, s1) \<Rightarrow> (Inr 0, s1)
      | (Inr (Some fee), s1) \<Rightarrow> (Inr fee, s1))"

section \<open>Permissions\<close>

definition permissionKey :: "permissionDoc \<Rightarrow> string \<times> string option \<times> string" where
  "permissionKey x = (pd_Recipient x, pd_Sender x, pd_MessageBox x)"

text \<open>\<open>UpdateOne\<close> with an upsert on a permission key: the first match is updated by \<open>f\<close>, or the
  document \<open>new\<close> is inserted.\<close>

fun update_first :: "('a \<Rightarrow> bool) \<Rightarrow> ('a \<Rightarrow> 'a) \<Rightarrow> 'a list \<Rightarrow> 'a list" where
  "update_first P f [] = []"
| "update_first P f (x # xs) = (if P x then f x # xs else x # update_first P f xs)"

definition upsert_permission ::
  "string \<times> string option \<times> string \<Rightarrow> (permissionDoc \<Rightarrow> permissionDoc) \<Rightarrow> permissionDoc \<Rightarrow>
   mongo_db \<Rightarrow> unit reply \<times> mongo_db" where
  "upsert_permission k f new d =
     (if \<exists>x \<in> set (c_permissions d). permissionKey x = k
      then (Reply (), d\<lparr>c_permissions := update_first (\<lambda>x. permissionKey x = k) f (c_permissions d)\<rparr>)
      else if perm_unique d \<and> (\<exists>x \<in> set (c_permissions d). permissionKey x = permissionKey new)
      then (DuplicateKey, d)
      else (Reply (), d\<lparr>c_permissions := c_permissions d @ [new]\<rparr>))"

definition permission_doc :: "string \<Rightarrow> string option \<Rightarrow> string \<Rightarrow> int \<Rightarrow> time \<Rightarrow> permissionDoc" where
  "permission_doc recipient sender messageBox fee ts =
     \<lparr>pd_Recipient = recipient, pd_Sender = sender, pd_MessageBox = messageBox,
      pd_RecipientFee = fee, pd_CreatedAt = ts, pd_UpdatedAt = ts\<rparr>"

definition mongo_SetPermission ::
  "string \<Rightarrow> string option \<Rightarrow> string \<Rightarrow> int \<Rightarrow> mongo \<Rightarrow> (store_error + unit) \<times> mongo" where
  "mongo_SetPermission recipient sender messageBox recipientFee s =
     (let ts = mongo_now s;
          upsert = call (upsert_permission (recipient, sender, messageBox)
            (\<lambda>x. x\<lparr>pd_RecipientFee := recipientFee, pd_UpdatedAt := ts\<rparr>)
            (permission_doc recipient sender messageBox recipientFee ts))
      in case upsert s of
        (Inl e, s1) \<Rightarrow> (Inl e, s1)
      | (Inr (Reply _), s1) \<Rightarrow> (Inr (), s1)
      | (Inr DuplicateKey, s1) \<Rightarrow>
          (case upsert s1 of
             (Inl e, s2) \<Rightarrow> (Inl e, s2)
           | (Inr (Reply _), s2) \<Rightarrow> (Inr (), s2)
           | (Inr DuplicateKey, s2) \<Rightarrow> (Inl ErrBackend, s2)))"

definition mongo_SetPermissionIfAbsent ::
  "string \<Rightarrow> string option \<Rightarrow> string \<Rightarrow> int \<Rightarrow> mongo \<Rightarrow> (store_error + unit) \<times> mongo" where
  "mongo_SetPermissionIfAbsent recipient sender messageBox recipientFee s =
     (let ts = mongo_now s in
      case call (upsert_permission (recipient, sender, messageBox) (\<lambda>x. x)
            (permission_doc recipient sender messageBox recipientFee ts)) s of
        (Inl e, s1) \<Rightarrow> (Inl e, s1)
      | (Inr DuplicateKey, s1) \<Rightarrow> (Inr (), s1)
      | (Inr (Reply _), s1) \<Rightarrow> (Inr (), s1))"

definition toPermission :: "permissionDoc \<Rightarrow> Permission" where
  "toPermission x = \<lparr>p_Recipient = pd_Recipient x, p_Sender = pd_Sender x,
     p_MessageBox = pd_MessageBox x, p_RecipientFee = pd_RecipientFee x,
     p_CreatedAt = pd_CreatedAt x, p_UpdatedAt = pd_UpdatedAt x\<rparr>"

definition mongo_GetPermission ::
  "string \<Rightarrow> string option \<Rightarrow> string \<Rightarrow> mongo \<Rightarrow> (store_error + Permission option) \<times> mongo" where
  "mongo_GetPermission recipient sender messageBox s =
     (case call (\<lambda>d. (find (\<lambda>x. permissionKey x = (recipient, sender, messageBox)) (c_permissions d), d)) s of
        (Inl e, s1) \<Rightarrow> (Inl e, s1)
      | (Inr None, s1) \<Rightarrow> (Inr None, s1)
      | (Inr (Some doc), s1) \<Rightarrow> (Inr (Some (toPermission doc)), s1))"

definition pd_order :: "SortOrder \<Rightarrow> permissionDoc \<Rightarrow> string \<times> string option \<times> int" where
  "pd_order ord x = (pd_MessageBox x, pd_Sender x,
     (if ord = SortAsc then pd_CreatedAt x else - pd_CreatedAt x))"

definition mongo_ListPermissions ::
  "PermissionQuery \<Rightarrow> mongo \<Rightarrow> (store_error + PermissionPage) \<times> mongo" where
  "mongo_ListPermissions q s =
     (let matching = (\<lambda>x. pd_Recipient x = pq_Recipient q
            \<and> (pq_MessageBox q = None \<or> pq_MessageBox q = Some (pd_MessageBox x)))
      in case Validate q of
        Some e \<Rightarrow> (Inl e, s)
      | None \<Rightarrow>
          (case call (\<lambda>d. (int (length (filter matching (c_permissions d))), d)) s of
             (Inl e, s1) \<Rightarrow> (Inl e, s1)
           | (Inr cnt, s1) \<Rightarrow>
               (case call (\<lambda>d. (mongo_window (pq_Limit q) (pq_Offset q)
                          (sort_key (pd_order (pq_Order q)) (filter matching (c_permissions d))), d)) s1 of
                  (Inl e, s2) \<Rightarrow> (Inl e, s2)
                | (Inr (Inl e), s2) \<Rightarrow> (Inl e, s2)
                | (Inr (Inr docs), s2) \<Rightarrow>
                    (Inr \<lparr>pp_Items = map toPermission docs, pp_Total = cnt\<rparr>, s2))))"

section \<open>Devices\<close>

definition stored_token :: "deviceDoc \<Rightarrow> string" where
  "stored_token x = (case dd_FCMToken x of Some t \<Rightarrow> t | None \<Rightarrow> [])"

definition token :: "deviceDoc \<Rightarrow> string" where
  "token x =
     (if stored_token x \<noteq> [] then stored_token x
      else case dd_DocID x of StringKey k \<Rightarrow> k | ObjectID _ \<Rightarrow> [])"

definition byToken :: "string \<Rightarrow> deviceDoc \<Rightarrow> bool" where
  "byToken fcmToken x \<longleftrightarrow> dd_FCMToken x = Some fcmToken \<or> dd_DocID x = StringKey fcmToken"

definition devicesColl :: string where
  "devicesColl = ''device_registrations''"

definition inc_counter :: "string \<Rightarrow> mongo_db \<Rightarrow> int \<times> mongo_db" where
  "inc_counter name d =
     (let n = (case c_counters d name of None \<Rightarrow> 1 | Some k \<Rightarrow> k + 1)
      in (n, d\<lparr>c_counters := (c_counters d)(name \<mapsto> n)\<rparr>))"

definition nextSeq :: "string \<Rightarrow> mongo \<Rightarrow> (store_error + int) \<times> mongo" where
  "nextSeq name s = call (inc_counter name) s"

definition byPair :: "string \<Rightarrow> string \<Rightarrow> deviceDoc \<Rightarrow> bool" where
  "byPair identityKey fcmToken x \<longleftrightarrow>
     dd_IdentityKey x = identityKey \<and> dd_FCMToken x = Some fcmToken"

text \<open>The \<open>FindOneAndUpdate\<close> of \<open>RegisterDevice\<close>, returning the document key and the
  registration id (0 where the field is missing).\<close>

definition upsert_deviceDoc ::
  "NewDevice \<Rightarrow> int \<Rightarrow> time \<Rightarrow> mongo_db \<Rightarrow> (doc_id \<times> int) reply \<times> mongo_db" where
  "upsert_deviceDoc nd seq ts d =
     (case find (byPair (nd_IdentityKey nd) (nd_FCMToken nd)) (c_devices d) of
        Some x \<Rightarrow>
          (Reply (dd_DocID x, case dd_ID x of None \<Rightarrow> 0 | Some i \<Rightarrow> i),
           d\<lparr>c_devices := update_first (byPair (nd_IdentityKey nd) (nd_FCMToken nd))
               (\<lambda>x. x\<lparr>dd_DeviceID := nd_DeviceID nd, dd_Platform := nd_Platform nd, dd_Active := True,
                      dd_UpdatedAt := ts, dd_LastUsed := Some ts\<rparr>) (c_devices d)\<rparr>)
      | None \<Rightarrow>
          (Reply (ObjectID (next_oid d), seq),
           d\<lparr>c_devices := c_devices d @
               [\<lparr>dd_DocID = ObjectID (next_oid d), dd_FCMToken = Some (nd_FCMToken nd),
                 dd_IdentityKey = nd_IdentityKey nd, dd_DeviceID = nd_DeviceID nd,
                 dd_Platform = nd_Platform nd, dd_Active = True, dd_CreatedAt = ts,
                 dd_UpdatedAt = ts, dd_LastUsed = Some ts, dd_ID = Some seq\<rparr>],
             next_oid := next_oid d + 1\<rparr>))"

text \<open>The retry loop: a second attempt only after a duplicate key on the first.\<close>

definition upsert_deviceDoc_retry ::
  "NewDevice \<Rightarrow> int \<Rightarrow> time \<Rightarrow> mongo \<Rightarrow> (store_error + doc_id \<times> int) \<times> mongo" where
  "upsert_deviceDoc_retry nd seq ts s =
     (case call (upsert_deviceDoc nd seq ts) s of
        (Inl e, s1) \<Rightarrow> (Inl e, s1)
      | (Inr (Reply r), s1) \<Rightarrow> (Inr r, s1)
      | (Inr DuplicateKey, s1) \<Rightarrow>
          (case call (upsert_deviceDoc nd seq ts) s1 of
             (Inl e, s2) \<Rightarrow> (Inl e, s2)
           | (Inr (Reply r), s2) \<Rightarrow> (Inr r, s2)
           | (Inr DuplicateKey, s2) \<Rightarrow> (Inl ErrBackend, s2)))"

definition set_missing_id :: "doc_id \<Rightarrow> int \<Rightarrow> mongo_db \<Rightarrow> unit \<times> mongo_db" where
  "set_missing_id k seq d =
     ((), d\<lparr>c_devices := update_first (\<lambda>x. dd_DocID x = k \<and> dd_ID x = None)
         (\<lambda>x. x\<lparr>dd_ID := Some seq\<rparr>) (c_devices d)\<rparr>)"

definition mongo_RegisterDevice :: "NewDevice \<Rightarrow> mongo \<Rightarrow> (store_error + int) \<times> mongo" where
  "mongo_RegisterDevice nd s =
     (case nextSeq devicesColl s of
        (Inl e, s1) \<Rightarrow> (Inl e, s1)
      | (Inr seq, s1) \<Rightarrow>
          (case upsert_deviceDoc_retry nd seq (mongo_now s1) s1 of
             (Inl e, s2) \<Rightarrow> (Inl e, s2)
           | (Inr (k, i), s2) \<Rightarrow>
               if 0 < i then (Inr i, s2)
               else (case call (set_missing_id k seq) s2 of
                  (Inl e, s3) \<Rightarrow> (Inl e, s3)
                | (Inr _, s3) \<Rightarrow>
                    (case call (\<lambda>d. (find (\<lambda>x. dd_DocID x = k) (c_devices d), d)) s3 of
                       (Inl e, s4) \<Rightarrow> (Inl e, s4)
                     | (Inr None, s4) \<Rightarrow> (Inl ErrBackend, s4)
                     | (Inr (Some x), s4) \<Rightarrow>
                         (Inr (case dd_ID x of None \<Rightarrow> 0 | Some n \<Rightarrow> n), s4)))))"

definition deviceDoc_device :: "deviceDoc \<Rightarrow> Device" where
  "deviceDoc_device x =
     \<lparr>dv_ID = (case dd_ID x of None \<Rightarrow> 0 | Some i \<Rightarrow> i), dv_IdentityKey = dd_IdentityKey x,
      dv_FCMToken = token x, dv_DeviceID = dd_DeviceID x, dv_Platform = dd_Platform x,
      dv_Active = dd_Active x, dv_CreatedAt = dd_CreatedAt x, dv_UpdatedAt = dd_UpdatedAt x,
      dv_LastUsed = dd_LastUsed x\<rparr>"

text \<open>The second half of \<open>listDevices\<close>: a document without a token of its own is dropped when the
  same listing holds a registration of its token.\<close>

definition dedupe_devices :: "deviceDoc list \<Rightarrow> Device list" where
  "dedupe_devices docs =
     (let registered = filter (\<lambda>t. t \<noteq> []) (map stored_token docs)
      in map deviceDoc_device
           (filter (\<lambda>x. \<not> (stored_token x = [] \<and> token x \<in> set registered)) docs))"

definition mongo_listDevices :: "string \<Rightarrow> bool \<Rightarrow> mongo \<Rightarrow> (store_error + Device list) \<times> mongo" where
  "mongo_listDevices identityKey activeOnly s =
     (case call (\<lambda>d. (sort_key (\<lambda>x. - dd_UpdatedAt x)
             (filter (\<lambda>x. dd_IdentityKey x = identityKey \<and> (activeOnly \<longrightarrow> dd_Active x))
               (c_devices d)), d)) s of
        (Inl e, s1) \<Rightarrow> (Inl e, s1)
      | (Inr docs, s1) \<Rightarrow> (Inr (dedupe_devices docs), s1))"

definition mongo_ListDevices :: "string \<Rightarrow> mongo \<Rightarrow> (store_error + Device list) \<times> mongo" where
  "mongo_ListDevices identityKey = mongo_listDevices identityKey False"

definition mongo_ListActiveDevices :: "string \<Rightarrow> mongo \<Rightarrow> (store_error + Device list) \<times> mongo" where
  "mongo_ListActiveDevices identityKey = mongo_listDevices identityKey True"

definition update_devices ::
  "(deviceDoc \<Rightarrow> bool) \<Rightarrow> (deviceDoc \<Rightarrow> deviceDoc) \<Rightarrow> mongo_db \<Rightarrow> unit \<times> mongo_db" where
  "update_devices P f d =
     ((), d\<lparr>c_devices := map (\<lambda>x. if P x then f x else x) (c_devices d)\<rparr>)"

definition mongo_UpdateDeviceLastUsed :: "string \<Rightarrow> mongo \<Rightarrow> (store_error + unit) \<times> mongo" where
  "mongo_UpdateDeviceLastUsed fcmToken s =
     (let ts = mongo_now s in
      call (update_devices (byToken fcmToken)
        (\<lambda>x. x\<lparr>dd_LastUsed := Some ts, dd_UpdatedAt := ts\<rparr>)) s)"

definition mongo_DeactivateDevice :: "string \<Rightarrow> mongo \<Rightarrow> (store_error + unit) \<times> mongo" where
  "mongo_DeactivateDevice fcmToken s =
     call (update_devices (byToken fcmToken)
       (\<lambda>x. x\<lparr>dd_Active := False, dd_UpdatedAt := mongo_now s\<rparr>)) s"

definition mongo_UnregisterDevice :: "string \<Rightarrow> string \<Rightarrow> mongo \<Rightarrow> (store_error + unit) \<times> mongo" where
  "mongo_UnregisterDevice identityKey fcmToken s =
     call (\<lambda>d. ((), d\<lparr>c_devices := filter (\<lambda>x. \<not> (byToken fcmToken x
        \<and> dd_IdentityKey x = identityKey)) (c_devices d)\<rparr>)) s"

section \<open>Schema\<close>

text \<open>The backfill copies a document's key into its missing token field. Documents without the
  field are those of the previous release, keyed by a string. With the unique pair index in place
  the copy can collide, and \<open>UpdateMany\<close> stops at the first collision.\<close>

definition fromID :: "deviceDoc \<Rightarrow> deviceDoc" where
  "fromID x = (case dd_DocID x of StringKey k \<Rightarrow> x\<lparr>dd_FCMToken := Some k\<rparr> | ObjectID _ \<Rightarrow> x)"

definition pair_of :: "deviceDoc \<Rightarrow> (string \<times> string) option" where
  "pair_of x = map_option (\<lambda>t. (dd_IdentityKey x, t)) (dd_FCMToken x)"

definition collides :: "deviceDoc \<Rightarrow> deviceDoc list \<Rightarrow> bool" where
  "collides x docs \<longleftrightarrow> pair_of x \<noteq> None \<and> (\<exists>y \<in> set docs. pair_of y = pair_of x)"

fun backfill_many :: "bool \<Rightarrow> deviceDoc list \<Rightarrow> deviceDoc list \<Rightarrow> bool \<times> deviceDoc list" where
  "backfill_many uniq before [] = (True, before)"
| "backfill_many uniq before (x # xs) =
     (if dd_FCMToken x \<noteq> None then backfill_many uniq (before @ [x]) xs
      else if uniq \<and> collides (fromID x) (before @ xs) then (False, before @ x # xs)
      else backfill_many uniq (before @ [fromID x]) xs)"

definition update_many_fromID :: "mongo_db \<Rightarrow> unit reply \<times> mongo_db" where
  "update_many_fromID d =
     (let (ok, docs) = backfill_many (pair_unique d) [] (c_devices d)
      in (if ok then Reply () else DuplicateKey, d\<lparr>c_devices := docs\<rparr>))"

definition lacking_key :: "doc_id \<Rightarrow> deviceDoc \<Rightarrow> bool" where
  "lacking_key k x \<longleftrightarrow> dd_DocID x = k \<and> dd_FCMToken x = None"

definition update_one_fromID :: "doc_id \<Rightarrow> mongo_db \<Rightarrow> unit reply \<times> mongo_db" where
  "update_one_fromID k d =
     (case find (lacking_key k) (c_devices d) of
        None \<Rightarrow> (Reply (), d)
      | Some x \<Rightarrow>
          if pair_unique d \<and> collides (fromID x) (filter (\<lambda>y. dd_DocID y \<noteq> k) (c_devices d))
          then (DuplicateKey, d)
          else (Reply (), d\<lparr>c_devices := update_first (lacking_key k) fromID (c_devices d)\<rparr>))"

fun delete_first :: "('a \<Rightarrow> bool) \<Rightarrow> 'a list \<Rightarrow> 'a list" where
  "delete_first P [] = []"
| "delete_first P (x # xs) = (if P x then xs else x # delete_first P xs)"

definition delete_one :: "doc_id \<Rightarrow> mongo_db \<Rightarrow> unit \<times> mongo_db" where
  "delete_one k d = ((), d\<lparr>c_devices := delete_first (lacking_key k) (c_devices d)\<rparr>)"

fun backfill_left :: "doc_id list \<Rightarrow> mongo \<Rightarrow> (store_error + unit) \<times> mongo" where
  "backfill_left [] s = (Inr (), s)"
| "backfill_left (k # ks) s =
     (case call (update_one_fromID k) s of
        (Inl e, s1) \<Rightarrow> (Inl e, s1)
      | (Inr (Reply _), s1) \<Rightarrow> backfill_left ks s1
      | (Inr DuplicateKey, s1) \<Rightarrow>
          (case call (delete_one k) s1 of
             (Inl e, s2) \<Rightarrow> (Inl e, s2)
           | (Inr _, s2) \<Rightarrow> backfill_left ks s2))"

text \<open>The keys of the documents left are decoded as strings; any other key is a decoding error.\<close>

definition is_string_key :: "doc_id \<Rightarrow> bool" where
  "is_string_key k = (case k of StringKey _ \<Rightarrow> True | ObjectID _ \<Rightarrow> False)"

definition backfillDeviceTokens :: "mongo \<Rightarrow> (store_error + unit) \<times> mongo" where
  "backfillDeviceTokens s =
     (case call update_many_fromID s of
        (Inl e, s1) \<Rightarrow> (Inl e, s1)
      | (Inr (Reply _), s1) \<Rightarrow> (Inr (), s1)
      | (Inr DuplicateKey, s1) \<Rightarrow>
          (case call (\<lambda>d. (map dd_DocID (filter (\<lambda>x. dd_FCMToken x = None) (c_devices d)), d)) s1 of
             (Inl e, s2) \<Rightarrow> (Inl e, s2)
           | (Inr left, s2) \<Rightarrow>
               if list_all is_string_key left then backfill_left left s2 else (Inl ErrBackend, s2)))"

text \<open>\<open>CreateMany\<close> on one collection: a unique index cannot be built over duplicates. The loop runs
  over a Go map, so the collections come in the order \<open>colls\<close>.\<close>

definition createIndexes :: "string \<Rightarrow> mongo_db \<Rightarrow> (store_error + unit) \<times> mongo_db" where
  "createIndexes coll d =
     (if coll = ''message_permissions'' then
        (if distinct (map permissionKey (c_permissions d)) then (Inr (), d\<lparr>perm_unique := True\<rparr>)
         else (Inl ErrBackend, d))
      else if coll = devicesColl then
        (if distinct (filter (\<lambda>p. p \<noteq> None) (map pair_of (c_devices d)))
         then (Inr (), d\<lparr>pair_unique := True\<rparr>) else (Inl ErrBackend, d))
      else (Inr (), d))"

fun create_all_indexes :: "string list \<Rightarrow> mongo \<Rightarrow> (store_error + unit) \<times> mongo" where
  "create_all_indexes [] s = (Inr (), s)"
| "create_all_indexes (c # cs) s =
     (case call (createIndexes c) s of
        (Inl e, s1) \<Rightarrow> (Inl e, s1)
      | (Inr (Inl e), s1) \<Rightarrow> (Inl e, s1)
      | (Inr (Inr _), s1) \<Rightarrow> create_all_indexes cs s1)"

definition seed_feeDoc :: "string \<times> int \<Rightarrow> mongo_db \<Rightarrow> unit \<times> mongo_db" where
  "seed_feeDoc f d =
     (if fst f \<in> set (map fst (c_fees d)) then ((), d) else ((), d\<lparr>c_fees := c_fees d @ [f]\<rparr>))"

fun seed_fees :: "(string \<times> int) list \<Rightarrow> mongo \<Rightarrow> (store_error + unit) \<times> mongo" where
  "seed_fees [] s = (Inr (), s)"
| "seed_fees (f # fs) s =
     (case call (seed_feeDoc f) s of
        (Inl e, s1) \<Rightarrow> (Inl e, s1)
      | (Inr _, s1) \<Rightarrow> seed_fees fs s1)"

definition mongo_EnsureSchema :: "string list \<Rightarrow> mongo \<Rightarrow> (store_error + unit) \<times> mongo" where
  "mongo_EnsureSchema colls s =
     (case backfillDeviceTokens s of
        (Inl e, s1) \<Rightarrow> (Inl e, s1)
      | (Inr _, s1) \<Rightarrow>
          (case create_all_indexes colls s1 of
             (Inl e, s2) \<Rightarrow> (Inl e, s2)
           | (Inr _, s2) \<Rightarrow> seed_fees DefaultDeliveryFees s2))"

end
