(* ===== verification/Mongo_Refinement.thy ===== *)
theory Mongo_Refinement
  imports Mongo_Store Store_Contract
begin

text \<open>
  The MongoDB backend implements the storage contract: the invariant of its collections once the
  schema is in place, their abstraction, the effect of every driver call on both, and the
  interpretation of the contract's locales.
\<close>

section \<open>Invariant and abstraction\<close>

definition registrations :: "mongo_db \<Rightarrow> int" where
  "registrations d = (case c_counters d devicesColl of None \<Rightarrow> 0 | Some n \<Rightarrow> n)"

definition doc_ok :: "nat \<Rightarrow> int \<Rightarrow> deviceDoc \<Rightarrow> bool" where
  "doc_ok oids n x \<longleftrightarrow> dd_FCMToken x \<noteq> None \<and>
     (case dd_DocID x of StringKey k \<Rightarrow> dd_FCMToken x = Some k | ObjectID j \<Rightarrow> j < oids) \<and>
     (case dd_ID x of None \<Rightarrow> True | Some i \<Rightarrow> 0 < i \<and> i \<le> n)"

definition devices_ok :: "nat \<Rightarrow> int \<Rightarrow> deviceDoc list \<Rightarrow> bool" where
  "devices_ok oids n docs \<longleftrightarrow>
     distinct (map dd_DocID docs) \<and> distinct (map pair_of docs) \<and> 0 \<le> n \<and>
     (\<forall>x \<in> set docs. doc_ok oids n x) \<and>
     (\<forall>x \<in> set docs. \<forall>y \<in> set docs. dd_ID x \<noteq> None \<longrightarrow> dd_ID x = dd_ID y \<longrightarrow> x = y)"

definition mongo_ok :: "mongo_db \<Rightarrow> bool" where
  "mongo_ok d \<longleftrightarrow>
     distinct (map md_MessageID (c_messages d)) \<and>
     distinct (map permissionKey (c_permissions d)) \<and>
     devices_ok (next_oid d) (registrations d) (c_devices d)"

definition doc_message :: "messageDoc \<Rightarrow> stored_message" where
  "doc_message x =
     (\<lparr>nm_MessageID = md_MessageID x, nm_Recipient = md_Recipient x, nm_MessageBox = md_MessageBox x,
       nm_Sender = md_Sender x, nm_Body = md_Body x\<rparr>, md_CreatedAt x, md_UpdatedAt x)"

definition doc_entry :: "permissionDoc \<Rightarrow> perm_id \<times> int \<times> time \<times> time" where
  "doc_entry x = (permissionKey x, pd_RecipientFee x, pd_CreatedAt x, pd_UpdatedAt x)"

definition mongo_view :: "mongo_db \<Rightarrow> abs_store" where
  "mongo_view d =
     \<lparr>a_msgs = doc_message ` set (c_messages d),
      a_perms = map_of (map doc_entry (c_permissions d)),
      a_fees = (\<lambda>b. case map_of (c_fees d) b of None \<Rightarrow> 0 | Some fee \<Rightarrow> fee),
      a_devs = deviceDoc_device ` set (c_devices d)\<rparr>"

abbreviation mongo_reads :: "(mongo \<Rightarrow> (store_error + 'a) \<times> mongo) \<Rightarrow> mongo \<Rightarrow> ('a \<Rightarrow> bool) \<Rightarrow> bool" where
  "mongo_reads \<equiv> reads (\<lambda>s. mongo_ok (conn_data s)) healthy (\<lambda>s. mongo_view (conn_data s))"

abbreviation mongo_writes ::
  "(mongo \<Rightarrow> (store_error + 'a) \<times> mongo) \<Rightarrow> mongo \<Rightarrow> ('a \<Rightarrow> abs_store \<Rightarrow> bool) \<Rightarrow> bool" where
  "mongo_writes \<equiv> writes (\<lambda>s. mongo_ok (conn_data s)) healthy (\<lambda>s. mongo_view (conn_data s))"

lemma mongo_view_sel [simp]:
  "a_msgs (mongo_view d) = doc_message ` set (c_messages d)"
  "a_perms (mongo_view d) = map_of (map doc_entry (c_permissions d))"
  "a_devs (mongo_view d) = deviceDoc_device ` set (c_devices d)"
  by (simp_all add: mongo_view_def)

lemma mongo_view_upd [simp]:
  "mongo_view (d\<lparr>c_messages := ms\<rparr>) = (mongo_view d)\<lparr>a_msgs := doc_message ` set ms\<rparr>"
  "mongo_view (d\<lparr>c_permissions := ps\<rparr>) = (mongo_view d)\<lparr>a_perms := map_of (map doc_entry ps)\<rparr>"
  "mongo_view (d\<lparr>c_devices := ds\<rparr>) = (mongo_view d)\<lparr>a_devs := deviceDoc_device ` set ds\<rparr>"
  "mongo_view (d\<lparr>next_oid := n\<rparr>) = mongo_view d"
  "mongo_view (d\<lparr>c_counters := cs\<rparr>) = mongo_view d"
  by (simp_all add: mongo_view_def)

lemma doc_message_sel [simp]:
  "msg_id (doc_message x) = md_MessageID x"
  "toMessage (doc_message x) = messageDoc_message x"
  "nm_Recipient (fst (doc_message x)) = md_Recipient x"
  "nm_MessageBox (fst (doc_message x)) = md_MessageBox x"
  by (simp_all add: doc_message_def msg_id_def messageDoc_message_def)

lemma in_box_doc [simp]:
  "in_box k t (doc_message x) \<longleftrightarrow> md_Recipient x = k \<and> md_MessageBox x = t"
  by (simp add: in_box_def)

lemma doc_message_inj: "inj doc_message"
  by (rule injI) (simp add: doc_message_def)

lemma msg_order_doc: "msg_order (messageDoc_message x) = md_order x"
  by (simp add: msg_order_def messageDoc_message_def md_order_def)

section \<open>Messages\<close>

lemma find_listing:
  assumes "distinct (map md_MessageID (c_messages d))"
  shows "listing (mongo_view d) k t (map messageDoc_message (find_messages k t None d))"
proof -
  let ?docs = "filter (\<lambda>x. md_Recipient x = k \<and> md_MessageBox x = t) (c_messages d)"
  have "distinct (map md_order ?docs)"
    using assms by (auto simp: distinct_map md_order_def inj_on_def)
  then have "sorted_wrt (<) (map md_order (sort_key md_order ?docs))"
    by (rule strict_sorted_sort_key)
  moreover have "doc_message ` set ?docs = {v \<in> a_msgs (mongo_view d). in_box k t v}"
    by auto
  then have "messageDoc_message ` set ?docs = toMessage ` {v \<in> a_msgs (mongo_view d). in_box k t v}"
    by (metis (no_types, lifting) image_cong image_image doc_message_sel(2))
  ultimately show ?thesis
    by (simp add: listing_def find_messages_def comp_def msg_order_doc)
qed

lemma find_by_id:
  "find_messages k t (Some m) d = filter (\<lambda>x. md_MessageID x = m) (find_messages k t None d)"
  by (auto simp: find_messages_def filter_sort intro!: arg_cong [of _ _ "sort_key _"] filter_cong)

lemma id_filter_doc:
  "id_filter mid (map messageDoc_message (find_messages k t None d)) =
     map messageDoc_message (find_messages k t mid d)"
  by (cases mid) (simp_all add: id_filter_def find_by_id filter_map comp_def messageDoc_message_def)

lemma mongo_InsertMessage_ok:
  assumes ok: "mongo_ok (conn_data s)" and eq: "mongo_InsertMessage m s = (x, s')"
  shows "mongo_ok (conn_data s')"
    and "healthy s \<Longrightarrow> healthy s' \<and> x \<noteq> Inl ErrBackend"
    and "x = Inr () \<Longrightarrow> inserted m (mongo_view (conn_data s)) (mongo_view (conn_data s'))"
    and "x = Inl ErrDuplicateMessage \<Longrightarrow> nm_MessageID m \<in> msg_ids (mongo_view (conn_data s))
      \<and> mongo_view (conn_data s') = mongo_view (conn_data s)"
    and "x = Inl e \<Longrightarrow> e \<in> {ErrDuplicateMessage, ErrBackend} \<and> (mongo_view (conn_data s') = mongo_view (conn_data s)
      \<or> inserted m (mongo_view (conn_data s)) (mongo_view (conn_data s')))"
proof -
  let ?d = "conn_data s" and ?ts = "mongo_now s"
  let ?doc = "\<lparr>md_MessageID = nm_MessageID m, md_Recipient = nm_Recipient m, md_MessageBox = nm_MessageBox m,
    md_Sender = nm_Sender m, md_Body = nm_Body m, md_CreatedAt = ?ts, md_UpdatedAt = ?ts\<rparr>"
  let ?f = "insert_messageDoc ?doc"
  obtain r d' where r: "?f ?d = (r, d')" by fastforce
  obtain y s1 where y: "call ?f s = (y, s1)" by fastforce
  have ids: "msg_ids (mongo_view ?d) = md_MessageID ` set (c_messages ?d)"
    by (simp add: msg_ids_def image_image)
  have new: "doc_message ?doc = (m, ?ts, ?ts)" by (simp add: doc_message_def)
  have st: "(r = DuplicateKey \<and> d' = ?d \<and> nm_MessageID m \<in> msg_ids (mongo_view ?d)) \<or>
      (r = Reply () \<and> mongo_ok d' \<and> inserted m (mongo_view ?d) (mongo_view d'))"
  proof (cases "\<exists>x \<in> set (c_messages ?d). md_MessageID x = nm_MessageID m")
    case True
    then have "r = DuplicateKey \<and> d' = ?d" using r by (simp add: insert_messageDoc_def)
    moreover have "nm_MessageID m \<in> msg_ids (mongo_view ?d)" using True unfolding ids by force
    ultimately show ?thesis by blast
  next
    case False
    then have d': "r = Reply ()" "d' = ?d\<lparr>c_messages := c_messages ?d @ [?doc]\<rparr>"
      using r by (auto simp: insert_messageDoc_def)
    have "mongo_ok d'" using ok False by (auto simp: d' mongo_ok_def registrations_def)
    moreover have "inserted m (mongo_view ?d) (mongo_view d')"
      using False by (auto simp: inserted_def ids d' new intro!: exI [of _ ?ts])
    ultimately show ?thesis using d'(1) by blast
  qed
  have "(y = Inl ErrBackend \<and> x = Inl ErrBackend) \<or> (y = Inr DuplicateKey \<and> x = Inl ErrDuplicateMessage)
      \<or> (y = Inr (Reply ()) \<and> x = Inr ())" and "s' = s1"
    using eq y call_cases [OF y r]
    by (auto simp: mongo_InsertMessage_def Let_def split: reply.splits sum.splits)
  with call_cases [OF y r] st ok
  show "mongo_ok (conn_data s')" "healthy s \<Longrightarrow> healthy s' \<and> x \<noteq> Inl ErrBackend"
    "x = Inr () \<Longrightarrow> inserted m (mongo_view ?d) (mongo_view (conn_data s'))"
    "x = Inl ErrDuplicateMessage \<Longrightarrow> nm_MessageID m \<in> msg_ids (mongo_view ?d)
      \<and> mongo_view (conn_data s') = mongo_view ?d"
    "x = Inl e \<Longrightarrow> e \<in> {ErrDuplicateMessage, ErrBackend} \<and> (mongo_view (conn_data s') = mongo_view ?d
      \<or> inserted m (mongo_view ?d) (mongo_view (conn_data s')))"
    by auto
qed

lemma mongo_ListMessages_reads:
  assumes "mongo_ok (conn_data s)"
  shows "mongo_reads (mongo_ListMessages k t) s (listing (mongo_view (conn_data s)) k t)"
proof -
  have "mongo_reads (\<lambda>s. case call (\<lambda>d. (find_messages k t None d, d)) s of (Inl e, s1) \<Rightarrow> (Inl e, s1)
      | (Inr docs, s1) \<Rightarrow> (Inr (map messageDoc_message docs), s1)) s (listing (mongo_view (conn_data s)) k t)"
    by (rule reads_bind, rule call_reads_view [where I = mongo_ok and
          P = "\<lambda>docs. docs = find_messages k t None (conn_data s)"])
      (use assms find_listing in \<open>auto simp: mongo_ok_def intro!: reads_return\<close>)
  then show ?thesis by (rule reads_cong [rotated]) (simp add: mongo_ListMessages_def)
qed

lemma mongo_PageMessages_reads:
  assumes ok: "mongo_ok (conn_data s)" and q: "1 \<le> mq_FetchLimit q" "0 \<le> mq_Offset q"
  shows "mongo_reads (mongo_PageMessages q) s
    (\<lambda>xs. \<exists>all. listing (mongo_view (conn_data s)) (mq_Recipient q) (mq_MessageBox q) all \<and>
       xs = take (nat (mq_FetchLimit q)) (drop (nat (mq_Offset q)) (id_filter (mq_MessageID q) all)))"
proof -
  let ?all = "find_messages (mq_Recipient q) (mq_MessageBox q) None (conn_data s)"
  let ?g = "\<lambda>d. take (nat (mq_FetchLimit q)) (drop (nat (mq_Offset q))
    (find_messages (mq_Recipient q) (mq_MessageBox q) (mq_MessageID q) d))"
  have "mongo_reads (\<lambda>s. case call (\<lambda>d. (?g d, d)) s of (Inl e, s1) \<Rightarrow> (Inl e, s1)
      | (Inr docs, s1) \<Rightarrow> (Inr (map messageDoc_message docs), s1)) s
    (\<lambda>xs. \<exists>all. listing (mongo_view (conn_data s)) (mq_Recipient q) (mq_MessageBox q) all \<and>
       xs = take (nat (mq_FetchLimit q)) (drop (nat (mq_Offset q)) (id_filter (mq_MessageID q) all)))"
  proof (rule reads_bind, rule call_reads_view [where I = mongo_ok and P = "\<lambda>docs. docs = ?g (conn_data s)"])
    fix docs and s' :: mongo
    assume s': "mongo_ok (conn_data s')" and docs: "docs = ?g (conn_data s)"
    show "mongo_reads (\<lambda>s1. (Inr (map messageDoc_message docs), s1)) s'
      (\<lambda>xs. \<exists>all. listing (mongo_view (conn_data s)) (mq_Recipient q) (mq_MessageBox q) all \<and>
       xs = take (nat (mq_FetchLimit q)) (drop (nat (mq_Offset q)) (id_filter (mq_MessageID q) all)))"
      using find_listing [of "conn_data s"] ok
      by (intro reads_return s' exI [of _ "map messageDoc_message ?all"])
        (simp add: docs id_filter_doc take_map drop_map mongo_ok_def)
  qed (use ok in simp_all)
  then show ?thesis
  proof (rule reads_cong [rotated])
    show "mongo_PageMessages q s = (case call (\<lambda>d. (?g d, d)) s of (Inl e, s1) \<Rightarrow> (Inl e, s1)
      | (Inr docs, s1) \<Rightarrow> (Inr (map messageDoc_message docs), s1))"
      using q by (auto simp: mongo_PageMessages_def mongo_window_def call_def
          split: list.splits fault.splits)
  qed
qed

lemma mongo_Acknowledge_writes:
  assumes ok: "mongo_ok (conn_data s)"
  shows "mongo_writes (mongo_AcknowledgeMessages k ids) s
    (\<lambda>n A'. n = int (card (acked k ids (mongo_view (conn_data s)))) \<and>
       A' = (mongo_view (conn_data s))\<lparr>a_msgs := a_msgs (mongo_view (conn_data s)) - acked k ids (mongo_view (conn_data s))\<rparr>)"
proof (cases "ids = []")
  case True
  then show ?thesis
    using ok by (intro writes_cong [OF _ writes_return [where a = 0]])
      (auto simp: mongo_AcknowledgeMessages_def acked_def)
next
  case False
  let ?d = "conn_data s"
  let ?hit = "{x \<in> set (c_messages ?d). md_Recipient x = k \<and> md_MessageID x \<in> set ids}"
  let ?d' = "?d\<lparr>c_messages := filter (\<lambda>x. \<not> (md_Recipient x = k \<and> md_MessageID x \<in> set ids)) (c_messages ?d)\<rparr>"
  have acked: "acked k ids (mongo_view ?d) = doc_message ` ?hit" by (auto simp: acked_def)
  have "distinct (c_messages ?d)" using ok by (auto simp: mongo_ok_def distinct_map)
  then have "length (filter (\<lambda>x. md_Recipient x = k \<and> md_MessageID x \<in> set ids) (c_messages ?d)) = card ?hit"
    by (simp add: distinct_length_filter Int_def conj_commute)
  moreover have "card (doc_message ` ?hit) = card ?hit"
    by (rule card_image) (rule inj_on_subset [OF doc_message_inj], auto)
  ultimately have n: "delete_messageDocs k ids ?d = (int (card (acked k ids (mongo_view ?d))), ?d')"
    by (simp add: delete_messageDocs_def Let_def acked)
  have "doc_message ` {x \<in> set (c_messages ?d). \<not> (md_Recipient x = k \<and> md_MessageID x \<in> set ids)}
      = doc_message ` set (c_messages ?d) - doc_message ` ?hit"
    by (subst image_set_diff [symmetric, OF doc_message_inj]) (auto intro!: arg_cong2 [of _ _ _ _ "(`)"])
  then have view: "mongo_view ?d' =
      (mongo_view ?d)\<lparr>a_msgs := a_msgs (mongo_view ?d) - acked k ids (mongo_view ?d)\<rparr>"
    by (simp add: acked)
  have "mongo_ok ?d'" using ok by (auto simp: mongo_ok_def registrations_def)
  with n view ok show ?thesis
    by (intro writes_cong [OF _ call_writes_view [where I = mongo_ok and d = ?d' and f = "delete_messageDocs k ids"]])
      (simp_all add: mongo_AcknowledgeMessages_def False del: mongo_view_upd mongo_view_sel)
qed

section \<open>Fees and permissions\<close>

lemma doc_entry_fst [simp]: "fst (doc_entry x) = permissionKey x"
  by (simp add: doc_entry_def)

lemma mongo_fee_reads:
  assumes "mongo_ok (conn_data s)"
  shows "mongo_reads (mongo_GetServerDeliveryFee b) s (\<lambda>fee. fee = a_fees (mongo_view (conn_data s)) b)"
proof -
  have "mongo_GetServerDeliveryFee b s = (case call (\<lambda>d. (map_of (c_fees d) b, d)) s of
      (Inl e, s1) \<Rightarrow> (Inl e, s1) | (Inr w, s1) \<Rightarrow> (Inr (case w of None \<Rightarrow> 0 | Some fee \<Rightarrow> fee), s1))"
    by (auto simp: mongo_GetServerDeliveryFee_def split: prod.splits sum.splits option.splits)
  then show ?thesis
    by (rule reads_cong, intro reads_bind
        [OF call_reads_view [where I = mongo_ok and P = "\<lambda>w. w = map_of (c_fees (conn_data s)) b"]] reads_return)
      (simp_all add: assms mongo_view_def)
qed

lemma doc_lookup:
  assumes "distinct (map permissionKey ps)"
  shows "map_option toPermission (find (\<lambda>x. permissionKey x = k) ps) =
    map_option (perm_of k) (map_of (map doc_entry ps) k)"
proof (cases "find (\<lambda>x. permissionKey x = k) ps")
  case None
  then have "k \<notin> set (map fst (map doc_entry ps))" by (auto simp: find_None_all doc_entry_def)
  then have "map_of (map doc_entry ps) k = None" by (simp only: map_of_eq_None_iff set_map not_False_eq_True)
  with None show ?thesis by simp
next
  case (Some x)
  then have x: "x \<in> set ps" "permissionKey x = k" by (auto dest: find_Some_mem)
  have "map fst (map doc_entry ps) = map permissionKey ps" by (simp add: doc_entry_def)
  then have "distinct (map fst (map doc_entry ps))" using assms by metis
  moreover have "(k, snd (doc_entry x)) \<in> set (map doc_entry ps)" using x by (force simp: doc_entry_def)
  ultimately have "map_of (map doc_entry ps) k = Some (snd (doc_entry x))" by (rule map_of_is_SomeI)
  with Some x show ?thesis
    by (auto simp: perm_of_def doc_entry_def permissionKey_def toPermission_def)
qed

lemma mongo_GetPermission_reads:
  assumes ok: "mongo_ok (conn_data s)"
  shows "mongo_reads (mongo_GetPermission r sd b) s (\<lambda>p. p = perm_at (mongo_view (conn_data s)) (r, sd, b))"
proof -
  let ?g = "\<lambda>d. find (\<lambda>x. permissionKey x = (r, sd, b)) (c_permissions d)"
  have "mongo_GetPermission r sd b s = (case call (\<lambda>d. (?g d, d)) s of
      (Inl e, s1) \<Rightarrow> (Inl e, s1) | (Inr w, s1) \<Rightarrow> (Inr (map_option toPermission w), s1))"
    by (auto simp: mongo_GetPermission_def split: prod.splits sum.splits option.splits)
  moreover have "map_option toPermission (?g (conn_data s)) = perm_at (mongo_view (conn_data s)) (r, sd, b)"
    using ok doc_lookup [of "c_permissions (conn_data s)" "(r, sd, b)"]
    by (simp add: perm_at_def mongo_ok_def)
  ultimately show ?thesis
    using call_reads_map [where I = mongo_ok and g = ?g and h = "map_option toPermission" and W = mongo_view and s = s
        and P = "\<lambda>p. p = perm_at (mongo_view (conn_data s)) (r, sd, b)"] ok
    by (intro reads_cong [of "mongo_GetPermission r sd b" s]) simp_all
qed

lemma perms_frame:
  "mongo_ok d \<Longrightarrow> distinct (map permissionKey ps) \<Longrightarrow> mongo_ok (d\<lparr>c_permissions := ps\<rparr>)"
  by (simp add: mongo_ok_def registrations_def)

lemma update_first_map:
  assumes "distinct (map g xs)"
  shows "update_first (\<lambda>x. g x = k) f xs = map (\<lambda>x. if g x = k then f x else x) xs"
  using assms by (induction xs) (force intro!: map_idI [symmetric] simp: image_iff)+

text \<open>The upsert either finds the key, which \<open>f\<close> keeps, or adds the new document under it.\<close>

lemma upsert_permission_ok:
  assumes ok: "mongo_ok d" and f: "\<And>x. permissionKey (f x) = permissionKey x" and new: "permissionKey new = k"
  shows "\<exists>d'. upsert_permission k f new d = (Reply (), d') \<and> mongo_ok d' \<and>
    mongo_view d' = (mongo_view d)\<lparr>a_perms := (a_perms (mongo_view d))(k \<mapsto> snd (doc_entry
      (case find (\<lambda>x. permissionKey x = k) (c_permissions d) of Some x \<Rightarrow> f x | None \<Rightarrow> new)))\<rparr>"
proof (cases "find (\<lambda>x. permissionKey x = k) (c_permissions d)")
  case (Some x)
  let ?g = "\<lambda>x. if permissionKey x = k then f x else x"
  let ?d' = "d\<lparr>c_permissions := map ?g (c_permissions d)\<rparr>"
  have x: "\<exists>x \<in> set (c_permissions d). permissionKey x = k" using Some by (auto dest: find_Some_mem)
  have dist: "distinct (map permissionKey (c_permissions d))" using ok by (simp add: mongo_ok_def)
  have "map permissionKey (map ?g (c_permissions d)) = map permissionKey (c_permissions d)"
    by (simp add: f)
  with ok dist have ok': "mongo_ok ?d'" by (intro perms_frame) (simp_all del: map_map)
  have "map_of (map doc_entry (map ?g ps)) k' =
     (if k' \<noteq> k then map_of (map doc_entry ps) k'
      else map_option (\<lambda>x. snd (doc_entry (f x))) (find (\<lambda>x. permissionKey x = k) ps))" for ps k'
    by (induction ps) (auto simp: f)
  then have map: "map_of (map doc_entry (map ?g (c_permissions d))) =
      (map_of (map doc_entry (c_permissions d)))(k \<mapsto> snd (doc_entry (f x)))"
    by (simp only: fun_eq_iff Some fun_upd_def) simp
  have "upsert_permission k f new d = (Reply (), ?d')"
    using x update_first_map [OF dist, of k f] by (simp add: upsert_permission_def)
  moreover have "mongo_view ?d' = (mongo_view d)\<lparr>a_perms := (a_perms (mongo_view d))(k \<mapsto> snd (doc_entry (f x)))\<rparr>"
    unfolding mongo_view_upd map by simp
  ultimately show ?thesis using ok' unfolding Some option.case by blast
next
  case None
  let ?d' = "d\<lparr>c_permissions := c_permissions d @ [new]\<rparr>"
  have no: "\<forall>x \<in> set (c_permissions d). permissionKey x \<noteq> k" using None by (simp add: find_None_all)
  have ok': "mongo_ok ?d'" using ok no new by (intro perms_frame) (auto simp: mongo_ok_def)
  have "map_of (map doc_entry (c_permissions d)) k = None"
    using no by (auto simp: map_of_eq_None_iff)
  then have map: "map_of (map doc_entry (c_permissions d @ [new])) =
      (map_of (map doc_entry (c_permissions d)))(k \<mapsto> snd (doc_entry new))"
    by (auto simp: fun_eq_iff map_add_def new split: option.splits)
  have "upsert_permission k f new d = (Reply (), ?d')"
    using no new by (simp add: upsert_permission_def)
  moreover have "mongo_view ?d' = (mongo_view d)\<lparr>a_perms := (a_perms (mongo_view d))(k \<mapsto> snd (doc_entry new))\<rparr>"
    unfolding mongo_view_upd map by simp
  ultimately show ?thesis using ok' unfolding None option.case by blast
qed

lemma find_view:
  "a_perms (mongo_view d) k = map_option (\<lambda>x. snd (doc_entry x)) (find (\<lambda>x. permissionKey x = k) (c_permissions d))"
proof -
  have "map_of (map doc_entry ps) k = map_option (\<lambda>x. snd (doc_entry x)) (find (\<lambda>x. permissionKey x = k) ps)" for ps
    by (induction ps) auto
  then show ?thesis by simp
qed

text \<open>A permission write is one upsert whose reply is ignored.\<close>

lemma upsert_writes:
  assumes ok: "mongo_ok (conn_data s)" and f: "\<And>x. permissionKey (f x) = permissionKey x"
    and new: "permissionKey new = k"
    and R: "R ((mongo_view (conn_data s))\<lparr>a_perms := (a_perms (mongo_view (conn_data s)))(k \<mapsto> snd (doc_entry
      (case find (\<lambda>x. permissionKey x = k) (c_permissions (conn_data s)) of Some x \<Rightarrow> f x | None \<Rightarrow> new)))\<rparr>)"
    and op: "\<And>y s1. call (upsert_permission k f new) s = (y, s1) \<Longrightarrow> y \<noteq> Inr DuplicateKey \<Longrightarrow>
      op s = (case y of Inl e \<Rightarrow> (Inl e, s1) | Inr _ \<Rightarrow> (Inr (), s1))"
  shows "mongo_writes op s (\<lambda>_. R)"
proof -
  let ?u = "upsert_permission k f new"
  obtain d' where d': "?u (conn_data s) = (Reply (), d')" "mongo_ok d'" "R (mongo_view d')"
    using upsert_permission_ok [OF ok f new] R by metis
  have "mongo_writes (call ?u) s (\<lambda>y A. y = Reply () \<and> A = mongo_view d')"
    by (rule call_writes_view [where I = mongo_ok], rule d'(1), rule ok, rule d'(2)) simp
  then have "mongo_writes (\<lambda>s. case call ?u s of (Inl e, s1) \<Rightarrow> (Inl e, s1) | (Inr y, s1) \<Rightarrow> (Inr (), s1)) s (\<lambda>_. R)"
    by (rule writes_map) (simp add: d')
  then show ?thesis
  proof (rule writes_cong [rotated])
    obtain y s1 where y: "call ?u s = (y, s1)" by fastforce
    with call_cases [OF y d'(1)] op [OF y]
    show "op s = (case call ?u s of (Inl e, s1) \<Rightarrow> (Inl e, s1) | (Inr y, s1) \<Rightarrow> (Inr (), s1))" by auto
  qed
qed

lemma mongo_SetPermission_writes:
  assumes ok: "mongo_ok (conn_data s)"
  shows "mongo_writes (mongo_SetPermission r sd b fee) s (\<lambda>_. perm_set (r, sd, b) fee (mongo_view (conn_data s)))"
proof (rule upsert_writes [OF ok, where f = "\<lambda>x. x\<lparr>pd_RecipientFee := fee, pd_UpdatedAt := mongo_now s\<rparr>"
      and k = "(r, sd, b)" and new = "permission_doc r sd b fee (mongo_now s)"])
  show "perm_set (r, sd, b) fee (mongo_view (conn_data s)) ((mongo_view (conn_data s))
     \<lparr>a_perms := (a_perms (mongo_view (conn_data s)))((r, sd, b) \<mapsto> snd (doc_entry
      (case find (\<lambda>x. permissionKey x = (r, sd, b)) (c_permissions (conn_data s)) of
         Some x \<Rightarrow> x\<lparr>pd_RecipientFee := fee, pd_UpdatedAt := mongo_now s\<rparr>
       | None \<Rightarrow> permission_doc r sd b fee (mongo_now s))))\<rparr>)"
    unfolding perm_set_def
    by (intro exI [of _ "mongo_now s"], unfold find_view)
      (simp add: doc_entry_def permission_doc_def split: option.splits)
qed (auto simp: permissionKey_def permission_doc_def mongo_SetPermission_def Let_def
      split: sum.splits reply.splits)

lemma mongo_SetPermissionIfAbsent_writes:
  assumes ok: "mongo_ok (conn_data s)"
  shows "mongo_writes (mongo_SetPermissionIfAbsent r sd b fee) s
     (\<lambda>_. perm_set_if_absent (r, sd, b) fee (mongo_view (conn_data s)))"
proof (rule upsert_writes [OF ok, where f = "\<lambda>x. x" and k = "(r, sd, b)"
      and new = "permission_doc r sd b fee (mongo_now s)"])
  let ?V = "mongo_view (conn_data s)"
  show "perm_set_if_absent (r, sd, b) fee ?V (?V\<lparr>a_perms := (a_perms ?V)((r, sd, b) \<mapsto> snd (doc_entry
      (case find (\<lambda>x. permissionKey x = (r, sd, b)) (c_permissions (conn_data s)) of
         Some x \<Rightarrow> x | None \<Rightarrow> permission_doc r sd b fee (mongo_now s))))\<rparr>)"
  proof (cases "find (\<lambda>x. permissionKey x = (r, sd, b)) (c_permissions (conn_data s))")
    case None
    then have "a_perms ?V (r, sd, b) = None" unfolding find_view by simp
    with None show ?thesis
      unfolding perm_set_if_absent_def
      by (auto simp: doc_entry_def permission_doc_def simp del: mongo_view_sel intro!: exI [of _ "mongo_now s"])
  next
    case (Some x)
    then have a: "a_perms ?V (r, sd, b) = Some (snd (doc_entry x))" unfolding find_view by simp
    then have "(a_perms ?V)((r, sd, b) \<mapsto> snd (doc_entry x)) = a_perms ?V"
      by (rule fun_upd_idem)
    with Some a show ?thesis unfolding perm_set_if_absent_def by (simp del: mongo_view_sel)
  qed
qed (auto simp: permissionKey_def permission_doc_def mongo_SetPermissionIfAbsent_def Let_def
      split: sum.splits reply.splits)

section \<open>Devices\<close>

lemma token_ok: "doc_ok oids n x \<Longrightarrow> dd_FCMToken x = Some (token x)"
  by (auto simp: doc_ok_def token_def stored_token_def split: doc_id.splits)

lemma dev_pair_doc: "dev_pair (deviceDoc_device x) = (dd_IdentityKey x, token x)"
  by (simp add: dev_pair_def deviceDoc_device_def)

lemma deviceDoc_sel [simp]:
  "dv_ID (deviceDoc_device x) = (case dd_ID x of None \<Rightarrow> 0 | Some i \<Rightarrow> i)"
  "dv_DeviceID (deviceDoc_device x) = dd_DeviceID x" "dv_Platform (deviceDoc_device x) = dd_Platform x"
  "dv_Active (deviceDoc_device x) = dd_Active x" "dv_CreatedAt (deviceDoc_device x) = dd_CreatedAt x"
  "dv_UpdatedAt (deviceDoc_device x) = dd_UpdatedAt x" "dv_LastUsed (deviceDoc_device x) = dd_LastUsed x"
  by (simp_all add: deviceDoc_device_def)

lemma pair_of_ok: "doc_ok oids n x \<Longrightarrow> pair_of x = Some (dd_IdentityKey x, token x)"
  by (simp add: pair_of_def token_ok)

lemma byToken_ok: "doc_ok oids n x \<Longrightarrow> byToken tok x \<longleftrightarrow> token x = tok"
proof -
  assume ok: "doc_ok oids n x"
  then have "dd_DocID x = StringKey tok \<Longrightarrow> dd_FCMToken x = Some tok" by (simp add: doc_ok_def)
  with token_ok [OF ok] show ?thesis by (auto simp: byToken_def)
qed

lemma byPair_ok: "doc_ok oids n x \<Longrightarrow> byPair k tok x \<longleftrightarrow> dev_pair (deviceDoc_device x) = (k, tok)"
  by (simp add: byPair_def dev_pair_doc token_ok)

lemma byPair_pair_of: "byPair k tok x \<longleftrightarrow> pair_of x = Some (k, tok)"
  by (auto simp: byPair_def pair_of_def)

lemma devices_ok_pairs:
  assumes "devices_ok oids n docs"
  shows "distinct (map dev_pair (map deviceDoc_device docs))"
proof -
  have "map pair_of docs = map Some (map dev_pair (map deviceDoc_device docs))"
  proof -
    have "pair_of x = Some (dev_pair (deviceDoc_device x))" if "x \<in> set docs" for x
      using assms that pair_of_ok [of oids n x] by (simp add: devices_ok_def dev_pair_doc)
    then show ?thesis by simp
  qed
  moreover have "distinct (map pair_of docs)" using assms by (simp add: devices_ok_def)
  ultimately show ?thesis by (simp only: distinct_map [of Some])
qed

lemma devs_frame:
  "mongo_ok d \<Longrightarrow> devices_ok (next_oid d') (registrations d') (c_devices d') \<Longrightarrow>
   c_messages d' = c_messages d \<Longrightarrow> c_permissions d' = c_permissions d \<Longrightarrow> mongo_ok d'"
  by (simp add: mongo_ok_def)

text \<open>A change that keeps the keys and the token of every document keeps the invariant.\<close>

definition same_keys :: "deviceDoc \<Rightarrow> deviceDoc \<Rightarrow> bool" where
  "same_keys x y \<longleftrightarrow> dd_DocID y = dd_DocID x \<and> dd_FCMToken y = dd_FCMToken x \<and>
     dd_IdentityKey y = dd_IdentityKey x \<and> dd_ID y = dd_ID x"

lemma same_keysD:
  assumes "same_keys x y"
  shows "pair_of y = pair_of x" "doc_ok oids n y = doc_ok oids n x" "token y = token x"
    "dd_DocID y = dd_DocID x" "dd_ID y = dd_ID x" "dd_IdentityKey y = dd_IdentityKey x"
  using assms
  by (simp_all add: same_keys_def pair_of_def doc_ok_def token_def stored_token_def split: doc_id.split)

lemma devices_ok_map:
  assumes "devices_ok oids n docs" and f: "\<And>x. same_keys x (f x)"
  shows "devices_ok oids n (map f docs)"
proof -
  note k = same_keysD [OF f]
  have "map dd_DocID (map f docs) = map dd_DocID docs" "map pair_of (map f docs) = map pair_of docs"
    using k by simp_all
  with assms(1) k show ?thesis by (auto simp: devices_ok_def simp del: map_map)
qed

lemma update_devices_writes:
  assumes ok: "mongo_ok (conn_data s)" and f: "\<And>x. same_keys x (g x)"
    and g: "\<And>x. deviceDoc_device (g x) = f ts (deviceDoc_device x)"
  shows "mongo_writes (call (update_devices (byToken tok) g)) s (\<lambda>_. token_updated tok f (mongo_view (conn_data s)))"
proof -
  let ?d = "conn_data s" and ?h = "\<lambda>x. if byToken tok x then g x else x"
  let ?d' = "?d\<lparr>c_devices := map ?h (c_devices ?d)\<rparr>"
  have "devices_ok (next_oid ?d) (registrations ?d) (map ?h (c_devices ?d))"
    using ok f by (intro devices_ok_map) (auto simp: mongo_ok_def same_keys_def)
  then have ok': "mongo_ok ?d'" by (intro devs_frame [OF ok]) (simp_all add: registrations_def)
  have "deviceDoc_device (?h x) = (if dv_FCMToken (deviceDoc_device x) = tok
      then f ts (deviceDoc_device x) else deviceDoc_device x)" if "x \<in> set (c_devices ?d)" for x
  proof -
    have "doc_ok (next_oid ?d) (registrations ?d) x" using ok that by (simp add: mongo_ok_def devices_ok_def)
    then have "byToken tok x \<longleftrightarrow> dv_FCMToken (deviceDoc_device x) = tok"
      using byToken_ok by (simp add: deviceDoc_device_def)
    then show ?thesis by (simp add: g)
  qed
  then have "deviceDoc_device ` (?h ` set (c_devices ?d)) = (\<lambda>dv. if dv_FCMToken dv = tok then f ts dv else dv) `
      deviceDoc_device ` set (c_devices ?d)"
    unfolding image_image by (intro image_cong) simp_all
  then have "token_updated tok f (mongo_view ?d) (mongo_view ?d')"
    unfolding token_updated_def mongo_view_upd mongo_view_sel set_map by (intro exI [of _ ts]) (simp only:)
  with ok ok' show ?thesis
    by (intro call_writes_view [where I = mongo_ok and d = ?d']) (simp_all add: update_devices_def)
qed

lemma mongo_UnregisterDevice_writes:
  assumes ok: "mongo_ok (conn_data s)"
  shows "mongo_writes (mongo_UnregisterDevice k tok) s
    (\<lambda>_ A'. A' = (mongo_view (conn_data s))\<lparr>a_devs := {dv \<in> a_devs (mongo_view (conn_data s)). dev_pair dv \<noteq> (k, tok)}\<rparr>)"
proof -
  let ?d = "conn_data s"
  let ?ds = "filter (\<lambda>x. \<not> (byToken tok x \<and> dd_IdentityKey x = k)) (c_devices ?d)"
  let ?d' = "?d\<lparr>c_devices := ?ds\<rparr>"
  have dok: "doc_ok (next_oid ?d) (registrations ?d) x" if "x \<in> set (c_devices ?d)" for x
    using ok that by (simp add: mongo_ok_def devices_ok_def)
  have ok': "mongo_ok ?d'" using ok by (auto simp: mongo_ok_def registrations_def devices_ok_def)
  have "deviceDoc_device ` set ?ds = {dv \<in> deviceDoc_device ` set (c_devices ?d). dev_pair dv \<noteq> (k, tok)}"
    using byToken_ok [OF dok] by (auto simp: dev_pair_doc)
  with ok ok' show ?thesis
    by (intro writes_cong [OF _ call_writes_view [where I = mongo_ok and d = ?d']])
      (simp_all add: mongo_UnregisterDevice_def)
qed

lemma dedupe_id:
  assumes "\<forall>x \<in> set docs. doc_ok oids n x"
  shows "dedupe_devices docs = map deviceDoc_device docs"
proof -
  have "token x = stored_token x" if "x \<in> set docs" for x
    using assms that token_ok by (fastforce simp: stored_token_def)
  then have "filter (\<lambda>x. \<not> (stored_token x = [] \<and> token x \<in> set (filter (\<lambda>t. t \<noteq> []) (map stored_token docs)))) docs = docs"
    by (intro filter_id_conv_all) auto
  then show ?thesis unfolding dedupe_devices_def Let_def by (rule arg_cong)
qed

lemma mongo_listDevices_reads:
  assumes ok: "mongo_ok (conn_data s)"
  shows "mongo_reads (mongo_listDevices k act) s
    (\<lambda>ds. sorted (map (\<lambda>dv. - dv_UpdatedAt dv) ds) \<and> distinct ds \<and>
       set ds = {dv \<in> a_devs (mongo_view (conn_data s)). dv_IdentityKey dv = k \<and> (act \<longrightarrow> dv_Active dv)})"
proof -
  let ?d = "conn_data s"
  let ?g = "\<lambda>d. sort_key (\<lambda>x. - dd_UpdatedAt x)
     (filter (\<lambda>x. dd_IdentityKey x = k \<and> (act \<longrightarrow> dd_Active x)) (c_devices d))"
  have dev: "devices_ok (next_oid ?d) (registrations ?d) (c_devices ?d)" using ok by (simp add: mongo_ok_def)
  then have "dedupe_devices (?g ?d) = map deviceDoc_device (?g ?d)"
    by (intro dedupe_id) (auto simp: devices_ok_def)
  moreover have "inj_on deviceDoc_device (set (c_devices ?d))" "distinct (c_devices ?d)"
    using devices_ok_pairs [OF dev] by (auto simp: distinct_map dest: inj_on_imageI2)
  then have "distinct (map deviceDoc_device (?g ?d))"
    by (auto simp: distinct_map intro: inj_on_subset)
  moreover have "sorted (map (\<lambda>dv. - dv_UpdatedAt dv) (map deviceDoc_device (?g ?d)))"
    using sorted_sort_key [of "\<lambda>x. - dd_UpdatedAt x"] by (simp add: comp_def deviceDoc_device_def)
  moreover have "set (map deviceDoc_device (?g ?d)) =
      {dv \<in> a_devs (mongo_view ?d). dv_IdentityKey dv = k \<and> (act \<longrightarrow> dv_Active dv)}"
    by (auto simp: deviceDoc_device_def)
  ultimately have "mongo_reads (\<lambda>s. case call (\<lambda>d. (?g d, d)) s of (Inl e, s1) \<Rightarrow> (Inl e, s1)
      | (Inr w, s1) \<Rightarrow> (Inr (dedupe_devices w), s1)) s
    (\<lambda>ds. sorted (map (\<lambda>dv. - dv_UpdatedAt dv) ds) \<and> distinct ds \<and>
       set ds = {dv \<in> a_devs (mongo_view (conn_data s)). dv_IdentityKey dv = k \<and> (act \<longrightarrow> dv_Active dv)})"
    by (intro call_reads_map [where I = mongo_ok] ok) simp
  then show ?thesis by (rule reads_cong [rotated]) (simp add: mongo_listDevices_def)
qed

section \<open>Registering a device\<close>

lemma devices_ok_mono:
  assumes "devices_ok oids n docs" and "n \<le> m" and "oids \<le> oids'"
  shows "devices_ok oids' m docs"
proof -
  have "doc_ok oids n x \<Longrightarrow> doc_ok oids' m x" for x
    using assms(2,3) by (auto simp: doc_ok_def split: doc_id.splits option.splits)
  with assms show ?thesis by (auto simp: devices_ok_def)
qed

lemma devices_ok_append:
  assumes "devices_ok oids n docs" and "doc_ok oids n x"
    and new: "\<And>y. y \<in> set docs \<Longrightarrow> dd_DocID x \<noteq> dd_DocID y \<and> pair_of x \<noteq> pair_of y \<and> dd_ID x \<noteq> dd_ID y"
  shows "devices_ok oids n (docs @ [x])"
proof -
  have "dd_DocID x \<notin> dd_DocID ` set docs" "pair_of x \<notin> pair_of ` set docs" using new by auto
  moreover have "\<And>y. y \<in> set docs \<Longrightarrow> dd_ID x = dd_ID y \<Longrightarrow> False" using new by blast
  ultimately show ?thesis using assms(1,2) unfolding devices_ok_def by (simp, metis)
qed

text \<open>Replacing the one document of a pair, with its registration id kept or newly assigned.\<close>

definition repl :: "string \<times> string \<Rightarrow> (deviceDoc \<Rightarrow> deviceDoc) \<Rightarrow> deviceDoc list \<Rightarrow> deviceDoc list" where
  "repl p f docs = map (\<lambda>y. if pair_of y = Some p then f y else y) docs"

definition keeps_pair :: "(deviceDoc \<Rightarrow> deviceDoc) \<Rightarrow> bool" where
  "keeps_pair f \<longleftrightarrow> (\<forall>x. dd_DocID (f x) = dd_DocID x \<and> dd_FCMToken (f x) = dd_FCMToken x \<and>
     dd_IdentityKey (f x) = dd_IdentityKey x)"

lemma keeps_pairD:
  assumes "keeps_pair f"
  shows "dd_DocID (f x) = dd_DocID x" "pair_of (f x) = pair_of x" "token (f x) = token x"
    "dd_FCMToken (f x) = dd_FCMToken x" "dd_IdentityKey (f x) = dd_IdentityKey x"
  using assms by (simp_all add: keeps_pair_def pair_of_def token_def stored_token_def)

lemma pair_unique_doc:
  assumes "devices_ok oids n docs" and "x \<in> set docs" and "y \<in> set docs" and "pair_of x = pair_of y"
  shows "x = y"
  using assms map_of_distinct_eq [of pair_of docs x y] by (simp add: devices_ok_def)

lemma repl_view:
  assumes "devices_ok oids n docs" and "x \<in> set docs" and "pair_of x = Some p"
  shows "deviceDoc_device ` set (repl p f docs) =
    insert (deviceDoc_device (f x)) {dv \<in> deviceDoc_device ` set docs. dev_pair dv \<noteq> p}"
proof -
  have pd: "pair_of y = Some p \<longleftrightarrow> dev_pair (deviceDoc_device y) = p" if "y \<in> set docs" for y
    using assms(1) that pair_of_ok [of oids n y] by (simp add: devices_ok_def dev_pair_doc)
  have "y = x" if "y \<in> set docs" "pair_of y = Some p" for y
    using pair_unique_doc [OF assms(1)] assms(2,3) that by metis
  then have "set docs = insert x {y \<in> set docs. pair_of y \<noteq> Some p}" using assms(2) by blast
  then have "set (repl p f docs) = (\<lambda>y. if pair_of y = Some p then f y else y) ` insert x {y \<in> set docs. pair_of y \<noteq> Some p}"
    unfolding repl_def set_map by (rule arg_cong)
  also have "\<dots> = insert (f x) {y \<in> set docs. pair_of y \<noteq> Some p}" using assms(3) by auto
  finally have "deviceDoc_device ` set (repl p f docs) =
      insert (deviceDoc_device (f x)) (deviceDoc_device ` {y \<in> set docs. pair_of y \<noteq> Some p})" by simp
  moreover have "deviceDoc_device ` {y \<in> set docs. pair_of y \<noteq> Some p} =
      {dv \<in> deviceDoc_device ` set docs. dev_pair dv \<noteq> p}"
    using pd by auto
  ultimately show ?thesis by simp
qed

lemma repl_ok:
  assumes ok: "devices_ok oids n docs" and f: "keeps_pair f" and x: "x \<in> set docs" "pair_of x = Some p"
    and id: "dd_ID (f x) = dd_ID x \<or> (dd_ID x = None \<and> dd_ID (f x) = Some (n + 1))"
  shows "devices_ok oids (n + 1) (repl p f docs)"
proof -
  let ?g = "\<lambda>y. if pair_of y = Some p then f y else y"
  note k = keeps_pairD [OF f]
  have n: "0 \<le> n" and dok: "\<And>y. y \<in> set docs \<Longrightarrow> doc_ok oids n y" using ok by (auto simp: devices_ok_def)
  have px: "y = x" if "y \<in> set docs" "pair_of y = Some p" for y
    using pair_unique_doc [OF ok] x that by metis
  have "map dd_DocID (repl p f docs) = map dd_DocID docs" "map pair_of (repl p f docs) = map pair_of docs"
    using k by (auto simp: repl_def)
  moreover have "doc_ok oids (n + 1) (?g y)" if "y \<in> set docs" for y
    using dok [OF that] k px [OF that] id n
    by (auto simp: doc_ok_def split: doc_id.splits option.splits)
  moreover have inj: "?g y = ?g z" if "y \<in> set docs" "z \<in> set docs" "dd_ID (?g y) \<noteq> None" "dd_ID (?g y) = dd_ID (?g z)" for y z
  proof -
    have le: "dd_ID w \<noteq> Some (n + 1)" if "w \<in> set docs" for w
      using dok [OF that] by (auto simp: doc_ok_def)
    have old: "u = v" if "u \<in> set docs" "v \<in> set docs" "dd_ID u \<noteq> None" "dd_ID u = dd_ID v" for u v
      using ok that by (auto simp: devices_ok_def)
    have "y = z"
      using that id px le old by (smt (verit) k)
    then show ?thesis by simp
  qed
  ultimately show ?thesis
    unfolding devices_ok_def
  proof (intro conjI ballI impI)
    show "\<And>y. y \<in> set (repl p f docs) \<Longrightarrow> doc_ok oids (n + 1) y"
      using \<open>\<And>y. y \<in> set docs \<Longrightarrow> doc_ok oids (n + 1) (?g y)\<close> unfolding repl_def set_map by blast
    show "\<And>y z. y \<in> set (repl p f docs) \<Longrightarrow> z \<in> set (repl p f docs) \<Longrightarrow> dd_ID y \<noteq> None \<Longrightarrow> dd_ID y = dd_ID z \<Longrightarrow> y = z"
      using inj unfolding repl_def set_map by blast
  qed (use ok n in \<open>simp_all add: devices_ok_def\<close>)
qed

text \<open>What the upsert leaves: a new document, or the pair's document refreshed.\<close>

definition touch :: "NewDevice \<Rightarrow> time \<Rightarrow> deviceDoc \<Rightarrow> deviceDoc" where
  "touch nd ts x = x\<lparr>dd_DeviceID := nd_DeviceID nd, dd_Platform := nd_Platform nd, dd_Active := True,
     dd_UpdatedAt := ts, dd_LastUsed := Some ts\<rparr>"

lemma touch_keeps: "keeps_pair (touch nd ts)" "keeps_pair (\<lambda>x. (touch nd ts x)\<lparr>dd_ID := i\<rparr>)"
  by (simp_all add: keeps_pair_def touch_def)

lemma touch_id [simp]: "dd_ID (touch nd ts x) = dd_ID x"
  by (simp add: touch_def)

lemma repl_registered:
  assumes ok: "devices_ok oids n docs" and x: "x \<in> set docs" "pair_of x = Some (nd_IdentityKey nd, nd_FCMToken nd)"
    and A: "a_devs A = deviceDoc_device ` set docs"
    and f: "f x = (touch nd ts x)\<lparr>dd_ID := Some i\<rparr>" and id: "dd_ID x = Some i \<or> (dd_ID x = None \<and> i = n + 1)"
  shows "registered nd i A (A\<lparr>a_devs := deviceDoc_device ` set (repl (nd_IdentityKey nd, nd_FCMToken nd) f docs)\<rparr>)"
    (is "registered nd i A (A\<lparr>a_devs := ?D\<rparr>)")
proof -
  let ?p = "(nd_IdentityKey nd, nd_FCMToken nd)" and ?dv = "deviceDoc_device (f x)"
  have D: "?D = insert ?dv {dv \<in> a_devs A. dev_pair dv \<noteq> ?p}"
    unfolding A by (rule repl_view [OF ok x])
  have dok: "\<And>y. y \<in> set docs \<Longrightarrow> doc_ok oids n y" and n: "0 \<le> n" using ok by (auto simp: devices_ok_def)
  have px: "dev_pair (deviceDoc_device x) = ?p"
    using x dok pair_of_ok [of oids n x] by (simp add: dev_pair_doc)
  then have pdv: "dev_pair ?dv = ?p"
    unfolding dev_pair_doc f by (simp add: keeps_pairD [OF touch_keeps(2)])
  have i: "0 < i" using id dok [OF x(1)] n by (auto simp: doc_ok_def)
  have same: "y = x" if "y \<in> set docs" "dev_pair (deviceDoc_device y) = ?p" for y
    using that pair_unique_doc [OF ok that(1) x(1)] pair_of_ok [OF dok [OF that(1)]] x(2) by (simp add: dev_pair_doc)
  have ids: "dd_ID y \<noteq> Some i" if "y \<in> set docs" "y \<noteq> x" for y
    using that id x dok [OF that(1)] ok by (auto simp: doc_ok_def devices_ok_def)
  show ?thesis
    unfolding registered_def
  proof (intro exI conjI ballI impI)
    show "A\<lparr>a_devs := ?D\<rparr> = A\<lparr>a_devs := insert ?dv {y \<in> a_devs A. dev_pair y \<noteq> ?p}\<rparr>" using D by simp
    fix old
    assume "old \<in> a_devs A"
    then obtain y where y: "y \<in> set docs" "old = deviceDoc_device y" using A by auto
    show "dev_pair old = dev_pair ?dv \<Longrightarrow> dv_ID old = i \<or> dv_ID old = 0"
      "dev_pair old = dev_pair ?dv \<Longrightarrow> dv_CreatedAt ?dv = dv_CreatedAt old"
      using same [OF y(1)] y id unfolding pdv by (auto simp: f touch_def)
    show "dev_pair old \<noteq> dev_pair ?dv \<Longrightarrow> dv_ID old \<noteq> i"
      using ids [OF y(1)] y px i unfolding pdv by (auto split: option.splits)
  qed (use pdv i in \<open>simp_all add: f touch_def\<close>)
qed

lemma registrations_upd [simp]:
  "registrations (d\<lparr>c_devices := ds\<rparr>) = registrations d" "registrations (d\<lparr>next_oid := k\<rparr>) = registrations d"
  by (simp_all add: registrations_def)

lemma others_kept_trans: "others_kept nd A B \<Longrightarrow> others_kept nd B C \<Longrightarrow> others_kept nd A C"
  by (auto simp: others_kept_def)

text \<open>The three statements of \<open>RegisterDevice\<close> on the data. After the counter, every id in use is
  below the value drawn.\<close>

definition drawn :: "int \<Rightarrow> mongo_db \<Rightarrow> bool" where
  "drawn seq d \<longleftrightarrow> mongo_ok d \<and> registrations d = seq \<and> devices_ok (next_oid d) (seq - 1) (c_devices d)"

lemma inc_counter_ok:
  assumes "mongo_ok d"
  shows "\<exists>d'. inc_counter devicesColl d = (registrations d + 1, d') \<and> drawn (registrations d + 1) d' \<and>
    mongo_view d' = mongo_view d"
proof -
  let ?d' = "d\<lparr>c_counters := (c_counters d)(devicesColl \<mapsto> registrations d + 1)\<rparr>"
  have "registrations ?d' = registrations d + 1" by (simp add: registrations_def)
  moreover have "devices_ok (next_oid d) (registrations d + 1) (c_devices d)"
    using assms by (auto simp: mongo_ok_def elim: devices_ok_mono)
  ultimately show ?thesis
    using assms by (intro exI [of _ ?d'], simp only: drawn_def mongo_ok_def)
      (simp add: inc_counter_def Let_def registrations_def split: option.splits)
qed

lemma update_first_repl:
  assumes "devices_ok oids n docs"
  shows "update_first (byPair k tok) f docs = repl (k, tok) f docs"
  using assms update_first_map [of pair_of docs "Some (k, tok)" f]
  by (simp add: repl_def devices_ok_def byPair_pair_of [abs_def])

lemma upsert_deviceDoc_ok:
  assumes dr: "drawn seq d"
  shows "\<exists>k i d'. upsert_deviceDoc nd seq ts d = (Reply (k, i), d') \<and> mongo_ok d' \<and>
     others_kept nd (mongo_view d) (mongo_view d') \<and>
     (if 0 < i then registered nd i (mongo_view d) (mongo_view d')
      else \<exists>x. x \<in> set (c_devices d) \<and> pair_of x = Some (nd_IdentityKey nd, nd_FCMToken nd) \<and> dd_ID x = None \<and>
        k = dd_DocID x \<and> d' = d\<lparr>c_devices := repl (nd_IdentityKey nd, nd_FCMToken nd) (touch nd ts) (c_devices d)\<rparr>)"
proof -
  let ?p = "(nd_IdentityKey nd, nd_FCMToken nd)" and ?docs = "c_devices d"
  have dok: "devices_ok (next_oid d) (seq - 1) ?docs" and ok: "mongo_ok d" and reg: "registrations d = seq"
    using dr by (auto simp: drawn_def)
  show ?thesis
  proof (cases "find (byPair (nd_IdentityKey nd) (nd_FCMToken nd)) ?docs")
    case (Some x)
    then have x: "x \<in> set ?docs" "pair_of x = Some ?p" by (auto dest: find_Some_mem simp: byPair_pair_of)
    let ?d' = "d\<lparr>c_devices := repl ?p (touch nd ts) ?docs\<rparr>"
    let ?i = "case dd_ID x of None \<Rightarrow> 0 | Some i \<Rightarrow> i"
    have "upsert_deviceDoc nd seq ts d = (Reply (dd_DocID x, ?i), ?d')"
      using Some update_first_repl [OF dok, of "nd_IdentityKey nd" "nd_FCMToken nd" "touch nd ts"]
      by (simp add: upsert_deviceDoc_def touch_def [abs_def])
    moreover have "mongo_ok ?d'"
      using repl_ok [OF dok touch_keeps(1) x, of nd ts] ok reg by (intro devs_frame [OF ok]) simp_all
    moreover have "others_kept nd (mongo_view d) (mongo_view ?d')"
    proof -
      have "pair_of x = Some (dd_IdentityKey x, token x)"
        using dok x(1) pair_of_ok [of "next_oid d" "seq - 1" x] by (simp add: devices_ok_def)
      with x(2) have "dev_pair (deviceDoc_device (touch nd ts x)) = ?p"
        by (simp add: dev_pair_doc keeps_pairD [OF touch_keeps(1)])
      then show ?thesis
        unfolding others_kept_def mongo_view_upd repl_view [OF dok x] mongo_view_sel
        by (intro exI [of _ "insert (deviceDoc_device (touch nd ts x)) {dv \<in> deviceDoc_device ` set ?docs. dev_pair dv \<noteq> ?p}"]) auto
    qed
    moreover have "registered nd i (mongo_view d) (mongo_view ?d')" if "dd_ID x = Some i" for i
      using repl_registered [OF dok x, where A = "mongo_view d" and f = "touch nd ts" and ts = ts and i = i] that
      by (simp add: touch_def)
    moreover have "0 < i" if "dd_ID x = Some i" for i
      using that dok x by (auto simp: devices_ok_def doc_ok_def)
    ultimately show ?thesis using x by (cases "dd_ID x") fastforce+
  next
    case None
    let ?x = "\<lparr>dd_DocID = ObjectID (next_oid d), dd_FCMToken = Some (nd_FCMToken nd), dd_IdentityKey = nd_IdentityKey nd,
      dd_DeviceID = nd_DeviceID nd, dd_Platform = nd_Platform nd, dd_Active = True, dd_CreatedAt = ts,
      dd_UpdatedAt = ts, dd_LastUsed = Some ts, dd_ID = Some seq\<rparr>"
    let ?d' = "d\<lparr>c_devices := ?docs @ [?x], next_oid := next_oid d + 1\<rparr>"
    have dx: "doc_ok (next_oid d) (seq - 1) y" if "y \<in> set ?docs" for y
      using dok that by (simp add: devices_ok_def)
    have no: "pair_of y \<noteq> Some ?p" if "y \<in> set ?docs" for y
      using None that by (auto simp: find_None_all byPair_pair_of)
    have seq: "0 < seq" using dok by (simp add: devices_ok_def)
    have oid: "dd_DocID y \<noteq> ObjectID (next_oid d)" "dd_ID y \<noteq> Some seq" if "y \<in> set ?docs" for y
      using dx [OF that] by (auto simp: doc_ok_def)
    have "devices_ok (next_oid d + 1) seq ?docs" by (rule devices_ok_mono [OF dok]) simp_all
    then have "devices_ok (next_oid d + 1) seq (?docs @ [?x])"
    proof (rule devices_ok_append)
      fix y
      assume y: "y \<in> set ?docs"
      show "dd_DocID ?x \<noteq> dd_DocID y \<and> pair_of ?x \<noteq> pair_of y \<and> dd_ID ?x \<noteq> dd_ID y"
        using no [OF y] oid [OF y] by (cases "dd_FCMToken y") (auto simp: pair_of_def)
    qed (use seq in \<open>simp add: doc_ok_def\<close>)
    then have "mongo_ok ?d'" using reg by (intro devs_frame [OF ok]) simp_all
    moreover have "registered nd seq (mongo_view d) (mongo_view ?d')"
      unfolding registered_def
    proof (intro exI conjI ballI impI)
      have dp: "dev_pair (deviceDoc_device y) \<noteq> ?p" if "y \<in> set ?docs" for y
        using no [OF that] pair_of_ok [OF dx [OF that]] by (simp add: dev_pair_doc)
      then have "{dv \<in> a_devs (mongo_view d). dev_pair dv \<noteq> ?p} = a_devs (mongo_view d)" by auto
      then show "mongo_view ?d' = (mongo_view d)\<lparr>a_devs := insert (deviceDoc_device ?x) {dv \<in> a_devs (mongo_view d). dev_pair dv \<noteq> ?p}\<rparr>"
        by simp
      show "dev_pair (deviceDoc_device ?x) = ?p"
        by (simp add: dev_pair_doc token_def stored_token_def)
      fix old
      assume old: "old \<in> a_devs (mongo_view d)"
      show "dev_pair old = dev_pair (deviceDoc_device ?x) \<Longrightarrow> dv_ID old = seq \<or> dv_ID old = 0"
        "dev_pair old = dev_pair (deviceDoc_device ?x) \<Longrightarrow> dv_CreatedAt (deviceDoc_device ?x) = dv_CreatedAt old"
        using old dp by (auto simp: \<open>dev_pair (deviceDoc_device ?x) = ?p\<close>)
      show "dv_ID old \<noteq> seq" using old oid seq by (auto split: option.splits)
    qed (use seq in simp_all)
    ultimately show ?thesis
      using None seq registered_others [of nd seq]
      by (intro exI [of _ "ObjectID (next_oid d)"] exI [of _ seq] exI [of _ ?d']) (simp add: upsert_deviceDoc_def)
  qed
qed

lemma set_missing_id_ok:
  assumes dr: "drawn seq d" and x: "x \<in> set (c_devices d)" "pair_of x = Some (nd_IdentityKey nd, nd_FCMToken nd)"
    and id: "dd_ID x = None"
    and d2: "d2 = d\<lparr>c_devices := repl (nd_IdentityKey nd, nd_FCMToken nd) (touch nd ts) (c_devices d)\<rparr>"
  shows "\<exists>d3 y. set_missing_id (dd_DocID x) seq d2 = ((), d3) \<and> mongo_ok d3 \<and>
    registered nd seq (mongo_view d) (mongo_view d3) \<and>
    find (\<lambda>y. dd_DocID y = dd_DocID x) (c_devices d3) = Some y \<and> dd_ID y = Some seq"
proof -
  let ?p = "(nd_IdentityKey nd, nd_FCMToken nd)" and ?docs = "c_devices d" and ?k = "dd_DocID x"
  let ?f = "\<lambda>x. (touch nd ts x)\<lparr>dd_ID := Some seq\<rparr>"
  have dok: "devices_ok (next_oid d) (seq - 1) ?docs" and ok: "mongo_ok d" and reg: "registrations d = seq"
    using dr by (auto simp: drawn_def)
  have eq: "update_first (\<lambda>x. dd_DocID x = ?k \<and> dd_ID x = None) (\<lambda>x. x\<lparr>dd_ID := Some seq\<rparr>) (repl ?p (touch nd ts) ds)
      = repl ?p ?f ds \<and> (x \<in> set ds \<longrightarrow> find (\<lambda>y. dd_DocID y = ?k) (repl ?p ?f ds) = Some (?f x))"
    if "distinct (map dd_DocID ds)" "distinct (map pair_of ds)"
      "\<And>y. y \<in> set ds \<Longrightarrow> (dd_DocID y = ?k \<longleftrightarrow> y = x) \<and> (pair_of y = Some ?p \<longleftrightarrow> y = x)" for ds
    using that
  proof (induction ds)
    case (Cons y ds)
    have k: "dd_DocID (touch nd ts y) = dd_DocID y" "dd_DocID (?f y) = dd_DocID y"
      by (simp_all add: touch_def)
    show ?case
    proof (cases "y = x")
      case True
      then have "x \<notin> set ds" using Cons.prems(1) by auto
      then have "\<forall>z \<in> set ds. pair_of z \<noteq> Some ?p" using Cons.prems(3) by auto
      then have "repl ?p g ds = ds" for g by (simp add: repl_def map_idI)
      with True x(2) id k show ?thesis by (simp add: repl_def)
    next
      case False
      then have "dd_DocID y \<noteq> ?k" "pair_of y \<noteq> Some ?p" using Cons.prems(3) [of y] by auto
      with False Cons show ?thesis by (simp add: repl_def)
    qed
  qed (simp add: repl_def)
  have uniq: "(dd_DocID y = ?k \<longleftrightarrow> y = x) \<and> (pair_of y = Some ?p \<longleftrightarrow> y = x)" if "y \<in> set ?docs" for y
    using that x dok map_of_distinct_eq [of dd_DocID ?docs y x] pair_unique_doc [OF dok that x(1)]
    by (auto simp: devices_ok_def)
  have dist: "distinct (map dd_DocID ?docs)" "distinct (map pair_of ?docs)" using dok by (simp_all add: devices_ok_def)
  let ?d3 = "d\<lparr>c_devices := repl ?p ?f ?docs\<rparr>"
  have "set_missing_id ?k seq d2 = ((), ?d3)"
    using eq [OF dist uniq] by (simp add: set_missing_id_def d2)
  moreover have "mongo_ok ?d3"
    using repl_ok [OF dok touch_keeps(2) x, of "Some seq" nd ts] id reg by (intro devs_frame [OF ok]) simp_all
  moreover have "registered nd seq (mongo_view d) (mongo_view ?d3)"
    using repl_registered [OF dok x, where A = "mongo_view d" and f = ?f and ts = ts and i = seq] id by simp
  moreover have "find (\<lambda>y. dd_DocID y = ?k) (c_devices ?d3) = Some (?f x)"
    using eq [OF dist uniq] x(1) by simp
  ultimately show ?thesis by (intro exI [of _ ?d3] exI [of _ "?f x"]) simp
qed

lemma mongo_RegisterDevice_ok:
  assumes ok: "mongo_ok (conn_data s)" and eq: "mongo_RegisterDevice nd s = (z, s')"
  shows "mongo_ok (conn_data s') \<and> (healthy s \<longrightarrow> healthy s' \<and> (\<exists>i. z = Inr i)) \<and>
    (case z of Inr i \<Rightarrow> registered nd i (mongo_view (conn_data s)) (mongo_view (conn_data s'))
     | Inl e \<Rightarrow> e = ErrBackend \<and> others_kept nd (mongo_view (conn_data s)) (mongo_view (conn_data s')))"
    (is "?goal z s'")
proof -
  let ?d = "conn_data s" and ?seq = "registrations (conn_data s) + 1"
  obtain d1 where d1: "inc_counter devicesColl ?d = (?seq, d1)" "drawn ?seq d1" "mongo_view d1 = mongo_view ?d"
    using inc_counter_ok [OF ok] by blast
  have ok1: "mongo_ok d1" using d1(2) by (simp add: drawn_def)
  obtain y1 s1 where y1: "call (inc_counter devicesColl) s = (y1, s1)" by fastforce
  note c1 = call_cases [OF y1 d1(1)]
  let ?ts = "mongo_now s1"
  obtain k i d2 where d2: "upsert_deviceDoc nd ?seq ?ts d1 = (Reply (k, i), d2)" "mongo_ok d2"
     "others_kept nd (mongo_view d1) (mongo_view d2)"
     "if 0 < i then registered nd i (mongo_view d1) (mongo_view d2)
      else \<exists>x. x \<in> set (c_devices d1) \<and> pair_of x = Some (nd_IdentityKey nd, nd_FCMToken nd) \<and> dd_ID x = None \<and>
        k = dd_DocID x \<and> d2 = d1\<lparr>c_devices := repl (nd_IdentityKey nd, nd_FCMToken nd) (touch nd ?ts) (c_devices d1)\<rparr>"
    using upsert_deviceDoc_ok [OF d1(2)] by metis
  show ?thesis
  proof (cases y1)
    case (Inl e)
    with c1 have "s' = s1" "z = Inl e" "e = ErrBackend" "\<not> healthy s" "conn_data s1 = ?d \<or> conn_data s1 = d1"
      using eq y1 by (auto simp: mongo_RegisterDevice_def nextSeq_def)
    with ok ok1 d1(3) show ?thesis by (auto simp: others_kept_refl)
  next
    case (Inr n)
    with c1 have n: "n = ?seq" "conn_data s1 = d1" "healthy s \<longrightarrow> healthy s1" by auto
    obtain y2 s2 where y2: "call (upsert_deviceDoc nd ?seq ?ts) s1 = (y2, s2)" by fastforce
    note c2 = call_cases [OF y2, of "Reply (k, i)" d2, unfolded n(2), OF d2(1)]
    show ?thesis
    proof (cases y2)
      case (Inl e)
      with c2 have "s' = s2" "z = Inl e" "e = ErrBackend" "\<not> healthy s1" "conn_data s2 = d1 \<or> conn_data s2 = d2"
        using eq y1 y2 Inr n by (auto simp: mongo_RegisterDevice_def nextSeq_def upsert_deviceDoc_retry_def)
      with n ok1 d1(3) d2(2,3) show ?thesis by (auto simp: others_kept_refl)
    next
      case (Inr r)
      with c2 have r: "r = Reply (k, i)" "conn_data s2 = d2" "healthy s1 \<longrightarrow> healthy s2" by auto
      have rest: "(if 0 < i then (Inr i, s2)
               else (case call (set_missing_id k ?seq) s2 of
                  (Inl e, s3) \<Rightarrow> (Inl e, s3)
                | (Inr _, s3) \<Rightarrow>
                    (case call (\<lambda>d. (find (\<lambda>x. dd_DocID x = k) (c_devices d), d)) s3 of
                       (Inl e, s4) \<Rightarrow> (Inl e, s4)
                     | (Inr None, s4) \<Rightarrow> (Inl ErrBackend, s4)
                     | (Inr (Some x), s4) \<Rightarrow>
                         (Inr (case dd_ID x of None \<Rightarrow> 0 | Some n \<Rightarrow> n), s4)))) = (z, s')"
        using eq y1 y2 Inr r(1) \<open>y1 = Inr n\<close> n(1)
        by (simp add: mongo_RegisterDevice_def nextSeq_def upsert_deviceDoc_retry_def)
      show ?thesis
      proof (cases "0 < i")
        case True
        with rest have "z = Inr i" "s' = s2" by auto
        with True n r d1(3) d2 show ?thesis by auto
      next
        case False
        then obtain x where x: "x \<in> set (c_devices d1)" "pair_of x = Some (nd_IdentityKey nd, nd_FCMToken nd)"
            "dd_ID x = None" "k = dd_DocID x"
            "d2 = d1\<lparr>c_devices := repl (nd_IdentityKey nd, nd_FCMToken nd) (touch nd ?ts) (c_devices d1)\<rparr>"
          using d2(4) by auto
        obtain d3 v where d3: "set_missing_id k ?seq d2 = ((), d3)" "mongo_ok d3"
            "registered nd ?seq (mongo_view d1) (mongo_view d3)"
            "find (\<lambda>y. dd_DocID y = k) (c_devices d3) = Some v" "dd_ID v = Some ?seq"
          using set_missing_id_ok [OF d1(2) x(1-3,5)] x(4) by blast
        obtain y3 s3 where y3: "call (set_missing_id k ?seq) s2 = (y3, s3)" by fastforce
        note c3 = call_cases [OF y3, of "()" d3, unfolded r(2), OF d3(1)]
        obtain y4 s4 where y4: "call (\<lambda>d. (find (\<lambda>x. dd_DocID x = k) (c_devices d), d)) s3 = (y4, s4)" by fastforce
        note c4 = call_cases [OF y4 refl]
        have ok3: "others_kept nd (mongo_view d1) (mongo_view d3)" by (rule registered_others [OF d3(3)])
        from c3 show ?thesis
        proof
          assume "y3 = Inl ErrBackend \<and> \<not> healthy s2 \<and> (conn_data s3 = d2 \<or> conn_data s3 = d3)"
          with rest False y3 n r d1(3) d2(2,3) d3(2) ok3 show ?thesis by auto
        next
          assume y: "y3 = Inr () \<and> conn_data s3 = d3 \<and> (healthy s2 \<longrightarrow> healthy s3)"
          with c4 have "(y4 = Inr (Some v) \<and> conn_data s4 = d3 \<and> (healthy s3 \<longrightarrow> healthy s4)) \<or>
              (y4 = Inl ErrBackend \<and> \<not> healthy s3 \<and> conn_data s4 = d3)"
            using d3(4) by auto
          with rest False y3 y y4 n r d1(3) d3 ok3 show ?thesis by auto
        qed
      qed
    qed
  qed
qed

section \<open>The interpretation\<close>

definition MongoStore :: "string list \<Rightarrow> mongo Store" where
  "MongoStore colls =
     \<lparr>InsertMessage = mongo_InsertMessage, ListMessages = mongo_ListMessages,
      AcknowledgeMessages = mongo_AcknowledgeMessages, PageMessages = Some mongo_PageMessages,
      SetPermission = mongo_SetPermission, SetPermissionIfAbsent = mongo_SetPermissionIfAbsent,
      GetPermission = mongo_GetPermission, ListPermissions = mongo_ListPermissions,
      RegisterDevice = mongo_RegisterDevice, ListDevices = mongo_ListDevices,
      ListActiveDevices = mongo_ListActiveDevices, UpdateDeviceLastUsed = mongo_UpdateDeviceLastUsed,
      DeactivateDevice = mongo_DeactivateDevice, UnregisterDevice = mongo_UnregisterDevice,
      GetServerDeliveryFee = mongo_GetServerDeliveryFee, EnsureSchema = mongo_EnsureSchema colls\<rparr>"

interpretation mongoStore: full_store "MongoStore colls" "\<lambda>s. mongo_ok (conn_data s)" healthy
  "\<lambda>s. mongo_view (conn_data s)" for colls
proof unfold_locales
  fix s s' :: mongo and m x e and q :: MessagePageQuery and nd k tok f and i :: int and y
  assume ok: "mongo_ok (conn_data s)"
  show "finite (a_msgs (mongo_view (conn_data s)))" by simp
  show "inj_on msg_id (a_msgs (mongo_view (conn_data s)))"
    using ok by (auto simp: mongo_ok_def distinct_map inj_on_def)
  show "inj_on dev_pair (a_devs (mongo_view (conn_data s)))"
    using ok devices_ok_pairs [of _ _ "c_devices (conn_data s)"]
    by (auto simp: mongo_ok_def distinct_map intro: inj_on_imageI)
  show "mongo_ok (conn_data s') \<and> (healthy s \<longrightarrow> healthy s' \<and> x \<noteq> Inl ErrBackend)"
    if "InsertMessage (MongoStore colls) m s = (x, s')"
    using mongo_InsertMessage_ok(1,2) [OF ok, of m x s'] that by (simp add: MongoStore_def)
  show "inserted m (mongo_view (conn_data s)) (mongo_view (conn_data s'))"
    if "InsertMessage (MongoStore colls) m s = (Inr (), s')"
    using mongo_InsertMessage_ok(3) [OF ok, of m "Inr ()" s'] that by (simp add: MongoStore_def)
  show "nm_MessageID m \<in> msg_ids (mongo_view (conn_data s)) \<and> mongo_view (conn_data s') = mongo_view (conn_data s)"
    if "InsertMessage (MongoStore colls) m s = (Inl ErrDuplicateMessage, s')"
    using mongo_InsertMessage_ok(4) [OF ok, of m _ s'] that by (simp add: MongoStore_def)
  show "e \<in> {ErrDuplicateMessage, ErrBackend} \<and> (mongo_view (conn_data s') = mongo_view (conn_data s) \<or>
      inserted m (mongo_view (conn_data s)) (mongo_view (conn_data s')))"
    if "InsertMessage (MongoStore colls) m s = (Inl e, s')"
    using mongo_InsertMessage_ok(5) [OF ok, of m _ s' e] that by (simp add: MongoStore_def)
  show "mongo_reads (f q) s (\<lambda>xs. \<exists>all. listing (mongo_view (conn_data s)) (mq_Recipient q) (mq_MessageBox q) all \<and>
      xs = take (nat (mq_FetchLimit q)) (drop (nat (mq_Offset q)) (id_filter (mq_MessageID q) all)))"
    if "PageMessages (MongoStore colls) = Some f" "1 \<le> mq_FetchLimit q" "0 \<le> mq_Offset q"
    using mongo_PageMessages_reads [OF ok that(2,3)] that(1) by (auto simp: MongoStore_def)
  note reg = mongo_RegisterDevice_ok [OF ok, of nd]
  show "mongo_ok (conn_data s') \<and> (healthy s \<longrightarrow> healthy s' \<and> (\<exists>i. y = Inr i))"
    if "RegisterDevice (MongoStore colls) nd s = (y, s')"
    using reg [of y s'] that by (simp add: MongoStore_def)
  show "registered nd i (mongo_view (conn_data s)) (mongo_view (conn_data s'))"
    if "RegisterDevice (MongoStore colls) nd s = (Inr i, s')"
    using reg [of "Inr i" s'] that by (simp add: MongoStore_def)
  show "e = ErrBackend \<and> others_kept nd (mongo_view (conn_data s)) (mongo_view (conn_data s'))"
    if "RegisterDevice (MongoStore colls) nd s = (Inl e, s')"
    using reg [of "Inl e" s'] that by (simp add: MongoStore_def)
  show "mongo_writes (UpdateDeviceLastUsed (MongoStore colls) tok) s
     (\<lambda>_. token_updated tok (\<lambda>t dv. dv\<lparr>dv_LastUsed := Some t, dv_UpdatedAt := t\<rparr>) (mongo_view (conn_data s)))"
    by (rule writes_cong [OF _ update_devices_writes [OF ok, where ts = "mongo_now s" and
            g = "\<lambda>x. x\<lparr>dd_LastUsed := Some (mongo_now s), dd_UpdatedAt := mongo_now s\<rparr>"]])
      (simp_all add: MongoStore_def mongo_UpdateDeviceLastUsed_def Let_def same_keys_def deviceDoc_device_def token_def stored_token_def)
  show "mongo_writes (DeactivateDevice (MongoStore colls) tok) s
     (\<lambda>_. token_updated tok (\<lambda>t dv. dv\<lparr>dv_Active := False, dv_UpdatedAt := t\<rparr>) (mongo_view (conn_data s)))"
    by (rule writes_cong [OF _ update_devices_writes [OF ok, where ts = "mongo_now s" and
            g = "\<lambda>x. x\<lparr>dd_Active := False, dd_UpdatedAt := mongo_now s\<rparr>"]])
      (simp_all add: MongoStore_def mongo_DeactivateDevice_def same_keys_def deviceDoc_device_def token_def stored_token_def)
qed (auto simp: MongoStore_def mongo_ListDevices_def mongo_ListActiveDevices_def simp del: mongo_view_sel
      intro: mongo_ListMessages_reads mongo_Acknowledge_writes mongo_GetPermission_reads
        mongo_SetPermission_writes mongo_SetPermissionIfAbsent_writes mongo_fee_reads
        mongo_UnregisterDevice_writes
        mongo_listDevices_reads [THEN reads_view [where W = "\<lambda>x. x"]])

interpretation mongoStamped: stamped_store "MongoStore colls" "\<lambda>s. mongo_ok (conn_data s)" healthy
  "\<lambda>s. mongo_view (conn_data s)" mongo_now for colls
proof unfold_locales
  fix s :: mongo and tok k
  show "mongo_now (snd (UpdateDeviceLastUsed (MongoStore colls) tok s)) = mongo_now s"
    "mongo_now (snd (DeactivateDevice (MongoStore colls) tok s)) = mongo_now s"
    "mongo_now (snd (ListActiveDevices (MongoStore colls) k s)) = mongo_now s"
    by (simp_all add: MongoStore_def mongo_UpdateDeviceLastUsed_def mongo_DeactivateDevice_def mongo_ListActiveDevices_def
        mongo_listDevices_def mongo_now_def Let_def call_clock [OF prod.collapse [symmetric]])
      (auto simp: call_clock split: prod.splits sum.splits)
  assume ok: "mongo_ok (conn_data s)"
  show "mongo_writes (UpdateDeviceLastUsed (MongoStore colls) tok) s (\<lambda>_ A'. A' =
      token_set tok (\<lambda>dv. dv\<lparr>dv_LastUsed := Some (mongo_now s), dv_UpdatedAt := mongo_now s\<rparr>) (mongo_view (conn_data s)))"
    by (rule writes_cong [OF _ update_devices_writes [OF ok, where g = "\<lambda>x. x\<lparr>dd_LastUsed := Some (mongo_now s), dd_UpdatedAt := mongo_now s\<rparr>"
            and f = "\<lambda>_ dv. dv\<lparr>dv_LastUsed := Some (mongo_now s), dv_UpdatedAt := mongo_now s\<rparr>", unfolded token_updated_const]])
      (simp_all add: MongoStore_def mongo_UpdateDeviceLastUsed_def Let_def same_keys_def deviceDoc_device_def token_def stored_token_def)
  show "mongo_writes (DeactivateDevice (MongoStore colls) tok) s (\<lambda>_ A'. A' =
      token_set tok (\<lambda>dv. dv\<lparr>dv_Active := False, dv_UpdatedAt := mongo_now s\<rparr>) (mongo_view (conn_data s)))"
    by (rule writes_cong [OF _ update_devices_writes [OF ok, where g = "\<lambda>x. x\<lparr>dd_Active := False, dd_UpdatedAt := mongo_now s\<rparr>"
            and f = "\<lambda>_ dv. dv\<lparr>dv_Active := False, dv_UpdatedAt := mongo_now s\<rparr>", unfolded token_updated_const]])
      (simp_all add: MongoStore_def mongo_DeactivateDevice_def same_keys_def deviceDoc_device_def token_def stored_token_def)
qed

end
