(* ===== verification/Policy.thy ===== *)
theory Policy
  imports Http Sql_Refinement Mongo_Refinement
begin

text \<open>
  The delivery policy (\<open>pkg/handlers/policy.go\<close>): default fees, which boxes push, the fee a sender
  must pay a recipient and its status, over any backend of the storage contract.
\<close>

section \<open>Definitions\<close>

definition notificationsBox :: string where
  "notificationsBox = ''notifications''"

definition smartDefaultFee :: "string \<Rightarrow> int" where
  "smartDefaultFee messageBox = (if messageBox = notificationsBox then 10 else 0)"

definition paymentInboxBox :: string where
  "paymentInboxBox = ''payment_inbox''"

definition mandalaPaymentsBox :: string where
  "mandalaPaymentsBox = ''mandala-payments''"

definition pushTitle :: "string \<Rightarrow> string option" where
  "pushTitle messageBox =
     (if messageBox = notificationsBox then Some ''New Message''
      else if messageBox = paymentInboxBox \<or> messageBox = mandalaPaymentsBox then Some ''Payment received''
      else None)"

definition recipientFee ::
  "'s Store \<Rightarrow> string \<Rightarrow> string \<Rightarrow> string \<Rightarrow> 's \<Rightarrow> (store_error + int) \<times> 's" where
  "recipientFee S recipient sender messageBox s0 =
     (case (if sender \<noteq> [] then GetPermission S recipient (Some sender) messageBox s0 else (Inr None, s0)) of
        (Inl e, s1) \<Rightarrow> (Inl e, s1)
      | (Inr (Some p), s1) \<Rightarrow> (Inr (p_RecipientFee p), s1)
      | (Inr None, s1) \<Rightarrow>
          (case GetPermission S recipient None messageBox s1 of
             (Inl e, s2) \<Rightarrow> (Inl e, s2)
           | (Inr (Some p), s2) \<Rightarrow> (Inr (p_RecipientFee p), s2)
           | (Inr None, s2) \<Rightarrow>
               (let fee = smartDefaultFee messageBox in
                case SetPermissionIfAbsent S recipient None messageBox fee s2 of
                  (Inl e, s3) \<Rightarrow> (Inl e, s3)
                | (Inr _, s3) \<Rightarrow>
                    (case GetPermission S recipient None messageBox s3 of
                       (Inl e, s4) \<Rightarrow> (Inl e, s4)
                     | (Inr (Some p), s4) \<Rightarrow> (Inr (p_RecipientFee p), s4)
                     | (Inr None, s4) \<Rightarrow> (Inr fee, s4)))))"

definition statusAlwaysAllow :: string where
  "statusAlwaysAllow = ''always_allow''"

definition statusBlocked :: string where
  "statusBlocked = ''blocked''"

definition statusPaymentRequired :: string where
  "statusPaymentRequired = ''payment_required''"

definition feeStatus :: "int \<Rightarrow> string" where
  "feeStatus fee =
     (if fee = FeeBlocked then statusBlocked
      else if fee > 0 then statusPaymentRequired
      else statusAlwaysAllow)"

definition sortOrder :: "string \<Rightarrow> SortOrder" where
  "sortOrder param = (if param = ''asc'' then SortAsc else SortDesc)"

section \<open>The fee in force\<close>

text \<open>The specification: the sender's own permission, else the box-wide one, else the default.\<close>

definition fee_in_force :: "abs_store \<Rightarrow> string \<Rightarrow> string \<Rightarrow> string \<Rightarrow> int" where
  "fee_in_force A recipient sender messageBox =
     (case (if sender \<noteq> [] then a_perms A (recipient, Some sender, messageBox) else None) of
        Some (fee, c, u) \<Rightarrow> fee
      | None \<Rightarrow> (case a_perms A (recipient, None, messageBox) of
                   Some (fee, c, u) \<Rightarrow> fee | None \<Rightarrow> smartDefaultFee messageBox))"

text \<open>A lookup leaves every permission alone but for the default rows it may create.\<close>

definition defaults_added :: "string \<Rightarrow> abs_store \<Rightarrow> abs_store \<Rightarrow> bool" where
  "defaults_added messageBox A A' \<longleftrightarrow>
     (\<exists>P. A' = A\<lparr>a_perms := P\<rparr> \<and>
        (\<forall>k. P k = a_perms A k \<or>
           (a_perms A k = None \<and> (\<exists>r t. k = (r, None, messageBox) \<and> P k = Some (smartDefaultFee messageBox, t, t)))))"

lemma defaults_added_refl: "defaults_added b A A"
  by (auto simp: defaults_added_def intro!: exI [of _ "a_perms A"])

lemma defaults_added_trans:
  assumes "defaults_added b A B" and "defaults_added b B C"
  shows "defaults_added b A C"
proof -
  obtain P where P: "B = A\<lparr>a_perms := P\<rparr>"
    and p: "\<And>k. P k = a_perms A k \<or> (a_perms A k = None \<and> (\<exists>r t. k = (r, None, b) \<and> P k = Some (smartDefaultFee b, t, t)))"
    using assms(1) unfolding defaults_added_def by blast
  obtain Q where "C = B\<lparr>a_perms := Q\<rparr>"
    and "\<And>k. Q k = a_perms B k \<or> (a_perms B k = None \<and> (\<exists>r t. k = (r, None, b) \<and> Q k = Some (smartDefaultFee b, t, t)))"
    using assms(2) unfolding defaults_added_def by blast
  with P have Q: "C = A\<lparr>a_perms := Q\<rparr>"
    and q: "\<And>k. Q k = P k \<or> (P k = None \<and> (\<exists>r t. k = (r, None, b) \<and> Q k = Some (smartDefaultFee b, t, t)))"
    by simp_all
  have "Q k = a_perms A k \<or> (a_perms A k = None \<and> (\<exists>r t. k = (r, None, b) \<and> Q k = Some (smartDefaultFee b, t, t)))" for k
    using p [of k] q [of k] by metis
  then show ?thesis unfolding defaults_added_def Q by blast
qed

lemma defaults_added_fee:
  assumes "defaults_added b A A'"
  shows "fee_in_force A' r sd b = fee_in_force A r sd b"
proof -
  obtain P where P: "A' = A\<lparr>a_perms := P\<rparr>"
    and p: "\<And>k. P k = a_perms A k \<or> (a_perms A k = None \<and> (\<exists>r t. k = (r, None, b) \<and> P k = Some (smartDefaultFee b, t, t)))"
    using assms by (auto simp: defaults_added_def)
  have "P (r, Some sd, b) = a_perms A (r, Some sd, b)" using p [of "(r, Some sd, b)"] by auto
  moreover have "P (r, None, b) = a_perms A (r, None, b) \<or>
      (a_perms A (r, None, b) = None \<and> (\<exists>t. P (r, None, b) = Some (smartDefaultFee b, t, t)))"
    using p [of "(r, None, b)"] by auto
  ultimately show ?thesis by (auto simp: fee_in_force_def P split: option.splits)
qed

lemma defaults_added_other:
  "defaults_added b A A' \<Longrightarrow> a_msgs A' = a_msgs A \<and> a_devs A' = a_devs A \<and> a_fees A' = a_fees A"
  by (auto simp: defaults_added_def)

lemma perm_set_if_absent_default:
  "perm_set_if_absent (r, None, b) (smartDefaultFee b) A A' \<Longrightarrow> defaults_added b A A'"
  by (cases "a_perms A (r, None, b) = None")
    (auto simp: perm_set_if_absent_def defaults_added_refl,
     auto simp: defaults_added_def split: if_splits intro!: exI [of _ "(a_perms A)((r, None, b) \<mapsto> _)"])

lemma perm_at_fee: "perm_at A k = Some p \<Longrightarrow> \<exists>c u. a_perms A k = Some (p_RecipientFee p, c, u)"
  by (cases k) (auto simp: perm_at_def perm_of_def)

lemma perm_at_None: "perm_at A k = None \<longleftrightarrow> a_perms A k = None" "None = perm_at A k \<longleftrightarrow> a_perms A k = None"
  by (auto simp: perm_at_def)

context permission_store
begin

lemma recipientFee_ok:
  assumes inv: "invar s" and eq: "recipientFee S r sd b s = (x, s')"
  shows "invar s'" and "up s \<Longrightarrow> up s' \<and> (\<exists>fee. x = Inr fee)"
    and "defaults_added b (view s) (view s')"
    and "x = Inr fee \<Longrightarrow> fee = fee_in_force (view s) r sd b"
    and "x = Inl e \<Longrightarrow> e = ErrBackend"
proof -
  let ?g = "if sd \<noteq> [] then GetPermission S r (Some sd) b s else (Inr None, s)"
  let ?p1 = "if sd \<noteq> [] then perm_at (view s) (r, Some sd, b) else None"
  obtain y1 s1 where y1: "?g = (y1, s1)" by fastforce
  have r1: "invar s1" "view s1 = view s" "up s \<Longrightarrow> up s1" "up s \<Longrightarrow> \<exists>a. y1 = Inr a"
      "\<And>p. y1 = Inr p \<Longrightarrow> p = ?p1" "\<And>e. y1 = Inl e \<Longrightarrow> e = ErrBackend"
    using y1 inv readsD [OF get_reads [OF inv, of r "Some sd" b], of y1 s1] by (auto split: if_splits)
  obtain y2 s2 where y2: "GetPermission S r None b s1 = (y2, s2)" by fastforce
  note r2 = readsD [OF get_reads [OF r1(1)] y2]
  obtain y3 s3 where y3: "SetPermissionIfAbsent S r None b (smartDefaultFee b) s2 = (y3, s3)" by fastforce
  note r3 = writesD [OF absent_writes [OF r2(1)] y3]
  obtain y4 s4 where y4: "GetPermission S r None b s3 = (y4, s4)" by fastforce
  note r4 = readsD [OF get_reads [OF r3(1)] y4]
  have v2: "view s2 = view s" using r1(2) r2(2) by simp
  have set3: "view s3 = view s \<or> perm_set_if_absent (r, None, b) (smartDefaultFee b) (view s) (view s3)"
    using r3(4) r3(6) v2 by (cases y3) auto
  then have d3: "defaults_added b (view s) (view s3)"
    using perm_set_if_absent_default defaults_added_refl by metis
  let ?rest3 = "case y3 of Inl e \<Rightarrow> (Inl e, s3) | Inr _ \<Rightarrow> (case y4 of Inl e \<Rightarrow> (Inl e, s4)
     | Inr (Some p) \<Rightarrow> (Inr (p_RecipientFee p), s4) | Inr None \<Rightarrow> (Inr (smartDefaultFee b), s4))"
  have eq': "(case y1 of Inl e \<Rightarrow> (Inl e, s1) | Inr (Some p) \<Rightarrow> (Inr (p_RecipientFee p), s1)
     | Inr None \<Rightarrow> (case y2 of Inl e \<Rightarrow> (Inl e, s2) | Inr (Some p) \<Rightarrow> (Inr (p_RecipientFee p), s2)
         | Inr None \<Rightarrow> ?rest3)) = (x, s')"
    using eq unfolding recipientFee_def y1 by (simp add: y2 y3 y4 Let_def split: sum.splits option.splits)
  show "invar s'" using eq' r1(1) r2(1) r3(1) r4(1) by (auto split: sum.splits option.splits)
  show "up s \<Longrightarrow> up s' \<and> (\<exists>fee. x = Inr fee)"
    using eq' r1(3,4) r2(3,4) r3(2,3) r4(3,4) by (auto split: sum.splits option.splits)
  show "defaults_added b (view s) (view s')"
    using eq' r1(2) v2 d3 r4(2) by (auto simp: defaults_added_refl split: sum.splits option.splits)
  show "x = Inl e \<Longrightarrow> e = ErrBackend"
    using eq' r1(6) r2(6) r3(5) r4(6) by (auto split: sum.splits option.splits)
  assume "x = Inr fee"
  with eq' consider (own) p where "y1 = Inr (Some p)" "fee = p_RecipientFee p"
    | (box) p where "y1 = Inr None" "y2 = Inr (Some p)" "fee = p_RecipientFee p"
    | (default) q where "y1 = Inr None" "y2 = Inr None" "y3 = Inr ()" "y4 = Inr q"
        "fee = (case q of Some p \<Rightarrow> p_RecipientFee p | None \<Rightarrow> smartDefaultFee b)"
    by (auto split: sum.splits option.splits)
  then show "fee = fee_in_force (view s) r sd b"
  proof cases
    case own
    with r1(5) have "sd \<noteq> []" "perm_at (view s) (r, Some sd, b) = Some p" by (auto split: if_splits)
    with own perm_at_fee show ?thesis by (fastforce simp: fee_in_force_def)
  next
    case box
    with r1(5) [of None] have "sd \<noteq> [] \<Longrightarrow> a_perms (view s) (r, Some sd, b) = None" by (simp add: perm_at_None)
    moreover from box r2(5) r1(2) have "perm_at (view s) (r, None, b) = Some p" by simp
    ultimately show ?thesis using perm_at_fee box by (fastforce simp: fee_in_force_def)
  next
    case default
    with r1(5) [of None] have own: "sd \<noteq> [] \<Longrightarrow> a_perms (view s) (r, Some sd, b) = None" by (simp add: perm_at_None)
    from default r2(5) r1(2) have none: "a_perms (view s) (r, None, b) = None" by (simp add: perm_at_None)
    with default r3(4) v2 obtain t where "a_perms (view s3) (r, None, b) = Some (smartDefaultFee b, t, t)"
      by (auto simp: perm_set_if_absent_def)
    moreover from default r4(5) have "q = perm_at (view s3) (r, None, b)" by simp
    ultimately have "fee = smartDefaultFee b" using default perm_at_fee by (fastforce split: option.splits)
    with own none show ?thesis by (simp add: fee_in_force_def)
  qed
qed

end

end
