(* ===== verification/Send_Message.thy ===== *)
theory Send_Message
  imports Policy "HOL-Library.Word"
begin

text \<open>
  Sending a message (\<open>pkg/handlers/send_message.go\<close> and the payment helpers of \<open>helpers.go\<close>):
  validation of the request, evaluation of fees, internalization of the delivery fee, assignment
  of payment outputs to recipients, storing one message per recipient and spawning pushes.

  Parameters stand for code outside the repository: \<open>valid\<close> is \<open>ec.PublicKeyFromString\<close> succeeding,
  \<open>internalize\<close> the wallet's \<open>InternalizeAction\<close> over the wallet's state. Text of library errors
  inside a description is not modelled beyond the handler's own words. Pushes run in goroutines of
  their own; the state records the ones spawned.
\<close>

section \<open>Requests and responses\<close>

record PaymentRemittance =
  pr_DerivationPrefix :: string
  pr_DerivationSuffix :: string
  pr_SenderIdentityKey :: string
  pr_CustomInstructions :: string

record InsertionRemittance =
  ir_Basket :: string
  ir_CustomInstructions :: string
  ir_Tags :: "string list"

record PaymentOutput =
  po_OutputIndex :: "32 word"
  po_Protocol :: string
  po_PaymentRemittance :: "PaymentRemittance option"
  po_InsertionRemittance :: "InsertionRemittance option"

record Payment =
  pay_Tx :: string
  pay_Outputs :: "PaymentOutput list"
  pay_Description :: string
  pay_Labels :: "string list"
  pay_SeekPermission :: "bool option"

record SendMessageBody =
  sm_Recipient :: string
  sm_Recipients :: string
  sm_MessageBox :: string
  sm_MessageID :: string
  sm_Body :: string

record SendMessageRequest =
  sr_Message :: "SendMessageBody option"
  sr_Payment :: "Payment option"

record SendMessageResult =
  res_Recipient :: string
  res_MessageID :: string

datatype SendReply =
    SendMessageResponse (smr_Message: string) (smr_Results: "SendMessageResult list")
  | DeliveryBlockedError (db_Description: string) (db_BlockedRecipients: "string list")

text \<open>What the wallet is asked for.\<close>

record sdk_Payment =
  sdk_DerivationPrefix :: string
  sdk_DerivationSuffix :: string
  sdk_SenderIdentityKey :: string

record sdk_Insertion =
  sdk_Basket :: string
  sdk_CustomInstructions :: string
  sdk_Tags :: "string list"

record InternalizeOutput =
  io_OutputIndex :: "32 word"
  io_Protocol :: string
  io_PaymentRemittance :: "sdk_Payment option"
  io_InsertionRemittance :: "sdk_Insertion option"

record InternalizeActionArgs =
  ia_Tx :: string
  ia_Outputs :: "InternalizeOutput list"
  ia_Description :: string
  ia_Labels :: "string list"

record FCMPayload =
  fp_Title :: string
  fp_MessageID :: string
  fp_Originator :: string
  fp_Recipient :: string
  fp_MessageBox :: string

record ('s, 'w) world =
  w_db :: 's
  w_wallet :: 'w
  w_pushes :: "FCMPayload list"

record feeRow =
  fr_recipient :: string
  fr_recipientFee :: int
  fr_allowed :: bool

section \<open>Payment outputs\<close>

datatype output_error = InvalidDerivationPrefix | InvalidDerivationSuffix | InvalidSenderIdentityKey

definition outputErrorText :: "output_error \<Rightarrow> string" where
  "outputErrorText e = (case e of
      InvalidDerivationPrefix \<Rightarrow> ''invalid derivationPrefix''
    | InvalidDerivationSuffix \<Rightarrow> ''invalid derivationSuffix''
    | InvalidSenderIdentityKey \<Rightarrow> ''invalid senderIdentityKey'')"

definition toSDKInternalizeOutput ::
  "(string \<Rightarrow> bool) \<Rightarrow> PaymentOutput \<Rightarrow> output_error + InternalizeOutput" where
  "toSDKInternalizeOutput valid po =
     (let insertion = map_option (\<lambda>ir. \<lparr>sdk_Basket = ir_Basket ir,
              sdk_CustomInstructions = ir_CustomInstructions ir, sdk_Tags = ir_Tags ir\<rparr>) (po_InsertionRemittance po);
          out = (\<lambda>p. \<lparr>io_OutputIndex = po_OutputIndex po, io_Protocol = po_Protocol po,
              io_PaymentRemittance = p, io_InsertionRemittance = insertion\<rparr>)
      in case po_PaymentRemittance po of
           None \<Rightarrow> Inr (out None)
         | Some pr \<Rightarrow>
             (case base64Decode (pr_DerivationPrefix pr) of
                None \<Rightarrow> Inl InvalidDerivationPrefix
              | Some prefix \<Rightarrow>
                  (case base64Decode (pr_DerivationSuffix pr) of
                     None \<Rightarrow> Inl InvalidDerivationSuffix
                   | Some suffix \<Rightarrow>
                       if \<not> valid (pr_SenderIdentityKey pr) then Inl InvalidSenderIdentityKey
                       else Inr (out (Some \<lparr>sdk_DerivationPrefix = prefix, sdk_DerivationSuffix = suffix,
                                    sdk_SenderIdentityKey = pr_SenderIdentityKey pr\<rparr>)))))"

definition extractRecipientKey :: "PaymentOutput \<Rightarrow> string" where
  "extractRecipientKey out =
     (let fromPayment = (case po_PaymentRemittance out of Some pr \<Rightarrow> pr_CustomInstructions pr | None \<Rightarrow> []);
          fromInsertion = (case po_InsertionRemittance out of Some ir \<Rightarrow> ir_CustomInstructions ir | None \<Rightarrow> []);
          raw = (if fromPayment \<noteq> [] then fromPayment else fromInsertion)
      in if raw = [] then []
         else case unmarshalField ''recipientIdentityKey'' raw of None \<Rightarrow> [] | Some k \<Rightarrow> k)"

type_synonym output_map = "string \<rightharpoonup> PaymentOutput list"

text \<open>The tagged outputs by recipient key, in order.\<close>

fun outputsByRecipientKey :: "PaymentOutput list \<Rightarrow> output_map \<Rightarrow> output_map" where
  "outputsByRecipientKey [] m = m"
| "outputsByRecipientKey (out # outs) m =
     (let k = extractRecipientKey out
      in outputsByRecipientKey outs
           (if k \<noteq> [] then m(k \<mapsto> (case m k of None \<Rightarrow> [] | Some xs \<Rightarrow> xs) @ [out]) else m))"

fun assignOutputs :: "string list \<Rightarrow> PaymentOutput list \<Rightarrow> output_map \<Rightarrow> output_map" where
  "assignOutputs (r # rs) (out # outs) m = assignOutputs rs outs (m(r \<mapsto> [out]))"
| "assignOutputs _ _ m = m"

fun assignTagged :: "string list \<Rightarrow> output_map \<Rightarrow> output_map \<Rightarrow> output_map" where
  "assignTagged [] tagged m = m"
| "assignTagged (r # rs) tagged m =
     assignTagged rs tagged (case tagged r of Some outs \<Rightarrow> m(r \<mapsto> outs) | None \<Rightarrow> m)"

definition insufficient :: "nat \<Rightarrow> string \<Rightarrow> nat \<Rightarrow> string \<Rightarrow> string \<times> string" where
  "insufficient need middle have rest = (''ERR_INSUFFICIENT_OUTPUTS'',
     ''Expected at least '' @ itoa (int need) @ middle @ itoa (int have) @ rest)"

definition buildPerRecipientOutputs ::
  "PaymentOutput list \<Rightarrow> int \<Rightarrow> feeRow list \<Rightarrow> (string \<times> string) + output_map" where
  "buildPerRecipientOutputs outputs deliveryFee feeRows =
     (let startIdx = (if deliveryFee > 0 \<and> outputs \<noteq> [] then 1 else 0);
          recipientSide = drop startIdx outputs;
          feeRecipients = map fr_recipient (filter (\<lambda>fr. fr_recipientFee fr > 0) feeRows);
          tagged = outputsByRecipientKey recipientSide Map.empty;
          usedIndexes = map po_OutputIndex (filter (\<lambda>out. extractRecipientKey out \<noteq> []) recipientSide)
      in if feeRecipients = [] then Inr Map.empty
         else if usedIndexes = [] then
           (if length recipientSide < length feeRecipients
            then Inl (insufficient (length feeRecipients) '' recipient output(s) but received '' (length recipientSide) [])
            else Inr (assignOutputs feeRecipients recipientSide Map.empty))
         else
           (let per = assignTagged feeRecipients tagged Map.empty;
                unmapped = filter (\<lambda>r. per r = None) feeRecipients;
                remaining = filter (\<lambda>out. po_OutputIndex out \<notin> set usedIndexes) recipientSide
            in if unmapped = [] then Inr per
               else if length remaining < length unmapped
               then Inl (insufficient (length unmapped) '' additional recipient output(s) but only '' (length remaining) '' remain'')
               else Inr (assignOutputs unmapped remaining per)))"

section \<open>The stored body\<close>

definition jsonStr :: "string \<Rightarrow> string" where
  "jsonStr s = jsonQuote True s"

definition jsonObject :: "(string \<times> string) list \<Rightarrow> string" where
  "jsonObject ms = ''{'' @ joinWith '','' (map (\<lambda>(k, v). jsonStr k @ '':'' @ v) ms) @ ''}''"

definition jsonArray :: "string list \<Rightarrow> string" where
  "jsonArray vs = ''['' @ joinWith '','' vs @ '']''"

definition rawValid :: "string \<Rightarrow> bool" where
  "rawValid raw \<longleftrightarrow> parseJson raw \<noteq> None"

definition encodeRaw :: "string \<Rightarrow> string" where
  "encodeRaw raw = compactJson False False raw"

definition encodeRemittance :: "PaymentRemittance \<Rightarrow> string" where
  "encodeRemittance pr = jsonObject
     ([(''derivationPrefix'', jsonStr (pr_DerivationPrefix pr)),
       (''derivationSuffix'', jsonStr (pr_DerivationSuffix pr)),
       (''senderIdentityKey'', jsonStr (pr_SenderIdentityKey pr))] @
      (if pr_CustomInstructions pr = [] then [] else [(''customInstructions'', encodeRaw (pr_CustomInstructions pr))]))"

definition encodeInsertion :: "InsertionRemittance \<Rightarrow> string" where
  "encodeInsertion ir = jsonObject
     ([(''basket'', jsonStr (ir_Basket ir))] @
      (if ir_CustomInstructions ir = [] then [] else [(''customInstructions'', encodeRaw (ir_CustomInstructions ir))]) @
      (if ir_Tags ir = [] then [] else [(''tags'', jsonArray (map jsonStr (ir_Tags ir)))]))"

definition encodeOutput :: "PaymentOutput \<Rightarrow> string" where
  "encodeOutput po = jsonObject
     ([(''outputIndex'', itoa (uint (po_OutputIndex po))), (''protocol'', jsonStr (po_Protocol po))] @
      (case po_PaymentRemittance po of None \<Rightarrow> [] | Some pr \<Rightarrow> [(''paymentRemittance'', encodeRemittance pr)]) @
      (case po_InsertionRemittance po of None \<Rightarrow> [] | Some ir \<Rightarrow> [(''insertionRemittance'', encodeInsertion ir)]))"

definition encodePayment :: "Payment \<Rightarrow> string" where
  "encodePayment p = jsonObject
     ([(''tx'', jsonStr (base64Encode (pay_Tx p))), (''outputs'', jsonArray (map encodeOutput (pay_Outputs p)))] @
      (if pay_Description p = [] then [] else [(''description'', jsonStr (pay_Description p))]) @
      (if pay_Labels p = [] then [] else [(''labels'', jsonArray (map jsonStr (pay_Labels p)))]) @
      (case pay_SeekPermission p of None \<Rightarrow> [] | Some b \<Rightarrow> [(''seekPermission'', if b then ''true'' else ''false'')]))"

definition outputRawValid :: "PaymentOutput \<Rightarrow> bool" where
  "outputRawValid po \<longleftrightarrow>
     (case po_PaymentRemittance po of None \<Rightarrow> True
      | Some pr \<Rightarrow> pr_CustomInstructions pr = [] \<or> rawValid (pr_CustomInstructions pr)) \<and>
     (case po_InsertionRemittance po of None \<Rightarrow> True
      | Some ir \<Rightarrow> ir_CustomInstructions ir = [] \<or> rawValid (ir_CustomInstructions ir))"

text \<open>\<open>json.Marshal\<close> of the stored body: a map with its keys in order; a raw message that is not
  valid JSON is an error.\<close>

definition marshalStoredBody :: "string \<Rightarrow> Payment option \<Rightarrow> string option" where
  "marshalStoredBody body payment =
     (if \<not> rawValid body then None
      else case payment of
        None \<Rightarrow> Some (jsonObject [(''message'', encodeRaw body)])
      | Some p \<Rightarrow>
          if list_all outputRawValid (pay_Outputs p)
          then Some (jsonObject [(''message'', encodeRaw body), (''payment'', encodePayment p)]) else None)"

section \<open>Validation\<close>

definition rawMissing :: "string \<Rightarrow> bool" where
  "rawMissing raw \<longleftrightarrow> raw = [] \<or> raw = ''null''"

definition stringOrList :: "string \<Rightarrow> string list option" where
  "stringOrList raw =
     (case unmarshalStrings raw of
        Some xs \<Rightarrow> Some xs
      | None \<Rightarrow> map_option (\<lambda>x. [x]) (unmarshalString raw))"

text \<open>The checks of \<open>sendMessage\<close> up to the fee evaluation: an error reply, or the recipients, the
  message ids and the box.\<close>

definition validateSend ::
  "(string \<Rightarrow> bool) \<Rightarrow> SendMessageRequest \<Rightarrow>
   SendReply response + (SendMessageBody \<times> string list \<times> string list \<times> string)" where
  "validateSend valid req =
     (case sr_Message req of
        None \<Rightarrow> Inl (writeError 400 ''ERR_MESSAGE_REQUIRED'' ''Please provide a valid message to send!'')
      | Some msg \<Rightarrow>
          if trimSpace (sm_MessageBox msg) = []
          then Inl (writeError 400 ''ERR_INVALID_MESSAGEBOX'' ''Invalid message box.'')
          else if sm_Body msg = [] \<or> sm_Body msg = [CHR 0x22, CHR 0x22] \<or> sm_Body msg = ''null''
          then Inl (writeError 400 ''ERR_INVALID_MESSAGE_BODY'' ''Invalid message body.'')
          else
            (let recipientsRaw = (if rawMissing (sm_Recipients msg) then sm_Recipient msg else sm_Recipients msg)
             in if rawMissing recipientsRaw
                then Inl (writeError 400 ''ERR_RECIPIENT_REQUIRED''
                       ''Missing recipient(s). Provide \"recipient\" or \"recipients\".'')
                else case stringOrList recipientsRaw of
                  None \<Rightarrow> Inl (writeError 400 ''ERR_INVALID_RECIPIENT_KEY'' ''Invalid recipient format'')
                | Some recipients \<Rightarrow>
                    (case stringOrList (sm_MessageID msg) of
                       None \<Rightarrow> Inl (writeError 400 ''ERR_MESSAGEID_REQUIRED'' ''Missing messageId.'')
                     | Some messageIDs \<Rightarrow>
                         if 1 < length recipients \<and> length messageIDs = 1
                         then Inl (writeError 400 ''ERR_MESSAGEID_COUNT_MISMATCH''
                                (''Provided 1 messageId for '' @ itoa (int (length recipients)) @
                                 '' recipients. Provide one messageId per recipient (same order).''))
                         else if length messageIDs \<noteq> length recipients
                         then Inl (writeError 400 ''ERR_MESSAGEID_COUNT_MISMATCH''
                                (''Recipients ('' @ itoa (int (length recipients)) @ '') and messageId count ('' @
                                 itoa (int (length messageIDs)) @ '') must match.''))
                         else if \<exists>i \<in> set messageIDs. trimSpace i = []
                         then Inl (writeError 400 ''ERR_INVALID_MESSAGEID'' ''Each messageId must be a non-empty string.'')
                         else case find (\<lambda>r. \<not> valid (trimSpace r)) recipients of
                           Some r \<Rightarrow> Inl (writeError 400 ''ERR_INVALID_RECIPIENT_KEY'' (''Invalid recipient key: '' @ r))
                         | None \<Rightarrow> Inr (msg, recipients, messageIDs, trimSpace (sm_MessageBox msg)))))"

section \<open>Fees, payment, storing\<close>

fun feeLoop ::
  "'s Store \<Rightarrow> string \<Rightarrow> string \<Rightarrow> string list \<Rightarrow> 's \<Rightarrow> (store_error + feeRow list) \<times> 's" where
  "feeLoop S senderKey boxType [] s = (Inr [], s)"
| "feeLoop S senderKey boxType (recip # rs) s =
     (case recipientFee S (trimSpace recip) senderKey boxType s of
        (Inl e, s1) \<Rightarrow> (Inl e, s1)
      | (Inr rf, s1) \<Rightarrow>
          (case feeLoop S senderKey boxType rs s1 of
             (Inl e, s2) \<Rightarrow> (Inl e, s2)
           | (Inr rows, s2) \<Rightarrow>
               (Inr (\<lparr>fr_recipient = trimSpace recip, fr_recipientFee = rf, fr_allowed = (rf \<noteq> FeeBlocked)\<rparr> # rows), s2)))"

type_synonym 'w internalizer = "InternalizeActionArgs \<Rightarrow> string \<Rightarrow> 'w \<Rightarrow> (string + bool) \<times> 'w"

text \<open>The delivery fee: output 0 goes to the server's wallet.\<close>

definition internalizeDelivery ::
  "(string \<Rightarrow> bool) \<Rightarrow> 'w internalizer \<Rightarrow> Payment \<Rightarrow> 'w \<Rightarrow> (SendReply response + unit) \<times> 'w" where
  "internalizeDelivery valid internalize p w =
     (case toSDKInternalizeOutput valid (hd (pay_Outputs p)) of
        Inl e \<Rightarrow> (Inl (writeError 400 ''ERR_INVALID_PAYMENT_OUTPUT'' (''Invalid payment output: '' @ outputErrorText e)), w)
      | Inr sdkOutput \<Rightarrow>
          (case internalize \<lparr>ia_Tx = pay_Tx p, ia_Outputs = [sdkOutput],
                  ia_Description = (if pay_Description p = [] then ''MessageBox delivery payment'' else pay_Description p),
                  ia_Labels = pay_Labels p\<rparr> ''messagebox-server'' w of
             (Inl e, w1) \<Rightarrow> (Inl (writeError 500 ''ERR_INTERNALIZE_FAILED'' (''Failed to internalize payment: '' @ e)), w1)
           | (Inr accepted, w1) \<Rightarrow>
               if \<not> accepted
               then (Inl (writeError 400 ''ERR_INSUFFICIENT_PAYMENT'' ''Payment was not accepted by the server.''), w1)
               else (Inr (), w1)))"

definition takePayment ::
  "(string \<Rightarrow> bool) \<Rightarrow> 'w internalizer \<Rightarrow> Payment option \<Rightarrow> int \<Rightarrow> feeRow list \<Rightarrow> 'w \<Rightarrow>
   (SendReply response + output_map) \<times> 'w" where
  "takePayment valid internalize payment deliveryFee feeRows w =
     (let requiresPayment = (deliveryFee > 0 \<or> (\<exists>fr \<in> set feeRows. fr_recipientFee fr > 0))
      in if \<not> requiresPayment then (Inr Map.empty, w)
         else case payment of
           None \<Rightarrow> (Inl (writeError 400 ''ERR_MISSING_PAYMENT_TX'' ''Payment transaction data is required for payable delivery.''), w)
         | Some p \<Rightarrow>
             if pay_Tx p = [] \<or> pay_Outputs p = []
             then (Inl (writeError 400 ''ERR_MISSING_PAYMENT_TX'' ''Payment transaction data is required for payable delivery.''), w)
             else (case (if deliveryFee > 0 then internalizeDelivery valid internalize p w else (Inr (), w)) of
                (Inl reply, w1) \<Rightarrow> (Inl reply, w1)
              | (Inr _, w1) \<Rightarrow>
                  (case buildPerRecipientOutputs (pay_Outputs p) deliveryFee feeRows of
                     Inl (code, desc) \<Rightarrow> (Inl (writeError 400 code desc), w1)
                   | Inr per \<Rightarrow> (Inr per, w1))))"

text \<open>The message stored for one recipient, with its own outputs of the payment only.\<close>

definition messageFor ::
  "string \<Rightarrow> string \<Rightarrow> string \<Rightarrow> Payment option \<Rightarrow> output_map \<Rightarrow> string \<Rightarrow> string \<Rightarrow> NewMessage option" where
  "messageFor senderKey boxType body payment per recipient msgID =
     (let own = (case (per recipient, payment) of
            (Some outs, Some p) \<Rightarrow> Some (p\<lparr>pay_Outputs := outs\<rparr>) | _ \<Rightarrow> None)
      in map_option (\<lambda>stored. \<lparr>nm_MessageID = msgID, nm_Recipient = recipient, nm_MessageBox = boxType,
            nm_Sender = senderKey, nm_Body = stored\<rparr>) (marshalStoredBody body own))"

fun storeLoop ::
  "'s Store \<Rightarrow> string \<Rightarrow> string \<Rightarrow> string \<Rightarrow> Payment option \<Rightarrow> output_map \<Rightarrow> (string \<times> string) list \<Rightarrow>
   's \<times> FCMPayload list \<Rightarrow> (SendReply response + SendMessageResult list) \<times> 's \<times> FCMPayload list" where
  "storeLoop S senderKey boxType body payment per [] st = (Inr [], st)"
| "storeLoop S senderKey boxType body payment per ((recipient, msgID) # rest) (s, pushes) =
     (let internal = writeError 500 ''ERR_INTERNAL'' ''An internal error has occurred.'' in
      case messageFor senderKey boxType body payment per recipient msgID of
        None \<Rightarrow> (Inl internal, s, pushes)
      | Some m \<Rightarrow>
          (case InsertMessage S m s of
             (Inl e, s1) \<Rightarrow>
               if e = ErrDuplicateMessage
               then (Inl (writeError 400 ''ERR_DUPLICATE_MESSAGE'' ''Duplicate message.''), s1, pushes)
               else (Inl internal, s1, pushes)
           | (Inr _, s1) \<Rightarrow>
               (let pushes1 = (case pushTitle boxType of
                      Some title \<Rightarrow> pushes @ [\<lparr>fp_Title = title, fp_MessageID = msgID, fp_Originator = [], fp_Recipient = recipient, fp_MessageBox = boxType\<rparr>]
                    | None \<Rightarrow> pushes)
                in case storeLoop S senderKey boxType body payment per rest (s1, pushes1) of
                     (Inl reply, st) \<Rightarrow> (Inl reply, st)
                   | (Inr results, st) \<Rightarrow> (Inr (\<lparr>res_Recipient = recipient, res_MessageID = msgID\<rparr> # results), st))))"

definition sendMessage ::
  "'s Store \<Rightarrow> (string \<Rightarrow> bool) \<Rightarrow> 'w internalizer \<Rightarrow> string \<Rightarrow> SendMessageRequest decoded \<Rightarrow>
   ('s, 'w) world \<Rightarrow> SendReply response \<times> ('s, 'w) world" where
  "sendMessage S valid internalize senderKey body st =
     (let internal = writeError 500 ''ERR_INTERNAL'' ''An internal error has occurred.'' in
      case body of
        Decoded req \<Rightarrow>
          (case validateSend valid req of
             Inl reply \<Rightarrow> (reply, st)
           | Inr (msg, recipients, messageIDs, boxType) \<Rightarrow>
               (case GetServerDeliveryFee S boxType (w_db st) of
                  (Inl _, s1) \<Rightarrow> (internal, st\<lparr>w_db := s1\<rparr>)
                | (Inr deliveryFee, s1) \<Rightarrow>
                    (case feeLoop S senderKey boxType recipients s1 of
                       (Inl _, s2) \<Rightarrow> (internal, st\<lparr>w_db := s2\<rparr>)
                     | (Inr feeRows, s2) \<Rightarrow>
                         (let blocked = map fr_recipient (filter (\<lambda>fr. \<not> fr_allowed fr) feeRows) in
                          if blocked \<noteq> [] then
                            (writeJSON 403 (DeliveryBlockedError (''Blocked recipients: '' @ joinWith '', '' blocked) blocked),
                             st\<lparr>w_db := s2\<rparr>)
                          else (case takePayment valid internalize (sr_Payment req) deliveryFee feeRows (w_wallet st) of
                             (Inl reply, w1) \<Rightarrow> (reply, st\<lparr>w_db := s2, w_wallet := w1\<rparr>)
                           | (Inr per, w1) \<Rightarrow>
                               (case storeLoop S senderKey boxType (sm_Body msg) (sr_Payment req) per
                                       (zip (map fr_recipient feeRows) messageIDs) (s2, w_pushes st) of
                                  (Inl reply, s3, ps) \<Rightarrow>
                                    (reply, st\<lparr>w_db := s3, w_wallet := w1, w_pushes := ps\<rparr>)
                                | (Inr results, s3, ps) \<Rightarrow>
                                    (writeJSON 200 (SendMessageResponse
                                       (''Your message has been sent to '' @ itoa (int (length results)) @ '' recipient(s).'')
                                       results), st\<lparr>w_db := s3, w_wallet := w1, w_pushes := ps\<rparr>)))))))
      | _ \<Rightarrow> (writeError 400 ''ERR_INVALID_JSON'' ''Invalid JSON body'', st))"

definition SendMessage ::
  "'s Store \<Rightarrow> (string \<Rightarrow> bool) \<Rightarrow> 'w internalizer \<Rightarrow> string \<Rightarrow> SendMessageRequest decoded \<Rightarrow>
   ('s, 'w) world \<Rightarrow> SendReply response \<times> ('s, 'w) world" where
  "SendMessage S valid internalize senderKey body st =
     (if senderKey = [] then (writeError 401 ''ERR_AUTH_REQUIRED'' ''Authentication required'', st)
      else sendMessage S valid internalize senderKey body st)"

section \<open>Assigning outputs\<close>

lemma outputsByRecipientKey_eq:
  "outputsByRecipientKey outs m k =
     (if k \<noteq> [] \<and> (\<exists>out \<in> set outs. extractRecipientKey out = k)
      then Some ((case m k of None \<Rightarrow> [] | Some xs \<Rightarrow> xs) @ filter (\<lambda>out. extractRecipientKey out = k) outs)
      else m k)"
  by (induction outs arbitrary: m) (auto simp: Let_def split: option.splits)

lemma assignOutputs_other: "r \<notin> set rs \<Longrightarrow> assignOutputs rs outs m r = m r"
  by (induction rs outs m rule: assignOutputs.induct) auto

lemma assignOutputs_hit:
  "length rs \<le> length outs \<Longrightarrow> r \<in> set rs \<Longrightarrow> \<exists>out \<in> set outs. assignOutputs rs outs m r = Some [out]"
proof (induction rs outs m rule: assignOutputs.induct)
  case (1 q rs out outs m)
  then show ?case by (cases "r \<in> set rs") (auto simp: assignOutputs_other simp del: fun_upd_apply, simp)
qed auto

lemma assignTagged_eq:
  "assignTagged rs tagged m r = (if r \<in> set rs \<and> tagged r \<noteq> None then tagged r else m r)"
  by (induction rs arbitrary: m) (auto split: option.splits)

definition feeRecipients :: "feeRow list \<Rightarrow> string list" where
  "feeRecipients rows = map fr_recipient (filter (\<lambda>fr. fr_recipientFee fr > 0) rows)"

definition recipientSide :: "int \<Rightarrow> PaymentOutput list \<Rightarrow> PaymentOutput list" where
  "recipientSide deliveryFee outputs = (if deliveryFee > 0 then tl outputs else outputs)"

text \<open>Every recipient who is owed a fee gets at least one output, all from the recipients' side of
  the payment, and nobody else gets any. Outputs tagged with a recipient's key go to that recipient.\<close>

lemma build_ok:
  assumes "buildPerRecipientOutputs outputs df rows = Inr per"
  shows "per r \<noteq> None \<longleftrightarrow> r \<in> set (feeRecipients rows)"
    and "per r = Some outs \<Longrightarrow> outs \<noteq> [] \<and> set outs \<subseteq> set (recipientSide df outputs)"
    and "r \<in> set (feeRecipients rows) \<Longrightarrow> r \<noteq> [] \<Longrightarrow> out \<in> set (recipientSide df outputs) \<Longrightarrow>
      extractRecipientKey out = r \<Longrightarrow> per r = Some (filter (\<lambda>out. extractRecipientKey out = r) (recipientSide df outputs))"
proof -
  let ?side = "recipientSide df outputs" and ?fee = "feeRecipients rows"
  let ?tagged = "outputsByRecipientKey ?side Map.empty"
  let ?used = "map po_OutputIndex (filter (\<lambda>out. extractRecipientKey out \<noteq> []) ?side)"
  let ?t = "assignTagged ?fee ?tagged Map.empty"
  let ?rem = "filter (\<lambda>out. po_OutputIndex out \<notin> set ?used) ?side"
  let ?un = "filter (\<lambda>r. ?t r = None) ?fee"
  have side: "drop (if df > 0 \<and> outputs \<noteq> [] then 1 else 0) outputs = ?side"
    by (cases outputs) (auto simp: recipientSide_def)
  have tag: "?tagged k = (if k \<noteq> [] \<and> (\<exists>out \<in> set ?side. extractRecipientKey out = k)
      then Some (filter (\<lambda>out. extractRecipientKey out = k) ?side) else None)" for k
    by (simp add: outputsByRecipientKey_eq)
  have tt: "?t r = (if r \<in> set ?fee \<and> r \<noteq> [] \<and> (\<exists>out \<in> set ?side. extractRecipientKey out = r)
      then Some (filter (\<lambda>out. extractRecipientKey out = r) ?side) else None)"
    unfolding assignTagged_eq tag by simp
  have good: "(?t r \<noteq> None \<longleftrightarrow> r \<in> set ?fee) \<Longrightarrow> per = ?t \<or> per r = ?t r \<Longrightarrow>
     (per r \<noteq> None \<longleftrightarrow> r \<in> set ?fee) \<and> (\<forall>outs. per r = Some outs \<longrightarrow> outs \<noteq> [] \<and> set outs \<subseteq> set ?side) \<and>
     (r \<in> set ?fee \<longrightarrow> r \<noteq> [] \<longrightarrow> (\<exists>out \<in> set ?side. extractRecipientKey out = r) \<longrightarrow>
       per r = Some (filter (\<lambda>out. extractRecipientKey out = r) ?side))"
  proof -
    assume iff: "?t r \<noteq> None \<longleftrightarrow> r \<in> set ?fee" and "per = ?t \<or> per r = ?t r"
    then have pr: "per r = ?t r" by auto
    show ?thesis
    proof (cases "r \<in> set ?fee")
      case True
      with iff tt have "\<exists>out \<in> set ?side. extractRecipientKey out = r"
        "?t r = Some (filter (\<lambda>out. extractRecipientKey out = r) ?side)" by (metis (no_types, lifting))+
      with True pr show ?thesis by (auto simp: filter_empty_conv)
    next
      case False
      with iff have "?t r = None" by blast
      with False pr show ?thesis by simp
    qed
  qed
  consider (none) "?fee = []" "per = Map.empty"
    | (pos) "?used = []" "length ?fee \<le> length ?side" "per = assignOutputs ?fee ?side Map.empty"
    | (tagged) "?un = []" "per = ?t"
    | (mixed) "length ?un \<le> length ?rem" "per = assignOutputs ?un ?rem ?t"
    using assms unfolding buildPerRecipientOutputs_def Let_def side feeRecipients_def [symmetric]
    by (auto simp del: filter_False split: if_splits)
  then have "(per r \<noteq> None \<longleftrightarrow> r \<in> set ?fee) \<and> (\<forall>outs. per r = Some outs \<longrightarrow> outs \<noteq> [] \<and> set outs \<subseteq> set ?side) \<and>
     (r \<in> set ?fee \<longrightarrow> r \<noteq> [] \<longrightarrow> (\<exists>out \<in> set ?side. extractRecipientKey out = r) \<longrightarrow>
       per r = Some (filter (\<lambda>out. extractRecipientKey out = r) ?side))"
  proof cases
    case none
    then show ?thesis by simp
  next
    case pos
    then have "\<forall>out \<in> set ?side. extractRecipientKey out = []" by (auto simp: filter_empty_conv)
    with pos assignOutputs_hit [OF pos(2), of r Map.empty] assignOutputs_other [of r ?fee ?side Map.empty]
    show ?thesis by (cases "r \<in> set ?fee") auto
  next
    case tagged
    then have all: "\<forall>r \<in> set ?fee. ?t r \<noteq> None" by (simp only: filter_empty_conv)
    have none: "r \<notin> set ?fee \<Longrightarrow> ?t r = None" unfolding tt by simp
    have "?t r \<noteq> None \<longleftrightarrow> r \<in> set ?fee"
      using bspec [OF all, of r] none by (cases "r \<in> set ?fee") simp_all
    then show ?thesis by (rule good) (rule disjI1 [OF tagged(2)])
  next
    case mixed
    show ?thesis
    proof (cases "r \<in> set ?un")
      case True
      then have "r \<in> set ?fee" "?tagged r = None" by (auto simp: assignTagged_eq split: if_splits)
      moreover obtain out where "out \<in> set ?rem" "per r = Some [out]"
        using assignOutputs_hit [OF mixed(1) True, of ?t] mixed(2) by blast
      ultimately show ?thesis using tag [of r] by (auto split: if_splits)
    next
      case False
      have "per r = ?t r" unfolding mixed(2) by (rule assignOutputs_other [OF False])
      moreover have "r \<in> set ?fee \<Longrightarrow> ?t r \<noteq> None" using False by simp
      moreover have "r \<notin> set ?fee \<Longrightarrow> ?t r = None" unfolding tt by simp
      ultimately show ?thesis using good by blast
    qed
  qed
  then show "per r \<noteq> None \<longleftrightarrow> r \<in> set ?fee"
    "per r = Some outs \<Longrightarrow> outs \<noteq> [] \<and> set outs \<subseteq> set ?side"
    "r \<in> set ?fee \<Longrightarrow> r \<noteq> [] \<Longrightarrow> out \<in> set ?side \<Longrightarrow> extractRecipientKey out = r \<Longrightarrow>
       per r = Some (filter (\<lambda>out. extractRecipientKey out = r) ?side)"
    by blast+
qed

section \<open>What sending does\<close>

text \<open>Storing a list of messages, one after the other.\<close>

fun stored_all :: "NewMessage list \<Rightarrow> abs_store \<Rightarrow> abs_store \<Rightarrow> bool" where
  "stored_all [] A A' \<longleftrightarrow> A' = A"
| "stored_all (m # ms) A A' \<longleftrightarrow> (\<exists>B. inserted m A B \<and> stored_all ms B A')"

lemma stored_all_append: "stored_all (ms @ ns) A A' \<longleftrightarrow> (\<exists>B. stored_all ms A B \<and> stored_all ns B A')"
  by (induction ms arbitrary: A) auto

lemma inserted_msgs:
  assumes "inserted m A B"
  shows "fst ` a_msgs B = insert m (fst ` a_msgs A)" and "a_msgs A \<subseteq> a_msgs B"
    and "a_perms B = a_perms A \<and> a_fees B = a_fees A \<and> a_devs B = a_devs A"
    and "nm_MessageID m \<notin> msg_ids A" and "msg_ids B = insert (nm_MessageID m) (msg_ids A)"
proof -
  obtain t where "B = A\<lparr>a_msgs := insert (m, t, t) (a_msgs A)\<rparr>" "nm_MessageID m \<notin> msg_ids A"
    using assms by (auto simp: inserted_def)
  then show "fst ` a_msgs B = insert m (fst ` a_msgs A)" "a_msgs A \<subseteq> a_msgs B"
    "a_perms B = a_perms A \<and> a_fees B = a_fees A \<and> a_devs B = a_devs A"
    "nm_MessageID m \<notin> msg_ids A" "msg_ids B = insert (nm_MessageID m) (msg_ids A)"
    by (auto simp: msg_ids_def msg_id_def)
qed

lemma stored_all_msgs:
  assumes "stored_all ms A A'"
  shows "fst ` a_msgs A' = fst ` a_msgs A \<union> set ms \<and> a_msgs A \<subseteq> a_msgs A' \<and>
    a_perms A' = a_perms A \<and> a_fees A' = a_fees A \<and> a_devs A' = a_devs A \<and>
    distinct (map nm_MessageID ms) \<and> nm_MessageID ` set ms \<inter> msg_ids A = {} \<and>
    msg_ids A' = msg_ids A \<union> nm_MessageID ` set ms"
  using assms
proof (induction ms arbitrary: A)
  case (Cons m ms)
  then obtain B where B: "inserted m A B" "stored_all ms B A'" by auto
  note i = inserted_msgs [OF B(1)] and IH = Cons.IH [OF B(2)]
  have "nm_MessageID m \<notin> nm_MessageID ` set ms" using i(5) IH by auto
  with i IH show ?case by auto
qed auto

definition rowOf :: "abs_store \<Rightarrow> string \<Rightarrow> string \<Rightarrow> string \<Rightarrow> feeRow" where
  "rowOf A sk b recip =
     (let rf = fee_in_force A (trimSpace recip) sk b
      in \<lparr>fr_recipient = trimSpace recip, fr_recipientFee = rf, fr_allowed = (rf \<noteq> FeeBlocked)\<rparr>)"

definition pushesFor :: "string \<Rightarrow> (string \<times> string) list \<Rightarrow> FCMPayload list" where
  "pushesFor b plan = (case pushTitle b of None \<Rightarrow> []
     | Some title \<Rightarrow> map (\<lambda>(r, i). \<lparr>fp_Title = title, fp_MessageID = i, fp_Originator = [], fp_Recipient = r, fp_MessageBox = b\<rparr>) plan)"

lemma pushesFor_Cons: "pushesFor b (p # plan) = pushesFor b [p] @ pushesFor b plan"
  by (simp add: pushesFor_def split: option.splits)

context permission_store
begin

lemma feeLoop_ok:
  assumes "invar s" and "feeLoop S sk b recs s = (x, s')"
  shows "invar s' \<and> defaults_added b (view s) (view s') \<and> (up s \<longrightarrow> up s' \<and> (\<exists>rows. x = Inr rows)) \<and>
    (\<forall>rows. x = Inr rows \<longrightarrow> rows = map (rowOf (view s) sk b) recs)"
  using assms
proof (induction recs arbitrary: s x s')
  case Nil
  then show ?case by (auto simp: defaults_added_refl)
next
  case (Cons r recs)
  obtain y s1 where y: "recipientFee S (trimSpace r) sk b s = (y, s1)" by fastforce
  note f = recipientFee_ok [OF Cons.prems(1) y]
  obtain z s2 where z: "feeLoop S sk b recs s1 = (z, s2)" by fastforce
  note IH = Cons.IH [OF f(1) z]
  have "rowOf (view s1) sk b r' = rowOf (view s) sk b r'" for r'
    using defaults_added_fee [OF f(3)] by (simp add: rowOf_def)
  then have rows: "\<forall>rows. z = Inr rows \<longrightarrow> rows = map (rowOf (view s) sk b) recs" using IH by auto
  have dd: "defaults_added b (view s) (view s2)" using IH defaults_added_trans [OF f(3)] by blast
  show ?case
  proof (cases y)
    case (Inl e)
    with Cons.prems(2) y f show ?thesis by auto
  next
    case (Inr rf)
    then have rf: "rf = fee_in_force (view s) (trimSpace r) sk b" using f(4) by blast
    from Cons.prems(2) y Inr z have "s' = s2" "x = (case z of Inl e \<Rightarrow> Inl e
        | Inr rows \<Rightarrow> Inr (\<lparr>fr_recipient = trimSpace r, fr_recipientFee = rf, fr_allowed = (rf \<noteq> FeeBlocked)\<rparr> # rows))"
      by (auto split: sum.splits)
    with IH rows dd f(2) show ?thesis by (auto simp: rowOf_def rf Let_def split: sum.splits)
  qed
qed

end

context message_store
begin

text \<open>The store loop stores a prefix of the planned messages, and all of them when it succeeds.\<close>

lemma storeLoop_ok:
  assumes "invar s" and "storeLoop S sk b body pay per plan (s, ps) = (x, s', ps')"
  shows "invar s' \<and> (up s \<longrightarrow> up s') \<and>
    (\<exists>ms k. k \<le> length plan \<and> stored_all ms (view s) (view s') \<and>
       map Some ms = map (\<lambda>(r, i). messageFor sk b body pay per r i) (take k plan) \<and>
       (case x of
          Inr results \<Rightarrow> k = length plan \<and> ps' = ps @ pushesFor b plan \<and>
            results = map (\<lambda>(r, i). \<lparr>res_Recipient = r, res_MessageID = i\<rparr>) plan
        | Inl reply \<Rightarrow> \<exists>status code desc. reply = ErrorReply status code desc))"
  using assms
proof (induction plan arbitrary: s ps x s' ps')
  case Nil
  then show ?case by (auto simp: pushesFor_def split: option.splits)
next
  case (Cons p plan)
  obtain r i where p: "p = (r, i)" by fastforce
  show ?case
  proof (cases "messageFor sk b body pay per r i")
    case None
    with Cons.prems p have "s' = s" "\<exists>status code desc. x = Inl (ErrorReply status code desc)" by auto
    with Cons.prems(1) show ?thesis by (auto intro!: exI [of _ "[]"] exI [of _ 0])
  next
    case (Some m)
    obtain y s1 where y: "InsertMessage S m s = (y, s1)" by fastforce
    have i1: "invar s1" "up s \<Longrightarrow> up s1" using insert_inv [OF Cons.prems(1) y] by auto
    show ?thesis
    proof (cases y)
      case (Inl e)
      with insert_err [OF Cons.prems(1)] y
      have v: "view s1 = view s \<or> stored_all [m] (view s) (view s1)" by auto
      from Cons.prems(2) p Some y Inl have "s' = s1" "\<exists>status code desc. x = Inl (ErrorReply status code desc)"
        by (auto split: if_splits)
      with v show ?thesis
      proof (elim disjE)
        assume "view s1 = view s"
        with \<open>s' = s1\<close> \<open>\<exists>status code desc. x = _\<close> i1 show ?thesis
          by (auto intro!: exI [of _ "[]"] exI [of _ 0])
      next
        assume "stored_all [m] (view s) (view s1)"
        with \<open>s' = s1\<close> \<open>\<exists>status code desc. x = _\<close> i1 Some p show ?thesis
          by (intro conjI exI [of _ "[m]"] exI [of _ "Suc 0"]) auto
      qed
    next
      case (Inr u)
      let ?ps = "ps @ pushesFor b [(r, i)]"
      have ins: "inserted m (view s) (view s1)" using insert_ok [OF Cons.prems(1)] y Inr by simp
      obtain z s2 ps2 where z: "storeLoop S sk b body pay per plan (s1, ?ps) = (z, s2, ps2)"
        using prod_cases3 by blast
      have pe: "(case pushTitle b of Some title \<Rightarrow> ps @ [\<lparr>fp_Title = title, fp_MessageID = i, fp_Originator = [], fp_Recipient = r, fp_MessageBox = b\<rparr>]
          | None \<Rightarrow> ps) = ?ps" by (simp add: pushesFor_def split: option.splits)
      from Cons.prems(2) p Some y Inr z pe have x: "s' = s2" "ps' = ps2"
          "x = (case z of Inl e \<Rightarrow> Inl e | Inr rs \<Rightarrow> Inr (\<lparr>res_Recipient = r, res_MessageID = i\<rparr> # rs))"
        by (auto split: sum.splits)
      from Cons.IH [OF i1(1) z] obtain ms k where k: "invar s2 \<and> (up s1 \<longrightarrow> up s2)" "k \<le> length plan"
          "stored_all ms (view s1) (view s2)"
          "map Some ms = map (\<lambda>(r, i). messageFor sk b body pay per r i) (take k plan)"
          "case z of Inr results \<Rightarrow> k = length plan \<and> ps2 = ?ps @ pushesFor b plan \<and>
              results = map (\<lambda>(r, i). \<lparr>res_Recipient = r, res_MessageID = i\<rparr>) plan
            | Inl reply \<Rightarrow> \<exists>status code desc. reply = ErrorReply status code desc"
        by blast
      have "stored_all (m # ms) (view s) (view s2)" using ins k(3) by auto
      moreover have "map Some (m # ms) = map (\<lambda>(r, i). messageFor sk b body pay per r i) (take (Suc k) (p # plan))"
        using Some k(4) p by simp
      ultimately show ?thesis
        using k x i1 p pushesFor_Cons [of b p plan]
        by (intro conjI exI [of _ "m # ms"] exI [of _ "Suc k"]) (auto split: sum.splits)
    qed
  qed
qed

end

context full_store
begin

text \<open>The run of \<open>sendMessage\<close> past validation, phase by phase.\<close>

lemma send_phases:
  assumes inv: "invar (w_db st)" and v: "validateSend valid req = Inr (msg, recs, ids, b)"
    and eq: "sendMessage S valid internalize sk (Decoded req) st = (reply, st')"
  obtains (fail) s2 where "st' = st\<lparr>w_db := s2\<rparr>" "invar s2" "defaults_added b (view (w_db st)) (view s2)"
      "\<not> up (w_db st)" "reply = ErrorReply 500 ''ERR_INTERNAL'' ''An internal error has occurred.''"
    | (run) s2 rows where "invar s2" "defaults_added b (view (w_db st)) (view s2)" "up (w_db st) \<Longrightarrow> up s2"
      "rows = map (rowOf (view (w_db st)) sk b) recs"
      "(let blocked = map fr_recipient (filter (\<lambda>fr. \<not> fr_allowed fr) rows) in
        if blocked \<noteq> [] then
          (JsonReply 403 (DeliveryBlockedError (''Blocked recipients: '' @ joinWith '', '' blocked) blocked), st\<lparr>w_db := s2\<rparr>)
        else (case takePayment valid internalize (sr_Payment req) (a_fees (view (w_db st)) b) rows (w_wallet st) of
             (Inl reply, w1) \<Rightarrow> (reply, st\<lparr>w_db := s2, w_wallet := w1\<rparr>)
           | (Inr per, w1) \<Rightarrow>
               (case storeLoop S sk b (sm_Body msg) (sr_Payment req) per (zip (map fr_recipient rows) ids) (s2, w_pushes st) of
                  (Inl reply, s3, ps) \<Rightarrow> (reply, st\<lparr>w_db := s3, w_wallet := w1, w_pushes := ps\<rparr>)
                | (Inr results, s3, ps) \<Rightarrow>
                    (JsonReply 200 (SendMessageResponse
                       (''Your message has been sent to '' @ itoa (int (length results)) @ '' recipient(s).'')
                       results), st\<lparr>w_db := s3, w_wallet := w1, w_pushes := ps\<rparr>)))) = (reply, st')"
proof -
  obtain y s1 where y: "GetServerDeliveryFee S b (w_db st) = (y, s1)" by fastforce
  note f = readsD [OF fee_reads [OF inv] y]
  obtain z s2 where z: "feeLoop S sk b recs s1 = (z, s2)" by fastforce
  note l = feeLoop_ok [OF f(1) z]
  show ?thesis
  proof (cases y)
    case (Inl e)
    with eq v y have "st' = st\<lparr>w_db := s1\<rparr>" "reply = ErrorReply 500 ''ERR_INTERNAL'' ''An internal error has occurred.''"
      by (auto simp: sendMessage_def Let_def)
    then show ?thesis using f Inl by (intro fail [of s1]) (auto simp: defaults_added_refl)
  next
    case (Inr df)
    then have df: "df = a_fees (view (w_db st)) b" using f(5) by blast
    show ?thesis
    proof (cases z)
      case (Inl e)
      with eq v y Inr z have "st' = st\<lparr>w_db := s2\<rparr>" "reply = ErrorReply 500 ''ERR_INTERNAL'' ''An internal error has occurred.''"
        by (auto simp: sendMessage_def Let_def)
      then show ?thesis using f l Inl by (intro fail [of s2]) auto
    next
      case (Inr rows)
      with l f have "rows = map (rowOf (view (w_db st)) sk b) recs" by simp
      moreover note eq [unfolded sendMessage_def write_simps Let_def decoded.case v sum.case prod.case y \<open>y = Inr df\<close> z Inr df]
      ultimately show ?thesis using l f by (intro run [of s2 rows]) (auto simp: Let_def)
    qed
  qed
qed

text \<open>A recipient who blocks the sender gets nothing, and neither does anyone else in the request:
  no message, no payment taken, no push.\<close>

lemma send_blocked:
  assumes inv: "invar (w_db st)" and v: "validateSend valid req = Inr (msg, recs, ids, b)"
    and r: "r \<in> set recs" and blk: "fee_in_force (view (w_db st)) (trimSpace r) sk b = FeeBlocked"
    and eq: "sendMessage S valid internalize sk (Decoded req) st = (reply, st')"
  shows "a_msgs (view (w_db st')) = a_msgs (view (w_db st)) \<and> w_wallet st' = w_wallet st \<and> w_pushes st' = w_pushes st \<and>
    (up (w_db st) \<longrightarrow> (\<exists>desc. reply = JsonReply 403 (DeliveryBlockedError desc
       (map trimSpace (filter (\<lambda>r. fee_in_force (view (w_db st)) (trimSpace r) sk b = FeeBlocked) recs)))))"
  using inv v eq
proof (cases rule: send_phases)
  case (fail s2)
  then show ?thesis by (auto dest: defaults_added_other)
next
  case (run s2 rows)
  have bl: "map fr_recipient (filter (\<lambda>fr. \<not> fr_allowed fr) rows) =
      map trimSpace (filter (\<lambda>r. fee_in_force (view (w_db st)) (trimSpace r) sk b = FeeBlocked) recs)"
    by (simp add: run(4) filter_map comp_def rowOf_def Let_def)
  then have "map fr_recipient (filter (\<lambda>fr. \<not> fr_allowed fr) rows) \<noteq> []"
    using r blk by (auto simp: filter_empty_conv)
  with run(5) bl have "st' = st\<lparr>w_db := s2\<rparr>" "\<exists>desc. reply = JsonReply 403 (DeliveryBlockedError desc
       (map trimSpace (filter (\<lambda>r. fee_in_force (view (w_db st)) (trimSpace r) sk b = FeeBlocked) recs)))"
    by (auto simp: Let_def)
  with run(2) show ?thesis by (auto dest: defaults_added_other)
qed

text \<open>A success reply means one message per recipient was stored, in order, each with the sender,
  the box, its own id and its own outputs; that the recipients were owed fees the payment covers;
  and that a push was spawned for each when the box pushes.\<close>

lemma send_success:
  assumes inv: "invar (w_db st)" and v: "validateSend valid req = Inr (msg, recs, ids, b)"
    and eq: "sendMessage S valid internalize sk (Decoded req) st = (JsonReply 200 (SendMessageResponse txt results), st')"
  shows "\<exists>B per ms. defaults_added b (view (w_db st)) B \<and> stored_all ms B (view (w_db st')) \<and>
     map Some ms = map (\<lambda>(r, i). messageFor sk b (sm_Body msg) (sr_Payment req) per r i) (zip (map trimSpace recs) ids) \<and>
     results = map (\<lambda>(r, i). \<lparr>res_Recipient = r, res_MessageID = i\<rparr>) (zip (map trimSpace recs) ids) \<and>
     w_pushes st' = w_pushes st @ pushesFor b (zip (map trimSpace recs) ids) \<and>
     invar (w_db st') \<and>
     takePayment valid internalize (sr_Payment req) (a_fees (view (w_db st)) b)
       (map (rowOf (view (w_db st)) sk b) recs) (w_wallet st) = (Inr per, w_wallet st')"
  using inv v eq
proof (cases rule: send_phases)
  case (fail s2)
  then show ?thesis by simp
next
  case (run s2 rows)
  let ?plan = "zip (map fr_recipient rows) ids"
  obtain tp w1 where tp: "takePayment valid internalize (sr_Payment req) (a_fees (view (w_db st)) b) rows (w_wallet st) = (tp, w1)"
    by fastforce
  have plan: "?plan = zip (map trimSpace recs) ids"
    by (simp add: run(4) comp_def rowOf_def Let_def)
  have nb: "map fr_recipient (filter (\<lambda>fr. \<not> fr_allowed fr) rows) = []"
    using run(5) by (auto simp: Let_def split: if_splits)
  have tpe: "\<exists>status code desc. r = ErrorReply status code desc" if "tp = Inl r" for r
    using tp that by (auto simp: takePayment_def internalizeDelivery_def Let_def split: if_splits option.splits sum.splits prod.splits)
  then obtain per where per: "tp = Inr per" using run(5) nb tp by (auto simp: Let_def split: sum.splits)
  obtain x s3 ps where sl: "storeLoop S sk b (sm_Body msg) (sr_Payment req) per ?plan (s2, w_pushes st) = (x, s3, ps)"
    using prod_cases3 by blast
  from storeLoop_ok [OF run(1) sl] obtain ms k where k: "invar s3" "k \<le> length ?plan" "stored_all ms (view s2) (view s3)"
      "map Some ms = map (\<lambda>(r, i). messageFor sk b (sm_Body msg) (sr_Payment req) per r i) (take k ?plan)"
      "case x of Inr results \<Rightarrow> k = length ?plan \<and> ps = w_pushes st @ pushesFor b ?plan \<and>
          results = map (\<lambda>(r, i). \<lparr>res_Recipient = r, res_MessageID = i\<rparr>) ?plan
        | Inl reply \<Rightarrow> \<exists>status code desc. reply = ErrorReply status code desc" by blast
  from run(5) nb tp per sl k(5) have x: "x = Inr results" and st': "st' = st\<lparr>w_db := s3, w_wallet := w1, w_pushes := ps\<rparr>"
    by (auto simp: Let_def split: sum.splits)
  with k have "k = length ?plan" by simp
  with k x st' tp per run(2,4) plan show ?thesis
    by (intro exI [of _ "view s2"] exI [of _ per] exI [of _ ms]) simp
qed

text \<open>Whatever the outcome, the store holds what it held plus a prefix of the planned messages.\<close>

lemma send_prefix:
  assumes inv: "invar (w_db st)" and v: "validateSend valid req = Inr (msg, recs, ids, b)"
    and eq: "sendMessage S valid internalize sk (Decoded req) st = (reply, st')"
  shows "\<exists>B per ms k. defaults_added b (view (w_db st)) B \<and> stored_all ms B (view (w_db st')) \<and>
     map Some ms = map (\<lambda>(r, i). messageFor sk b (sm_Body msg) (sr_Payment req) per r i) (take k (zip (map trimSpace recs) ids)) \<and>
     invar (w_db st')"
  using inv v eq
proof (cases rule: send_phases)
  case (fail s2)
  then show ?thesis by (intro exI [of _ "view s2"] exI [of _ Map.empty] exI [of _ "[]"] exI [of _ 0]) simp
next
  case (run s2 rows)
  let ?plan = "zip (map fr_recipient rows) ids"
  have plan: "?plan = zip (map trimSpace recs) ids" by (simp add: run(4) comp_def rowOf_def Let_def)
  obtain tp w1 where tp: "takePayment valid internalize (sr_Payment req) (a_fees (view (w_db st)) b) rows (w_wallet st) = (tp, w1)"
    by fastforce
  show ?thesis
  proof (cases "map fr_recipient (filter (\<lambda>fr. \<not> fr_allowed fr) rows) \<noteq> [] \<or> (\<exists>r. tp = Inl r)")
    case True
    with run(5) tp have "w_db st' = s2" by (auto simp: Let_def split: if_splits)
    with run(1,2) show ?thesis by (intro exI [of _ "view s2"] exI [of _ Map.empty] exI [of _ "[]"] exI [of _ 0]) simp
  next
    case False
    then obtain per where per: "tp = Inr per" by (cases tp) auto
    obtain x s3 ps where sl: "storeLoop S sk b (sm_Body msg) (sr_Payment req) per ?plan (s2, w_pushes st) = (x, s3, ps)"
      using prod_cases3 by blast
    from run(5) False tp per sl have "w_db st' = s3" by (auto simp: Let_def split: sum.splits)
    moreover from storeLoop_ok [OF run(1) sl] obtain ms k where "invar s3" "stored_all ms (view s2) (view s3)"
      "map Some ms = map (\<lambda>(r, i). messageFor sk b (sm_Body msg) (sr_Payment req) per r i) (take k ?plan)" by blast
    ultimately show ?thesis using run(2) plan
      by (intro exI [of _ "view s2"] exI [of _ per] exI [of _ ms] exI [of _ k]) simp
  qed
qed

end

end
