(* ===== verification/Permissions.thy ===== *)
theory Permissions
  imports Policy
begin

text \<open>
  The permission endpoints (\<open>pkg/handlers/permissions.go\<close>): setting, reading and listing the
  caller's permissions, and the delivery quote. \<open>valid\<close> is the test \<open>isValidPubKey\<close>, a call into
  the elliptic-curve package; \<open>query\<close> gives the values of each query parameter.
\<close>

section \<open>Requests and responses\<close>

record SetPermissionRequest =
  spr_Sender :: "string option"
  spr_MessageBox :: string
  spr_RecipientFee :: "int option"

record PermissionDetail =
  pdt_Sender :: "string option"
  pdt_MessageBox :: string
  pdt_RecipientFee :: int
  pdt_Status :: string
  pdt_CreatedAt :: string
  pdt_UpdatedAt :: string

record PermissionDetailList =
  pdl_Sender :: "string option"
  pdl_MessageBox :: string
  pdl_RecipientFee :: int
  pdl_CreatedAt :: string
  pdl_UpdatedAt :: string

record GetPermissionResponse =
  gpr_Description :: string
  gpr_Permission :: "PermissionDetail option"

record ListPermissionsResponse =
  lpr_Permissions :: "PermissionDetailList list"
  lpr_TotalCount :: int

record QuoteEntry =
  qe_Recipient :: string
  qe_MessageBox :: string
  qe_DeliveryFee :: int
  qe_RecipientFee :: int
  qe_Status :: string

record QuoteTotals =
  qt_DeliveryFees :: int
  qt_RecipientFees :: int
  qt_TotalForPayableRecipients :: int

datatype QuoteResponse =
    QuoteSingleResponse (qs_DeliveryFee: int) (qs_RecipientFee: int)
  | QuoteMultiResponse (qm_Description: string) (qm_Quotes: "QuoteEntry list") (qm_Totals: QuoteTotals)
      (qm_Blocked: "string list")

definition queryGet :: "(string \<Rightarrow> string list) \<Rightarrow> string \<Rightarrow> string" where
  "queryGet query k = (case query k of [] \<Rightarrow> [] | v # _ \<Rightarrow> v)"

section \<open>Handlers\<close>

definition setPermissionText :: "string option \<Rightarrow> string \<Rightarrow> int \<Rightarrow> string" where
  "setPermissionText sender messageBox fee =
     (let isBoxWide = (sender = None);
          senderText = (case sender of None \<Rightarrow> ''all senders'' | Some s \<Rightarrow> s);
          actionText = (if isBoxWide then ''Box-wide default for'' else ''Messages from'');
          start = actionText @ '' '' @ senderText @ '' to '' @ messageBox
      in if fee = FeeBlocked then
           start @ (if isBoxWide then '' is now blocked.'' else '' are now blocked.'')
         else if fee = 0 then
           start @ (if isBoxWide then '' is now always allowed.'' else '' are now always allowed.'')
         else start @ (if isBoxWide then '' now requires '' else '' now require '') @ itoa fee @ '' satoshis.'')"

definition handleSetPermission ::
  "'s Store \<Rightarrow> (string \<Rightarrow> bool) \<Rightarrow> string \<Rightarrow> SetPermissionRequest decoded \<Rightarrow> 's \<Rightarrow> string response \<times> 's" where
  "handleSetPermission S valid identityKey body s =
     (if identityKey = [] then
        (writeError 401 ''ERR_AUTHENTICATION_REQUIRED'' ''Authentication required.'', s)
      else case body of
        Decoded req \<Rightarrow>
          (if spr_MessageBox req = [] \<or> spr_RecipientFee req = None then
             (writeError 400 ''ERR_INVALID_REQUEST'' ''messageBox (string) and recipientFee (number) are required. sender (string) is optional for box-wide settings.'', s)
           else if (case spr_Sender req of Some k \<Rightarrow> \<not> valid k | None \<Rightarrow> False) then
             (writeError 400 ''ERR_INVALID_PUBLIC_KEY'' ''Invalid sender public key format.'', s)
           else
             (let fee = the (spr_RecipientFee req) in
              case SetPermission S identityKey (spr_Sender req) (spr_MessageBox req) fee s of
                (Inl _, s1) \<Rightarrow>
                  (writeError 500 ''ERR_DATABASE_ERROR'' ''Failed to update message permission.'', s1)
              | (Inr _, s1) \<Rightarrow>
                  (writeJSON 200 (setPermissionText (spr_Sender req) (spr_MessageBox req) fee), s1)))
      | _ \<Rightarrow> (writeError 400 ''ERR_INVALID_JSON'' ''Invalid JSON body'', s))"

definition handleGetPermission ::
  "'s Store \<Rightarrow> (string \<Rightarrow> bool) \<Rightarrow> string \<Rightarrow> (string \<Rightarrow> string list) \<Rightarrow> 's \<Rightarrow> GetPermissionResponse response \<times> 's" where
  "handleGetPermission S valid identityKey query s =
     (let messageBox = queryGet query ''messageBox''; senderParam = queryGet query ''sender'';
          sender = (if senderParam \<noteq> [] then Some senderParam else None)
      in if identityKey = [] then
           (writeError 401 ''ERR_AUTHENTICATION_REQUIRED'' ''Authentication required.'', s)
         else if messageBox = [] then
           (writeError 400 ''ERR_MISSING_PARAMETERS'' ''messageBox parameter is required.'', s)
         else if senderParam \<noteq> [] \<and> \<not> valid senderParam then
           (writeError 400 ''ERR_INVALID_PUBLIC_KEY'' ''Invalid sender public key format.'', s)
         else case GetPermission S identityKey sender messageBox s of
           (Inl _, s1) \<Rightarrow> (writeError 500 ''ERR_INTERNAL'' ''An internal error has occurred.'', s1)
         | (Inr (Some perm), s1) \<Rightarrow>
             (writeJSON 200 \<lparr>gpr_Description = (case sender of
                  Some k \<Rightarrow> ''Permission setting found for sender '' @ k @ '' to '' @ messageBox @ ''.''
                | None \<Rightarrow> ''Box-wide permission setting found for '' @ messageBox @ ''.''),
                gpr_Permission = Some \<lparr>pdt_Sender = p_Sender perm, pdt_MessageBox = messageBox,
                  pdt_RecipientFee = p_RecipientFee perm, pdt_Status = feeStatus (p_RecipientFee perm),
                  pdt_CreatedAt = formatTime (p_CreatedAt perm), pdt_UpdatedAt = formatTime (p_UpdatedAt perm)\<rparr>\<rparr>, s1)
         | (Inr None, s1) \<Rightarrow>
             (writeJSON 200 \<lparr>gpr_Description = (case sender of
                  Some k \<Rightarrow> ''No permission setting found for sender '' @ k @ '' to '' @ messageBox @ ''.''
                | None \<Rightarrow> ''No box-wide permission setting found for '' @ messageBox @ ''.''),
                gpr_Permission = None\<rparr>, s1))"

text \<open>A query parameter that is absent takes its default; one outside its range is refused.\<close>

definition boundedParam :: "string \<Rightarrow> int \<Rightarrow> (int \<Rightarrow> bool) \<Rightarrow> int option" where
  "boundedParam str dflt ok =
     (if str = [] then Some dflt
      else case atoi str of Some v \<Rightarrow> if ok v then Some v else None | None \<Rightarrow> None)"

definition detailOf :: "Permission \<Rightarrow> PermissionDetailList" where
  "detailOf p = \<lparr>pdl_Sender = p_Sender p, pdl_MessageBox = p_MessageBox p, pdl_RecipientFee = p_RecipientFee p,
     pdl_CreatedAt = formatTime (p_CreatedAt p), pdl_UpdatedAt = formatTime (p_UpdatedAt p)\<rparr>"

definition handleListPermissions ::
  "'s Store \<Rightarrow> string \<Rightarrow> (string \<Rightarrow> string list) \<Rightarrow> 's \<Rightarrow> ListPermissionsResponse response \<times> 's" where
  "handleListPermissions S identityKey query s =
     (if identityKey = [] then (writeError 401 ''ERR_UNAUTHORIZED'' ''Authentication required'', s)
      else
        let messageBoxParam = queryGet query ''messageBox'';
            messageBox = (if messageBoxParam \<noteq> [] then Some messageBoxParam else None)
        in case boundedParam (queryGet query ''limit'') 100 (\<lambda>v. 1 \<le> v \<and> v \<le> 1000) of
             None \<Rightarrow> (writeError 400 ''ERR_INVALID_LIMIT'' ''Limit must be a number between 1 and 1000'', s)
           | Some limit \<Rightarrow>
               (case boundedParam (queryGet query ''offset'') 0 (\<lambda>v. 0 \<le> v) of
                  None \<Rightarrow> (writeError 400 ''ERR_INVALID_OFFSET'' ''Offset must be a non-negative number'', s)
                | Some offset \<Rightarrow>
                    (case ListPermissions S \<lparr>pq_Recipient = identityKey, pq_MessageBox = messageBox,
                            pq_Limit = limit, pq_Offset = offset,
                            pq_Order = sortOrder (queryGet query ''createdAtOrder'')\<rparr> s of
                       (Inl _, s1) \<Rightarrow> (writeError 500 ''ERR_LIST_PERMISSIONS_FAILED'' ''Failed to list permissions'', s1)
                     | (Inr page, s1) \<Rightarrow>
                         (writeJSON 200 \<lparr>lpr_Permissions = map detailOf (pp_Items page),
                            lpr_TotalCount = pp_Total page\<rparr>, s1))))"

text \<open>The indices of the recipients whose key is not valid.\<close>

fun invalidIdx :: "(string \<Rightarrow> bool) \<Rightarrow> nat \<Rightarrow> string list \<Rightarrow> nat list" where
  "invalidIdx valid i [] = []"
| "invalidIdx valid i (r # rs) =
     (if valid (trimSpace r) then invalidIdx valid (Suc i) rs else i # invalidIdx valid (Suc i) rs)"

record quote_acc =
  qa_Quotes :: "QuoteEntry list"
  qa_Blocked :: "string list"
  qa_RecipientFees :: int
  qa_DeliveryFees :: int

definition quoteStep :: "string \<Rightarrow> int \<Rightarrow> string \<Rightarrow> int \<Rightarrow> quote_acc \<Rightarrow> quote_acc" where
  "quoteStep messageBox deliveryFee rec rf acc =
     (let status = feeStatus rf in
      acc\<lparr>qa_Blocked := (if status = statusBlocked then qa_Blocked acc @ [rec] else qa_Blocked acc),
          qa_RecipientFees := (if status = statusPaymentRequired then wrap64 (qa_RecipientFees acc + rf)
                               else qa_RecipientFees acc),
          qa_DeliveryFees := wrap64 (qa_DeliveryFees acc + deliveryFee),
          qa_Quotes := qa_Quotes acc @ [\<lparr>qe_Recipient = rec, qe_MessageBox = messageBox,
             qe_DeliveryFee = deliveryFee, qe_RecipientFee = rf, qe_Status = status\<rparr>]\<rparr>)"

fun quoteLoop ::
  "'s Store \<Rightarrow> string \<Rightarrow> string \<Rightarrow> int \<Rightarrow> string list \<Rightarrow> quote_acc \<Rightarrow> 's \<Rightarrow> (store_error + quote_acc) \<times> 's" where
  "quoteLoop S senderKey messageBox deliveryFee [] acc s = (Inr acc, s)"
| "quoteLoop S senderKey messageBox deliveryFee (rec # recs) acc s =
     (case recipientFee S rec senderKey messageBox s of
        (Inl e, s1) \<Rightarrow> (Inl e, s1)
      | (Inr rf, s1) \<Rightarrow> quoteLoop S senderKey messageBox deliveryFee recs (quoteStep messageBox deliveryFee rec rf acc) s1)"

definition quoteStart :: quote_acc where
  "quoteStart = \<lparr>qa_Quotes = [], qa_Blocked = [], qa_RecipientFees = 0, qa_DeliveryFees = 0\<rparr>"

definition handleGetQuote ::
  "'s Store \<Rightarrow> (string \<Rightarrow> bool) \<Rightarrow> string \<Rightarrow> (string \<Rightarrow> string list) \<Rightarrow> 's \<Rightarrow> QuoteResponse response \<times> 's" where
  "handleGetQuote S valid senderKey query s =
     (let messageBox = queryGet query ''messageBox''; recipients = query ''recipient'';
          internal = writeError 500 ''ERR_INTERNAL'' ''An internal error has occurred.'';
          missing = writeError 400 ''ERR_MISSING_PARAMETERS'' ''recipient and messageBox parameters are required.''
      in if senderKey = [] then
           (writeError 401 ''ERR_AUTHENTICATION_REQUIRED'' ''Authentication required.'', s)
         else if messageBox = [] then (missing, s)
         else if recipients = [] then (missing, s)
         else if invalidIdx valid 0 recipients \<noteq> [] then
           (writeError 400 ''ERR_INVALID_PUBLIC_KEY'' (''Invalid recipient public key at index(es): '' @
              joinWith '', '' (map (\<lambda>i. itoa (int i)) (invalidIdx valid 0 recipients)) @ ''.''), s)
         else case GetServerDeliveryFee S messageBox s of
           (Inl _, s1) \<Rightarrow> (internal, s1)
         | (Inr deliveryFee, s1) \<Rightarrow>
             if length recipients = 1 then
               (case recipientFee S (hd recipients) senderKey messageBox s1 of
                  (Inl _, s2) \<Rightarrow> (internal, s2)
                | (Inr rf, s2) \<Rightarrow> (writeJSON 200 (QuoteSingleResponse deliveryFee rf), s2))
             else
               (case quoteLoop S senderKey messageBox deliveryFee recipients quoteStart s1 of
                  (Inl _, s2) \<Rightarrow> (internal, s2)
                | (Inr acc, s2) \<Rightarrow>
                    (writeJSON 200 (QuoteMultiResponse
                       (''Message delivery quotes generated for '' @ itoa (int (length recipients)) @ '' recipients.'')
                       (qa_Quotes acc)
                       \<lparr>qt_DeliveryFees = qa_DeliveryFees acc, qt_RecipientFees = qa_RecipientFees acc,
                        qt_TotalForPayableRecipients = wrap64 (qa_DeliveryFees acc + qa_RecipientFees acc)\<rparr>
                       (qa_Blocked acc)), s2)))"

section \<open>Quotes\<close>

text \<open>What a quote reports of one recipient, and the sums over all of them.\<close>

definition quoteOf :: "abs_store \<Rightarrow> string \<Rightarrow> string \<Rightarrow> int \<Rightarrow> string \<Rightarrow> QuoteEntry" where
  "quoteOf A senderKey messageBox deliveryFee rec =
     (let rf = fee_in_force A rec senderKey messageBox
      in \<lparr>qe_Recipient = rec, qe_MessageBox = messageBox, qe_DeliveryFee = deliveryFee,
          qe_RecipientFee = rf, qe_Status = feeStatus rf\<rparr>)"

definition payable :: "int \<Rightarrow> int" where
  "payable fee = (if fee > 0 then fee else 0)"

lemma status_distinct [simp]:
  "statusBlocked \<noteq> statusPaymentRequired" "statusBlocked \<noteq> statusAlwaysAllow"
  "statusPaymentRequired \<noteq> statusAlwaysAllow" "statusPaymentRequired \<noteq> statusBlocked"
  "statusAlwaysAllow \<noteq> statusBlocked" "statusAlwaysAllow \<noteq> statusPaymentRequired"
  by (simp_all add: statusBlocked_def statusPaymentRequired_def statusAlwaysAllow_def)

lemma feeStatus_iff:
  "feeStatus fee = statusBlocked \<longleftrightarrow> fee = FeeBlocked"
  "feeStatus fee = statusPaymentRequired \<longleftrightarrow> fee > 0"
  "feeStatus fee = statusAlwaysAllow \<longleftrightarrow> fee \<le> 0 \<and> fee \<noteq> FeeBlocked"
  by (auto simp: feeStatus_def FeeBlocked_def)

text \<open>Adding in 64 bits is adding modulo \<open>2\<^sup>6\<^sup>4\<close>, so a wrapped sum is the sum wrapped.\<close>

lemma wrap64_add: "wrap64 (wrap64 x + y) = wrap64 (x + y)"
proof -
  have "(wrap64 x + y + 2 ^ 63) mod 2 ^ 64 = (((x + 2 ^ 63) mod 2 ^ 64) + y) mod 2 ^ 64"
    by (simp add: wrap64_def)
  also have "\<dots> = (x + 2 ^ 63 + y) mod 2 ^ 64" by (rule mod_add_left_eq)
  also have "x + 2 ^ 63 + y = x + y + 2 ^ 63" by simp
  finally show ?thesis unfolding wrap64_def by linarith
qed

context permission_store
begin

lemma quoteLoop_ok:
  assumes "invar s" and "quoteLoop S sk b df recs acc s = (x, s')"
  shows "invar s' \<and> defaults_added b (view s) (view s') \<and> (up s \<longrightarrow> up s' \<and> (\<exists>a. x = Inr a)) \<and>
    (\<forall>a. x = Inr a \<longrightarrow>
       qa_Quotes a = qa_Quotes acc @ map (quoteOf (view s) sk b df) recs \<and>
       qa_Blocked a = qa_Blocked acc @ filter (\<lambda>r. fee_in_force (view s) r sk b = FeeBlocked) recs \<and>
       wrap64 (qa_RecipientFees a) = wrap64 (qa_RecipientFees acc + (\<Sum>r \<leftarrow> recs. payable (fee_in_force (view s) r sk b))) \<and>
       wrap64 (qa_DeliveryFees a) = wrap64 (qa_DeliveryFees acc + int (length recs) * df))"
  using assms
proof (induction recs arbitrary: acc s)
  case Nil
  then show ?case by (auto simp: defaults_added_refl)
next
  case (Cons r recs)
  obtain y s1 where y: "recipientFee S r sk b s = (y, s1)" by fastforce
  note f = recipientFee_ok [OF Cons.prems(1) y]
  show ?case
  proof (cases y)
    case (Inl e)
    with Cons.prems(2) y f show ?thesis by auto
  next
    case (Inr rf)
    let ?acc = "quoteStep b df r rf acc"
    have rf: "rf = fee_in_force (view s) r sk b" using f(4) Inr by blast
    have eq: "quoteLoop S sk b df recs ?acc s1 = (x, s')" using Cons.prems(2) y Inr by simp
    note IH = Cons.IH [OF f(1) eq]
    have same: "fee_in_force (view s1) r' sk b = fee_in_force (view s) r' sk b" for r'
      by (rule defaults_added_fee [OF f(3)])
    then have q: "quoteOf (view s1) sk b df = quoteOf (view s) sk b df" by (simp add: quoteOf_def fun_eq_iff)
    have "qa_RecipientFees ?acc = wrap64 (qa_RecipientFees acc + payable rf) \<or>
        (payable rf = 0 \<and> qa_RecipientFees ?acc = qa_RecipientFees acc)"
      by (auto simp: quoteStep_def Let_def feeStatus_iff payable_def)
    then have sums: "wrap64 (qa_RecipientFees ?acc + z) = wrap64 (qa_RecipientFees acc + payable rf + z)" for z
      by (auto simp: wrap64_add)
    have del: "wrap64 (qa_DeliveryFees ?acc + z) = wrap64 (qa_DeliveryFees acc + df + z)" for z
      by (simp add: quoteStep_def Let_def wrap64_add)
    have blk: "qa_Blocked ?acc = qa_Blocked acc @ (if rf = FeeBlocked then [r] else [])"
      "qa_Quotes ?acc = qa_Quotes acc @ [quoteOf (view s) sk b df r]"
      by (auto simp: quoteStep_def Let_def feeStatus_iff quoteOf_def rf)
    have tail: "wrap64 (qa_RecipientFees ?acc + (\<Sum>r \<leftarrow> recs. payable (fee_in_force (view s) r sk b))) =
        wrap64 (qa_RecipientFees acc + (\<Sum>r \<leftarrow> r # recs. payable (fee_in_force (view s) r sk b)))"
      unfolding sums by (simp add: rf add.assoc)
    have dtail: "wrap64 (qa_DeliveryFees ?acc + int (length recs) * df) =
        wrap64 (qa_DeliveryFees acc + int (length (r # recs)) * df)"
      unfolding del by (simp add: algebra_simps)
    have dd: "defaults_added b (view s) (view s')"
      using IH defaults_added_trans [OF f(3)] by blast
    have main: "qa_Quotes a = qa_Quotes acc @ map (quoteOf (view s) sk b df) (r # recs) \<and>
       qa_Blocked a = qa_Blocked acc @ filter (\<lambda>r. fee_in_force (view s) r sk b = FeeBlocked) (r # recs) \<and>
       wrap64 (qa_RecipientFees a) = wrap64 (qa_RecipientFees acc + (\<Sum>r \<leftarrow> r # recs. payable (fee_in_force (view s) r sk b))) \<and>
       wrap64 (qa_DeliveryFees a) = wrap64 (qa_DeliveryFees acc + int (length (r # recs)) * df)" if "x = Inr a" for a
      using IH [THEN conjunct2, THEN conjunct2, THEN conjunct2] that
      unfolding same q tail [symmetric] dtail [symmetric] by (simp add: blk rf [symmetric])
    show ?thesis using IH dd main f(2) by blast
  qed
qed

end

lemma quoteLoop_range:
  assumes "quoteLoop S sk b df recs acc s = (Inr a, s')"
    and "int64_range (qa_RecipientFees acc)" and "int64_range (qa_DeliveryFees acc)"
  shows "int64_range (qa_RecipientFees a) \<and> int64_range (qa_DeliveryFees a)"
  using assms
proof (induction recs arbitrary: acc s)
  case (Cons r recs)
  then obtain rf s1 where "quoteLoop S sk b df recs (quoteStep b df r rf acc) s1 = (Inr a, s')"
    by (auto split: prod.splits sum.splits)
  moreover have "int64_range (qa_RecipientFees (quoteStep b df r rf acc))"
    "int64_range (qa_DeliveryFees (quoteStep b df r rf acc))"
    using Cons.prems by (auto simp: quoteStep_def Let_def wrap64_range)
  ultimately show ?case by (rule Cons.IH)
qed simp

definition quote_sum :: "abs_store \<Rightarrow> string \<Rightarrow> string \<Rightarrow> string list \<Rightarrow> int" where
  "quote_sum A sk b recs = (\<Sum>r \<leftarrow> recs. payable (fee_in_force A r sk b))"

context full_store
begin

lemma quote_multi:
  assumes inv: "invar s"
    and eq: "handleGetQuote S valid sk query s = (JsonReply st (QuoteMultiResponse d qs tot bl), s')"
    and b: "b = queryGet query ''messageBox''" and recs: "recs = query ''recipient''"
  shows "qs = map (quoteOf (view s) sk b (a_fees (view s) b)) recs"
    and "bl = filter (\<lambda>r. fee_in_force (view s) r sk b = FeeBlocked) recs"
    and "qt_DeliveryFees tot = wrap64 (int (length recs) * a_fees (view s) b)"
    and "qt_RecipientFees tot = wrap64 (quote_sum (view s) sk b recs)"
    and "qt_TotalForPayableRecipients tot =
      wrap64 (int (length recs) * a_fees (view s) b + quote_sum (view s) sk b recs)"
    and "invar s' \<and> defaults_added b (view s) (view s')"
proof -
  obtain y s1 where y: "GetServerDeliveryFee S b s = (y, s1)" by fastforce
  note f = readsD [OF fee_reads [OF inv] y]
  from eq y obtain df where df: "y = Inr df"
    by (auto simp: handleGetQuote_def Let_def b split: if_splits sum.splits)
  with f(5) have fee: "df = a_fees (view s) b" by blast
  obtain z s2 where z: "quoteLoop S sk b df recs quoteStart s1 = (z, s2)" by fastforce
  from eq y df z obtain acc where acc: "z = Inr acc" and s': "s' = s2"
    and out: "qs = qa_Quotes acc" "bl = qa_Blocked acc"
      "tot = \<lparr>qt_DeliveryFees = qa_DeliveryFees acc, qt_RecipientFees = qa_RecipientFees acc,
         qt_TotalForPayableRecipients = wrap64 (qa_DeliveryFees acc + qa_RecipientFees acc)\<rparr>"
    by (auto simp: handleGetQuote_def Let_def b recs split: if_splits sum.splits prod.splits)
  note l = quoteLoop_ok [OF f(1) z, unfolded f(2)]
  have "int64_range (qa_RecipientFees acc) \<and> int64_range (qa_DeliveryFees acc)"
    by (rule quoteLoop_range [OF z [unfolded acc]]) (simp_all add: quoteStart_def int64_range_def)
  then have id: "wrap64 (qa_RecipientFees acc) = qa_RecipientFees acc" "wrap64 (qa_DeliveryFees acc) = qa_DeliveryFees acc"
    by (simp_all add: wrap64_id)
  show "qs = map (quoteOf (view s) sk b (a_fees (view s) b)) recs"
    "bl = filter (\<lambda>r. fee_in_force (view s) r sk b = FeeBlocked) recs"
    "invar s' \<and> defaults_added b (view s) (view s')"
    using l acc out s' by (auto simp: quoteStart_def fee)
  have rf: "qa_RecipientFees acc = wrap64 (quote_sum (view s) sk b recs)"
    and dl: "qa_DeliveryFees acc = wrap64 (int (length recs) * a_fees (view s) b)"
    using l acc id by (auto simp: quoteStart_def quote_sum_def fee)
  show "qt_DeliveryFees tot = wrap64 (int (length recs) * a_fees (view s) b)"
    "qt_RecipientFees tot = wrap64 (quote_sum (view s) sk b recs)"
    using rf dl out(3) by simp_all
  have "wrap64 (qa_DeliveryFees acc + qa_RecipientFees acc) =
      wrap64 (int (length recs) * a_fees (view s) b + quote_sum (view s) sk b recs)"
    unfolding rf dl by (metis add.commute wrap64_add)
  then show "qt_TotalForPayableRecipients tot =
      wrap64 (int (length recs) * a_fees (view s) b + quote_sum (view s) sk b recs)"
    using out(3) by simp
qed

text \<open>A permission that was set is the fee in force for that sender, and for every sender without
  a permission of their own when it is box-wide.\<close>

lemma set_then_force:
  assumes inv: "invar s" and eq: "handleSetPermission S valid k body s = (JsonReply st txt, s')"
  shows "\<exists>req fee. body = Decoded req \<and> spr_RecipientFee req = Some fee \<and>
    perm_set (k, spr_Sender req, spr_MessageBox req) fee (view s) (view s')"
proof -
  from eq obtain req where req: "body = Decoded req" "spr_RecipientFee req \<noteq> None"
    by (auto simp: handleSetPermission_def split: if_splits decoded.splits)
  obtain y s1 where y: "SetPermission S k (spr_Sender req) (spr_MessageBox req) (the (spr_RecipientFee req)) s = (y, s1)"
    by fastforce
  with eq req have "y = Inr ()" "s' = s1"
    by (auto simp: handleSetPermission_def Let_def split: if_splits sum.splits)
  with writesD(4) [OF set_writes [OF inv] y] req show ?thesis by auto
qed

end

end
