(* ===== verification/List_Messages.thy ===== *)
theory List_Messages
  imports Http Sql_Refinement Mongo_Refinement
begin

text \<open>
  Listing and acknowledging messages (\<open>pkg/handlers/list_messages.go\<close>, \<open>message_fields.go\<close>,
  \<open>acknowledge_message.go\<close>): field validation, pagination bounds, the page with its byte budget,
  and the in-memory pager for backends that have none.
\<close>

section \<open>Field bounds\<close>

definition isJSWhitespace :: "rune \<Rightarrow> bool" where
  "isJSWhitespace r \<longleftrightarrow>
     r \<in> {9, 11, 12, 32, 160, 65279, 10, 13, 8232, 8233, 5760, 8239, 8287, 12288} \<or> (8192 \<le> r \<and> r \<le> 8202)"

definition jsTrimEqual :: "string \<Rightarrow> bool" where
  "jsTrimEqual s \<longleftrightarrow> trimFunc isJSWhitespace s = s"

definition trimmedEmpty :: "string \<Rightarrow> bool" where
  "trimmedEmpty s \<longleftrightarrow> list_all isJSWhitespace (runes s)"

definition maxMessageBoxBytes :: nat where
  "maxMessageBoxBytes = 128"

definition maxMessageIDBytes :: nat where
  "maxMessageIDBytes = 256"

definition containsControlCharacter :: "string \<Rightarrow> bool" where
  "containsControlCharacter s \<longleftrightarrow> list_ex (\<lambda>r. r \<le> 31 \<or> (127 \<le> r \<and> r \<le> 159)) (runes s)"

definition isExactBoundedText :: "string \<Rightarrow> nat \<Rightarrow> bool" where
  "isExactBoundedText s maxBytes =
     (if s = [] \<or> \<not> jsTrimEqual s then False
      else if length s > maxBytes then False
      else \<not> containsControlCharacter s)"

definition isCanonicalMessageBox :: "string \<Rightarrow> bool" where
  "isCanonicalMessageBox s = isExactBoundedText s maxMessageBoxBytes"

definition isCanonicalMessageID :: "string \<Rightarrow> bool" where
  "isCanonicalMessageID s = isExactBoundedText s maxMessageIDBytes"

section \<open>Requests\<close>

record ListMessagesConfig =
  lc_DefaultLimit :: int
  lc_MaxLimit :: int
  lc_MaxOffset :: int
  lc_MaxResponseBytes :: int

definition defaultListMessagesConfig :: ListMessagesConfig where
  "defaultListMessagesConfig = \<lparr>lc_DefaultLimit = 1000, lc_MaxLimit = 1000, lc_MaxOffset = 100000,
     lc_MaxResponseBytes = 8 * 1024 * 1024\<rparr>"

record ListMessagesRequest =
  lr_MessageBox :: string
  lr_Limit :: string
  lr_Offset :: string
  lr_Skip :: string
  lr_MessageID :: string

record routeFailure =
  rf_status :: nat
  rf_code :: string
  rf_desc :: string

record listPagination =
  lp_Limit :: int
  lp_Offset :: int

definition badRequest :: "string \<Rightarrow> string \<Rightarrow> routeFailure" where
  "badRequest code desc = \<lparr>rf_status = 400, rf_code = code, rf_desc = desc\<rparr>"

definition writeFailure :: "routeFailure \<Rightarrow> 'b response" where
  "writeFailure rf = writeError (rf_status rf) (rf_code rf) (rf_desc rf)"

definition decodeListMessagesRequest :: "ListMessagesRequest decoded \<Rightarrow> routeFailure + ListMessagesRequest" where
  "decodeListMessagesRequest body =
     (case body of
        DecodeError \<Rightarrow> Inl (badRequest ''ERR_INVALID_JSON'' ''Invalid JSON body'')
      | DecodeEOF \<Rightarrow> Inr \<lparr>lr_MessageBox = [], lr_Limit = [], lr_Offset = [], lr_Skip = [], lr_MessageID = []\<rparr>
      | Decoded req \<Rightarrow> Inr req)"

definition jsonRawPresent :: "string \<Rightarrow> bool" where
  "jsonRawPresent raw \<longleftrightarrow> raw \<noteq> [] \<and> raw \<noteq> ''null''"

definition normalizeMessageBoxName :: "string \<Rightarrow> routeFailure + string" where
  "normalizeMessageBoxName raw =
     (let missing = badRequest ''ERR_MESSAGEBOX_REQUIRED'' ''Please provide the name of a valid MessageBox!'';
          invalidType = badRequest ''ERR_INVALID_MESSAGEBOX'' ''MessageBox name must be a string!''
      in if \<not> jsonRawPresent raw then Inl missing
         else case unmarshalAny raw of
           (True, GStr s) \<Rightarrow>
             if trimmedEmpty s then Inl missing
             else if \<not> isCanonicalMessageBox s then
               Inl (badRequest ''ERR_INVALID_MESSAGEBOX'' (''MessageBox names must be exact, control-free strings of at most '' @
                 itoa (int maxMessageBoxBytes) @ '' bytes.''))
             else Inr s
         | _ \<Rightarrow> Inl invalidType)"

definition parseOptionalMessageID :: "string \<Rightarrow> routeFailure + string option" where
  "parseOptionalMessageID raw =
     (let invalid = badRequest ''ERR_INVALID_MESSAGE_ID'' ''messageId must be an exact bounded control-free string.''
      in if raw = [] then Inr None
         else case unmarshalAny raw of
           (True, GStr s) \<Rightarrow> if isCanonicalMessageID s then Inr (Some s) else Inl invalid
         | _ \<Rightarrow> Inl invalid)"

section \<open>Pagination\<close>

definition decodeJSONValue :: "string \<Rightarrow> bool \<times> gval" where
  "decodeJSONValue raw = (if \<not> jsonRawPresent raw then (False, GNil) else (True, snd (unmarshalAny raw)))"

definition safeIntegerLimit :: int where
  "safeIntegerLimit = 2 ^ 53 - 1"

definition boundedInteger :: "gval \<Rightarrow> int \<Rightarrow> int \<Rightarrow> int option" where
  "boundedInteger v minValue maxValue =
     (case v of
        GNum f \<Rightarrow>
          if f \<noteq> of_int \<lfloor>f\<rfloor> then None
          else if f < of_int (- safeIntegerLimit) \<or> f > of_int safeIntegerLimit then None
          else (let iv = \<lfloor>f\<rfloor> in
            if iv < minValue then None
            else if maxValue \<noteq> - 1 \<and> iv > maxValue then None
            else Some iv)
      | _ \<Rightarrow> None)"

definition boundDisplay :: "int \<Rightarrow> string" where
  "boundDisplay bound = (if bound = - 1 then ''the JavaScript safe-integer maximum'' else itoa bound)"

definition asFloat :: "int \<Rightarrow> gval" where
  "asFloat n = (case float64 (of_int n) of Some x \<Rightarrow> GNum x | None \<Rightarrow> GNil)"

definition parseListPagination ::
  "string \<Rightarrow> string \<Rightarrow> string \<Rightarrow> ListMessagesConfig \<Rightarrow> routeFailure + listPagination" where
  "parseListPagination limitRaw offsetRaw skipRaw cfg =
     (let (offsetProvided, offsetVal) = decodeJSONValue offsetRaw;
          (skipProvided, skipVal) = decodeJSONValue skipRaw;
          (limitProvided, limitVal) = decodeJSONValue limitRaw;
          configuredDefault = (if lc_DefaultLimit cfg = - 1 then safeIntegerLimit else lc_DefaultLimit cfg);
          limitAny = (if limitProvided then limitVal else asFloat configuredDefault);
          offsetAny = (if offsetProvided then offsetVal else if skipProvided then skipVal else asFloat 0)
      in if offsetProvided \<and> skipProvided \<and> offsetVal \<noteq> skipVal then
           Inl (badRequest ''ERR_INVALID_OFFSET'' ''offset and skip must match when both are provided.'')
         else case boundedInteger limitAny 1 (lc_MaxLimit cfg) of
           None \<Rightarrow> Inl (badRequest ''ERR_INVALID_LIMIT''
             (''limit must be an integer between 1 and '' @ boundDisplay (lc_MaxLimit cfg) @ ''.''))
         | Some limit \<Rightarrow>
             (case boundedInteger offsetAny 0 (lc_MaxOffset cfg) of
                None \<Rightarrow> Inl (badRequest ''ERR_INVALID_OFFSET''
                  (''offset must be an integer between 0 and '' @ boundDisplay (lc_MaxOffset cfg) @ ''.''))
              | Some offset \<Rightarrow> Inr \<lparr>lp_Limit = limit, lp_Offset = offset\<rparr>))"

section \<open>Pages\<close>

record MessageOut =
  mo_MessageID :: string
  mo_Body :: string
  mo_Sender :: string
  mo_CreatedAt :: string
  mo_UpdatedAt :: string

record ListMessagesResponse =
  lm_Messages :: "MessageOut list"
  lm_Limit :: int
  lm_Offset :: int
  lm_NextOffset :: int
  lm_HasMore :: bool

definition formatMessage :: "Message \<Rightarrow> MessageOut" where
  "formatMessage m = \<lparr>mo_MessageID = m_MessageID m, mo_Body = m_Body m, mo_Sender = m_Sender m,
     mo_CreatedAt = formatTime (m_CreatedAt m), mo_UpdatedAt = formatTime (m_UpdatedAt m)\<rparr>"

text \<open>\<open>marshalJSONNoEscape\<close> of a message.\<close>

definition marshalMessage :: "MessageOut \<Rightarrow> string" where
  "marshalMessage m =
     (let q = jsonQuote False in
      ''{'' @ q ''messageId'' @ '':'' @ q (mo_MessageID m) @ '','' @ q ''body'' @ '':'' @ q (mo_Body m) @ '',''
      @ q ''sender'' @ '':'' @ q (mo_Sender m) @ '','' @ q ''createdAt'' @ '':'' @ q (mo_CreatedAt m) @ '',''
      @ q ''updatedAt'' @ '':'' @ q (mo_UpdatedAt m) @ ''}'')"

definition itemBytes :: "MessageOut \<Rightarrow> int" where
  "itemBytes m = int (length (marshalMessage m)) + 1"

definition listMessagesResponseByteOverhead :: int where
  "listMessagesResponseByteOverhead = 256"

text \<open>The loop of \<open>readMessagePage\<close> over the rows, with the messages taken so far and the bytes they
  cost: an oversized first message, or the page and whether more follow.\<close>

fun pageLoop :: "int \<Rightarrow> int \<Rightarrow> Message list \<Rightarrow> MessageOut list \<Rightarrow> int \<Rightarrow> routeFailure + MessageOut list \<times> bool" where
  "pageLoop limit maxResponseBytes [] out encodedBytes = Inr (out, False)"
| "pageLoop limit maxResponseBytes (m # ms) out encodedBytes =
     (if int (length out) \<ge> limit then Inr (out, True)
      else let formatted = formatMessage m; item = itemBytes formatted in
        if maxResponseBytes \<noteq> - 1 \<and> encodedBytes + item > maxResponseBytes then
          (if out = [] then Inl \<lparr>rf_status = 413, rf_code = ''ERR_MESSAGE_RESPONSE_TOO_LARGE'',
               rf_desc = ''The oldest message exceeds the configured listing response budget.''\<rparr>
           else Inr (out, True))
        else pageLoop limit maxResponseBytes ms (out @ [formatted]) (encodedBytes + item))"

text \<open>The sum of the two ints wraps, and slicing with an end before the start panics.\<close>

definition fallbackPageMessages ::
  "'s Store \<Rightarrow> string \<Rightarrow> string \<Rightarrow> int \<Rightarrow> int \<Rightarrow> string option \<Rightarrow> 's \<Rightarrow> (store_error + Message list) \<times> 's" where
  "fallbackPageMessages S recipient messageBox offset fetchLimit messageID s =
     (case ListMessages S recipient messageBox s of
        (Inl e, s1) \<Rightarrow> (Inl e, s1)
      | (Inr all, s1) \<Rightarrow>
          (let all = (case messageID of Some i \<Rightarrow> filter (\<lambda>m. m_MessageID m = i) all | None \<Rightarrow> all)
           in if offset \<ge> int (length all) then (Inr [], s1)
              else (let end = wrap64 (offset + fetchLimit);
                        end = (if end > int (length all) then int (length all) else end)
                    in if offset < 0 \<or> end < offset then (Inl ErrPanic, s1)
                       else (Inr (take (nat (end - offset)) (drop (nat offset) all)), s1))))"

definition fetchMessagePageRows ::
  "'s Store \<Rightarrow> string \<Rightarrow> string \<Rightarrow> int \<Rightarrow> int \<Rightarrow> string option \<Rightarrow> 's \<Rightarrow> (store_error + Message list) \<times> 's" where
  "fetchMessagePageRows S recipient messageBox offset fetchLimit messageID s =
     (case PageMessages S of
        Some pageMessages \<Rightarrow> pageMessages \<lparr>mq_Recipient = recipient, mq_MessageBox = messageBox,
           mq_Offset = offset, mq_FetchLimit = fetchLimit, mq_MessageID = messageID\<rparr> s
      | None \<Rightarrow> fallbackPageMessages S recipient messageBox offset fetchLimit messageID s)"

definition readMessagePage ::
  "'s Store \<Rightarrow> string \<Rightarrow> string \<Rightarrow> listPagination \<Rightarrow> string option \<Rightarrow> int \<Rightarrow> 's \<Rightarrow>
   (store_error + (routeFailure + ListMessagesResponse)) \<times> 's" where
  "readMessagePage S recipient messageBox pag messageID maxResponseBytes s =
     (case fetchMessagePageRows S recipient messageBox (lp_Offset pag) (lp_Limit pag + 1) messageID s of
        (Inl e, s1) \<Rightarrow> (Inl e, s1)
      | (Inr rows, s1) \<Rightarrow>
          (case pageLoop (lp_Limit pag) maxResponseBytes rows [] listMessagesResponseByteOverhead of
             Inl rf \<Rightarrow> (Inr (Inl rf), s1)
           | Inr (out, hasMore) \<Rightarrow>
               (Inr (Inr \<lparr>lm_Messages = out, lm_Limit = lp_Limit pag, lm_Offset = lp_Offset pag,
                    lm_NextOffset = lp_Offset pag + int (length out), lm_HasMore = hasMore\<rparr>), s1)))"

definition handleListMessages ::
  "'s Store \<Rightarrow> ListMessagesConfig \<Rightarrow> string \<Rightarrow> ListMessagesRequest decoded \<Rightarrow> 's \<Rightarrow>
   ListMessagesResponse response \<times> 's" where
  "handleListMessages S cfg identityKey body s =
     (if identityKey = [] then (writeError 401 ''ERR_AUTH_REQUIRED'' ''Authentication required'', s)
      else case decodeListMessagesRequest body of
        Inl rf \<Rightarrow> (writeFailure rf, s)
      | Inr req \<Rightarrow>
          (case normalizeMessageBoxName (lr_MessageBox req) of
             Inl rf \<Rightarrow> (writeFailure rf, s)
           | Inr messageBox \<Rightarrow>
               (case parseOptionalMessageID (lr_MessageID req) of
                  Inl rf \<Rightarrow> (writeFailure rf, s)
                | Inr messageID \<Rightarrow>
                    (case parseListPagination (lr_Limit req) (lr_Offset req) (lr_Skip req) cfg of
                       Inl rf \<Rightarrow> (writeFailure rf, s)
                     | Inr pag \<Rightarrow>
                         (case readMessagePage S identityKey messageBox pag messageID (lc_MaxResponseBytes cfg) s of
                            (Inl _, s1) \<Rightarrow> (writeError 500 ''ERR_INTERNAL_ERROR''
                               ''An internal error has occurred while listing messages.'', s1)
                          | (Inr (Inl rf), s1) \<Rightarrow> (writeFailure rf, s1)
                          | (Inr (Inr resp), s1) \<Rightarrow> (writeJSON 200 resp, s1))))))"

section \<open>Acknowledging\<close>

definition handleAcknowledgeMessage ::
  "'s Store \<Rightarrow> string \<Rightarrow> string list decoded \<Rightarrow> 's \<Rightarrow> unit response \<times> 's" where
  "handleAcknowledgeMessage S identityKey body s =
     (if identityKey = [] then (writeError 401 ''ERR_AUTH_REQUIRED'' ''Authentication required'', s)
      else case body of
        Decoded messageIDs \<Rightarrow>
          (if messageIDs = [] then
             (writeError 400 ''ERR_MESSAGE_ID_REQUIRED'' ''Please provide the ID of the message(s) to acknowledge!'', s)
           else case AcknowledgeMessages S identityKey messageIDs s of
             (Inl _, s1) \<Rightarrow> (writeError 500 ''ERR_INTERNAL_ERROR''
                ''An internal error has occurred while acknowledging the message'', s1)
           | (Inr deleted, s1) \<Rightarrow>
               if deleted = 0 then (writeError 400 ''ERR_INVALID_ACKNOWLEDGMENT'' ''Message not found!'', s1)
               else (writeJSON 200 (), s1))
      | _ \<Rightarrow> (writeError 400 ''ERR_INVALID_JSON'' ''Invalid JSON body'', s))"

section \<open>Pagination bounds\<close>

lemma boundedInteger_Some:
  "boundedInteger v lo hi = Some n \<Longrightarrow> lo \<le> n \<and> (hi = - 1 \<or> n \<le> hi) \<and> \<bar>n\<bar> \<le> safeIntegerLimit \<and> v = GNum (of_int n)"
  by (auto simp: boundedInteger_def Let_def abs_le_iff split: gval.splits if_splits)

lemma boundedInteger_int:
  "lo \<le> n \<Longrightarrow> hi = - 1 \<or> n \<le> hi \<Longrightarrow> \<bar>n\<bar> \<le> safeIntegerLimit \<Longrightarrow> boundedInteger (GNum (of_int n)) lo hi = Some n"
  by (auto simp: boundedInteger_def Let_def abs_le_iff simp flip: of_int_minus)

lemma asFloat_int: "\<bar>n\<bar> < 2 ^ 53 \<Longrightarrow> asFloat n = GNum (of_int n)"
  by (simp add: asFloat_def float64_int)

text \<open>A request without pagination gets the configured limit from the start of the box.\<close>

lemma parseListPagination_default:
  assumes "1 \<le> lc_DefaultLimit cfg" and "lc_DefaultLimit cfg \<le> safeIntegerLimit"
    and "lc_MaxLimit cfg = - 1 \<or> lc_DefaultLimit cfg \<le> lc_MaxLimit cfg" and "- 1 \<le> lc_MaxOffset cfg"
  shows "parseListPagination [] [] [] cfg = Inr \<lparr>lp_Limit = lc_DefaultLimit cfg, lp_Offset = 0\<rparr>"
proof -
  have n: "asFloat (lc_DefaultLimit cfg) = GNum (of_int (lc_DefaultLimit cfg))" "asFloat 0 = GNum (of_int 0)"
    using assms by (simp_all add: asFloat_int safeIntegerLimit_def del: of_int_0)
  have b: "boundedInteger (GNum (of_int (lc_DefaultLimit cfg))) 1 (lc_MaxLimit cfg) = Some (lc_DefaultLimit cfg)"
    by (rule boundedInteger_int) (use assms in auto)
  have o: "boundedInteger (GNum (of_int 0)) 0 (lc_MaxOffset cfg) = Some 0"
    by (rule boundedInteger_int) (use assms(4) in \<open>auto simp: safeIntegerLimit_def\<close>)
  show ?thesis using assms(1)
    by (simp add: parseListPagination_def decodeJSONValue_def jsonRawPresent_def n b o del: of_int_0)
qed

lemma parseListPagination_bounds:
  assumes "parseListPagination l off sk cfg = Inr pag"
  shows "1 \<le> lp_Limit pag \<and> (lc_MaxLimit cfg = - 1 \<or> lp_Limit pag \<le> lc_MaxLimit cfg) \<and> lp_Limit pag \<le> safeIntegerLimit"
    and "0 \<le> lp_Offset pag \<and> (lc_MaxOffset cfg = - 1 \<or> lp_Offset pag \<le> lc_MaxOffset cfg) \<and> lp_Offset pag \<le> safeIntegerLimit"
proof -
  obtain v w limit offset where "boundedInteger v 1 (lc_MaxLimit cfg) = Some limit"
      "boundedInteger w 0 (lc_MaxOffset cfg) = Some offset" "pag = \<lparr>lp_Limit = limit, lp_Offset = offset\<rparr>"
    using assms unfolding parseListPagination_def Let_def
    by (cases "decodeJSONValue off"; cases "decodeJSONValue sk"; cases "decodeJSONValue l")
      (simp split: if_split_asm option.split_asm)
  then show "1 \<le> lp_Limit pag \<and> (lc_MaxLimit cfg = - 1 \<or> lp_Limit pag \<le> lc_MaxLimit cfg) \<and> lp_Limit pag \<le> safeIntegerLimit"
    "0 \<le> lp_Offset pag \<and> (lc_MaxOffset cfg = - 1 \<or> lp_Offset pag \<le> lc_MaxOffset cfg) \<and> lp_Offset pag \<le> safeIntegerLimit"
    by (auto dest!: boundedInteger_Some)
qed

section \<open>The page loop\<close>

lemma pageLoop_spec:
  assumes "pageLoop lmt maxB rows out enc = Inr (res, hasMore)" and "0 \<le> lmt"
  shows "\<exists>k. k \<le> length rows \<and> res = out @ map formatMessage (take k rows) \<and>
     (int (length out) \<le> lmt \<longrightarrow> int (length res) \<le> lmt) \<and>
     (hasMore \<longleftrightarrow> k < length rows) \<and>
     (out = [] \<longrightarrow> rows \<noteq> [] \<longrightarrow> 0 < lmt \<longrightarrow> 0 < k) \<and>
     (maxB \<noteq> - 1 \<longrightarrow> enc \<le> maxB \<longrightarrow> enc + (\<Sum>m \<leftarrow> map formatMessage (take k rows). itemBytes m) \<le> maxB)"
  using assms
proof (induction rows arbitrary: out enc)
  case Nil
  then show ?case by simp
next
  case (Cons m ms)
  let ?f = "formatMessage m"
  show ?case
  proof (cases "int (length out) \<ge> lmt \<or> (maxB \<noteq> - 1 \<and> enc + itemBytes ?f > maxB)")
    case True
    with Cons.prems have "res = out" "hasMore" "out = [] \<Longrightarrow> lmt \<le> 0"
      by (auto simp: Let_def split: if_splits)
    then show ?thesis by (intro exI [of _ 0]) auto
  next
    case False
    with Cons.prems have "pageLoop lmt maxB ms (out @ [?f]) (enc + itemBytes ?f) = Inr (res, hasMore)"
      by (auto simp: Let_def split: if_splits)
    from Cons.IH [OF this Cons.prems(2)] obtain k where k: "k \<le> length ms" "res = (out @ [?f]) @ map formatMessage (take k ms)"
        "int (length (out @ [?f])) \<le> lmt \<longrightarrow> int (length res) \<le> lmt" "hasMore \<longleftrightarrow> k < length ms"
        "maxB \<noteq> - 1 \<longrightarrow> enc + itemBytes ?f \<le> maxB \<longrightarrow>
           enc + itemBytes ?f + (\<Sum>m \<leftarrow> map formatMessage (take k ms). itemBytes m) \<le> maxB" by blast
    with False show ?thesis by (intro exI [of _ "Suc k"]) auto
  qed
qed

lemma pageLoop_too_large:
  assumes "pageLoop lmt maxB rows [] enc = Inl rf"
  shows "rows \<noteq> [] \<and> rf_status rf = 413 \<and> enc + itemBytes (formatMessage (hd rows)) > maxB \<and> maxB \<noteq> - 1"
proof -
  have no: "pageLoop lmt maxB rs out e \<noteq> Inl rf" if "out \<noteq> []" for rs out e
    using that by (induction rs arbitrary: out e) (auto simp: Let_def)
  show ?thesis using assms no by (cases rows) (auto simp: Let_def split: if_splits)
qed

section \<open>Listing over the contract\<close>

text \<open>The messages a request is about, in order.\<close>

definition matching :: "abs_store \<Rightarrow> string \<Rightarrow> string \<Rightarrow> string option \<Rightarrow> Message list \<Rightarrow> bool" where
  "matching A recipient messageBox messageID xs \<longleftrightarrow>
     (\<exists>all. listing A recipient messageBox all \<and> xs = id_filter messageID all)"

lemma matching_cong: "a_msgs A = a_msgs B \<Longrightarrow> matching A = matching B"
  by (intro ext) (simp add: matching_def listing_def)

context message_store
begin

lemma matching_unique: "invar s \<Longrightarrow> matching (view s) r b mid xs \<Longrightarrow> matching (view s) r b mid ys \<Longrightarrow> xs = ys"
  by (metis listing_unique matching_def)

text \<open>The in-memory pager returns what the contract asks of a backend's own pager.\<close>

lemma fallback_page:
  assumes q: "1 \<le> n" "0 \<le> off" "int64_range (off + n)"
  shows "(let all = (case mid of Some i \<Rightarrow> filter (\<lambda>m. m_MessageID m = i) all | None \<Rightarrow> all)
      in if off \<ge> int (length all) then (Inr [], s1)
         else (let end = wrap64 (off + n); end = (if end > int (length all) then int (length all) else end)
               in if off < 0 \<or> end < off then (Inl ErrPanic, s1)
                  else (Inr (take (nat (end - off)) (drop (nat off) all)), s1))) =
    (Inr (take (nat n) (drop (nat off) (id_filter mid all))), s1)"
proof -
  let ?all = "id_filter mid all"
  have all: "(case mid of Some i \<Rightarrow> filter (\<lambda>m. m_MessageID m = i) all | None \<Rightarrow> all) = ?all"
    by (simp add: id_filter_def split: option.splits)
  have "take (nat ((if off + n > int (length ?all) then int (length ?all) else off + n) - off)) (drop (nat off) ?all) =
      take (nat n) (drop (nat off) ?all)"
    using q by (auto simp: nat_diff_distrib)
  with q show ?thesis by (simp add: all Let_def wrap64_id)
qed

lemma fallback_reads:
  assumes inv: "invar s" and q: "1 \<le> n" "0 \<le> off" and w: "int64_range (off + n)"
  shows "reads invar up view (fallbackPageMessages S r b off n mid) s
    (\<lambda>xs. \<exists>all. matching (view s) r b mid all \<and> xs = take (nat n) (drop (nat off) all))"
proof -
  have "fallbackPageMessages S r b off n mid s = (case ListMessages S r b s of (Inl e, s1) \<Rightarrow> (Inl e, s1)
      | (Inr all, s1) \<Rightarrow> (Inr (take (nat n) (drop (nat off) (id_filter mid all))), s1))"
    unfolding fallbackPageMessages_def fallback_page [OF q w] ..
  then show ?thesis
    by (rule reads_cong) (rule reads_bind [OF list_reads [OF inv]],
        auto intro!: reads_return simp: matching_def)
qed

lemma fetch_reads:
  assumes inv: "invar s" and q: "1 \<le> n" "0 \<le> off" and w: "PageMessages S \<noteq> None \<or> int64_range (off + n)"
  shows "reads invar up view (fetchMessagePageRows S r b off n mid) s
    (\<lambda>xs. \<exists>all. matching (view s) r b mid all \<and> xs = take (nat n) (drop (nat off) all))"
proof (cases "PageMessages S")
  case None
  show ?thesis
    by (rule reads_cong [OF _ fallback_reads [OF inv q]]) (use w None in \<open>simp_all add: fetchMessagePageRows_def\<close>)
next
  case (Some f)
  let ?q = "\<lparr>mq_Recipient = r, mq_MessageBox = b, mq_Offset = off, mq_FetchLimit = n, mq_MessageID = mid\<rparr>"
  have r: "reads invar up view (f ?q) s (\<lambda>xs. \<exists>all. listing (view s) (mq_Recipient ?q) (mq_MessageBox ?q) all \<and>
      xs = take (nat (mq_FetchLimit ?q)) (drop (nat (mq_Offset ?q)) (id_filter (mq_MessageID ?q) all)))"
    using q by (intro page_reads [OF inv Some]) simp_all
  show ?thesis
    by (rule reads_cong [OF _ reads_view [OF r, where W = "\<lambda>x. x"]])
      (auto simp: fetchMessagePageRows_def Some matching_def)
qed

text \<open>A page: a run of the matching messages from the offset on, at most the limit of them and at
  most the budget of bytes, not empty unless nothing is left, with the offset of the next page and
  whether there is one.\<close>

lemma page_ok:
  assumes inv: "invar s" and pag: "1 \<le> lp_Limit pag" "0 \<le> lp_Offset pag"
    and w: "PageMessages S \<noteq> None \<or> int64_range (lp_Offset pag + (lp_Limit pag + 1))"
    and eq: "readMessagePage S r b pag mid maxB s = (Inr (Inr resp), s')"
  shows "\<exists>all k. matching (view s) r b mid all \<and>
      lm_Messages resp = map formatMessage (take k (drop (nat (lp_Offset pag)) all)) \<and>
      k \<le> length all - nat (lp_Offset pag) \<and>
      int k \<le> lp_Limit pag \<and> lm_NextOffset resp = lp_Offset pag + int k \<and>
      (lm_HasMore resp \<longleftrightarrow> nat (lp_Offset pag) + k < length all) \<and>
      (nat (lp_Offset pag) < length all \<longrightarrow> 0 < k) \<and>
      (maxB \<noteq> - 1 \<longrightarrow> listMessagesResponseByteOverhead \<le> maxB \<longrightarrow>
         listMessagesResponseByteOverhead + (\<Sum>m \<leftarrow> lm_Messages resp. itemBytes m) \<le> maxB)"
    and "invar s' \<and> view s' = view s"
proof -
  let ?n = "lp_Limit pag + 1" and ?off = "lp_Offset pag"
  obtain y s1 where y: "fetchMessagePageRows S r b ?off ?n mid s = (y, s1)" by fastforce
  note f = readsD [OF fetch_reads [OF inv _ pag(2) w] y]
  from eq y obtain rows out hasMore where rows: "y = Inr rows" "s' = s1"
      "pageLoop (lp_Limit pag) maxB rows [] listMessagesResponseByteOverhead = Inr (out, hasMore)"
      "resp = \<lparr>lm_Messages = out, lm_Limit = lp_Limit pag, lm_Offset = ?off,
         lm_NextOffset = ?off + int (length out), lm_HasMore = hasMore\<rparr>"
    by (auto simp: readMessagePage_def split: sum.splits)
  obtain all where all: "matching (view s) r b mid all" "rows = take (nat ?n) (drop (nat ?off) all)"
    using f(5) rows(1) pag by auto
  obtain k where k: "k \<le> length rows" "out = map formatMessage (take k rows)" "int (length out) \<le> lp_Limit pag"
      "hasMore \<longleftrightarrow> k < length rows" "rows \<noteq> [] \<longrightarrow> 0 < k"
      "maxB \<noteq> - 1 \<longrightarrow> listMessagesResponseByteOverhead \<le> maxB \<longrightarrow>
         listMessagesResponseByteOverhead + (\<Sum>m \<leftarrow> map formatMessage (take k rows). itemBytes m) \<le> maxB"
  proof -
    have "0 \<le> lp_Limit pag" using pag(1) by simp
    from pageLoop_spec [OF rows(3) this] obtain k where "k \<le> length rows" "out = [] @ map formatMessage (take k rows)"
        "int (length ([] :: MessageOut list)) \<le> lp_Limit pag \<longrightarrow> int (length out) \<le> lp_Limit pag"
        "hasMore \<longleftrightarrow> k < length rows" "([] :: MessageOut list) = [] \<longrightarrow> rows \<noteq> [] \<longrightarrow> 0 < lp_Limit pag \<longrightarrow> 0 < k"
        "maxB \<noteq> - 1 \<longrightarrow> listMessagesResponseByteOverhead \<le> maxB \<longrightarrow>
           listMessagesResponseByteOverhead + (\<Sum>m \<leftarrow> map formatMessage (take k rows). itemBytes m) \<le> maxB"
      by blast
    with pag(1) that show thesis by simp
  qed
  have len: "length out = k" using k(1,2) by simp
  have kn: "k < nat ?n" using k(3) len by simp
  then have tk: "take k rows = take k (drop (nat ?off) all)" by (simp add: all(2) min_def)
  have "k < length rows \<longleftrightarrow> nat ?off + k < length all" using kn by (auto simp: all(2))
  moreover have "nat ?off < length all \<longrightarrow> 0 < k" using k(5) pag by (auto simp: all(2))
  moreover have "k \<le> length all - nat ?off" using k(1) by (auto simp: all(2))
  ultimately show "\<exists>all k. matching (view s) r b mid all \<and>
      lm_Messages resp = map formatMessage (take k (drop (nat (lp_Offset pag)) all)) \<and>
      k \<le> length all - nat (lp_Offset pag) \<and>
      int k \<le> lp_Limit pag \<and> lm_NextOffset resp = lp_Offset pag + int k \<and>
      (lm_HasMore resp \<longleftrightarrow> nat (lp_Offset pag) + k < length all) \<and>
      (nat (lp_Offset pag) < length all \<longrightarrow> 0 < k) \<and>
      (maxB \<noteq> - 1 \<longrightarrow> listMessagesResponseByteOverhead \<le> maxB \<longrightarrow>
         listMessagesResponseByteOverhead + (\<Sum>m \<leftarrow> lm_Messages resp. itemBytes m) \<le> maxB)"
    using all(1) k rows(4) len tk by (intro exI [of _ all] exI [of _ k]) auto
  show "invar s' \<and> view s' = view s" using f(1,2) rows(2) pag by simp
qed

end

text \<open>A client of the endpoint that follows \<open>nextOffset\<close> while \<open>hasMore\<close> says so, each page a request of
  its own with the limit and the offset written out; fuel bounds the pages it asks for.\<close>

definition page_request :: "ListMessagesRequest \<Rightarrow> int \<Rightarrow> int \<Rightarrow> ListMessagesRequest" where
  "page_request req limit off = req\<lparr>lr_Limit := itoa limit, lr_Offset := itoa off, lr_Skip := []\<rparr>"

fun collect ::
  "'s Store \<Rightarrow> ListMessagesConfig \<Rightarrow> string \<Rightarrow> ListMessagesRequest \<Rightarrow> int \<Rightarrow> nat \<Rightarrow> int \<Rightarrow> 's \<Rightarrow> MessageOut list option" where
  "collect S cfg k req limit 0 off s = None"
| "collect S cfg k req limit (Suc n) off s =
     (case handleListMessages S cfg k (Decoded (page_request req limit off)) s of
        (JsonReply _ resp, s1) \<Rightarrow>
          if lm_HasMore resp then map_option ((@) (lm_Messages resp)) (collect S cfg k req limit n (lm_NextOffset resp) s1)
          else Some (lm_Messages resp)
      | _ \<Rightarrow> None)"

text \<open>The largest limit and the largest offset a request may name.\<close>

definition limit_cap :: "ListMessagesConfig \<Rightarrow> int" where
  "limit_cap cfg = (if lc_MaxLimit cfg = - 1 then safeIntegerLimit else min (lc_MaxLimit cfg) safeIntegerLimit)"

definition offset_cap :: "ListMessagesConfig \<Rightarrow> int" where
  "offset_cap cfg = (if lc_MaxOffset cfg = - 1 then safeIntegerLimit else min (lc_MaxOffset cfg) safeIntegerLimit)"

lemma decodeJSONValue_itoa:
  assumes "0 \<le> n" and "n < 2 ^ 53"
  shows "decodeJSONValue (itoa n) = (True, GNum (of_int n))"
proof -
  have "itoa n \<noteq> []" "itoa n \<noteq> ''null''"
    using assms unmarshalAny_itoa [OF assms] by (auto simp: itoa_def showNat_nonempty unmarshalAny_def parseJson_examples)
  then show ?thesis using unmarshalAny_itoa [OF assms] by (simp add: decodeJSONValue_def jsonRawPresent_def)
qed

lemma parse_page_request:
  assumes "1 \<le> limit" and "limit \<le> limit_cap cfg" and "0 \<le> off" and "off \<le> safeIntegerLimit"
  shows "off \<le> offset_cap cfg \<Longrightarrow> parseListPagination (itoa limit) (itoa off) [] cfg = Inr \<lparr>lp_Limit = limit, lp_Offset = off\<rparr>"
    and "offset_cap cfg < off \<Longrightarrow> parseListPagination (itoa limit) (itoa off) [] cfg =
      Inl (badRequest ''ERR_INVALID_OFFSET'' (''offset must be an integer between 0 and '' @ boundDisplay (lc_MaxOffset cfg) @ ''.''))"
proof -
  have l: "limit \<le> safeIntegerLimit" "lc_MaxLimit cfg = - 1 \<or> limit \<le> lc_MaxLimit cfg"
    using assms(2) by (auto simp: limit_cap_def split: if_splits)
  have d: "decodeJSONValue (itoa limit) = (True, GNum (of_int limit))" "decodeJSONValue (itoa off) = (True, GNum (of_int off))"
    "decodeJSONValue [] = (False, GNil)"
    using assms l by (simp_all add: decodeJSONValue_itoa safeIntegerLimit_def) (simp add: decodeJSONValue_def jsonRawPresent_def)
  have b: "boundedInteger (GNum (of_int limit)) 1 (lc_MaxLimit cfg) = Some limit"
    by (rule boundedInteger_int) (use assms l in auto)
  show "parseListPagination (itoa limit) (itoa off) [] cfg = Inr \<lparr>lp_Limit = limit, lp_Offset = off\<rparr>" if "off \<le> offset_cap cfg"
  proof -
    have "boundedInteger (GNum (of_int off)) 0 (lc_MaxOffset cfg) = Some off"
      by (rule boundedInteger_int) (use assms that in \<open>auto simp: offset_cap_def split: if_splits\<close>)
    then show ?thesis by (simp add: parseListPagination_def d b)
  qed
  show "parseListPagination (itoa limit) (itoa off) [] cfg =
      Inl (badRequest ''ERR_INVALID_OFFSET'' (''offset must be an integer between 0 and '' @ boundDisplay (lc_MaxOffset cfg) @ ''.''))"
    if "offset_cap cfg < off"
  proof -
    have "boundedInteger (GNum (of_int off)) 0 (lc_MaxOffset cfg) = None"
      using assms that by (auto simp: boundedInteger_def offset_cap_def split: if_splits)
    then show ?thesis by (simp add: parseListPagination_def d b)
  qed
qed

lemma list_page_request:
  assumes "normalizeMessageBoxName (lr_MessageBox req) = Inr b" and "parseOptionalMessageID (lr_MessageID req) = Inr mid"
    and "k \<noteq> []" and "parseListPagination (itoa limit) (itoa off) [] cfg = Inr pag"
    and "readMessagePage S k b pag mid (lc_MaxResponseBytes cfg) s = (Inr (Inr resp), s')"
  shows "handleListMessages S cfg k (Decoded (page_request req limit off)) s = (JsonReply 200 resp, s')"
  using assms by (simp add: handleListMessages_def page_request_def decodeListMessagesRequest_def)

lemma page_request_refused:
  assumes "normalizeMessageBoxName (lr_MessageBox req) = Inr b" and "parseOptionalMessageID (lr_MessageID req) = Inr mid"
    and "k \<noteq> []" and "parseListPagination (itoa limit) (itoa off) [] cfg = Inl (badRequest code desc)"
  shows "\<exists>d. handleListMessages S cfg k (Decoded (page_request req limit off)) s = (ErrorReply 400 code d, s)"
  using assms by (simp add: handleListMessages_def page_request_def decodeListMessagesRequest_def writeFailure_def badRequest_def)

text \<open>Every message fits the response budget on its own.\<close>

definition all_fit :: "int \<Rightarrow> Message list \<Rightarrow> bool" where
  "all_fit maxB ms \<longleftrightarrow> maxB = - 1 \<or> list_all (\<lambda>m. listMessagesResponseByteOverhead + itemBytes (formatMessage m) \<le> maxB) ms"

context message_store
begin

lemma page_total:
  assumes inv: "invar s" and up: "up s" and pag: "1 \<le> lp_Limit pag" "0 \<le> lp_Offset pag"
    and w: "PageMessages S \<noteq> None \<or> int64_range (lp_Offset pag + (lp_Limit pag + 1))"
    and all: "matching (view s) r b mid all" and fit: "all_fit maxB all"
  shows "\<exists>resp s'. readMessagePage S r b pag mid maxB s = (Inr (Inr resp), s') \<and> up s'"
proof -
  let ?n = "lp_Limit pag + 1"
  obtain y s1 where y: "fetchMessagePageRows S r b (lp_Offset pag) ?n mid s = (y, s1)" by fastforce
  note f = readsD [OF fetch_reads [OF inv _ pag(2) w] y]
  obtain rows where rows: "y = Inr rows" using f(4) up pag by auto
  then obtain all' where "matching (view s) r b mid all'" "rows = take (nat ?n) (drop (nat (lp_Offset pag)) all')"
    using f(5) pag by auto
  then have "set rows \<subseteq> set all" using matching_unique [OF inv all] by (metis set_drop_subset set_take_subset subset_trans)
  moreover have "pageLoop (lp_Limit pag) maxB rows [] listMessagesResponseByteOverhead \<noteq> Inl rf" for rf
  proof
    assume "pageLoop (lp_Limit pag) maxB rows [] listMessagesResponseByteOverhead = Inl rf"
    from pageLoop_too_large [OF this] \<open>set rows \<subseteq> set all\<close> fit show False
      by (cases rows) (auto simp: all_fit_def list_all_iff)
  qed
  ultimately show ?thesis
    using y rows f(3) up pag
    by (cases "pageLoop (lp_Limit pag) maxB rows [] listMessagesResponseByteOverhead")
      (auto simp: readMessagePage_def)
qed

lemma collect_all:
  assumes req: "normalizeMessageBoxName (lr_MessageBox req) = Inr b" "parseOptionalMessageID (lr_MessageID req) = Inr mid"
    "k \<noteq> []" "1 \<le> limit" "limit \<le> limit_cap cfg"
    and "invar s" and "up s" and "0 \<le> off" and "off \<le> offset_cap cfg"
    and "matching (view s) k b mid all" and "int (length all) \<le> offset_cap cfg + 1"
    and "all_fit (lc_MaxResponseBytes cfg) all" and "length all - nat off < n"
  shows "collect S cfg k req limit n off s = Some (map formatMessage (drop (nat off) all))"
  using assms(6-)
proof (induction n arbitrary: off s)
  case (Suc n)
  let ?pag = "\<lparr>lp_Limit = limit, lp_Offset = off\<rparr>" and ?maxB = "lc_MaxResponseBytes cfg"
  have caps: "offset_cap cfg \<le> safeIntegerLimit" "limit_cap cfg \<le> safeIntegerLimit" by (simp_all add: offset_cap_def limit_cap_def)
  then have w: "PageMessages S \<noteq> None \<or> int64_range (lp_Offset ?pag + (lp_Limit ?pag + 1))"
    using Suc.prems req by (simp add: int64_range_def safeIntegerLimit_def)
  have pag: "1 \<le> lp_Limit ?pag" "0 \<le> lp_Offset ?pag" using Suc.prems req by simp_all
  obtain resp s' where eq: "readMessagePage S k b ?pag mid ?maxB s = (Inr (Inr resp), s')" "up s'"
    using page_total [OF Suc.prems(1,2) pag w Suc.prems(5,7)] by blast
  obtain all' m where m: "matching (view s) k b mid all'" "lm_Messages resp = map formatMessage (take m (drop (nat off) all'))"
      "lm_NextOffset resp = off + int m" "lm_HasMore resp \<longleftrightarrow> nat off + m < length all'"
      "nat off < length all' \<longrightarrow> 0 < m" "m \<le> length all' - nat off"
    using page_ok(1) [OF Suc.prems(1) pag w eq(1)] by auto
  have inv': "invar s'" "view s' = view s" using page_ok(2) [OF Suc.prems(1) pag w eq(1)] by auto
  have a: "all' = all" using matching_unique [OF Suc.prems(1) m(1) Suc.prems(5)] .
  have h: "handleListMessages S cfg k (Decoded (page_request req limit off)) s = (JsonReply 200 resp, s')"
    using caps Suc.prems req by (intro list_page_request [OF req(1,2,3) _ eq(1)] parse_page_request(1)) auto
  show ?case
  proof (cases "lm_HasMore resp")
    case False
    then have "take m (drop (nat off) all) = drop (nat off) all" using m(4) a by simp
    with False h m(2) a show ?thesis by simp
  next
    case True
    then have lt: "nat off + m < length all" "0 < m" using m(4,5) a by auto
    have "collect S cfg k req limit n (off + int m) s' = Some (map formatMessage (drop (nat (off + int m)) all))"
      using Suc.prems inv' eq(2) lt by (intro Suc.IH) (auto simp: nat_add_distrib)
    moreover have "drop (nat off) all = take m (drop (nat off) all) @ drop (nat (off + int m)) all"
      using Suc.prems(3) by (simp add: nat_add_distrib add.commute flip: drop_drop)
    ultimately show ?thesis using True h m(2,3) a
      by (simp del: drop_drop) (metis map_append)
  qed
qed simp

lemma ack_ok:
  assumes inv: "invar s" and eq: "handleAcknowledgeMessage S k body s = (reply, s')"
  shows "a_msgs (view s') \<subseteq> a_msgs (view s)"
    and "v \<in> a_msgs (view s) \<Longrightarrow> v \<notin> a_msgs (view s') \<Longrightarrow>
      \<exists>ids. body = Decoded ids \<and> msg_id v \<in> set ids \<and> nm_Recipient (fst v) = k"
    and "reply = JsonReply st u \<Longrightarrow> \<exists>ids. body = Decoded ids \<and> acked k ids (view s) \<noteq> {} \<and>
      a_msgs (view s') = a_msgs (view s) - acked k ids (view s)"
    and "invar s'"
proof -
  have "(view s' = view s \<and> invar s' \<and> (\<forall>st u. reply \<noteq> JsonReply st u)) \<or>
    (\<exists>ids y. body = Decoded ids \<and> ids \<noteq> [] \<and> AcknowledgeMessages S k ids s = (y, s') \<and>
      (case y of Inl e \<Rightarrow> \<forall>st u. reply \<noteq> JsonReply st u
        | Inr n \<Rightarrow> (n = 0 \<longrightarrow> (\<forall>st u. reply \<noteq> JsonReply st u))))"
    using eq inv by (auto simp: handleAcknowledgeMessage_def split: if_splits decoded.splits prod.splits sum.splits)
  then have main: "a_msgs (view s') \<subseteq> a_msgs (view s) \<and> invar s' \<and>
    (\<forall>v. v \<in> a_msgs (view s) \<longrightarrow> v \<notin> a_msgs (view s') \<longrightarrow>
      (\<exists>ids. body = Decoded ids \<and> msg_id v \<in> set ids \<and> nm_Recipient (fst v) = k)) \<and>
    (\<forall>st u. reply = JsonReply st u \<longrightarrow> (\<exists>ids. body = Decoded ids \<and> acked k ids (view s) \<noteq> {} \<and>
      a_msgs (view s') = a_msgs (view s) - acked k ids (view s)))"
  proof (elim disjE exE conjE)
    fix ids y
    assume body: "body = Decoded ids" and y: "AcknowledgeMessages S k ids s = (y, s')"
      and c: "case y of Inl e \<Rightarrow> \<forall>st u. reply \<noteq> JsonReply st u | Inr n \<Rightarrow> (n = 0 \<longrightarrow> (\<forall>st u. reply \<noteq> JsonReply st u))"
    note w = writesD [OF ack_writes [OF inv] y]
    have "view s' = view s \<or> view s' = (view s)\<lparr>a_msgs := a_msgs (view s) - acked k ids (view s)\<rparr>"
      using w(4,6) by (cases y) auto
    moreover have "reply = JsonReply st u \<Longrightarrow> acked k ids (view s) \<noteq> {} \<and>
        view s' = (view s)\<lparr>a_msgs := a_msgs (view s) - acked k ids (view s)\<rparr>" for st u
      using w(4) c by (cases y) auto
    ultimately show ?thesis using w(1) body by (auto simp: acked_def)
  qed auto
  from main show "a_msgs (view s') \<subseteq> a_msgs (view s)" by (rule conjunct1)
  from main show "invar s'" by (elim conjE)
  from main show "v \<in> a_msgs (view s) \<Longrightarrow> v \<notin> a_msgs (view s') \<Longrightarrow>
      \<exists>ids. body = Decoded ids \<and> msg_id v \<in> set ids \<and> nm_Recipient (fst v) = k"
    by (elim conjE) (simp only: simp_thms)
  from main show "reply = JsonReply st u \<Longrightarrow> \<exists>ids. body = Decoded ids \<and> acked k ids (view s) \<noteq> {} \<and>
      a_msgs (view s') = a_msgs (view s) - acked k ids (view s)"
    by (elim conjE) simp
qed

end

end
