(* ===== verification/Delivery.thy ===== *)
theory Delivery
  imports Send_Message Permissions List_Messages
begin

text \<open>
  What the endpoints promise together, over any backend of the storage contract: a message that was
  sent is listed, a sender who was blocked delivers nothing, and the reply to a listing depends on
  nothing but what the store holds.
\<close>

section \<open>Stored messages\<close>

lemma validateSend_counts:
  "validateSend valid req = Inr (msg, recs, ids, b) \<Longrightarrow>
     sr_Message req = Some msg \<and> length ids = length recs \<and> (\<forall>r \<in> set recs. valid (trimSpace r)) \<and>
     b = trimSpace (sm_MessageBox msg) \<and> b \<noteq> []"
  by (auto simp: validateSend_def Let_def find_None_all split: option.splits if_splits)

lemma messageFor_fields:
  "messageFor sk b body pay per r i = Some m \<Longrightarrow>
     nm_Recipient m = r \<and> nm_MessageID m = i \<and> nm_Sender m = sk \<and> nm_MessageBox m = b"
  by (auto simp: messageFor_def Let_def)

lemma planned_fields:
  assumes "map Some ms = map (\<lambda>(r, i). messageFor sk b body pay per r i) (zip rs ids)" and "length ids = length rs"
  shows "map nm_Recipient ms = rs \<and> map nm_MessageID ms = ids \<and> (\<forall>m \<in> set ms. nm_Sender m = sk \<and> nm_MessageBox m = b)"
  using assms
proof (induction rs arbitrary: ms ids)
  case Nil
  then show ?case by simp
next
  case (Cons r rs)
  then obtain i ids' where ids: "ids = i # ids'" by (cases ids) auto
  with Cons.prems obtain m ms' where ms: "ms = m # ms'" "messageFor sk b body pay per r i = Some m" by (cases ms) auto
  with Cons.prems ids have "map Some ms' = map (\<lambda>(r, i). messageFor sk b body pay per r i) (zip rs ids')"
    "length ids' = length rs" by simp_all
  with Cons.IH ids ms messageFor_fields [OF ms(2)] show ?case by simp
qed

lemma planned_member:
  assumes "map Some ms = map (\<lambda>(r, i). messageFor sk b body pay per r i) plan" and "(r, i) \<in> set plan"
  shows "\<exists>m \<in> set ms. messageFor sk b body pay per r i = Some m"
proof -
  from assms(2) have "messageFor sk b body pay per r i \<in> set (map (\<lambda>(r, i). messageFor sk b body pay per r i) plan)"
    by force
  with assms(1) have "messageFor sk b body pay per r i \<in> set (map Some ms)" by simp
  then show ?thesis by auto
qed

context full_store
begin

lemma send_stored:
  assumes inv: "invar (w_db st)" and v: "validateSend valid req = Inr (msg, recs, ids, b)"
    and eq: "sendMessage S valid internalize sk (Decoded req) st = (JsonReply 200 (SendMessageResponse txt results), st')"
  shows "\<exists>ms. map nm_Recipient ms = map trimSpace recs \<and> map nm_MessageID ms = ids \<and>
     (\<forall>m \<in> set ms. nm_Sender m = sk \<and> nm_MessageBox m = b) \<and>
     fst ` a_msgs (view (w_db st')) = fst ` a_msgs (view (w_db st)) \<union> set ms \<and>
     a_msgs (view (w_db st)) \<subseteq> a_msgs (view (w_db st')) \<and>
     distinct ids \<and> set ids \<inter> msg_ids (view (w_db st)) = {} \<and>
     map res_Recipient results = map trimSpace recs \<and> map res_MessageID results = ids \<and>
     w_pushes st' = w_pushes st @ pushesFor b (zip (map trimSpace recs) ids)"
proof -
  note c = validateSend_counts [OF v]
  obtain B per ms where s: "defaults_added b (view (w_db st)) B" "stored_all ms B (view (w_db st'))"
     "map Some ms = map (\<lambda>(r, i). messageFor sk b (sm_Body msg) (sr_Payment req) per r i) (zip (map trimSpace recs) ids)"
     "results = map (\<lambda>(r, i). \<lparr>res_Recipient = r, res_MessageID = i\<rparr>) (zip (map trimSpace recs) ids)"
     "w_pushes st' = w_pushes st @ pushesFor b (zip (map trimSpace recs) ids)"
    using send_success [OF inv v eq] by blast
  note d = defaults_added_other [OF s(1)] and a = stored_all_msgs [OF s(2)] and p = planned_fields [OF s(3)]
  have ids: "msg_ids B = msg_ids (view (w_db st))" using d by (simp add: msg_ids_def)
  have pf: "map nm_Recipient ms = map trimSpace recs" "map nm_MessageID ms = ids"
    "\<forall>m \<in> set ms. nm_Sender m = sk \<and> nm_MessageBox m = b" using p c by simp_all
  have "nm_MessageID ` set ms = set ids" using pf(2) by (metis list.set_map)
  then have fresh: "distinct ids" "set ids \<inter> msg_ids (view (w_db st)) = {}" using a pf(2) ids by auto
  have "map res_Recipient results = map fst (zip (map trimSpace recs) ids)"
    "map res_MessageID results = map snd (zip (map trimSpace recs) ids)"
    by (simp_all add: s(4) comp_def case_prod_beta')
  then have res: "map res_Recipient results = map trimSpace recs" "map res_MessageID results = ids" using c by simp_all
  show ?thesis using a d pf fresh res s(5) by (intro exI [of _ ms]) simp
qed

text \<open>A message whose sending was reported is in the recipient's listing with the sender and the
  body stored for that recipient.\<close>

lemma send_then_list:
  assumes inv: "invar (w_db st)" and v: "validateSend valid req = Inr (msg, recs, ids, b)"
    and eq: "sendMessage S valid internalize sk (Decoded req) st = (JsonReply 200 (SendMessageResponse txt results), st')"
    and res: "\<lparr>res_Recipient = r, res_MessageID = i\<rparr> \<in> set results"
    and l: "ListMessages S r b (w_db st') = (Inr xs, s2)"
  shows "\<exists>per m nm. m \<in> set xs \<and> m_MessageID m = i \<and> m_Sender m = sk \<and>
     messageFor sk b (sm_Body msg) (sr_Payment req) per r i = Some nm \<and> m_Body m = nm_Body nm"
proof -
  obtain B per ms where s: "stored_all ms B (view (w_db st'))"
     "map Some ms = map (\<lambda>(r, i). messageFor sk b (sm_Body msg) (sr_Payment req) per r i) (zip (map trimSpace recs) ids)"
     "results = map (\<lambda>(r, i). \<lparr>res_Recipient = r, res_MessageID = i\<rparr>) (zip (map trimSpace recs) ids)" "invar (w_db st')"
    using send_success [OF inv v eq] by blast
  have "(r, i) \<in> set (zip (map trimSpace recs) ids)" using res s(3) by auto
  then obtain nm where nm: "nm \<in> set ms" "messageFor sk b (sm_Body msg) (sr_Payment req) per r i = Some nm"
    using planned_member [OF s(2)] by blast
  note f = messageFor_fields [OF nm(2)]
  have "nm \<in> fst ` a_msgs (view (w_db st'))" using stored_all_msgs [OF s(1)] nm(1) by auto
  then obtain c u where cu: "(nm, c, u) \<in> a_msgs (view (w_db st'))" by auto
  have "listing (view (w_db st')) r b xs" using readsD(5) [OF list_reads [OF s(4)] l] by blast
  then have xs: "set xs = toMessage ` {v \<in> a_msgs (view (w_db st')). in_box r b v}" by (simp add: listing_def)
  have "(nm, c, u) \<in> {v \<in> a_msgs (view (w_db st')). in_box r b v}" using cu f by (simp add: in_box_def)
  then have "toMessage (nm, c, u) \<in> set xs" unfolding xs by (rule imageI)
  then show ?thesis using nm(2) f
    by (intro exI [of _ per] exI [of _ "toMessage (nm, c, u)"] exI [of _ nm]) simp
qed

section \<open>Blocking\<close>

lemma perm_set_force:
  assumes "perm_set (r, sd, b) fee A A'" and "sd = Some sk \<and> sk \<noteq> [] \<or> sd = None \<and> (sk = [] \<or> a_perms A (r, Some sk, b) = None)"
  shows "fee_in_force A' r sk b = fee" and "a_msgs A' = a_msgs A"
  using assms by (auto simp: perm_set_def fee_in_force_def)

text \<open>A recipient who blocked a sender, or everyone without a permission of their own, gets nothing
  from that sender afterwards.\<close>

lemma block_then_send:
  assumes inv: "invar (w_db st)"
    and blk: "handleSetPermission S valid r (Decoded preq) (w_db st) = (JsonReply code txt, s1)"
    and fee: "spr_RecipientFee preq = Some FeeBlocked" and b: "spr_MessageBox preq = b"
    and who: "spr_Sender preq = Some sk \<and> sk \<noteq> [] \<or>
      spr_Sender preq = None \<and> (sk = [] \<or> a_perms (view (w_db st)) (r, Some sk, b) = None)"
    and v: "validateSend valid req = Inr (msg, recs, ids, b)" and r: "r \<in> trimSpace ` set recs"
    and eq: "sendMessage S valid internalize sk (Decoded req) (st\<lparr>w_db := s1\<rparr>) = (reply, st')"
  shows "a_msgs (view (w_db st')) = a_msgs (view (w_db st)) \<and> w_wallet st' = w_wallet st \<and> w_pushes st' = w_pushes st \<and>
    (\<forall>code' txt'. reply \<noteq> JsonReply 200 (SendMessageResponse code' txt'))"
proof -
  obtain y s1' where y: "SetPermission S r (spr_Sender preq) b FeeBlocked (w_db st) = (y, s1')" by fastforce
  with blk fee b have s1: "y = Inr ()" "s1' = s1"
    by (auto simp: handleSetPermission_def Let_def split: if_splits sum.splits)
  note w = writesD [OF set_writes [OF inv] y]
  have ps: "perm_set (r, spr_Sender preq, b) FeeBlocked (view (w_db st)) (view s1)" using w(4) s1 by simp
  note f = perm_set_force [OF ps who]
  obtain r0 where r0: "r0 \<in> set recs" "r = trimSpace r0" using r by auto
  have inv1: "invar (w_db (st\<lparr>w_db := s1\<rparr>))" using w(1) s1 by simp
  have force: "fee_in_force (view (w_db (st\<lparr>w_db := s1\<rparr>))) (trimSpace r0) sk b = FeeBlocked" using f(1) r0 by simp
  note sb = send_blocked [OF inv1 v r0(1) force eq]
  have "reply \<noteq> JsonReply 200 (SendMessageResponse t res)" for t res
  proof
    assume "reply = JsonReply 200 (SendMessageResponse t res)"
    with send_stored [OF inv1 v, of internalize sk t res st'] eq obtain ms where
      "map nm_MessageID ms = ids" "distinct ids" "set ids \<inter> msg_ids (view s1) = {}"
      "fst ` a_msgs (view (w_db st')) = fst ` a_msgs (view s1) \<union> set ms" by auto
    moreover have "ids \<noteq> []" using validateSend_counts [OF v] r0 by auto
    moreover have "a_msgs (view (w_db st')) = a_msgs (view s1)" using sb by simp
    ultimately have "ms \<noteq> []" "set ms \<subseteq> fst ` a_msgs (view s1)" by auto
    then obtain m where "m \<in> set ms" "nm_MessageID m \<in> msg_ids (view s1)"
      by (cases ms) (auto simp: msg_ids_def msg_id_def)
    with \<open>map nm_MessageID ms = ids\<close> \<open>set ids \<inter> msg_ids (view s1) = {}\<close> show False
      by (metis disjoint_iff image_eqI list.set_map)
  qed
  with sb f(2) show ?thesis by simp
qed

end

section \<open>Replies to listings\<close>

definition pageOf :: "listPagination \<Rightarrow> int \<Rightarrow> Message list \<Rightarrow> routeFailure + ListMessagesResponse" where
  "pageOf pag maxB all =
     (case pageLoop (lp_Limit pag) maxB (take (nat (lp_Limit pag + 1)) (drop (nat (lp_Offset pag)) all)) []
             listMessagesResponseByteOverhead of
        Inl rf \<Rightarrow> Inl rf
      | Inr (out, hasMore) \<Rightarrow> Inr \<lparr>lm_Messages = out, lm_Limit = lp_Limit pag, lm_Offset = lp_Offset pag,
          lm_NextOffset = lp_Offset pag + int (length out), lm_HasMore = hasMore\<rparr>)"

context message_store
begin

lemma page_reply:
  assumes inv: "invar s" and up: "up s" and pag: "1 \<le> lp_Limit pag" "0 \<le> lp_Offset pag"
    and w: "PageMessages S \<noteq> None \<or> int64_range (lp_Offset pag + (lp_Limit pag + 1))"
  shows "\<exists>all. matching (view s) r b mid all \<and> fst (readMessagePage S r b pag mid maxB s) = Inr (pageOf pag maxB all)"
proof -
  let ?n = "lp_Limit pag + 1"
  obtain y s1 where y: "fetchMessagePageRows S r b (lp_Offset pag) ?n mid s = (y, s1)" by fastforce
  note f = readsD [OF fetch_reads [OF inv _ pag(2) w] y]
  obtain rows where rows: "y = Inr rows" using f(4) up pag by auto
  then obtain all where "matching (view s) r b mid all" "rows = take (nat ?n) (drop (nat (lp_Offset pag)) all)"
    using f(5) pag by auto
  with y rows show ?thesis
    by (intro exI [of _ all]) (auto simp: readMessagePage_def pageOf_def split: sum.splits prod.splits)
qed

text \<open>Paging in memory over the whole listing returns what the backend's own pager returns.\<close>

lemma pager_alike:
  assumes inv: "invar s" and up: "up s" and q: "1 \<le> n" "0 \<le> off" and w: "int64_range (off + n)"
  shows "fst (fallbackPageMessages S r b off n mid s) = fst (fetchMessagePageRows S r b off n mid s)"
proof -
  obtain y s1 where y: "fallbackPageMessages S r b off n mid s = (y, s1)" by fastforce
  obtain z s2 where z: "fetchMessagePageRows S r b off n mid s = (z, s2)" by fastforce
  note ry = readsD [OF fallback_reads [OF inv q w] y] and rz = readsD [OF fetch_reads [OF inv q disjI2 [OF w]] z]
  obtain ys zs where yz: "y = Inr ys" "z = Inr zs" using ry(4) rz(4) up by blast
  with ry(5) rz(5) obtain all all' where "matching (view s) r b mid all" "ys = take (nat n) (drop (nat off) all)"
    "matching (view s) r b mid all'" "zs = take (nat n) (drop (nat off) all')" by blast
  with matching_unique [OF inv] yz y z show ?thesis by (metis fst_conv)
qed

lemma past_the_end:
  assumes inv: "invar s" and up: "up s" and q: "1 \<le> n" "0 \<le> off" and w: "PageMessages S \<noteq> None"
    and all: "matching (view s) r b mid all" and past: "int (length all) \<le> off"
  shows "fst (fetchMessagePageRows S r b off n mid s) = Inr []"
proof -
  obtain z s2 where z: "fetchMessagePageRows S r b off n mid s = (z, s2)" by fastforce
  note rz = readsD [OF fetch_reads [OF inv q disjI1 [OF w]] z]
  obtain zs where zs: "z = Inr zs" using rz(4) up by blast
  obtain all' where all': "matching (view s) r b mid all'" "zs = take (nat n) (drop (nat off) all')" using rz(5) [OF zs] by blast
  with matching_unique [OF inv all'(1) all] past z zs show ?thesis by simp
qed

text \<open>Where the sum of offset and fetch limit overflows, it panics unless the offset is past the end.\<close>

lemma pager_overflow:
  assumes inv: "invar s" and up: "up s" and q: "1 \<le> n" "0 \<le> off" and w: "int64_range n" "int64_range off" "\<not> int64_range (off + n)"
    and all: "matching (view s) r b mid all"
  shows "fst (fallbackPageMessages S r b off n mid s) = (if off < int (length all) then Inl ErrPanic else Inr [])"
proof -
  obtain y s1 where y: "ListMessages S r b s = (y, s1)" by fastforce
  note ry = readsD [OF list_reads [OF inv] y]
  obtain rows where rows: "y = Inr rows" "listing (view s) r b rows" using ry(4,5) up by blast
  have a: "(case mid of Some i \<Rightarrow> filter (\<lambda>m. m_MessageID m = i) rows | None \<Rightarrow> rows) = all"
  proof -
    have "matching (view s) r b mid (id_filter mid rows)" using rows(2) unfolding matching_def by blast
    from matching_unique [OF inv all this] show ?thesis by (simp add: id_filter_def split: option.splits)
  qed
  define x where "x = off + n - 2 ^ 63"
  have x: "0 \<le> x" "x < 2 ^ 63" using w q by (auto simp: int64_range_def x_def)
  have "off + n + 2 ^ 63 = x + 2 ^ 64" by (simp add: x_def)
  then have "(off + n + 2 ^ 63) mod 2 ^ 64 = x" using x by simp
  then have "wrap64 (off + n) < 0" using x by (simp add: wrap64_def)
  then show ?thesis using q by (simp add: fallbackPageMessages_def y rows(1) a Let_def)
qed

end

text \<open>Two servers whose stores hold the same answer a listing alike.\<close>

lemma list_alike:
  assumes "\<And>r b pag mid maxB. 1 \<le> lp_Limit pag \<Longrightarrow> 0 \<le> lp_Offset pag \<Longrightarrow>
     int64_range (lp_Offset pag + (lp_Limit pag + 1)) \<Longrightarrow>
     fst (readMessagePage S r b pag mid maxB s) = fst (readMessagePage S' r b pag mid maxB s')"
  shows "fst (handleListMessages S cfg k body s) = fst (handleListMessages S' cfg k body s')"
proof -
  have p: "fst (readMessagePage S r b pag mid maxB s) = fst (readMessagePage S' r b pag mid maxB s')"
    if "parseListPagination l off sk cfg = Inr pag" for l off sk pag r b mid maxB
    using parseListPagination_bounds [OF that] by (intro assms) (auto simp: int64_range_def safeIntegerLimit_def)
  let ?after = "\<lambda>x. case x of Inl _ \<Rightarrow> writeError 500 ''ERR_INTERNAL_ERROR'' ''An internal error has occurred while listing messages.''
      | Inr (Inl rf) \<Rightarrow> writeFailure rf | Inr (Inr resp) \<Rightarrow> writeJSON 200 resp"
  have step: "fst (case t of (Inl _, s1) \<Rightarrow> (writeError 500 ''ERR_INTERNAL_ERROR'' ''An internal error has occurred while listing messages.'', s1)
      | (Inr (Inl rf), s1) \<Rightarrow> (writeFailure rf, s1) | (Inr (Inr resp), s1) \<Rightarrow> (writeJSON 200 resp, s1)) = ?after (fst t)"
    for t :: "(store_error + (routeFailure + ListMessagesResponse)) \<times> 'x"
    by (auto split: prod.splits sum.splits)
  show ?thesis
  proof (cases "decodeListMessagesRequest body")
    case (Inr req)
    show ?thesis
    proof (cases "parseListPagination (lr_Limit req) (lr_Offset req) (lr_Skip req) cfg")
      case (Inr pag)
      show ?thesis
        unfolding handleListMessages_def \<open>decodeListMessagesRequest body = Inr req\<close> Inr sum.case
        by (auto simp only: step p [OF Inr] fst_conv split: sum.split if_split)
    qed (auto simp: handleListMessages_def Inr split: sum.split)
  qed (simp add: handleListMessages_def)
qed

end
