(* ===== verification/Schema.thy ===== *)
theory Schema
  imports Sql_Refinement Mongo_Refinement
begin

text \<open>
  Booting on an existing database (\<open>EnsureSchema\<close> of both backends): the migrations bring an old
  schema to the shape the operations rely on, keep every stored row, seed the default fees without
  touching a configured one, and can be run again.
\<close>

section \<open>SQL\<close>

lemma run_statements_fold:
  "run_statements ms s = (Inr (), s') \<Longrightarrow> conn_data s' = fold (\<lambda>m d. snd (m d)) ms (conn_data s)"
proof (induction ms arbitrary: s)
  case (Cons m ms)
  then obtain u s1 where s1: "call m s = (Inr (Inr u), s1)" "run_statements ms s1 = (Inr (), s')"
    by (auto split: prod.splits sum.splits)
  then have "conn_data s1 = snd (m (conn_data s))" using call_Inr [OF s1(1)] by simp
  with Cons.IH [OF s1(2)] show ?case by simp
qed simp

text \<open>Statements that all succeed on data satisfying \<open>I\<close> and keep it: whatever the driver does, the
  data stays in \<open>I\<close>, and nothing fails while the database answers.\<close>

lemma run_statements_inv:
  assumes "I (conn_data s)" and "\<And>m d. m \<in> set ms \<Longrightarrow> I d \<Longrightarrow> fst (m d) = Inr () \<and> I (snd (m d))"
    and "run_statements ms s = (x, s')"
  shows "I (conn_data s') \<and> (healthy s \<longrightarrow> healthy s' \<and> x = Inr ())"
  using assms
proof (induction ms arbitrary: s)
  case (Cons m ms)
  obtain y s1 where y: "call m s = (y, s1)" by fastforce
  obtain d where d: "m (conn_data s) = (Inr (), d)" "I d" using Cons.prems(2) [OF list.set_intros(1) Cons.prems(1)] by (cases "m (conn_data s)") auto
  have i1: "I (conn_data s1)" using call_cases [OF y d(1)] Cons.prems(1) d(2) by auto
  show ?case
  proof (cases y)
    case (Inl e)
    then show ?thesis using Cons.prems(3) y i1 call_cases [OF y d(1)] by auto
  next
    case (Inr z)
    with call_cases [OF y d(1)] have z: "z = Inr ()" and h: "healthy s \<longrightarrow> healthy s1" by auto
    with Cons.prems(3) y Inr have "run_statements ms s1 = (x, s')" by simp
    with Cons.IH [OF i1 _ this] Cons.prems(2) h show ?thesis by auto
  qed
qed auto

text \<open>Statements that succeed one after the other, on the data the ones before leave.\<close>

fun succeed :: "(sql_db \<Rightarrow> (store_error + unit) \<times> sql_db) list \<Rightarrow> sql_db \<Rightarrow> bool" where
  "succeed [] d \<longleftrightarrow> True"
| "succeed (m # ms) d \<longleftrightarrow> fst (m d) = Inr () \<and> succeed ms (snd (m d))"

lemma run_statements_succeed:
  assumes "succeed ms (conn_data s)" and "healthy s" and "run_statements ms s = (x, s')"
  shows "x = Inr () \<and> healthy s'"
  using assms
proof (induction ms arbitrary: s)
  case (Cons m ms)
  obtain y s1 where y: "call m s = (y, s1)" by fastforce
  obtain d where d: "m (conn_data s) = (Inr (), d)" using Cons.prems(1) by (cases "m (conn_data s)") auto
  from call_cases [OF y d] Cons.prems(2) have "y = Inr (Inr ())" "conn_data s1 = d" "healthy s1" by auto
  with Cons.prems y d Cons.IH [of s1] show ?case by simp
qed simp

text \<open>What the keys of a device table guarantee, of the old shape (unique on the token), of the current one
  (unique on the pair) and of one a boot was interrupted on (no key, pairs still unique): ids that do
  not repeat and that the sequence has passed, and no pair twice. A table that is missing is empty. A
  staging table may be left over. Nothing is asked of the other tables.\<close>

definition migratable :: "sql_db \<Rightarrow> bool" where
  "migratable d \<longleftrightarrow> distinct (map dv_ID (t_devices d)) \<and> 0 \<le> seq_devices d \<and>
     (\<forall>x \<in> set (t_devices d). 0 < dv_ID x \<and> dv_ID x \<le> seq_devices d) \<and>
     (if legacy_token_key d then distinct (map dv_FCMToken (t_devices d)) else distinct (map dev_pair (t_devices d))) \<and>
     (devices_table d \<or> t_devices d = [] \<and> \<not> legacy_token_key d \<and> \<not> pair_index d)"

lemma distinct_tokens_pairs: "distinct (map dv_FCMToken xs) \<Longrightarrow> distinct (map dev_pair xs)"
  by (induction xs) (auto simp: dev_pair_def)

lemma migratable_inv: "migratable d \<Longrightarrow> devices_inv d"
  by (auto simp: migratable_def devices_inv_def distinct_tokens_pairs split: if_splits)

text \<open>What a boot keeps: every row of every table, and every configured fee.\<close>

definition kept :: "sql_db \<Rightarrow> sql_db \<Rightarrow> bool" where
  "kept d d' \<longleftrightarrow> t_messageBox d' = t_messageBox d \<and> seq_messageBox d' = seq_messageBox d \<and>
     t_messages d' = t_messages d \<and> t_permissions d' = t_permissions d \<and> seq_permissions d' = seq_permissions d \<and>
     t_devices d' = t_devices d \<and> map_of (t_fees d) \<subseteq>\<^sub>m map_of (t_fees d')"

definition booting :: "sql_db \<Rightarrow> sql_db \<Rightarrow> bool" where
  "booting d d' \<longleftrightarrow> kept d d' \<and> migratable d'"

lemma kept_ok:
  "kept d d' \<Longrightarrow> messages_inv d \<Longrightarrow> permissions_inv d \<Longrightarrow> devices_inv d' \<Longrightarrow> schema_current d' \<Longrightarrow> sql_ok d'"
  by (simp add: kept_def sql_ok_def messages_inv_def permissions_inv_def)

lemma devices_distinct: "devices_inv d \<Longrightarrow> distinct (map (\<lambda>dv. (dv_IdentityKey dv, dv_FCMToken dv)) (t_devices d))"
  unfolding devices_inv_def dev_pair_def [abs_def] by blast

text \<open>The device table is the fifth statement of either list, and what comes after it needs the table.\<close>

lemma createDevicesTable_ok:
  "booting d0 d \<Longrightarrow> fst (createDevicesTable d) = Inr () \<and> booting d0 (snd (createDevicesTable d)) \<and>
     devices_table (snd (createDevicesTable d)) \<and> legacy_token_key (snd (createDevicesTable d)) = legacy_token_key d"
  by (auto simp: createDevicesTable_def booting_def kept_def migratable_def)

lemma index_ok:
  assumes "m \<in> set (commonMigrations @ [createIfMissing, dropLegacyTokenKey])" and "booting d0 d \<and> devices_table d"
  shows "fst (m d) = Inr () \<and> booting d0 (snd (m d)) \<and> devices_table (snd (m d))"
proof -
  have mig: "migratable d" using assms(2) by (simp add: booting_def)
  from assms(1) have "m \<in> {createIfMissing, createDevicesIndex, createPairIndex, dropLegacyTokenKey}"
    by (auto simp: commonMigrations_def)
  moreover have "createPairIndex d = (Inr (), d\<lparr>pair_index := True\<rparr>)"
    using devices_distinct [OF migratable_inv [OF mig]] assms(2) by (simp add: createPairIndex_def)
  moreover have "distinct (map dev_pair (t_devices d))" using migratable_inv [OF mig] by (simp add: devices_inv_def)
  ultimately show ?thesis using assms(2)
    by (auto simp: createIfMissing_def createDevicesIndex_def dropLegacyTokenKey_def booting_def kept_def migratable_def)
qed

lemma run_statements_append:
  "run_statements (ms @ ns) s = (case run_statements ms s of (Inl e, s1) \<Rightarrow> (Inl e, s1) | (Inr _, s1) \<Rightarrow> run_statements ns s1)"
  by (induction ms arbitrary: s) (auto split: sum.splits prod.splits)

abbreviation afterDevicesTable :: "string \<Rightarrow> (sql_db \<Rightarrow> (store_error + unit) \<times> sql_db) list" where
  "afterDevicesTable driver \<equiv> (if driver = ''postgres''
     then replicate 2 createIfMissing @ commonMigrations @ [dropLegacyTokenKey] else [createIfMissing] @ commonMigrations)"

lemma migrations_split:
  "(if driver = ''postgres'' then postgresMigrations else sqliteMigrations) =
     (replicate 4 createIfMissing @ [createDevicesTable]) @ afterDevicesTable driver"
  by (simp add: postgresMigrations_def sqliteMigrations_def)

lemma migrations_ok:
  assumes b: "booting d0 (conn_data s)"
    and eq: "run_statements (if driver = ''postgres'' then postgresMigrations else sqliteMigrations) s = (x, s')"
  shows "booting d0 (conn_data s') \<and> (healthy s \<longrightarrow> healthy s' \<and> x = Inr ())"
proof -
  let ?ms = "replicate 4 createIfMissing @ [createDevicesTable]"
  obtain y s1 where y: "run_statements ?ms s = (y, s1)" by fastforce
  have 1: "booting d0 (conn_data s1) \<and> (healthy s \<longrightarrow> healthy s1 \<and> y = Inr ())"
    by (rule run_statements_inv [where I = "booting d0", OF b _ y])
      (use createDevicesTable_ok in \<open>auto simp: createIfMissing_def\<close>)
  have fold4: "((\<lambda>d. snd (createIfMissing d)) ^^ 4) d = d" for d
    by (simp add: numeral_eq_Suc createIfMissing_def)
  have t: "devices_table (conn_data s1)" if "y = Inr ()"
    using run_statements_fold [of ?ms s s1] y that createDevicesTable_ok [OF b] by (simp add: fold4)
  have eq': "(case y of Inl e \<Rightarrow> (Inl e, s1) | Inr _ \<Rightarrow> run_statements (afterDevicesTable driver) s1) = (x, s')"
    using eq y unfolding migrations_split run_statements_append by (auto split: sum.splits)
  show ?thesis
  proof (cases y)
    case (Inl e)
    with eq' 1 show ?thesis by auto
  next
    case (Inr u)
    then have r: "run_statements (afterDevicesTable driver) s1 = (x, s')" using eq' by simp
    have i: "booting d0 (conn_data s1) \<and> devices_table (conn_data s1)" using 1 t Inr by simp
    have "(booting d0 (conn_data s') \<and> devices_table (conn_data s')) \<and> (healthy s1 \<longrightarrow> healthy s' \<and> x = Inr ())"
      by (rule run_statements_inv [where I = "\<lambda>d. booting d0 d \<and> devices_table d", OF i _ r], rule index_ok)
        (auto split: if_splits)
    with 1 show ?thesis by blast
  qed
qed

lemma map_le_append: "m \<subseteq>\<^sub>m map_of xs \<Longrightarrow> m \<subseteq>\<^sub>m map_of (xs @ ys)"
  by (auto simp: map_le_def map_add_def dom_def split: option.splits)

lemma seed_ok: "booting d0 d \<Longrightarrow> fst (seed_fee f d) = Inr () \<and> booting d0 (snd (seed_fee f d))"
  by (auto simp: seed_fee_def booting_def kept_def migratable_def simp del: map_of_append intro: map_le_append)

text \<open>The statements of the rebuild, taken together, move the rows to a table without the old key. On the
  way the device table is gone, so that it is the transaction that keeps the rows: it ends with the data
  it began with or with what its statements made of them when none of them failed.\<close>

lemma rebuild_fold:
  assumes "migratable d" and "devices_table d"
  shows "fold (\<lambda>m d. snd (m d)) rebuildStatements d =
      d\<lparr>legacy_token_key := False, pair_index := False, t_staging := None,
        seq_devices := Max (insert 0 (dv_ID ` set (t_devices d)))\<rparr>"
    and "succeed rebuildStatements d"
  using assms
  by (simp_all add: rebuildStatements_def dropStaging_def createStaging_def copyToStaging_def dropDevicesTable_def
      renameStaging_def migratable_def)

lemma rebuilt_booting:
  assumes "booting d0 d" and "devices_table d"
  shows "booting d0 (d\<lparr>legacy_token_key := False, pair_index := False, t_staging := None,
     seq_devices := Max (insert 0 (dv_ID ` set (t_devices d)))\<rparr>)"
proof -
  have "distinct (map dev_pair (t_devices d))" using assms(1) migratable_inv [of d] by (simp add: booting_def devices_inv_def)
  with assms show ?thesis by (auto simp: booting_def kept_def migratable_def intro!: Max_ge)
qed

lemma withTx_atomic:
  assumes eq: "withTx fn s = (x, s')"
    and up: "\<And>s1 y s2. conn_data s1 = conn_data s \<Longrightarrow> healthy s1 \<Longrightarrow> fn s1 = (y, s2) \<Longrightarrow> healthy s2 \<and> y = Inr ()"
  shows "(conn_data s' = conn_data s \<and> x \<noteq> Inr ()) \<or>
      (\<exists>s1 s2. conn_data s1 = conn_data s \<and> fn s1 = (Inr (), s2) \<and> conn_data s' = conn_data s2)"
    and "healthy s \<longrightarrow> healthy s' \<and> x = Inr ()"
proof -
  obtain z s1 where z: "call (\<lambda>d. ((), d)) s = (z, s1)" by fastforce
  from call_cases [OF z] have c1: "conn_data s1 = conn_data s"
      "(z = Inr () \<and> (healthy s \<longrightarrow> healthy s1)) \<or> (z = Inl ErrBackend \<and> \<not> healthy s)" by auto
  obtain y s2 where y: "fn s1 = (y, s2)" by fastforce
  have f: "healthy s1 \<longrightarrow> healthy s2 \<and> y = Inr ()" using up [OF c1(1) _ y] by blast
  let ?s2 = "s2\<lparr>conn_data := conn_data s1\<rparr>"
  obtain v s3 where v: "call (\<lambda>d. ((), conn_data s2)) ?s2 = (v, s3)" by fastforce
  from call_cases [OF v, of "()" "conn_data s2"] have c3:
      "(v = Inr () \<and> conn_data s3 = conn_data s2 \<and> (healthy s2 \<longrightarrow> healthy s3)) \<or>
       (v = Inl ErrBackend \<and> \<not> healthy s2 \<and> (conn_data s3 = conn_data s1 \<or> conn_data s3 = conn_data s2))" by auto
  from eq z y v have r: "(x, s') = (case z of Inl e \<Rightarrow> (Inl e, s1) | Inr _ \<Rightarrow> (case y of Inl e \<Rightarrow> (Inl e, ?s2)
      | Inr a \<Rightarrow> (case v of Inl e \<Rightarrow> (Inl e, s3) | Inr _ \<Rightarrow> (Inr a, s3))))"
    by (auto simp: withTx_def split: sum.splits)
  show "healthy s \<longrightarrow> healthy s' \<and> x = Inr ()" using r c1 c3 f by (cases z; cases y; cases v) auto
  show "(conn_data s' = conn_data s \<and> x \<noteq> Inr ()) \<or>
      (\<exists>s1 s2. conn_data s1 = conn_data s \<and> fn s1 = (Inr (), s2) \<and> conn_data s' = conn_data s2)"
    using r c1 c3 y by (cases z; cases y; cases v) auto
qed

text \<open>The rebuild of an old SQLite device table.\<close>

lemma rebuild_ok:
  assumes "booting d0 (conn_data s)" and "rebuildSQLiteDevicesTable s = (x, s')"
  shows "booting d0 (conn_data s') \<and> (healthy s \<longrightarrow> healthy s' \<and> x = Inr ()) \<and> (x = Inr () \<longrightarrow> \<not> legacy_token_key (conn_data s'))"
proof -
  let ?leg = "devices_table (conn_data s) \<and> legacy_token_key (conn_data s)"
  have mig: "migratable (conn_data s)" using assms(1) by (simp add: booting_def)
  obtain z s1 where z: "hasLegacyTokenKey s = (z, s1)" by fastforce
  from call_cases [OF z [unfolded hasLegacyTokenKey_def]] have c1: "conn_data s1 = conn_data s"
      "(z = Inr ?leg \<and> (healthy s \<longrightarrow> healthy s1)) \<or> (z = Inl ErrBackend \<and> \<not> healthy s)" by auto
  show ?thesis
  proof (cases "z = Inr True")
    case True
    then have tx: "withTx (run_statements rebuildStatements) s1 = (x, s')" using assms(2) z by (simp add: rebuildSQLiteDevicesTable_def)
    have l: ?leg using True c1(2) by auto
    note fl = rebuild_fold [OF mig conjunct1 [OF l]]
    have up: "healthy t' \<and> y = Inr ()" if "conn_data t = conn_data s1" "healthy t" "run_statements rebuildStatements t = (y, t')" for t y t'
      using run_statements_succeed [OF _ that(2,3)] fl(2) that(1) c1(1) by simp
    have w: "(conn_data s' = conn_data s1 \<and> x \<noteq> Inr ()) \<or> (\<exists>t t'. conn_data t = conn_data s1 \<and>
        run_statements rebuildStatements t = (Inr (), t') \<and> conn_data s' = conn_data t')"
      "healthy s1 \<longrightarrow> healthy s' \<and> x = Inr ()"
      by (rule withTx_atomic(1) [OF tx], erule (2) up) (rule withTx_atomic(2) [OF tx], erule (2) up)
    have "(conn_data s' = conn_data s \<and> x \<noteq> Inr ()) \<or> conn_data s' = fold (\<lambda>m d. snd (m d)) rebuildStatements (conn_data s)"
      using w(1) c1(1) by (auto dest: run_statements_fold)
    moreover have "booting d0 (fold (\<lambda>m d. snd (m d)) rebuildStatements (conn_data s))"
        "\<not> legacy_token_key (fold (\<lambda>m d. snd (m d)) rebuildStatements (conn_data s))"
      using rebuilt_booting [OF assms(1) conjunct1 [OF l]] by (simp_all add: fl(1))
    ultimately show ?thesis using w(2) c1 True assms(1) by (elim disjE conjE) simp_all
  next
    case False
    then have "x = (case z of Inl e \<Rightarrow> Inl e | Inr _ \<Rightarrow> Inr ())" "s' = s1"
      using assms(2) z by (auto simp: rebuildSQLiteDevicesTable_def split: sum.splits if_splits)
    with assms(1) c1 False mig show ?thesis by (auto simp: migratable_def)
  qed
qed

definition seeded :: "sql_db \<Rightarrow> bool" where
  "seeded d \<longleftrightarrow> (\<forall>f \<in> set DefaultDeliveryFees. map_of (t_fees d) (fst f) \<noteq> None)"

lemma seed_covers:
  "fst f \<in> set (map fst fs) \<or> fst f \<in> fst ` set (t_fees d) \<Longrightarrow>
     fst f \<in> fst ` set (t_fees (fold (\<lambda>m d. snd (m d)) (map seed_fee fs) d))"
proof (induction fs arbitrary: d)
  case (Cons g fs)
  have "fst ` set (t_fees (snd (seed_fee g d))) = insert (fst g) (fst ` set (t_fees d))"
    by (simp add: seed_fee_def insert_absorb)
  with Cons.prems Cons.IH [of "snd (seed_fee g d)"] show ?case by simp blast
qed simp

lemma seed_schema: "pair_index (snd (seed_fee f d)) = pair_index d" "legacy_token_key (snd (seed_fee f d)) = legacy_token_key d"
  "devices_table (snd (seed_fee f d)) = devices_table d"
  by (simp_all add: seed_fee_def)

lemma seeds_schema:
  "pair_index (fold (\<lambda>m d. snd (m d)) (map seed_fee fs) d) = pair_index d"
  "legacy_token_key (fold (\<lambda>m d. snd (m d)) (map seed_fee fs) d) = legacy_token_key d"
  "devices_table (fold (\<lambda>m d. snd (m d)) (map seed_fee fs) d) = devices_table d"
  by (induction fs arbitrary: d) (simp_all add: seed_schema)

text \<open>The migrations leave the pair index built, and PostgreSQL's drop the old key.\<close>

lemma migrated_schema:
  assumes "booting d0 d" and "driver = ''postgres'' \<or> \<not> legacy_token_key d"
  shows "schema_current (fold (\<lambda>m d. snd (m d)) (if driver = ''postgres'' then postgresMigrations else sqliteMigrations) d)"
proof -
  let ?d = "snd (createDevicesTable d)"
  note t = createDevicesTable_ok [OF assms(1)]
  have p: "snd (createPairIndex ?d) = ?d\<lparr>pair_index := True\<rparr>"
    using devices_distinct [OF migratable_inv] t by (simp add: createPairIndex_def booting_def)
  have n: "replicate 4 x = [x,x,x,x]" "replicate 2 x = [x,x]" for x :: "sql_db \<Rightarrow> (store_error + unit) \<times> sql_db"
    by (simp_all add: numeral_eq_Suc)
  have c: "snd (createIfMissing e) = e" "snd (createDevicesIndex e) = e" for e
    by (simp_all add: createIfMissing_def createDevicesIndex_def)
  show ?thesis using assms(2) t
    by (auto simp: postgresMigrations_def sqliteMigrations_def commonMigrations_def n p c
        dropLegacyTokenKey_def schema_current_def)
qed

lemma sql_EnsureSchema_ok:
  assumes mig: "migratable (conn_data s)" and eq: "sql_EnsureSchema driver s = (x, s')"
  shows "booting (conn_data s) (conn_data s')" and "healthy s \<Longrightarrow> x = Inr () \<and> healthy s'"
    and "x = Inr () \<Longrightarrow> schema_current (conn_data s') \<and> seeded (conn_data s')"
proof -
  let ?prep = "if driver = ''postgres'' then (Inr (), s) else rebuildSQLiteDevicesTable s"
  let ?ms = "if driver = ''postgres'' then postgresMigrations else sqliteMigrations"
  let ?fs = "map seed_fee DefaultDeliveryFees"
  have k0: "booting (conn_data s) (conn_data s)"
    using mig by (simp add: booting_def kept_def)
  obtain y s1 where y: "?prep = (y, s1)" by fastforce
  have k1: "booting (conn_data s) (conn_data s1)" "healthy s \<longrightarrow> healthy s1 \<and> y = Inr ()"
      "y = Inr () \<longrightarrow> driver = ''postgres'' \<or> \<not> legacy_token_key (conn_data s1)"
    using y k0 rebuild_ok [OF k0, of y s1] by (auto split: if_splits)
  obtain z s2 where z: "run_statements ?ms s1 = (z, s2)" by fastforce
  note k2 = migrations_ok [OF k1(1) z]
  obtain v s3 where v: "run_statements ?fs s2 = (v, s3)" by fastforce
  have k3: "booting (conn_data s) (conn_data s3) \<and> (healthy s2 \<longrightarrow> healthy s3 \<and> v = Inr ())"
    by (rule run_statements_inv [where I = "booting (conn_data s)", OF conjunct1 [OF k2] _ v]) (use seed_ok in auto)
  have eq': "(case y of Inl e \<Rightarrow> (Inl e, s1) | Inr _ \<Rightarrow> (case z of Inl e \<Rightarrow> (Inl e, s2) | Inr _ \<Rightarrow> (v, s3))) = (x, s')"
    using eq y z v unfolding sql_EnsureSchema_def Let_def y by (auto split: sum.splits)
  show "booting (conn_data s) (conn_data s')" using eq' k1 k2 k3 by (auto split: sum.splits)
  show "healthy s \<Longrightarrow> x = Inr () \<and> healthy s'" using eq' k1 k2 k3 by (auto split: sum.splits)
  assume "x = Inr ()"
  with eq' have all: "y = Inr ()" "z = Inr ()" "v = Inr ()" "s' = s3" by (auto split: sum.splits)
  have d2: "conn_data s2 = fold (\<lambda>m d. snd (m d)) ?ms (conn_data s1)" using run_statements_fold z all by simp
  have d3: "conn_data s3 = fold (\<lambda>m d. snd (m d)) ?fs (conn_data s2)" using run_statements_fold v all by simp
  have "schema_current (conn_data s2)"
    unfolding d2 by (rule migrated_schema [OF k1(1)]) (use k1(3) all in auto)
  then have "schema_current (conn_data s3)" by (simp add: d3 schema_current_def seeds_schema)
  moreover have "seeded (conn_data s3)"
    unfolding seeded_def
  proof
    fix f
    assume "f \<in> set DefaultDeliveryFees"
    then have "fst f \<in> fst ` set (t_fees (conn_data s3))" unfolding d3 by (intro seed_covers disjI1) simp
    then show "map_of (t_fees (conn_data s3)) (fst f) \<noteq> None" by (simp add: map_of_eq_None_iff)
  qed
  ultimately show "schema_current (conn_data s') \<and> seeded (conn_data s')" using all by simp
qed

section \<open>MongoDB\<close>

text \<open>Device documents before the boot: those of the previous release are keyed by the token and may
  lack the token field.\<close>

definition doc_legacy :: "nat \<Rightarrow> int \<Rightarrow> deviceDoc \<Rightarrow> bool" where
  "doc_legacy oids n x \<longleftrightarrow>
     (case dd_DocID x of StringKey k \<Rightarrow> dd_FCMToken x = None \<or> dd_FCMToken x = Some k
      | ObjectID j \<Rightarrow> j < oids \<and> dd_FCMToken x \<noteq> None) \<and>
     (case dd_ID x of None \<Rightarrow> True | Some i \<Rightarrow> 0 < i \<and> i \<le> n)"

definition legacy_ok :: "bool \<Rightarrow> nat \<Rightarrow> int \<Rightarrow> deviceDoc list \<Rightarrow> bool" where
  "legacy_ok uniq oids n docs \<longleftrightarrow>
     distinct (map dd_DocID docs) \<and> 0 \<le> n \<and> (\<forall>x \<in> set docs. doc_legacy oids n x) \<and>
     (\<forall>x \<in> set docs. \<forall>y \<in> set docs. dd_ID x \<noteq> None \<longrightarrow> dd_ID x = dd_ID y \<longrightarrow> dd_DocID x = dd_DocID y) \<and>
     (uniq \<longrightarrow> distinct (filter (\<lambda>p. p \<noteq> None) (map pair_of docs)))"

definition tok_pairs :: "deviceDoc list \<Rightarrow> (string \<times> string) set" where
  "tok_pairs docs = (\<lambda>x. (dd_IdentityKey x, token x)) ` set docs"

definition lacking :: "deviceDoc list \<Rightarrow> doc_id set" where
  "lacking docs = dd_DocID ` {x \<in> set docs. dd_FCMToken x = None}"

lemma fromID_keys:
  assumes "doc_legacy oids n x" and "dd_FCMToken x = None"
  shows "dd_DocID (fromID x) = dd_DocID x" "dd_ID (fromID x) = dd_ID x" "dd_IdentityKey (fromID x) = dd_IdentityKey x"
    "token (fromID x) = token x" "dd_FCMToken (fromID x) = Some (token x)" "doc_legacy oids n (fromID x)"
    "pair_of (fromID x) = Some (dd_IdentityKey x, token x)"
  using assms by (auto simp: doc_legacy_def fromID_def token_def stored_token_def pair_of_def split: doc_id.splits)

lemma legacy_drop: "legacy_ok u oids n (as @ x # bs) \<Longrightarrow> legacy_ok u oids n (as @ bs)"
  by (auto simp: legacy_ok_def split: if_splits)

lemma legacy_fill:
  assumes ok: "legacy_ok u oids n (as @ x # bs)" and x: "dd_FCMToken x = None"
    and nc: "\<not> (u \<and> collides (fromID x) (as @ bs))"
  shows "legacy_ok u oids n (as @ fromID x # bs)"
proof -
  have lx: "doc_legacy oids n x" using ok by (simp add: legacy_ok_def)
  note f = fromID_keys [OF lx x]
  have "u \<longrightarrow> distinct (filter (\<lambda>p. p \<noteq> None) (map pair_of (as @ fromID x # bs)))"
  proof
    assume u: "u"
    have "Some (dd_IdentityKey x, token x) \<notin> pair_of ` set (as @ bs)"
      using nc u f(7) by (auto simp: collides_def)
    moreover have "distinct (filter (\<lambda>p. p \<noteq> None) (map pair_of (as @ bs)))"
      using legacy_drop [OF ok] u by (simp add: legacy_ok_def)
    ultimately show "distinct (filter (\<lambda>p. p \<noteq> None) (map pair_of (as @ fromID x # bs)))"
      unfolding map_append list.map filter_append f(7) by (simp add: image_Un)
  qed
  then show ?thesis using ok f by (auto simp: legacy_ok_def)
qed

lemma tok_pairs_fill:
  "doc_legacy oids n x \<Longrightarrow> dd_FCMToken x = None \<Longrightarrow> tok_pairs (as @ fromID x # bs) = tok_pairs (as @ x # bs)"
  by (simp add: tok_pairs_def fromID_keys)

text \<open>A document that collides is a second copy of a registration that is there.\<close>

lemma tok_pairs_drop:
  assumes ok: "legacy_ok u oids n (as @ x # bs)" and x: "dd_FCMToken x = None" and c: "collides (fromID x) (as @ bs)"
  shows "tok_pairs (as @ bs) = tok_pairs (as @ x # bs)"
proof -
  have lx: "doc_legacy oids n x" using ok by (simp add: legacy_ok_def)
  from c obtain y where y: "y \<in> set (as @ bs)" "pair_of y = Some (dd_IdentityKey x, token x)"
    using fromID_keys(7) [OF lx x] by (auto simp: collides_def)
  have ly: "doc_legacy oids n y" using ok y(1) by (auto simp: legacy_ok_def)
  have "dd_IdentityKey y = dd_IdentityKey x" "dd_FCMToken y = Some (token x)" using y(2) by (auto simp: pair_of_def)
  moreover have "token y = token x"
    using \<open>dd_FCMToken y = Some (token x)\<close> ly
    by (auto simp: token_def stored_token_def doc_legacy_def split: doc_id.splits if_splits)
  ultimately have "(dd_IdentityKey x, token x) \<in> (\<lambda>x. (dd_IdentityKey x, token x)) ` set (as @ bs)"
    using y(1) by (metis (no_types, lifting) image_eqI)
  then show ?thesis by (auto simp: tok_pairs_def)
qed

lemma backfill_many_ok:
  assumes "legacy_ok u oids n (before @ xs)" and "backfill_many u before xs = (ok, docs)"
    and "\<forall>x \<in> set before. dd_FCMToken x \<noteq> None"
  shows "legacy_ok u oids n docs \<and> tok_pairs docs = tok_pairs (before @ xs) \<and> (ok \<longrightarrow> lacking docs = {}) \<and> (\<not> u \<longrightarrow> ok)"
  using assms
proof (induction xs arbitrary: before)
  case Nil
  then show ?case by (auto simp: lacking_def)
next
  case (Cons x xs)
  show ?case
  proof (cases "dd_FCMToken x \<noteq> None")
    case True
    with Cons.prems show ?thesis using Cons.IH [of "before @ [x]"] by auto
  next
    case False
    then have n: "dd_FCMToken x = None" by simp
    have lx: "doc_legacy oids n x" using Cons.prems(1) by (simp add: legacy_ok_def)
    show ?thesis
    proof (cases "u \<and> collides (fromID x) (before @ xs)")
      case True
      with Cons.prems n show ?thesis by auto
    next
      case nc: False
      with Cons.prems(2) n have "backfill_many u (before @ [fromID x]) xs = (ok, docs)" by auto
      moreover have "legacy_ok u oids n ((before @ [fromID x]) @ xs)" using legacy_fill [OF Cons.prems(1) n nc] by simp
      moreover have "\<forall>y \<in> set (before @ [fromID x]). dd_FCMToken y \<noteq> None"
        using Cons.prems(3) fromID_keys(5) [OF lx n] by simp
      ultimately have "legacy_ok u oids n docs \<and> tok_pairs docs = tok_pairs ((before @ [fromID x]) @ xs) \<and> (ok \<longrightarrow> lacking docs = {}) \<and> (\<not> u \<longrightarrow> ok)"
        using Cons.IH by blast
      then show ?thesis using tok_pairs_fill [OF lx n, of before xs] by simp
    qed
  qed
qed

lemma find_split: "find P xs = Some x \<Longrightarrow> \<exists>as bs. xs = as @ x # bs \<and> P x \<and> (\<forall>y \<in> set as. \<not> P y)"
proof (induction xs)
  case (Cons y ys)
  show ?case
  proof (cases "P y")
    case True
    with Cons.prems show ?thesis by (intro exI [of _ "[]"] exI [of _ ys]) simp
  next
    case False
    with Cons obtain as bs where "ys = as @ x # bs" "P x" "\<forall>y \<in> set as. \<not> P y" by auto
    with False show ?thesis by (intro exI [of _ "y # as"] exI [of _ bs]) simp
  qed
qed simp

lemma update_first_split: "\<forall>y \<in> set as. \<not> P y \<Longrightarrow> P x \<Longrightarrow> update_first P f (as @ x # bs) = as @ f x # bs"
  by (induction as) auto

lemma delete_first_split: "\<forall>y \<in> set as. \<not> P y \<Longrightarrow> P x \<Longrightarrow> delete_first P (as @ x # bs) = as @ bs"
  by (induction as) auto

lemma delete_first_none: "\<forall>y \<in> set xs. \<not> P y \<Longrightarrow> delete_first P xs = xs"
  by (induction xs) auto

text \<open>Filling in one document: what the data is afterwards, whether or not the reply arrives.\<close>

definition boot_step :: "mongo_db \<Rightarrow> mongo_db \<Rightarrow> bool" where
  "boot_step d d' \<longleftrightarrow> (\<exists>docs. d' = d\<lparr>c_devices := docs\<rparr> \<and>
     (legacy_ok (pair_unique d) (next_oid d) (registrations d) (c_devices d) \<longrightarrow>
       legacy_ok (pair_unique d) (next_oid d) (registrations d) docs \<and> tok_pairs docs = tok_pairs (c_devices d) \<and>
       lacking docs \<subseteq> lacking (c_devices d)))"

lemma boot_step_refl: "boot_step d d"
  by (auto simp: boot_step_def intro!: exI [of _ "c_devices d"])

lemma boot_step_trans: "boot_step a b \<Longrightarrow> boot_step b c \<Longrightarrow> boot_step a c"
  unfolding boot_step_def by (elim exE conjE) (rule_tac x = docsa in exI, auto)

lemma lacking_split: "dd_FCMToken x = None \<Longrightarrow> lacking (as @ x # bs) = insert (dd_DocID x) (lacking (as @ bs))"
  by (auto simp: lacking_def)

lemma update_one_ok:
  assumes ok: "legacy_ok (pair_unique d) (next_oid d) (registrations d) (c_devices d)"
    and eq: "update_one_fromID k d = (rep, d')"
  shows "boot_step d d'" and "rep = Reply () \<Longrightarrow> k \<notin> lacking (c_devices d')"
    and "rep = DuplicateKey \<Longrightarrow> d' = d \<and> (\<exists>as x bs. c_devices d = as @ x # bs \<and> dd_DocID x = k \<and> dd_FCMToken x = None \<and>
      (\<forall>y \<in> set as. \<not> lacking_key k y) \<and> collides (fromID x) (as @ bs))"
proof -
  have "boot_step d d' \<and> (rep = Reply () \<longrightarrow> k \<notin> lacking (c_devices d')) \<and>
    (rep = DuplicateKey \<longrightarrow> d' = d \<and> (\<exists>as x bs. c_devices d = as @ x # bs \<and> dd_DocID x = k \<and> dd_FCMToken x = None \<and>
      (\<forall>y \<in> set as. \<not> lacking_key k y) \<and> collides (fromID x) (as @ bs)))"
  proof (cases "find (lacking_key k) (c_devices d)")
    case None
    then have "k \<notin> lacking (c_devices d)" by (auto simp: lacking_def lacking_key_def find_None_all)
    with None eq show ?thesis by (auto simp: update_one_fromID_def boot_step_refl)
  next
    case (Some x)
    then obtain as bs where x: "c_devices d = as @ x # bs" "lacking_key k x" "\<forall>y \<in> set as. \<not> lacking_key k y"
      by (blast dest: find_split)
    then have xk: "dd_DocID x = k" "dd_FCMToken x = None" by (auto simp: lacking_key_def)
    have dis: "distinct (map dd_DocID (as @ x # bs))" using ok x(1) by (simp add: legacy_ok_def)
    then have ne: "\<forall>y \<in> set (as @ bs). dd_DocID y \<noteq> k" using xk(1) by (auto simp: image_iff)
    then have flt: "filter (\<lambda>y. dd_DocID y \<noteq> k) (c_devices d) = as @ bs"
      using x(1) xk(1) by (auto simp: filter_id_conv)
    have lx: "doc_legacy (next_oid d) (registrations d) x" using ok x(1) by (simp add: legacy_ok_def)
    show ?thesis
    proof (cases "pair_unique d \<and> collides (fromID x) (as @ bs)")
      case True
      with eq Some flt have "rep = DuplicateKey" "d' = d" by (auto simp: update_one_fromID_def)
      moreover have "\<exists>as x bs. c_devices d = as @ x # bs \<and> dd_DocID x = k \<and> dd_FCMToken x = None \<and>
          (\<forall>y \<in> set as. \<not> lacking_key k y) \<and> collides (fromID x) (as @ bs)"
        using x xk True by blast
      ultimately show ?thesis using boot_step_refl by simp
    next
      case False
      have docs: "update_first (lacking_key k) fromID (c_devices d) = as @ fromID x # bs"
        unfolding x(1) by (rule update_first_split [OF x(3,2)])
      with False eq Some flt have rep: "rep = Reply ()" "d' = d\<lparr>c_devices := as @ fromID x # bs\<rparr>"
        by (auto simp: update_one_fromID_def)
      have ok': "legacy_ok (pair_unique d) (next_oid d) (registrations d) (as @ x # bs)" using ok x(1) by simp
      have "lacking (as @ fromID x # bs) = lacking (as @ bs)"
        using fromID_keys(5) [OF lx xk(2)] by (auto simp: lacking_def)
      moreover have "k \<notin> lacking (as @ bs)" using ne by (auto simp: lacking_def)
      ultimately show ?thesis
        using legacy_fill [OF ok' xk(2) False] tok_pairs_fill [OF lx xk(2), of as bs] lacking_split [OF xk(2), of as bs]
        by (auto simp: rep boot_step_def x(1) intro!: exI [of _ "as @ fromID x # bs"])
    qed
  qed
  then show "boot_step d d'" "rep = Reply () \<Longrightarrow> k \<notin> lacking (c_devices d')"
    "rep = DuplicateKey \<Longrightarrow> d' = d \<and> (\<exists>as x bs. c_devices d = as @ x # bs \<and> dd_DocID x = k \<and> dd_FCMToken x = None \<and>
      (\<forall>y \<in> set as. \<not> lacking_key k y) \<and> collides (fromID x) (as @ bs))"
    by simp_all
qed

lemma delete_one_ok:
  assumes ok: "legacy_ok (pair_unique d) (next_oid d) (registrations d) (c_devices d)"
    and x: "c_devices d = as @ x # bs" "dd_DocID x = k" "dd_FCMToken x = None" "\<forall>y \<in> set as. \<not> lacking_key k y"
    and c: "collides (fromID x) (as @ bs)"
  shows "\<exists>d'. delete_one k d = ((), d') \<and> boot_step d d' \<and> k \<notin> lacking (c_devices d')"
proof -
  have "lacking_key k x" using x by (simp add: lacking_key_def)
  with x have docs: "delete_first (lacking_key k) (c_devices d) = as @ bs" by (simp add: delete_first_split)
  have ok': "legacy_ok (pair_unique d) (next_oid d) (registrations d) (as @ x # bs)" using ok x(1) by simp
  then have "\<forall>y \<in> set (as @ bs). dd_DocID y \<noteq> k" using x(2) by (auto simp: legacy_ok_def image_iff)
  then have "k \<notin> lacking (as @ bs)" by (auto simp: lacking_def)
  moreover have "boot_step d (d\<lparr>c_devices := as @ bs\<rparr>)"
    using legacy_drop [OF ok'] tok_pairs_drop [OF ok' x(3) c] lacking_split [OF x(3), of as bs]
    by (auto simp: boot_step_def x(1) intro!: exI [of _ "as @ bs"])
  ultimately show ?thesis by (simp add: delete_one_def docs)
qed

abbreviation boot_inv :: "mongo_db \<Rightarrow> bool" where
  "boot_inv d \<equiv> legacy_ok (pair_unique d) (next_oid d) (registrations d) (c_devices d)"

lemma boot_step_inv:
  assumes "boot_step d d'" and "boot_inv d"
  shows "boot_inv d'" and "tok_pairs (c_devices d') = tok_pairs (c_devices d)" and "lacking (c_devices d') \<subseteq> lacking (c_devices d)"
  using assms by (auto simp: boot_step_def)

lemma backfill_left_ok:
  assumes "boot_inv (conn_data s)" and "backfill_left ks s = (x, s')" and "lacking (c_devices (conn_data s)) \<subseteq> set ks"
  shows "boot_step (conn_data s) (conn_data s') \<and> (healthy s \<longrightarrow> healthy s' \<and> x = Inr ()) \<and>
    (x = Inr () \<longrightarrow> lacking (c_devices (conn_data s')) = {})"
  using assms
proof (induction ks arbitrary: s)
  case Nil
  then show ?case by (auto simp: boot_step_refl)
next
  case (Cons k ks)
  let ?d = "conn_data s"
  obtain rep d1 where u: "update_one_fromID k ?d = (rep, d1)" by fastforce
  note uo = update_one_ok [OF Cons.prems(1) u]
  obtain y s1 where y: "call (update_one_fromID k) s = (y, s1)" by fastforce
  note c = call_cases [OF y u]
  have next_step: "boot_step ?d (conn_data s') \<and> (healthy s \<longrightarrow> healthy s' \<and> x = Inr ()) \<and>
      (x = Inr () \<longrightarrow> lacking (c_devices (conn_data s')) = {})"
    if "boot_step ?d (conn_data t)" "k \<notin> lacking (c_devices (conn_data t))" "healthy s \<longrightarrow> healthy t"
      "backfill_left ks t = (x, s')" for t
  proof -
    note b = boot_step_inv [OF that(1) Cons.prems(1)]
    have "lacking (c_devices (conn_data t)) \<subseteq> set ks" using b(3) Cons.prems(3) that(2) by auto
    from Cons.IH [OF b(1) that(4) this] that(1,3) boot_step_trans show ?thesis by blast
  qed
  show ?case
  proof (cases y)
    case (Inl e)
    with Cons.prems(2) y have "x = Inl e" "s' = s1" by auto
    with c Inl uo(1) boot_step_refl show ?thesis by auto
  next
    case (Inr w)
    with c have w: "w = rep" "conn_data s1 = d1" "healthy s \<longrightarrow> healthy s1" by auto
    show ?thesis
    proof (cases rep)
      case (Reply v)
      with Cons.prems(2) y Inr w have "backfill_left ks s1 = (x, s')" by simp
      then show ?thesis using uo(1) uo(2) Reply w by (intro next_step [of s1]) simp_all
    next
      case DuplicateKey
      with uo(3) have d1: "d1 = ?d" by simp
      obtain as z bs where z: "c_devices ?d = as @ z # bs" "dd_DocID z = k" "dd_FCMToken z = None"
          "\<forall>y \<in> set as. \<not> lacking_key k y" "collides (fromID z) (as @ bs)" using uo(3) DuplicateKey by blast
      obtain d2 where d2: "delete_one k ?d = ((), d2)" "boot_step ?d d2" "k \<notin> lacking (c_devices d2)"
        using delete_one_ok [OF Cons.prems(1) z] by blast
      obtain v s2 where v: "call (delete_one k) s1 = (v, s2)" by fastforce
      have "delete_one k (conn_data s1) = ((), d2)" using d2(1) w d1 by simp
      note c2 = call_cases [OF v this]
      show ?thesis
      proof (cases v)
        case (Inl e)
        with Cons.prems(2) y Inr w DuplicateKey v have "x = Inl e" "s' = s2" by auto
        with c2 Inl w d1 d2(2) boot_step_refl show ?thesis by auto
      next
        case (Inr q)
        with Cons.prems(2) y \<open>y = Inr w\<close> w DuplicateKey v have "backfill_left ks s2 = (x, s')" by simp
        then show ?thesis using c2 Inr w d2 by (intro next_step [of s2]) simp_all
      qed
    qed
  qed
qed

lemma backfill_many_lacking:
  assumes "backfill_many u bef xs = (ok, ds)" and "\<forall>x \<in> set (bef @ xs). doc_legacy oids n x"
  shows "lacking ds \<subseteq> lacking (bef @ xs)"
  using assms
proof (induction xs arbitrary: bef)
  case (Cons x xs)
  show ?case
  proof (cases "dd_FCMToken x \<noteq> None")
    case True
    with Cons.prems Cons.IH [of "bef @ [x]"] show ?thesis by auto
  next
    case False
    then have n: "dd_FCMToken x = None" by simp
    note f = fromID_keys [of oids n x, OF _ n]
    show ?thesis
    proof (cases "u \<and> collides (fromID x) (bef @ xs)")
      case True
      with Cons.prems(1) n show ?thesis by auto
    next
      case nc: False
      with Cons.prems(1) n have "backfill_many u (bef @ [fromID x]) xs = (ok, ds)" by auto
      moreover have "\<forall>y \<in> set ((bef @ [fromID x]) @ xs). doc_legacy oids n y" using Cons.prems(2) f by auto
      ultimately have "lacking ds \<subseteq> lacking ((bef @ [fromID x]) @ xs)" by (rule Cons.IH)
      moreover have "lacking ((bef @ [fromID x]) @ xs) \<subseteq> lacking (bef @ x # xs)"
        using f(5) Cons.prems(2) by (auto simp: lacking_def)
      ultimately show ?thesis by (rule subset_trans)
    qed
  qed
qed simp

lemma update_many_ok:
  assumes "boot_inv d" and "update_many_fromID d = (rep, d')"
  shows "boot_step d d'" and "rep = Reply () \<Longrightarrow> lacking (c_devices d') = {}" and "\<not> pair_unique d \<Longrightarrow> rep = Reply ()"
proof -
  obtain ok docs where b: "backfill_many (pair_unique d) [] (c_devices d) = (ok, docs)" by fastforce
  have l: "legacy_ok (pair_unique d) (next_oid d) (registrations d) ([] @ c_devices d)" using assms(1) by simp
  note m = backfill_many_ok [OF l b]
  have lk: "lacking docs \<subseteq> lacking (c_devices d)"
    using backfill_many_lacking [OF b, of "next_oid d" "registrations d"] l by (simp add: legacy_ok_def)
  have rd: "rep = (if ok then Reply () else DuplicateKey)" "d' = d\<lparr>c_devices := docs\<rparr>"
    using assms(2) b by (auto simp: update_many_fromID_def)
  show "boot_step d d'" using m lk by (auto simp: rd boot_step_def intro!: exI [of _ docs])
  show "rep = Reply () \<Longrightarrow> lacking (c_devices d') = {}" "\<not> pair_unique d \<Longrightarrow> rep = Reply ()"
    using m by (auto simp: rd split: if_splits)
qed

lemma lacking_string_keys: "boot_inv d \<Longrightarrow> dd \<in> set (c_devices d) \<Longrightarrow> dd_FCMToken dd = None \<Longrightarrow> is_string_key (dd_DocID dd)"
  by (auto simp: legacy_ok_def doc_legacy_def is_string_key_def split: doc_id.splits)

lemma backfill_ok:
  assumes inv: "boot_inv (conn_data s)" and eq: "backfillDeviceTokens s = (x, s')"
  shows "boot_step (conn_data s) (conn_data s') \<and> (healthy s \<longrightarrow> healthy s' \<and> x = Inr ()) \<and>
    (x = Inr () \<longrightarrow> lacking (c_devices (conn_data s')) = {})"
proof -
  obtain rep d1 where u: "update_many_fromID (conn_data s) = (rep, d1)" by fastforce
  note um = update_many_ok [OF inv u]
  obtain y s1 where y: "call update_many_fromID s = (y, s1)" by fastforce
  note c = call_cases [OF y u]
  show ?thesis
  proof (cases "y = Inr DuplicateKey")
    case False
    have "(x = Inr () \<and> s' = s1 \<and> y = Inr (Reply ())) \<or> (\<exists>e. x = Inl e \<and> s' = s1 \<and> y = Inl e)"
      using eq y False by (auto simp: backfillDeviceTokens_def split: sum.splits reply.splits)
    with c um boot_step_refl [of "conn_data s"] show ?thesis by (elim disjE conjE exE) simp_all
  next
    case True
    with c have r: "rep = DuplicateKey" "conn_data s1 = d1" "healthy s \<longrightarrow> healthy s1" by auto
    note b = boot_step_inv [OF um(1) inv]
    let ?g = "\<lambda>d. map dd_DocID (filter (\<lambda>x. dd_FCMToken x = None) (c_devices d))"
    obtain v s2 where v: "call (\<lambda>d. (?g d, d)) s1 = (v, s2)" by fastforce
    from call_cases [OF v] have c2: "conn_data s2 = d1"
      "(v = Inr (?g d1) \<and> (healthy s1 \<longrightarrow> healthy s2)) \<or> (v = Inl ErrBackend \<and> \<not> healthy s1)" using r by auto
    have keys: "list_all is_string_key (?g d1)" using lacking_string_keys [OF b(1)] by (auto simp: list_all_iff)
    have i2: "boot_inv (conn_data s2)" using b(1) c2(1) by simp
    have lk: "lacking (c_devices (conn_data s2)) \<subseteq> set (?g d1)" by (auto simp: lacking_def c2(1))
    show ?thesis
    proof (cases v)
      case (Inl e)
      with eq y True v have "x = Inl e" "s' = s2" by (auto simp: backfillDeviceTokens_def)
      with Inl c2 r um(1) show ?thesis by auto
    next
      case (Inr ks)
      with c2 have ks: "ks = ?g d1" by auto
      with eq y True v Inr keys have "backfill_left (?g d1) s2 = (x, s')" by (simp add: backfillDeviceTokens_def)
      from backfill_left_ok [OF i2 this lk] c2 r um(1) Inr boot_step_trans show ?thesis by fastforce
    qed
  qed
qed

text \<open>Index builds change only the flags, and seeding only the fees: what stays the same, and what
  an index that was built says.\<close>

definition pairs_distinct :: "mongo_db \<Rightarrow> bool" where
  "pairs_distinct d \<longleftrightarrow> distinct (filter (\<lambda>p. p \<noteq> None) (map pair_of (c_devices d)))"

definition perms_distinct :: "mongo_db \<Rightarrow> bool" where
  "perms_distinct d \<longleftrightarrow> distinct (map permissionKey (c_permissions d))"

definition same_docs :: "mongo_db \<Rightarrow> mongo_db \<Rightarrow> bool" where
  "same_docs d d' \<longleftrightarrow> c_messages d' = c_messages d \<and> c_permissions d' = c_permissions d \<and> c_devices d' = c_devices d \<and>
     c_counters d' = c_counters d \<and> next_oid d' = next_oid d \<and> map_of (c_fees d) \<subseteq>\<^sub>m map_of (c_fees d')"

lemma same_docs_refl: "same_docs d d"
  by (simp add: same_docs_def)

lemma same_docs_trans: "same_docs a b \<Longrightarrow> same_docs b c \<Longrightarrow> same_docs a c"
  by (auto simp: same_docs_def intro: map_le_trans)

lemma same_docs_distinct: "same_docs d d' \<Longrightarrow> pairs_distinct d' = pairs_distinct d \<and> perms_distinct d' = perms_distinct d"
  by (simp add: same_docs_def pairs_distinct_def perms_distinct_def)

lemma createIndexes_ok:
  assumes "createIndexes c d = (w, d')"
  shows "same_docs d d'" and "w = Inr () \<Longrightarrow> c = devicesColl \<Longrightarrow> pairs_distinct d"
    and "perms_distinct d \<Longrightarrow> pairs_distinct d \<Longrightarrow> w = Inr ()"
  using assms
  by (auto simp: createIndexes_def same_docs_def pairs_distinct_def perms_distinct_def devicesColl_def split: if_splits)

lemma create_all_indexes_ok:
  assumes "create_all_indexes cs s = (x, s')"
  shows "same_docs (conn_data s) (conn_data s') \<and> (x = Inr () \<longrightarrow> devicesColl \<in> set cs \<longrightarrow> pairs_distinct (conn_data s)) \<and>
    (healthy s \<longrightarrow> perms_distinct (conn_data s) \<longrightarrow> pairs_distinct (conn_data s) \<longrightarrow> healthy s' \<and> x = Inr ())"
  using assms
proof (induction cs arbitrary: s)
  case Nil
  then show ?case by (simp add: same_docs_refl)
next
  case (Cons c cs)
  obtain w d1 where w: "createIndexes c (conn_data s) = (w, d1)" by fastforce
  note ci = createIndexes_ok [OF w]
  obtain y s1 where y: "call (createIndexes c) s = (y, s1)" by fastforce
  note cc = call_cases [OF y w]
  have d: "same_docs (conn_data s) (conn_data s1)" using cc ci(1) same_docs_refl by auto
  show ?case
  proof (cases "y = Inr (Inr ())")
    case True
    with Cons.prems y have "create_all_indexes cs s1 = (x, s')" by simp
    note IH = Cons.IH [OF this]
    have "same_docs (conn_data s) (conn_data s')" using IH same_docs_trans [OF d] by blast
    then show ?thesis using IH same_docs_distinct [OF d] True cc ci(2) by auto
  next
    case False
    then obtain e where "x = Inl e" "s' = s1" "y = Inl e \<or> y = Inr (Inl e)"
      using Cons.prems y by (auto split: sum.splits)
    with cc ci(3) d show ?thesis by auto
  qed
qed

lemma seed_fees_ok:
  assumes "seed_fees fs s = (x, s')"
  shows "same_docs (conn_data s) (conn_data s') \<and> (healthy s \<longrightarrow> healthy s' \<and> x = Inr ()) \<and>
    (x = Inr () \<longrightarrow> fst ` set fs \<subseteq> fst ` set (c_fees (conn_data s')))"
  using assms
proof (induction fs arbitrary: s)
  case Nil
  then show ?case by (simp add: same_docs_refl)
next
  case (Cons f fs)
  let ?d1 = "snd (seed_feeDoc f (conn_data s))"
  have w: "seed_feeDoc f (conn_data s) = ((), ?d1)" by (simp add: seed_feeDoc_def)
  have same: "same_docs (conn_data s) ?d1"
    by (auto simp: seed_feeDoc_def same_docs_def simp del: map_of_append intro: map_le_append)
  have has: "fst f \<in> dom (map_of (c_fees ?d1))" by (auto simp: seed_feeDoc_def dom_map_of_conv_image_fst)
  obtain y s1 where y: "call (seed_feeDoc f) s = (y, s1)" by fastforce
  note cc = call_cases [OF y w]
  have d: "same_docs (conn_data s) (conn_data s1)" using cc same same_docs_refl by auto
  show ?case
  proof (cases y)
    case (Inl e)
    with Cons.prems y cc d show ?thesis by auto
  next
    case (Inr u)
    with Cons.prems y have "seed_fees fs s1 = (x, s')" by simp
    note IH = Cons.IH [OF this]
    have "fst f \<in> dom (map_of (c_fees (conn_data s1)))" using has cc Inr by simp
    then have "fst f \<in> dom (map_of (c_fees (conn_data s')))"
      using IH by (auto simp: same_docs_def map_le_def dom_def)
    then have "fst f \<in> fst ` set (c_fees (conn_data s'))" by (simp add: dom_map_of_conv_image_fst)
    then show ?thesis using IH same_docs_trans [OF d] cc Inr by auto
  qed
qed

lemma legacy_current:
  assumes "legacy_ok u oids n docs" and "lacking docs = {}" and "distinct (filter (\<lambda>p. p \<noteq> None) (map pair_of docs))"
  shows "devices_ok oids n docs"
proof -
  have tok: "\<forall>x \<in> set docs. dd_FCMToken x \<noteq> None" using assms(2) by (auto simp: lacking_def)
  then have "filter (\<lambda>p. p \<noteq> None) (map pair_of docs) = map pair_of docs"
    by (auto simp: filter_id_conv pair_of_def)
  moreover have "\<forall>x \<in> set docs. doc_ok oids n x"
    using assms(1) tok by (auto simp: legacy_ok_def doc_legacy_def doc_ok_def split: doc_id.splits)
  moreover have "\<forall>x \<in> set docs. \<forall>y \<in> set docs. dd_ID x \<noteq> None \<longrightarrow> dd_ID x = dd_ID y \<longrightarrow> x = y"
  proof (intro ballI impI)
    fix x y
    assume "x \<in> set docs" "y \<in> set docs" "dd_ID x \<noteq> None" "dd_ID x = dd_ID y"
    with assms(1) have "dd_DocID x = dd_DocID y" "distinct (map dd_DocID docs)" unfolding legacy_ok_def by blast+
    with \<open>x \<in> set docs\<close> \<open>y \<in> set docs\<close> show "x = y" by (metis map_of_distinct_eq)
  qed
  ultimately show ?thesis using assms(1,3) by (simp add: devices_ok_def legacy_ok_def)
qed

lemma mongo_EnsureSchema_ok:
  assumes inv: "boot_inv (conn_data s)" and msgs: "distinct (map md_MessageID (c_messages (conn_data s)))"
    and perms: "perms_distinct (conn_data s)" and dc: "devicesColl \<in> set colls"
    and eq: "mongo_EnsureSchema colls s = (x, s')"
  shows "x = Inr () \<Longrightarrow> mongo_ok (conn_data s') \<and> fst ` set DefaultDeliveryFees \<subseteq> fst ` set (c_fees (conn_data s'))"
    and "tok_pairs (c_devices (conn_data s')) = tok_pairs (c_devices (conn_data s)) \<and>
      c_messages (conn_data s') = c_messages (conn_data s) \<and> c_permissions (conn_data s') = c_permissions (conn_data s) \<and>
      map_of (c_fees (conn_data s)) \<subseteq>\<^sub>m map_of (c_fees (conn_data s'))"
    and "healthy s \<Longrightarrow> pair_unique (conn_data s) \<Longrightarrow> x = Inr ()"
proof -
  obtain y s1 where y: "backfillDeviceTokens s = (y, s1)" by fastforce
  note b = backfill_ok [OF inv y]
  note bi = boot_step_inv [OF conjunct1 [OF b] inv]
  obtain docs where d1: "conn_data s1 = (conn_data s)\<lparr>c_devices := docs\<rparr>" using b by (auto simp: boot_step_def)
  obtain z s2 where z: "create_all_indexes colls s1 = (z, s2)" by fastforce
  note ci = create_all_indexes_ok [OF z]
  obtain v s3 where v: "seed_fees DefaultDeliveryFees s2 = (v, s3)" by fastforce
  note sf = seed_fees_ok [OF v]
  have eq': "(case y of Inl e \<Rightarrow> (Inl e, s1) | Inr _ \<Rightarrow> (case z of Inl e \<Rightarrow> (Inl e, s2) | Inr _ \<Rightarrow> (v, s3))) = (x, s')"
    using eq y z v by (auto simp: mongo_EnsureSchema_def split: sum.splits)
  have s13: "same_docs (conn_data s1) (conn_data s3)" using ci sf same_docs_trans by blast
  have "same_docs (conn_data s1) (conn_data s')" using eq' same_docs_refl ci s13 by (auto split: sum.splits)
  then show "tok_pairs (c_devices (conn_data s')) = tok_pairs (c_devices (conn_data s)) \<and>
      c_messages (conn_data s') = c_messages (conn_data s) \<and> c_permissions (conn_data s') = c_permissions (conn_data s) \<and>
      map_of (c_fees (conn_data s)) \<subseteq>\<^sub>m map_of (c_fees (conn_data s'))"
    using bi(2) d1 by (simp add: same_docs_def)
  have perms1: "perms_distinct (conn_data s1)" using perms d1 by (simp add: perms_distinct_def)
  show "healthy s \<Longrightarrow> pair_unique (conn_data s) \<Longrightarrow> x = Inr ()"
  proof -
    assume h: "healthy s" and u: "pair_unique (conn_data s)"
    have "pairs_distinct (conn_data s1)" using bi(1) u d1 by (simp add: legacy_ok_def pairs_distinct_def)
    then show "x = Inr ()" using eq' h b ci sf perms1 by (auto split: sum.splits)
  qed
  assume "x = Inr ()"
  with eq' have all: "y = Inr ()" "z = Inr ()" "v = Inr ()" "s' = s3" by (auto split: sum.splits)
  have "devices_ok (next_oid (conn_data s1)) (registrations (conn_data s1)) (c_devices (conn_data s1))"
    using bi(1) b all ci dc by (intro legacy_current) (auto simp: pairs_distinct_def)
  moreover have "registrations (conn_data s3) = registrations (conn_data s1)" using s13 by (simp add: registrations_def same_docs_def)
  ultimately have "mongo_ok (conn_data s3)" using s13 msgs perms1 d1 by (simp add: mongo_ok_def same_docs_def perms_distinct_def)
  then show "mongo_ok (conn_data s') \<and> fst ` set DefaultDeliveryFees \<subseteq> fst ` set (c_fees (conn_data s'))" using all sf by simp
qed

end
