(* ===== verification/Devices.thy ===== *)
theory Devices
  imports Policy
begin

text \<open>
  The device endpoints (\<open>pkg/handlers/devices.go\<close>) over the storage contract. A registration belongs
  to the caller's identity and the token together, and a listing shows no more of a token than its
  last ten bytes.
\<close>

section \<open>Requests and responses\<close>

record RegisterDeviceRequest =
  rd_FCMToken :: string
  rd_DeviceID :: "string option"
  rd_Platform :: "string option"

record UnregisterDeviceRequest =
  ud_FCMToken :: string

record DeviceOut =
  do_ID :: int
  do_DeviceID :: "string option"
  do_Platform :: "string option"
  do_FCMToken :: string
  do_Active :: bool
  do_CreatedAt :: string
  do_UpdatedAt :: string
  do_LastUsed :: string

record RegisterDeviceResponse =
  rdr_Status :: string
  rdr_Message :: string
  rdr_DeviceID :: int

record UnregisterDeviceResponse =
  udr_Status :: string
  udr_Message :: string

record ListDevicesResponse =
  ldr_Status :: string
  ldr_Devices :: "DeviceOut list"

definition statusSuccess :: string where
  "statusSuccess = ''success''"

section \<open>Handlers\<close>

definition validPlatforms :: "string list" where
  "validPlatforms = [''ios'', ''android'', ''web'']"

definition registerDevice ::
  "'s Store \<Rightarrow> string \<Rightarrow> RegisterDeviceRequest decoded \<Rightarrow> 's \<Rightarrow> RegisterDeviceResponse response \<times> 's" where
  "registerDevice S identityKey body s =
     (case body of
        Decoded req \<Rightarrow>
          if rd_FCMToken req = [] then
            (writeError 400 ''ERR_INVALID_FCM_TOKEN'' ''fcmToken is required and must be a non-empty string.'', s)
          else if (case rd_Platform req of None \<Rightarrow> False | Some p \<Rightarrow> p \<notin> set validPlatforms) then
            (writeError 400 ''ERR_INVALID_PLATFORM'' ''platform must be one of: ios, android, web'', s)
          else
            (case RegisterDevice S \<lparr>nd_IdentityKey = identityKey, nd_FCMToken = rd_FCMToken req,
                    nd_DeviceID = rd_DeviceID req, nd_Platform = rd_Platform req\<rparr> s of
               (Inl _, s1) \<Rightarrow> (writeError 500 ''ERR_DATABASE_ERROR'' ''Failed to register device.'', s1)
             | (Inr i, s1) \<Rightarrow>
                 (writeJSON 200 \<lparr>rdr_Status = statusSuccess,
                    rdr_Message = ''Device registered successfully for push notifications'', rdr_DeviceID = i\<rparr>, s1))
      | _ \<Rightarrow> (writeError 400 ''ERR_INVALID_JSON'' ''Invalid JSON body'', s))"

definition handleRegisterDevice ::
  "'s Store \<Rightarrow> string \<Rightarrow> RegisterDeviceRequest decoded \<Rightarrow> 's \<Rightarrow> RegisterDeviceResponse response \<times> 's" where
  "handleRegisterDevice S identityKey body s =
     (if identityKey = [] then
        (writeError 401 ''ERR_AUTHENTICATION_REQUIRED'' ''Authentication required.'', s)
      else registerDevice S identityKey body s)"

definition unregisterDevice ::
  "'s Store \<Rightarrow> string \<Rightarrow> UnregisterDeviceRequest decoded \<Rightarrow> 's \<Rightarrow> UnregisterDeviceResponse response \<times> 's" where
  "unregisterDevice S identityKey body s =
     (case body of
        Decoded req \<Rightarrow>
          if ud_FCMToken req = [] then
            (writeError 400 ''ERR_INVALID_FCM_TOKEN'' ''fcmToken is required and must be a non-empty string.'', s)
          else
            (case UnregisterDevice S identityKey (ud_FCMToken req) s of
               (Inl _, s1) \<Rightarrow> (writeError 500 ''ERR_DATABASE_ERROR'' ''Failed to unregister device.'', s1)
             | (Inr _, s1) \<Rightarrow>
                 (writeJSON 200 \<lparr>udr_Status = statusSuccess,
                    udr_Message = ''Device unregistered from push notifications''\<rparr>, s1))
      | _ \<Rightarrow> (writeError 400 ''ERR_INVALID_JSON'' ''Invalid JSON body'', s))"

definition handleUnregisterDevice ::
  "'s Store \<Rightarrow> string \<Rightarrow> UnregisterDeviceRequest decoded \<Rightarrow> 's \<Rightarrow> UnregisterDeviceResponse response \<times> 's" where
  "handleUnregisterDevice S identityKey body s =
     (if identityKey = [] then
        (writeError 401 ''ERR_AUTHENTICATION_REQUIRED'' ''Authentication required.'', s)
      else unregisterDevice S identityKey body s)"

definition maskToken :: "string \<Rightarrow> string" where
  "maskToken tok = (if length tok > 10 then ''...'' @ drop (length tok - 10) tok else tok)"

definition deviceOut :: "Device \<Rightarrow> DeviceOut" where
  "deviceOut d = \<lparr>do_ID = dv_ID d, do_DeviceID = dv_DeviceID d, do_Platform = dv_Platform d,
     do_FCMToken = maskToken (dv_FCMToken d), do_Active = dv_Active d,
     do_CreatedAt = formatTime (dv_CreatedAt d), do_UpdatedAt = formatTime (dv_UpdatedAt d),
     do_LastUsed = (case dv_LastUsed d of None \<Rightarrow> [] | Some t \<Rightarrow> formatTime t)\<rparr>"

definition listDevices :: "'s Store \<Rightarrow> string \<Rightarrow> 's \<Rightarrow> ListDevicesResponse response \<times> 's" where
  "listDevices S identityKey s =
     (case ListDevices S identityKey s of
        (Inl _, s1) \<Rightarrow> (writeError 500 ''ERR_DATABASE_ERROR'' ''Failed to retrieve devices.'', s1)
      | (Inr devices, s1) \<Rightarrow>
          (writeJSON 200 \<lparr>ldr_Status = statusSuccess, ldr_Devices = map deviceOut devices\<rparr>, s1))"

definition handleListDevices :: "'s Store \<Rightarrow> string \<Rightarrow> 's \<Rightarrow> ListDevicesResponse response \<times> 's" where
  "handleListDevices S identityKey s =
     (if identityKey = [] then
        (writeError 401 ''ERR_AUTHENTICATION_REQUIRED'' ''Authentication required.'', s)
      else listDevices S identityKey s)"

section \<open>Behaviour over the contract\<close>

text \<open>What a listing may show of a token, and what an entry says of a registration.\<close>

definition token_shown :: "string \<Rightarrow> string \<Rightarrow> bool" where
  "token_shown tok shown \<longleftrightarrow>
     (if length tok \<le> 10 then shown = tok
      else \<exists>hidden tail. tok = hidden @ tail \<and> length tail = 10 \<and> shown = ''...'' @ tail)"

definition device_shown :: "Device \<Rightarrow> DeviceOut \<Rightarrow> bool" where
  "device_shown dv shown \<longleftrightarrow> do_ID shown = dv_ID dv \<and> do_DeviceID shown = dv_DeviceID dv \<and>
     do_Platform shown = dv_Platform dv \<and> token_shown (dv_FCMToken dv) (do_FCMToken shown) \<and>
     (do_Active shown \<longleftrightarrow> dv_Active dv) \<and> do_CreatedAt shown = formatTime (dv_CreatedAt dv) \<and>
     do_UpdatedAt shown = formatTime (dv_UpdatedAt dv) \<and>
     do_LastUsed shown = (case dv_LastUsed dv of None \<Rightarrow> [] | Some t \<Rightarrow> formatTime t)"

lemma maskToken_shown: "token_shown t (maskToken t)"
proof (cases "length t \<le> 10")
  case False
  then show ?thesis unfolding token_shown_def maskToken_def
    by (simp add: exI [of _ "take (length t - 10) t"])
qed (simp add: token_shown_def maskToken_def)

lemma deviceOut_shown: "device_shown dv (deviceOut dv)"
  by (simp add: device_shown_def deviceOut_def maskToken_shown)

text \<open>A request is answered before the store is asked, or by one call scoped to the caller.\<close>

lemma handleRegister_run:
  assumes "handleRegisterDevice S k body s = (reply, s')"
  obtains (refused) "s' = s" "statusOf reply \<in> {400, 401}"
    | (called) req x where "body = Decoded req" "k \<noteq> []" "rd_FCMToken req \<noteq> []"
        "RegisterDevice S \<lparr>nd_IdentityKey = k, nd_FCMToken = rd_FCMToken req, nd_DeviceID = rd_DeviceID req,
           nd_Platform = rd_Platform req\<rparr> s = (x, s')"
        "reply = (case x of Inl _ \<Rightarrow> writeError 500 ''ERR_DATABASE_ERROR'' ''Failed to register device.''
           | Inr i \<Rightarrow> writeJSON 200 \<lparr>rdr_Status = statusSuccess,
               rdr_Message = ''Device registered successfully for push notifications'', rdr_DeviceID = i\<rparr>)"
  using assms by (cases body) (auto simp: handleRegisterDevice_def registerDevice_def split: if_splits prod.splits sum.splits)

lemma handleUnregister_run:
  assumes "handleUnregisterDevice S k body s = (reply, s')"
  obtains (refused) "s' = s" "statusOf reply \<in> {400, 401}"
    | (called) req x where "body = Decoded req" "k \<noteq> []" "UnregisterDevice S k (ud_FCMToken req) s = (x, s')"
        "reply = (case x of Inl _ \<Rightarrow> writeError 500 ''ERR_DATABASE_ERROR'' ''Failed to unregister device.''
           | Inr _ \<Rightarrow> writeJSON 200 \<lparr>udr_Status = statusSuccess, udr_Message = ''Device unregistered from push notifications''\<rparr>)"
  using assms by (cases body) (auto simp: handleUnregisterDevice_def unregisterDevice_def split: if_splits prod.splits sum.splits)

context device_store
begin

text \<open>Whatever the reply, a request changes nothing but the caller's own registration of the token.\<close>

lemma handleRegister_scope:
  assumes inv: "invar s" and run: "handleRegisterDevice S k (Decoded req) s = (reply, s')"
  shows "invar s' \<and> (\<exists>D. view s' = (view s)\<lparr>a_devs := D\<rparr> \<and>
    {dv \<in> D. dev_pair dv \<noteq> (k, rd_FCMToken req)} = {dv \<in> a_devs (view s). dev_pair dv \<noteq> (k, rd_FCMToken req)})"
  using run
proof (cases rule: handleRegister_run)
  case refused
  with inv show ?thesis by (auto intro: exI [of _ "a_devs (view s)"])
next
  case (called req' x)
  let ?nd = "\<lparr>nd_IdentityKey = k, nd_FCMToken = rd_FCMToken req', nd_DeviceID = rd_DeviceID req', nd_Platform = rd_Platform req'\<rparr>"
  have "others_kept ?nd (view s) (view s')"
  proof (cases x)
    case (Inl e)
    with called register_err [OF inv] show ?thesis by blast
  next
    case (Inr i)
    with called register_ok [OF inv] registered_others show ?thesis by blast
  qed
  with register_inv [OF inv called(4)] called(1) show ?thesis by (auto simp: others_kept_def)
qed

lemma handleUnregister_scope:
  assumes inv: "invar s" and run: "handleUnregisterDevice S k (Decoded req) s = (reply, s')"
  shows "invar s' \<and> (view s' = view s \<or> view s' = (view s)\<lparr>a_devs := {dv \<in> a_devs (view s). dev_pair dv \<noteq> (k, ud_FCMToken req)}\<rparr>) \<and>
    (statusOf reply = 200 \<longrightarrow> (\<forall>dv \<in> a_devs (view s'). dev_pair dv \<noteq> (k, ud_FCMToken req)))"
  using run
proof (cases rule: handleUnregister_run)
  case refused
  with inv show ?thesis by auto
next
  case (called req' x)
  note w = writesD [OF unregister_writes [OF inv] called(3)]
  show ?thesis using called w by (cases x) (auto simp del: w(3))
qed

lemma handleList_devices:
  assumes inv: "invar s" and run: "handleListDevices S k s = (reply, s')"
  shows "invar s' \<and> view s' = view s \<and>
    (statusOf reply = 200 \<longrightarrow> (\<exists>ds. reply = JsonReply 200 \<lparr>ldr_Status = statusSuccess, ldr_Devices = map deviceOut ds\<rparr> \<and>
       set ds = {dv \<in> a_devs (view s). dv_IdentityKey dv = k} \<and> distinct ds \<and> sorted (map (\<lambda>dv. - dv_UpdatedAt dv) ds)))"
proof (cases "k = []")
  case True
  with inv run show ?thesis by (auto simp: handleListDevices_def)
next
  case False
  obtain x s1 where x: "ListDevices S k s = (x, s1)" by fastforce
  note r = readsD [OF devices_reads [OF inv] x]
  show ?thesis using run False x r by (cases x) (auto simp: handleListDevices_def listDevices_def)
qed

text \<open>After a registration that was reported, the caller's listing shows every registration of the caller
  and has one entry with the id that was reported, which is active and shows the request.\<close>

lemma register_then_list:
  assumes inv: "invar s" and up: "up s"
    and reg: "handleRegisterDevice S k (Decoded req) s = (JsonReply 200 out, s')"
    and ls: "handleListDevices S k s' = (reply, s'')"
  shows "\<exists>ds xs shown ys. reply = JsonReply 200 \<lparr>ldr_Status = statusSuccess, ldr_Devices = xs @ shown # ys\<rparr> \<and>
    do_ID shown = rdr_DeviceID out \<and> do_Active shown \<and> do_Platform shown = rd_Platform req \<and>
    do_DeviceID shown = rd_DeviceID req \<and> token_shown (rd_FCMToken req) (do_FCMToken shown) \<and>
    (\<forall>other \<in> set (xs @ ys). do_ID other \<noteq> rdr_DeviceID out) \<and>
    distinct ds \<and> set ds = {dv \<in> a_devs (view s'). dv_IdentityKey dv = k} \<and> list_all2 device_shown ds (xs @ shown # ys)"
  using reg
proof (cases rule: handleRegister_run)
  case refused
  then show ?thesis by simp
next
  case (called req' x)
  then obtain i where x: "x = Inr i" and out: "rdr_DeviceID out = i" and req: "req' = req" by (cases x) auto
  let ?nd = "\<lparr>nd_IdentityKey = k, nd_FCMToken = rd_FCMToken req, nd_DeviceID = rd_DeviceID req, nd_Platform = rd_Platform req\<rparr>"
  have "registered ?nd i (view s) (view s')" using called x req register_ok [OF inv] by blast
  then obtain dv where dv: "dv \<in> a_devs (view s')" "dev_pair dv = (k, rd_FCMToken req)" "dv_ID dv = i" "dv_Active dv"
      "dv_DeviceID dv = rd_DeviceID req" "dv_Platform dv = rd_Platform req"
      "\<And>e. e \<in> a_devs (view s') \<Longrightarrow> e \<noteq> dv \<Longrightarrow> dv_ID e \<noteq> i"
    by (auto simp: registered_def)
  have inv': "invar s'" and up': "up s'" using register_inv [OF inv called(4)] up by auto
  obtain y s1 where y: "ListDevices S k s' = (y, s1)" by fastforce
  note r = readsD [OF devices_reads [OF inv'] y]
  obtain ds where ds: "y = Inr ds" "set ds = {dv \<in> a_devs (view s'). dv_IdentityKey dv = k}" "distinct ds" using r(4) [OF up'] r(5) by auto
  have rep: "reply = JsonReply 200 \<lparr>ldr_Status = statusSuccess, ldr_Devices = map deviceOut ds\<rparr>"
    using ls called(2) y ds(1) by (simp add: handleListDevices_def listDevices_def)
  have "dv \<in> set ds" using ds(2) dv(1,2) by (auto simp: dev_pair_def)
  then obtain as bs where ab: "ds = as @ dv # bs" by (metis split_list)
  have other: "dv_ID e \<noteq> i" if "e \<in> set (as @ bs)" for e using that dv(7) [of e] ds(2,3) ab by auto
  have shown: "device_shown dv (deviceOut dv)" by (rule deviceOut_shown)
  show ?thesis
  proof (intro exI conjI)
    show "reply = JsonReply 200 \<lparr>ldr_Status = statusSuccess, ldr_Devices = map deviceOut as @ deviceOut dv # map deviceOut bs\<rparr>"
      using rep ab by simp
    show "list_all2 device_shown ds (map deviceOut as @ deviceOut dv # map deviceOut bs)"
      using deviceOut_shown by (auto simp: ab list_all2_conv_all_nth nth_append nth_Cons split: nat.splits)
    show "\<forall>other \<in> set (map deviceOut as @ map deviceOut bs). do_ID other \<noteq> rdr_DeviceID out"
    proof
      fix e' assume "e' \<in> set (map deviceOut as @ map deviceOut bs)"
      then obtain e where "e \<in> set (as @ bs)" "e' = deviceOut e" by auto
      with other [of e] show "do_ID e' \<noteq> rdr_DeviceID out" by (simp add: out deviceOut_def)
    qed
  qed (use shown dv ds out in \<open>auto simp: device_shown_def dev_pair_def\<close>)
qed

end

end
