(* ===== verification/Push.thy ===== *)
theory Push
  imports Send_Message
begin

text \<open>
  Push notifications (\<open>internal/firebase\<close>). The messaging client is a parameter: \<open>send\<close> delivers one
  message and answers with an error or none, and an error says whether the SDK classes it as an
  unregistered token or an invalid argument. The timeouts of the calls show as errors of \<open>send\<close> and of
  the store; \<open>errText\<close> is the text of a store error. \<open>logged\<close> records what a client was asked and what it answered.
\<close>

section \<open>Definitions\<close>

record fcm_error =
  fe_Unregistered :: bool
  fe_InvalidArgument :: bool

type_synonym keyvals = "(string \<times> string) list"

record FCMMessage =
  fm_Token :: string
  fm_NotificationTitle :: string
  fm_NotificationBody :: string
  fm_AndroidPriority :: string
  fm_AndroidData :: keyvals
  fm_APNSHeaders :: keyvals
  fm_MutableContent :: bool
  fm_AlertTitle :: string
  fm_AlertBody :: string
  fm_CustomData :: keyvals

type_synonym 'f fcm_client = "FCMMessage \<Rightarrow> 'f \<Rightarrow> fcm_error option \<times> 'f"

record SendFCMNotificationResult =
  sf_Success :: bool
  sf_Error :: string

definition notificationBody :: string where
  "notificationBody = ''Open the app to view it.''"

definition payloadData :: "FCMPayload \<Rightarrow> keyvals" where
  "payloadData payload = [(''messageId'', fp_MessageID payload), (''originator'', fp_Originator payload),
     (''recipient'', fp_Recipient payload), (''messageBox'', fp_MessageBox payload)]"

definition buildMessage :: "string \<Rightarrow> FCMPayload \<Rightarrow> FCMMessage" where
  "buildMessage tok payload = \<lparr>fm_Token = tok, fm_NotificationTitle = fp_Title payload, fm_NotificationBody = notificationBody,
     fm_AndroidPriority = ''high'', fm_AndroidData = payloadData payload,
     fm_APNSHeaders = [(''apns-push-type'', ''alert''), (''apns-priority'', ''10'')], fm_MutableContent = True,
     fm_AlertTitle = fp_Title payload, fm_AlertBody = notificationBody, fm_CustomData = payloadData payload\<rparr>"

definition isInvalidTokenError :: "fcm_error \<Rightarrow> bool" where
  "isInvalidTokenError e \<longleftrightarrow> fe_Unregistered e \<or> fe_InvalidArgument e"

text \<open>The client is made once; the SDK's two constructors are parameters.\<close>

record firebase_Config =
  fc_ProjectID :: string
  fc_ServiceAccountJSON :: string
  fc_ServiceAccountPath :: string

datatype fb_credentials = CredentialsJSON string | CredentialsFile string

record 'c firebase =
  fb_client :: "'c option"
  fb_once :: bool
  fb_errInit :: "string option"

definition initClient ::
  "(string \<Rightarrow> fb_credentials \<Rightarrow> string + 'a) \<Rightarrow> ('a \<Rightarrow> string + 'c) \<Rightarrow> firebase_Config \<Rightarrow> 'c firebase \<Rightarrow> 'c firebase" where
  "initClient newApp messaging cfg st =
     (let opt = (if fc_ServiceAccountJSON cfg \<noteq> [] then Some (CredentialsJSON (fc_ServiceAccountJSON cfg))
                 else if fc_ServiceAccountPath cfg \<noteq> [] then Some (CredentialsFile (fc_ServiceAccountPath cfg)) else None)
      in case opt of
           None \<Rightarrow> st\<lparr>fb_errInit := Some ''firebase: no credentials provided (need FIREBASE_SERVICE_ACCOUNT_JSON or FIREBASE_SERVICE_ACCOUNT_PATH)''\<rparr>
         | Some cred \<Rightarrow>
             (case newApp (fc_ProjectID cfg) cred of
                Inl err \<Rightarrow> st\<lparr>fb_errInit := Some err\<rparr>
              | Inr app \<Rightarrow>
                  (case messaging app of
                     Inl err \<Rightarrow> st\<lparr>fb_client := None, fb_errInit := Some (''firebase: failed to get messaging client: '' @ err)\<rparr>
                   | Inr c \<Rightarrow> st\<lparr>fb_client := Some c\<rparr>)))"

definition Initialize ::
  "(string \<Rightarrow> fb_credentials \<Rightarrow> string + 'a) \<Rightarrow> ('a \<Rightarrow> string + 'c) \<Rightarrow> firebase_Config \<Rightarrow> 'c firebase \<Rightarrow> string option \<times> 'c firebase" where
  "Initialize newApp messaging cfg st =
     (if fc_ProjectID cfg = [] then (None, st)
      else let st1 = (if fb_once st then st else initClient newApp messaging cfg (st\<lparr>fb_once := True\<rparr>))
           in (fb_errInit st1, st1))"

definition IsEnabled :: "'c firebase \<Rightarrow> bool" where
  "IsEnabled st \<longleftrightarrow> fb_client st \<noteq> None"

text \<open>A second call gives the same answer and makes nothing.\<close>

lemma Initialize_state:
  assumes "Initialize newApp messaging cfg st = (r, st')" and "fc_ProjectID cfg \<noteq> []"
  shows "fb_once st' \<and> r = fb_errInit st'"
proof -
  have "fb_once (initClient newApp messaging cfg (st\<lparr>fb_once := True\<rparr>))"
    by (simp add: initClient_def split: option.split sum.split)
  with assms show ?thesis by (auto simp: Initialize_def Let_def split: if_splits)
qed

lemma Initialize_again: "fb_once st \<Longrightarrow> fc_ProjectID cfg \<noteq> [] \<Longrightarrow> Initialize newApp messaging cfg st = (fb_errInit st, st)"
  by (simp add: Initialize_def)

lemma Initialize_once:
  assumes "Initialize newApp messaging cfg st = (r, st')"
  shows "Initialize newApp messaging cfg st' = (r, st')"
proof (cases "fc_ProjectID cfg = []")
  case True
  with assms show ?thesis by (simp add: Initialize_def)
next
  case False
  with Initialize_state [OF assms] Initialize_again show ?thesis by metis
qed

text \<open>One device, then the loop with its two counters.\<close>

definition pushDevice :: "'s Store \<Rightarrow> 'f fcm_client \<Rightarrow> FCMPayload \<Rightarrow> Device \<Rightarrow> 's \<times> 'f \<Rightarrow> bool \<times> 's \<times> 'f" where
  "pushDevice S send payload device st =
     (let (s, f) = st; (err, f1) = send (buildMessage (dv_FCMToken device) payload) f in
      case err of
        Some e \<Rightarrow>
          if isInvalidTokenError e then (False, snd (DeactivateDevice S (dv_FCMToken device) s), f1) else (False, s, f1)
      | None \<Rightarrow> (True, snd (UpdateDeviceLastUsed S (dv_FCMToken device) s), f1))"

fun pushLoop :: "'s Store \<Rightarrow> 'f fcm_client \<Rightarrow> FCMPayload \<Rightarrow> Device list \<Rightarrow> nat \<times> nat \<Rightarrow> 's \<times> 'f \<Rightarrow> (nat \<times> nat) \<times> 's \<times> 'f" where
  "pushLoop S send payload [] counts st = (counts, st)"
| "pushLoop S send payload (device # rest) (successCount, failureCount) st =
     (case pushDevice S send payload device st of
        (True, st1) \<Rightarrow> pushLoop S send payload rest (successCount + 1, failureCount) st1
      | (False, st1) \<Rightarrow> pushLoop S send payload rest (successCount, failureCount + 1) st1)"

definition SendFCMNotification ::
  "(store_error \<Rightarrow> string) \<Rightarrow> bool \<Rightarrow> 's Store \<Rightarrow> 'f fcm_client \<Rightarrow> string \<Rightarrow> FCMPayload \<Rightarrow> 's \<times> 'f \<Rightarrow> SendFCMNotificationResult \<times> 's \<times> 'f" where
  "SendFCMNotification errText enabled S send recipient payload st =
     (if \<not> enabled then (\<lparr>sf_Success = False, sf_Error = ''FCM not configured''\<rparr>, st)
      else case ListActiveDevices S recipient (fst st) of
        (Inl e, s1) \<Rightarrow> (\<lparr>sf_Success = False, sf_Error = ''failed to get devices: '' @ errText e\<rparr>, s1, snd st)
      | (Inr deviceList, s1) \<Rightarrow>
          if deviceList = [] then
            (\<lparr>sf_Success = False, sf_Error = ''No registered devices found for recipient''\<rparr>, s1, snd st)
          else
            (let ((successCount, failureCount), st2) = pushLoop S send payload deviceList (0, 0) (s1, snd st) in
             if successCount = 0 then
               (\<lparr>sf_Success = False,
                  sf_Error = ''failed to send to all '' @ itoa (int (length deviceList)) @ '' registered devices''\<rparr>, st2)
             else (\<lparr>sf_Success = True, sf_Error = []\<rparr>, st2)))"

definition logged :: "'f fcm_client \<Rightarrow> ((FCMMessage \<times> fcm_error option) list \<times> 'f) fcm_client" where
  "logged send m st = (case send m (snd st) of (r, f) \<Rightarrow> (r, fst st @ [(m, r)], f))"

section \<open>Behaviour over the contract\<close>

text \<open>What an answer of the client does to a registration of the token it was about, and what the answers of
  one notification do to any registration: nothing where its token was not asked about.\<close>

definition answered :: "time \<Rightarrow> fcm_error option \<Rightarrow> Device \<Rightarrow> Device" where
  "answered now r dv =
     (case r of
        None \<Rightarrow> dv\<lparr>dv_LastUsed := Some now, dv_UpdatedAt := now\<rparr>
      | Some e \<Rightarrow> if fe_Unregistered e \<or> fe_InvalidArgument e then dv\<lparr>dv_Active := False, dv_UpdatedAt := now\<rparr> else dv)"

definition pushed :: "time \<Rightarrow> (FCMMessage \<times> fcm_error option) list \<Rightarrow> Device \<Rightarrow> Device" where
  "pushed now rs dv =
     (case map_of (map (\<lambda>(m, r). (fm_Token m, r)) rs) (dv_FCMToken dv) of None \<Rightarrow> dv | Some r \<Rightarrow> answered now r dv)"

definition accepted :: "(FCMMessage \<times> fcm_error option) list \<Rightarrow> nat" where
  "accepted rs = length (filter (\<lambda>(m, r). r = None) rs)"

lemma answered_token [simp]: "dv_FCMToken (answered now r dv) = dv_FCMToken dv"
  by (simp add: answered_def split: option.splits)

lemma token_set_id: "token_set tok (\<lambda>dv. dv) A = A"
  by (simp add: token_set_def)

lemma pushed_Nil: "A\<lparr>a_devs := pushed now [] ` a_devs A\<rparr> = A"
  by (simp add: pushed_def)

lemma pushed_Cons:
  assumes "fm_Token m \<notin> (\<lambda>x. fm_Token (fst x)) ` set rs"
  shows "(token_set (fm_Token m) (answered now r) A)\<lparr>a_devs := pushed now rs ` a_devs (token_set (fm_Token m) (answered now r) A)\<rparr> =
    A\<lparr>a_devs := pushed now ((m, r) # rs) ` a_devs A\<rparr>"
proof -
  have none: "map_of (map (\<lambda>(m, r). (fm_Token m, r)) rs) (fm_Token m) = None"
    using assms by (auto simp: map_of_eq_None_iff image_iff split_beta)
  have "pushed now rs (if dv_FCMToken dv = fm_Token m then answered now r dv else dv) = pushed now ((m, r) # rs) dv" for dv
    by (auto simp: pushed_def none)
  then have "pushed now rs ` (\<lambda>dv. if dv_FCMToken dv = fm_Token m then answered now r dv else dv) ` a_devs A =
      pushed now ((m, r) # rs) ` a_devs A"
    unfolding image_image by (rule image_cong [OF refl])
  then show ?thesis unfolding token_set_def by (simp del: if_image_distrib)
qed

context stamped_store
begin

lemma pushDevice_ok:
  assumes inv: "invar s" and up: "up s" and eq: "pushDevice S (logged send) payload device (s, lg, f) = (ok, s', lg', f')"
  shows "\<exists>r. lg' = lg @ [(buildMessage (dv_FCMToken device) payload, r)] \<and> (ok \<longleftrightarrow> r = None) \<and> invar s' \<and> up s' \<and> now s' = now s \<and>
    view s' = token_set (dv_FCMToken device) (answered (now s) r) (view s)"
proof -
  let ?m = "buildMessage (dv_FCMToken device) payload" and ?tok = "dv_FCMToken device"
  obtain r f1 where r: "send ?m f = (r, f1)" by fastforce
  show ?thesis
  proof (cases r)
    case None
    obtain x s1 where x: "UpdateDeviceLastUsed S ?tok s = (x, s1)" by fastforce
    note w = writesD [OF stamp_writes [OF inv] x]
    have "view s1 = token_set ?tok (answered (now s) r) (view s)"
      using w(3) [OF up] w(4) None by (auto simp: answered_def [abs_def])
    moreover have "now s1 = now s" using stamp_now [of ?tok s] x by simp
    ultimately show ?thesis using None r x w(1,2) up eq by (auto simp: pushDevice_def logged_def)
  next
    case (Some e)
    obtain x s1 where x: "DeactivateDevice S ?tok s = (x, s1)" by fastforce
    note w = writesD [OF drop_writes [OF inv] x]
    show ?thesis
    proof (cases "fe_Unregistered e \<or> fe_InvalidArgument e")
      case True
      then have "view s1 = token_set ?tok (answered (now s) r) (view s)"
        using w(3) [OF up] w(4) Some by (auto simp: answered_def [abs_def])
      moreover have "now s1 = now s" using drop_now [of ?tok s] x by simp
      ultimately show ?thesis using True Some r x w(1,2) up eq by (auto simp: pushDevice_def logged_def isInvalidTokenError_def)
    next
      case False
      then have "answered (now s) r = (\<lambda>dv. dv)" using Some by (simp add: answered_def [abs_def])
      with False Some r inv up eq show ?thesis by (auto simp: pushDevice_def logged_def isInvalidTokenError_def token_set_id)
    qed
  qed
qed

lemma pushLoop_ok:
  assumes "invar s" and "up s" and "distinct (map dv_FCMToken ds)"
    and "pushLoop S (logged send) payload ds (n, k) (s, lg, f) = ((n', k'), s', lg', f')"
  shows "\<exists>rs. lg' = lg @ rs \<and> map fst rs = map (\<lambda>d. buildMessage (dv_FCMToken d) payload) ds \<and>
    n' = n + accepted rs \<and> invar s' \<and> view s' = (view s)\<lparr>a_devs := pushed (now s) rs ` a_devs (view s)\<rparr>"
  using assms
proof (induction ds arbitrary: n k s lg f)
  case Nil
  then show ?case by (auto simp: accepted_def pushed_Nil)
next
  case (Cons d ds)
  let ?m = "buildMessage (dv_FCMToken d) payload"
  obtain ok s1 log1 f1 where p: "pushDevice S (logged send) payload d (s, lg, f) = (ok, s1, log1, f1)"
    by (metis prod.collapse)
  from pushDevice_ok [OF Cons.prems(1,2) p] obtain r where r: "log1 = lg @ [(?m, r)]"
      "ok \<longleftrightarrow> r = None" "invar s1" "up s1" "now s1 = now s"
      "view s1 = token_set (dv_FCMToken d) (answered (now s) r) (view s)" by blast
  define n1 k1 where "n1 = (if ok then n + 1 else n)" and "k1 = (if ok then k else k + 1)"
  have l: "pushLoop S (logged send) payload ds (n1, k1) (s1, log1, f1) = ((n', k'), s', lg', f')"
    using Cons.prems(4) p by (cases ok) (simp_all add: n1_def k1_def)
  have "distinct (map dv_FCMToken ds)" using Cons.prems(3) by simp
  from Cons.IH [OF r(3,4) this l] obtain rs where rs: "lg' = log1 @ rs" "map fst rs = map (\<lambda>d. buildMessage (dv_FCMToken d) payload) ds"
      "n' = n1 + accepted rs" "invar s'" "view s' = (view s1)\<lparr>a_devs := pushed (now s1) rs ` a_devs (view s1)\<rparr>" by blast
  have tok: "fm_Token (buildMessage t payload) = t" for t by (simp add: buildMessage_def)
  have "map (\<lambda>x. fm_Token (fst x)) rs = map dv_FCMToken ds" using arg_cong [OF rs(2), of "map fm_Token"] by (simp add: tok comp_def)
  then have "fm_Token ?m \<notin> (\<lambda>x. fm_Token (fst x)) ` set rs" using Cons.prems(3) by (metis distinct.simps(2) list.simps(9) set_map tok)
  from pushed_Cons [OF this, of "now s" r "view s"] have "view s' = (view s)\<lparr>a_devs := pushed (now s) ((?m, r) # rs) ` a_devs (view s)\<rparr>"
    using rs(5) r(5,6) by (simp add: tok)
  moreover have "accepted ((?m, r) # rs) = (if ok then 1 else 0) + accepted rs" using r(2) by (simp add: accepted_def)
  ultimately show ?case using r rs by (intro exI [of _ "(?m, r) # rs"]) (auto simp: n1_def)
qed

text \<open>A notification asks the client once per active device of the recipient, succeeds when one of
  them accepted, and leaves every registration as the answers say.\<close>

lemma SendFCM_ok:
  assumes inv: "invar s" and up: "up s" and eq: "SendFCMNotification errText True S (logged send) recipient payload (s, [], f) = (res, s', rs, f')"
  shows "\<exists>ds. set ds = {dv \<in> a_devs (view s). dv_IdentityKey dv = recipient \<and> dv_Active dv} \<and> distinct ds \<and>
    map fst rs = map (\<lambda>d. buildMessage (dv_FCMToken d) payload) ds \<and> (sf_Success res \<longleftrightarrow> 0 < accepted rs) \<and>
    invar s' \<and> view s' = (view s)\<lparr>a_devs := pushed (now s) rs ` a_devs (view s)\<rparr>"
proof -
  obtain x s1 where x: "ListActiveDevices S recipient s = (x, s1)" by fastforce
  note r = readsD [OF active_reads [OF inv] x]
  have nw: "now s1 = now s" using active_now [of recipient s] x by simp
  obtain ds where ds: "x = Inr ds" "set ds = {dv \<in> a_devs (view s). dv_IdentityKey dv = recipient \<and> dv_Active dv}" "distinct ds"
    using r(4) [OF up] r(5) by auto
  have "inj_on dv_FCMToken (set ds)"
    using devs_unique [OF inv] by (auto simp: ds(2) inj_on_def dev_pair_def)
  then have toks: "distinct (map dv_FCMToken ds)" using ds(3) by (simp add: distinct_map)
  show ?thesis
  proof (cases "ds = []")
    case True
    with eq x ds r(1,2) show ?thesis by (intro exI [of _ "[]"]) (auto simp: SendFCMNotification_def pushed_Nil accepted_def)
  next
    case False
    obtain n k s2 log2 f2 where l: "pushLoop S (logged send) payload ds (0, 0) (s1, [], f) = ((n, k), s2, log2, f2)"
      by (metis prod.collapse)
    from pushLoop_ok [OF r(1) r(3) [OF up] toks l] obtain rs2 where p: "log2 = rs2" "map fst rs2 = map (\<lambda>d. buildMessage (dv_FCMToken d) payload) ds"
        "n = accepted rs2" "invar s2" "view s2 = (view s1)\<lparr>a_devs := pushed (now s1) rs2 ` a_devs (view s1)\<rparr>" by auto
    have "res = (if n = 0 then \<lparr>sf_Success = False, sf_Error = ''failed to send to all '' @ itoa (int (length ds)) @ '' registered devices''\<rparr>
        else \<lparr>sf_Success = True, sf_Error = []\<rparr>) \<and> s' = s2 \<and> rs = log2"
      using eq x ds(1) False l by (auto simp: SendFCMNotification_def split: if_splits)
    with p r(2) ds nw show ?thesis by (intro exI [of _ ds]) auto
  qed
qed

end

end
