(* ===== verification/Rate_Limiter.thy ===== *)
theory Rate_Limiter
  imports Http
begin

text \<open>
  The per-client limiter of the unauthenticated routes (\<open>pkg/handlers/ratelimit.go\<close>).
  \<open>canonIP\<close> is \<open>net.ParseIP\<close> followed by \<open>IP.String\<close>: the canonical text of an address, or none.
  A request gives the values of each header and the peer address.
\<close>

section \<open>Definitions\<close>

record RateLimiter =
  rl_perMinute :: int
  rl_trustProxy :: bool
  rl_hops :: int
  rl_clientIPHeader :: string
  rl_window :: int
  rl_counts :: "(string \<times> int) list"

record http_request =
  hq_headers :: "string \<Rightarrow> string list"
  hq_RemoteAddr :: string

definition NewRateLimiter :: "int \<Rightarrow> bool \<Rightarrow> int \<Rightarrow> string \<Rightarrow> RateLimiter" where
  "NewRateLimiter perMinute trustProxy hops clientIPHeader =
     \<lparr>rl_perMinute = perMinute, rl_trustProxy = trustProxy, rl_hops = (if hops < 1 then 1 else hops),
      rl_clientIPHeader = clientIPHeader, rl_window = 0, rl_counts = []\<rparr>"

text \<open>\<open>net.SplitHostPort\<close>: the host in front of the last colon, without brackets.\<close>

definition indexOf :: "char \<Rightarrow> string \<Rightarrow> nat option" where
  "indexOf c s = (if c \<in> set s then Some (length (takeWhile (\<lambda>d. d \<noteq> c) s)) else None)"

definition lastIndexOf :: "char \<Rightarrow> string \<Rightarrow> nat option" where
  "lastIndexOf c s = map_option (\<lambda>i. length s - 1 - i) (indexOf c (rev s))"

definition splitHost :: "string \<Rightarrow> string option" where
  "splitHost hp =
     (case lastIndexOf (CHR '':'') hp of
        None \<Rightarrow> None
      | Some i \<Rightarrow>
          if hd hp = CHR ''['' then
            (case indexOf (CHR '']'') hp of
               None \<Rightarrow> None
             | Some e \<Rightarrow>
                 if e + 1 \<noteq> i then None
                 else if CHR ''['' \<in> set (drop 1 hp) \<or> CHR '']'' \<in> set (drop (e + 1) hp) then None
                 else Some (take (e - 1) (drop 1 hp)))
          else if CHR '':'' \<in> set (take i hp) then None
          else if CHR ''['' \<in> set hp \<or> CHR '']'' \<in> set hp then None
          else Some (take i hp))"

definition clientIP :: "(string \<Rightarrow> string option) \<Rightarrow> RateLimiter \<Rightarrow> http_request \<Rightarrow> string" where
  "clientIP canonIP l r =
     (let fromHeader =
            (if rl_clientIPHeader l \<noteq> [] then
               (case hq_headers r (rl_clientIPHeader l) of [v] \<Rightarrow> canonIP (trimSpace v) | _ \<Rightarrow> None)
             else None);
          fromProxy =
            (if rl_trustProxy l then
               (let fwd = (case hq_headers r ''X-Forwarded-For'' of [] \<Rightarrow> [] | v # _ \<Rightarrow> v);
                    parts = splitOn (CHR '','') fwd
                in if int (length parts) \<ge> rl_hops l
                   then canonIP (trimSpace (parts ! nat (int (length parts) - rl_hops l))) else None)
             else None)
      in case fromHeader of
           Some ip \<Rightarrow> ip
         | None \<Rightarrow>
             (case fromProxy of
                Some ip \<Rightarrow> ip
              | None \<Rightarrow> (case splitHost (hq_RemoteAddr r) of None \<Rightarrow> hq_RemoteAddr r | Some host \<Rightarrow> host)))"

text \<open>\<open>now().Unix() / 60\<close>: seconds rounded down, minutes rounded towards zero.\<close>

definition unixMinute :: "time \<Rightarrow> int" where
  "unixMinute now = (let sec = now div (1000 * msec) in if 0 \<le> sec then sec div 60 else - ((- sec) div 60))"

definition countOf :: "(string \<times> int) list \<Rightarrow> string \<Rightarrow> int" where
  "countOf counts ip = (case map_of counts ip of None \<Rightarrow> 0 | Some n \<Rightarrow> n)"

definition allow :: "time \<Rightarrow> string \<Rightarrow> RateLimiter \<Rightarrow> bool \<times> RateLimiter" where
  "allow now ip l =
     (let w = unixMinute now;
          l1 = (if w \<noteq> rl_window l then l\<lparr>rl_window := w, rl_counts := []\<rparr> else l);
          n = countOf (rl_counts l1) ip + 1;
          l2 = l1\<lparr>rl_counts := (ip, n) # rl_counts l1\<rparr>
      in (n \<le> rl_perMinute l2, l2))"

text \<open>\<open>Wrap\<close>: the error it answers with, or none when the next handler is to serve the request.\<close>

definition Wrap ::
  "(string \<Rightarrow> string option) \<Rightarrow> time \<Rightarrow> http_request \<Rightarrow> RateLimiter \<Rightarrow> 'b response option \<times> RateLimiter" where
  "Wrap canonIP now r l =
     (if rl_perMinute l \<le> 0 then (None, l)
      else case allow now (clientIP canonIP l r) l of
        (True, l1) \<Rightarrow> (None, l1)
      | (False, l1) \<Rightarrow> (Some (writeError 429 ''ERR_RATE_LIMITED'' ''Too many requests; retry in a minute.''), l1))"

section \<open>The limit\<close>

text \<open>A run of requests: which of them reached the next handler.\<close>

fun serve :: "(string \<Rightarrow> string option) \<Rightarrow> (time \<times> http_request) list \<Rightarrow> RateLimiter \<Rightarrow> bool list \<times> RateLimiter" where
  "serve canonIP [] l = ([], l)"
| "serve canonIP ((now, r) # rest) l =
     (case (Wrap canonIP now r l :: unit response option \<times> RateLimiter) of
        (e, l1) \<Rightarrow> (case serve canonIP rest l1 of (bs, l2) \<Rightarrow> ((e = None) # bs, l2)))"

definition inWindow :: "(string \<Rightarrow> string option) \<Rightarrow> RateLimiter \<Rightarrow> int \<Rightarrow> string \<Rightarrow> time \<times> http_request \<Rightarrow> bool" where
  "inWindow canonIP l w ip q \<longleftrightarrow> unixMinute (fst q) = w \<and> clientIP canonIP l (snd q) = ip"

text \<open>How many of the requests of one client in one minute were served, and how many arrived.\<close>

definition served :: "(string \<Rightarrow> string option) \<Rightarrow> RateLimiter \<Rightarrow> int \<Rightarrow> string \<Rightarrow> (time \<times> http_request) list \<Rightarrow> int" where
  "served canonIP l w ip qs =
     int (length (filter (\<lambda>(q, b). b \<and> inWindow canonIP l w ip q) (zip qs (fst (serve canonIP qs l)))))"

definition arrived :: "(string \<Rightarrow> string option) \<Rightarrow> RateLimiter \<Rightarrow> int \<Rightarrow> string \<Rightarrow> (time \<times> http_request) list \<Rightarrow> int" where
  "arrived canonIP l w ip qs = int (length (filter (inWindow canonIP l w ip) qs))"

text \<open>What the limiter has counted for a client in a minute.\<close>

definition counted :: "RateLimiter \<Rightarrow> int \<Rightarrow> string \<Rightarrow> int" where
  "counted l w ip = (if w = rl_window l then countOf (rl_counts l) ip else 0)"

lemma unixMinute_mono:
  assumes "s \<le> t"
  shows "unixMinute s \<le> unixMinute t"
proof -
  let ?a = "s div (1000 * msec)" and ?b = "t div (1000 * msec)"
  have d: "?a \<le> ?b" using assms by (simp add: msec_def zdiv_mono1)
  consider "0 \<le> ?a" "0 \<le> ?b" | "?a < 0" "0 \<le> ?b" | "?a < 0" "?b < 0" using d by linarith
  then show ?thesis
  proof cases
    case 1
    with d show ?thesis by (simp add: unixMinute_def Let_def zdiv_mono1)
  next
    case 2
    then have "0 \<le> (- ?a) div 60" "0 \<le> ?b div 60" by (simp_all add: pos_imp_zdiv_nonneg_iff)
    with 2 show ?thesis by (simp add: unixMinute_def Let_def)
  next
    case 3
    have "(- ?b) div 60 \<le> (- ?a) div 60" using d by (intro zdiv_mono1) auto
    with 3 show ?thesis by (simp add: unixMinute_def Let_def)
  qed
qed

lemma allow_counted:
  assumes "allow now ip l = (b, l')"
  shows "b \<longleftrightarrow> counted l (unixMinute now) ip < rl_perMinute l" and "rl_window l' = unixMinute now"
    and "counted l' w ip' = (if w = unixMinute now then counted l w ip' + (if ip' = ip then 1 else 0) else 0)"
    and "rl_perMinute l' = rl_perMinute l" and "clientIP c l' = clientIP c l"
proof -
  have l': "l' = l\<lparr>rl_window := unixMinute now, rl_counts := (ip, counted l (unixMinute now) ip + 1) #
      (if unixMinute now \<noteq> rl_window l then [] else rl_counts l)\<rparr>"
    and b: "b \<longleftrightarrow> counted l (unixMinute now) ip + 1 \<le> rl_perMinute l"
    using assms by (auto simp: allow_def Let_def counted_def countOf_def)
  show "b \<longleftrightarrow> counted l (unixMinute now) ip < rl_perMinute l" using b by auto
  show "rl_window l' = unixMinute now" "rl_perMinute l' = rl_perMinute l" by (simp_all add: l')
  show "counted l' w ip' = (if w = unixMinute now then counted l w ip' + (if ip' = ip then 1 else 0) else 0)"
    by (simp add: l' counted_def countOf_def)
  have "rl_clientIPHeader l' = rl_clientIPHeader l" "rl_trustProxy l' = rl_trustProxy l" "rl_hops l' = rl_hops l" by (simp_all add: l')
  then show "clientIP c l' = clientIP c l" by (simp only: clientIP_def fun_eq_iff simp_thms)
qed

lemma serve_bound:
  assumes "0 < rl_perMinute l" and "sorted (map fst qs)" and "\<forall>q \<in> set qs. rl_window l \<le> unixMinute (fst q)"
    and "\<And>ip. 0 \<le> counted l w ip" and "rl_window l \<le> w"
  shows "served canonIP l w ip qs = min (arrived canonIP l w ip qs) (max 0 (rl_perMinute l - counted l w ip))"
  using assms
proof (induction qs arbitrary: l)
  case Nil
  then show ?case by (simp add: served_def arrived_def)
next
  case (Cons q qs)
  obtain now r where q: "q = (now, r)" by fastforce
  let ?u = "clientIP canonIP l r"
  obtain b l1 where a: "allow now ?u l = (b, l1)" by fastforce
  note c = allow_counted [OF a]
  have w: "Wrap canonIP now r l = ((if b then None else Some (writeError 429 ''ERR_RATE_LIMITED'' ''Too many requests; retry in a minute.'') :: unit response option), l1)"
    using Cons.prems(1) a by (simp add: Wrap_def)
  have iw: "inWindow canonIP l1 = inWindow canonIP l" using c(5) by (simp add: inWindow_def fun_eq_iff)
  have sv: "served canonIP l w ip (q # qs) = (if b \<and> inWindow canonIP l w ip q then 1 else 0) + served canonIP l1 w ip qs"
    by (cases "serve canonIP qs l1") (simp add: served_def q w iw)
  have ar: "arrived canonIP l w ip (q # qs) = (if inWindow canonIP l w ip q then 1 else 0) + arrived canonIP l1 w ip qs"
    by (simp add: arrived_def iw)
  show ?case
  proof (cases "unixMinute now \<le> w")
    case True
    have "served canonIP l1 w ip qs = min (arrived canonIP l1 w ip qs) (max 0 (rl_perMinute l1 - counted l1 w ip))"
    proof (rule Cons.IH)
      show "sorted (map fst qs)" using Cons.prems(2) by simp
      show "\<forall>q \<in> set qs. rl_window l1 \<le> unixMinute (fst q)" using Cons.prems(2) c(2) q by (auto intro: unixMinute_mono)
      show "0 \<le> counted l1 w i" for i using c(3) [of w i] Cons.prems(4) [of i] by (auto split: if_splits)
    qed (use Cons.prems(1) c True in auto)
    moreover have "0 \<le> arrived canonIP l1 w ip qs" by (simp add: arrived_def)
    moreover have "0 \<le> counted l w ip" using Cons.prems(4) .
    moreover have "counted l w ip = 0" if "unixMinute now \<noteq> w" using that True Cons.prems(3) q by (auto simp: counted_def)
    ultimately show ?thesis unfolding sv ar using c(1,4) c(3) [of w ip] by (auto simp: inWindow_def q)
  next
    case False
    then have none: "\<forall>q' \<in> set (q # qs). unixMinute (fst q') \<noteq> w"
      using Cons.prems(2) unixMinute_mono q by fastforce
    then have "arrived canonIP l w ip (q # qs) = 0" by (auto simp: arrived_def inWindow_def filter_empty_conv)
    moreover have "served canonIP l w ip (q # qs) = 0" using none
      by (auto simp: served_def inWindow_def filter_empty_conv dest!: set_zip_leftD)
    ultimately show ?thesis using Cons.prems by simp
  qed
qed

end
