(* ===== verification/Samples.thy ===== *)
theory Samples
  imports Delivery Schema Devices Push Rate_Limiter
begin

text \<open>
  Concrete databases, requests and parameters on which the stated properties are evaluated: an empty
  SQL database, one where a recipient blocks an inbox, one with three messages, the same mailbox in
  MongoDB, databases of the previous release, a public-key test and a wallet.
\<close>

section \<open>SQL\<close>

definition empty_sql :: sql_db where
  "empty_sql = \<lparr>t_messageBox = [], seq_messageBox = 0, t_messages = [], t_permissions = [], seq_permissions = 0,
     t_fees = DefaultDeliveryFees, t_devices = [], seq_devices = 0, burns_ids = False, devices_table = True,
     legacy_token_key = False, pair_index = True, t_staging = None\<rparr>"

definition on_sql :: "sql_db \<Rightarrow> sql" where
  "on_sql d = \<lparr>conn_data = d, conn_faults = [], conn_clock = 1000000000\<rparr>"

definition blocking_sql :: sql_db where
  "blocking_sql = empty_sql\<lparr>t_permissions := [(1, new_permission ''alice'' None ''inbox'' FeeBlocked 5)], seq_permissions := 1\<rparr>"

definition inbox_sql :: sql_db where
  "inbox_sql = empty_sql\<lparr>t_messageBox := [\<lparr>mb_Id = 1, mb_Type = ''inbox'', mb_IdentityKey = ''alice'', mb_CreatedAt = 1, mb_UpdatedAt = 1\<rparr>],
     seq_messageBox := 1,
     t_messages := map (\<lambda>i. \<lparr>mr_MessageId = i, mr_BoxId = 1, mr_Sender = ''bob'', mr_Recipient = ''alice'',
       mr_Body = ''{}'', mr_CreatedAt = 7000000, mr_UpdatedAt = 7000000\<rparr>) [''m2'', ''m1'', ''m3'']\<rparr>"

text \<open>A SQLite database of the previous release: one registration per token.\<close>

definition old_sql :: sql_db where
  "old_sql = empty_sql\<lparr>t_fees := [(''inbox'', 3)], t_devices := [\<lparr>dv_ID = 4, dv_IdentityKey = ''alice'', dv_FCMToken = ''t1'', dv_DeviceID = None,
     dv_Platform = None, dv_Active = True, dv_CreatedAt = 1, dv_UpdatedAt = 1, dv_LastUsed = None\<rparr>],
     seq_devices := 9, legacy_token_key := True, pair_index := False\<rparr>"

text \<open>The same database on a connection that is lost after the old device table is dropped.\<close>

definition interrupted_sql :: sql where
  "interrupted_sql = (on_sql old_sql)\<lparr>conn_faults := replicate 6 NoFault @ [FailBefore]\<rparr>"

section \<open>MongoDB\<close>

definition empty_mongo :: mongo_db where
  "empty_mongo = \<lparr>c_messages = [], c_permissions = [], c_fees = DefaultDeliveryFees, c_devices = [],
     c_counters = Map.empty, next_oid = 0, pair_unique = True, perm_unique = True\<rparr>"

definition on_mongo :: "mongo_db \<Rightarrow> mongo" where
  "on_mongo d = \<lparr>conn_data = d, conn_faults = [], conn_clock = 1000000000\<rparr>"

definition inbox_mongo :: mongo_db where
  "inbox_mongo = empty_mongo\<lparr>c_messages :=
     map (\<lambda>i. \<lparr>md_MessageID = i, md_Recipient = ''alice'', md_MessageBox = ''inbox'', md_Sender = ''bob'',
       md_Body = ''{}'', md_CreatedAt = 7000000, md_UpdatedAt = 7000000\<rparr>) [''m1'', ''m2'', ''m3'']\<rparr>"

text \<open>Documents of the previous release, keyed by the token, one of them registered again since.\<close>

definition old_doc :: "string \<Rightarrow> string \<Rightarrow> deviceDoc" where
  "old_doc k tok = \<lparr>dd_DocID = StringKey tok, dd_FCMToken = None, dd_IdentityKey = k, dd_DeviceID = None,
     dd_Platform = None, dd_Active = True, dd_CreatedAt = 1, dd_UpdatedAt = 1, dd_LastUsed = None, dd_ID = None\<rparr>"

definition old_mongo :: mongo_db where
  "old_mongo = empty_mongo\<lparr>c_devices := [old_doc ''alice'' ''t1'',
     (old_doc ''alice'' ''t1'')\<lparr>dd_DocID := ObjectID 0, dd_FCMToken := Some ''t1'', dd_ID := Some 1\<rparr>, old_doc ''bob'' ''t2''],
     c_counters := [devicesColl \<mapsto> 1], next_oid := 1\<rparr>"

definition mongo_colls :: "string list" where
  "mongo_colls = [''messages'', ''message_permissions'', ''device_registrations'', ''handles'', ''subscriptions'']"

section \<open>Requests\<close>

definition any_key :: "string \<Rightarrow> bool" where
  "any_key k \<longleftrightarrow> k \<noteq> []"

definition accepting :: "nat internalizer" where
  "accepting args originator n = (Inr True, n + 1)"

definition quoted :: "string \<Rightarrow> string" where
  "quoted s = CHR 0x22 # s @ [CHR 0x22]"

definition send_req :: SendMessageRequest where
  "send_req = \<lparr>sr_Message = Some \<lparr>sm_Recipient = quoted ''alice'', sm_Recipients = [], sm_MessageBox = ''inbox'',
     sm_MessageID = quoted ''m9'', sm_Body = quoted ''hi''\<rparr>, sr_Payment = None\<rparr>"

definition sql_world :: "sql_db \<Rightarrow> (sql, nat) world" where
  "sql_world d = \<lparr>w_db = on_sql d, w_wallet = 0, w_pushes = []\<rparr>"

definition mongo_world :: "mongo_db \<Rightarrow> (mongo, nat) world" where
  "mongo_world d = \<lparr>w_db = on_mongo d, w_wallet = 0, w_pushes = []\<rparr>"

definition block_req :: SetPermissionRequest where
  "block_req = \<lparr>spr_Sender = Some ''bob'', spr_MessageBox = ''inbox'', spr_RecipientFee = Some FeeBlocked\<rparr>"

definition list_req :: ListMessagesRequest where
  "list_req = \<lparr>lr_MessageBox = quoted ''inbox'', lr_Limit = ''2'', lr_Offset = ''1'', lr_Skip = [], lr_MessageID = []\<rparr>"

definition fee_output :: "nat \<Rightarrow> string \<Rightarrow> PaymentOutput" where
  "fee_output i k = \<lparr>po_OutputIndex = of_nat i, po_Protocol = ''basket insertion'', po_PaymentRemittance = None,
     po_InsertionRemittance = Some \<lparr>ir_Basket = ''b'', ir_CustomInstructions =
       (if k = [] then [] else ''{'' @ quoted ''recipientIdentityKey'' @ '':'' @ quoted k @ ''}''), ir_Tags = []\<rparr>\<rparr>"

definition sent_sql :: "(sql, nat) world" where
  "sent_sql = snd (sendMessage (SqlStore ''sqlite3'') any_key accepting ''bob'' (Decoded send_req) (sql_world inbox_sql))"

definition sent_mongo :: "(mongo, nat) world" where
  "sent_mongo = snd (sendMessage (MongoStore mongo_colls) any_key accepting ''bob'' (Decoded send_req) (mongo_world inbox_mongo))"

definition sql_page :: ListMessagesResponse where
  "sql_page = projr (projr (fst (readMessagePage (SqlStore ''sqlite3'') ''alice'' ''inbox'' \<lparr>lp_Limit = 2, lp_Offset = 0\<rparr> None 2000 (on_sql inbox_sql))))"

definition two_recipients :: "string \<Rightarrow> string list" where
  "two_recipients k = (if k = ''messageBox'' then [''notifications''] else if k = ''recipient'' then [''alice'', ''carol''] else [])"

definition dup_msg :: NewMessage where
  "dup_msg = \<lparr>nm_MessageID = ''m1'', nm_Recipient = ''carol'', nm_MessageBox = ''inbox'', nm_Sender = ''bob'', nm_Body = ''{}''\<rparr>"

definition phone :: "string \<Rightarrow> string \<Rightarrow> NewDevice" where
  "phone k tok = \<lparr>nd_IdentityKey = k, nd_FCMToken = tok, nd_DeviceID = None, nd_Platform = Some ''ios''\<rparr>"

definition register_req :: RegisterDeviceRequest where
  "register_req = \<lparr>rd_FCMToken = ''token-of-the-phone'', rd_DeviceID = None, rd_Platform = Some ''ios''\<rparr>"

definition push_payload :: FCMPayload where
  "push_payload = \<lparr>fp_Title = ''New message'', fp_MessageID = ''m9'', fp_Originator = [], fp_Recipient = ''alice'', fp_MessageBox = ''inbox''\<rparr>"

definition phone_sql :: sql_db where
  "phone_sql = old_sql\<lparr>legacy_token_key := False, pair_index := True\<rparr>"

text \<open>An FCM that rejects every token as unregistered.\<close>

definition rejecting :: "nat fcm_client" where
  "rejecting m n = (Some \<lparr>fe_Unregistered = True, fe_InvalidArgument = False\<rparr>, n + 1)"

definition from_addr :: "string \<Rightarrow> http_request" where
  "from_addr a = \<lparr>hq_headers = (\<lambda>_. []), hq_RemoteAddr = a\<rparr>"

lemma sample_sql: "sql_ok empty_sql" "sql_ok blocking_sql" "sql_ok inbox_sql"
  by code_simp+

lemma sample_mongo: "mongo_ok empty_mongo" "mongo_ok inbox_mongo"
  by code_simp+

lemma sample_healthy: "healthy (on_sql d)" "healthy (on_mongo e)" "conn_data (on_sql d) = d" "conn_data (on_mongo e) = e"
  by (simp_all add: healthy_def on_sql_def on_mongo_def)

lemma sample_send: "validateSend any_key send_req = Inr (the (sr_Message send_req), [''alice''], [''m9''], ''inbox'')"
  by code_simp

lemma sample_world: "w_db (sql_world d) = on_sql d" "w_db (mongo_world e) = on_mongo e"
  by (simp_all add: sql_world_def mongo_world_def)

lemmas samples = sample_sql sample_mongo sample_healthy sample_world

lemma sent_sql_reply: "\<exists>txt. sendMessage (SqlStore ''sqlite3'') any_key accepting ''bob'' (Decoded send_req) (sql_world inbox_sql) =
    (JsonReply 200 (SendMessageResponse txt [\<lparr>res_Recipient = ''alice'', res_MessageID = ''m9''\<rparr>]), sent_sql)"
proof -
  have "fst (sendMessage (SqlStore ''sqlite3'') any_key accepting ''bob'' (Decoded send_req) (sql_world inbox_sql)) =
      JsonReply 200 (SendMessageResponse ''Your message has been sent to 1 recipient(s).'' [\<lparr>res_Recipient = ''alice'', res_MessageID = ''m9''\<rparr>])"
    by code_simp
  then show ?thesis unfolding sent_sql_def by (metis prod.collapse)
qed

end
