(* ===== verification/Handle_Words.thy ===== *)
theory Handle_Words
  imports Go_Strings
begin

text \<open>The word lists of generated handles (\<open>pkg/handles/words.go\<close>).\<close>

definition adjectives :: "string list" where
  "adjectives = [
    ''able'', ''absent'', ''absolute'', ''abstract'', ''abundant'', ''academic'', ''acceptable'', ''accepted'',
    ''accessible'', ''accurate'', ''active'', ''actual'', ''acute'', ''added'', ''additional'', ''adequate'',
    ''adjacent'', ''adorable'', ''advanced'', ''adverse'', ''advisory'', ''aesthetic'', ''afraid'', ''aggregate'',
    ''aggressive'', ''agreeable'', ''agreed'', ''agricultural'', ''alert'', ''alive'', ''allied'', ''alone'',
    ''alright'', ''alternative'', ''amateur'', ''amazing'', ''ambitious'', ''amused'', ''ancient'', ''angry'',
    ''annoyed'', ''annual'', ''anonymous'', ''anxious'', ''apparent'', ''applicable'', ''appropriate'', ''arbitrary'',
    ''architectural'', ''arrogant'', ''artificial'', ''artistic'', ''ashamed'', ''asleep'', ''associated'',
    ''atomic'', ''attractive'', ''automatic'', ''autonomous'', ''available'', ''average'', ''awake'', ''aware'',
    ''awkward'', ''balanced'', ''bare'', ''basic'', ''beautiful'', ''beneficial'', ''better'', ''bewildered'',
    ''big'', ''binding'', ''biological'', ''bitter'', ''bizarre'', ''blank'', ''blushing'', ''boiling'', ''bold'',
    ''bored'', ''boring'', ''bottom'', ''brainy'', ''brave'', ''breakable'', ''breezy'', ''brief'', ''bright'',
    ''brilliant'', ''broad'', ''broken'', ''bumpy'', ''burning'', ''busy'', ''calm'', ''capable'', ''careful'',
    ''casual'', ''causal'', ''cautious'', ''central'', ''certain'', ''changing'', ''characteristic'', ''charming'',
    ''cheerful'', ''chemical'', ''chilly'', ''chosen'', ''chronic'', ''circular'', ''civic'', ''civil'', ''civilian'',
    ''classic'', ''classical'', ''clean'', ''clear'', ''clever'', ''clinical'', ''close'', ''closed'', ''cloudy'',
    ''clumsy'', ''coastal'', ''cognitive'', ''coherent'', ''cold'', ''collective'', ''colorful'', ''colossal'',
    ''combative'', ''combined'', ''comfortable'', ''coming'', ''commercial'', ''common'', ''compact'', ''comparable'',
    ''comparative'', ''compatible'', ''competent'', ''competitive'', ''complete'', ''complex'', ''complicated'',
    ''comprehensive'', ''compulsory'', ''conceptual'', ''concerned'', ''concrete'', ''confident'', ''confused'',
    ''conscious'', ''conservation'', ''considerable'', ''consistent'', ''constant'', ''constitutional'',
    ''contemporary'', ''content'', ''continental'', ''continued'', ''continuing'', ''continuous'', ''controlled'',
    ''controversial'', ''convenient'', ''conventional'', ''convinced'', ''convincing'', ''cooing'', ''cool'',
    ''cooperative'', ''corporate'', ''correct'', ''corresponding'', ''courageous'', ''creative'', ''critical'',
    ''crowded'', ''crucial'', ''crude'', ''cuddly'', ''cultural'', ''curious'', ''curly'', ''current'', ''curved'',
    ''cute'', ''daily'', ''damaged'', ''damp'', ''dangerous'', ''dark'', ''deafening'', ''dear'', ''decent'',
    ''decisive'', ''deep'', ''defeated'', ''defensive'', ''defiant'', ''definite'', ''deliberate'', ''delicate'',
    ''delicious'', ''delighted'', ''delightful'', ''dependent'', ''desirable'', ''desperate'', ''detailed'',
    ''determined'', ''developed'', ''developing'', ''devoted'', ''different'', ''difficult'', ''digital'',
    ''diplomatic'', ''direct'', ''disappointed'', ''disastrous'', ''disciplinary'', ''distant'', ''distinct'',
    ''distinctive'', ''distinguished'', ''diverse'', ''divine'', ''dizzy'', ''domestic'', ''dominant'', ''double'',
    ''doubtful'', ''drab'', ''dramatic'', ''driving'', ''dry'', ''dual'', ''dull'', ''dusty'', ''dynamic'', ''eager'',
    ''early'', ''eastern'', ''easy'', ''economic'', ''educational'', ''eerie'', ''effective'', ''efficient'',
    ''elaborate'', ''elated'', ''eldest'', ''electric'', ''electrical'', ''electronic'', ''elegant'', ''eligible'',
    ''embarrassed'', ''embarrassing'', ''emotional'', ''empirical'', ''empty'', ''enchanting'', ''encouraging'',
    ''endless'', ''energetic'', ''enormous'', ''enthusiastic'', ''entire'', ''entitled'', ''envious'',
    ''environmental'', ''equal'', ''equivalent'', ''essential'', ''established'', ''estimated'', ''ethical'',
    ''eventual'', ''everyday'', ''evident'', ''evolutionary'', ''exact'', ''excellent'', ''exceptional'',
    ''excessive'', ''excited'', ''exciting'', ''exclusive'', ''existing'', ''exotic'', ''expected'', ''experienced'',
    ''experimental'', ''explicit'', ''extended'', ''extensive'', ''external'', ''extra'', ''extraordinary'',
    ''extreme'', ''exuberant'', ''faint'', ''fair'', ''faithful'', ''familiar'', ''famous'', ''fancy'', ''fantastic'',
    ''far'', ''fascinating'', ''fashionable'', ''fast'', ''favourable'', ''favourite'', ''fellow'', ''few'',
    ''fierce'', ''final'', ''fine'', ''firm'', ''fit'', ''fixed'', ''flaky'', ''flat'', ''flexible'', ''fluffy'',
    ''fluttering'', ''flying'', ''following'', ''fond'', ''foreign'', ''formal'', ''formidable'', ''forthcoming'',
    ''fortunate'', ''forward'', ''fragile'', ''frantic'', ''frequent'', ''fresh'', ''friendly'', ''frightened'',
    ''front'', ''frozen'', ''full'', ''fun'', ''functional'', ''fundamental'', ''funny'', ''furious'', ''future'',
    ''fuzzy'', ''general'', ''generous'', ''genetic'', ''gentle'', ''geographical'', ''giant'', ''gigantic'',
    ''given'', ''glad'', ''glamorous'', ''gleaming'', ''global'', ''glorious'', ''golden'', ''good'', ''gorgeous'',
    ''gothic'', ''graceful'', ''gradual'', ''grand'', ''grateful'', ''greasy'', ''great'', ''grim'', ''growing'',
    ''grubby'', ''grumpy'', ''handsome'', ''happy'', ''hard'', ''harsh'', ''healthy'', ''heavy'', ''helpful'',
    ''hidden'', ''high'', ''hilarious'', ''hissing'', ''historic'', ''historical'', ''hollow'', ''holy'', ''homely'',
    ''honest'', ''horizontal'', ''hot'', ''huge'', ''human'', ''hungry'', ''hushed'', ''husky'', ''icy'', ''ideal'',
    ''identical'', ''imaginative'', ''immediate'', ''immense'', ''imperial'', ''implicit'', ''important'',
    ''impossible'', ''impressed'', ''impressive'', ''improved'', ''inadequate'', ''inappropriate'', ''inclined'',
    ''increased'', ''increasing'', ''incredible'', ''independent'', ''indirect'', ''individual'', ''industrial'',
    ''inevitable'', ''influential'', ''informal'', ''inherent'', ''initial'', ''inland'', ''inner'', ''innocent'',
    ''innovative'', ''inquisitive'', ''instant'', ''institutional'', ''insufficient'', ''intact'', ''integral'',
    ''integrated'', ''intellectual'', ''intelligent'', ''intense'', ''intensive'', ''interested'', ''interesting'',
    ''interim'', ''interior'', ''intermediate'', ''internal'', ''international'', ''invisible'', ''involved'',
    ''irrelevant'', ''isolated'', ''itchy'', ''jealous'', ''jittery'', ''joint'', ''jolly'', ''joyous'', ''juicy'',
    ''junior'', ''just'', ''keen'', ''kind'', ''known'', ''labour'', ''large'', ''late'', ''lazy'', ''leading'',
    ''left'', ''legislative'', ''lengthy'', ''lesser'', ''level'', ''lexical'', ''light'', ''likely'', ''limited'',
    ''linear'', ''linguistic'', ''liquid'', ''literary'', ''little'', ''live'', ''lively'', ''living'', ''local'',
    ''logical'', ''long'', ''loose'', ''lost'', ''loud'', ''lovely'', ''low'', ''loyal'', ''lucky'', ''magic'',
    ''magnetic'', ''magnificent'', ''main'', ''major'', ''mammoth'', ''manual'', ''many'', ''marginal'', ''marine'',
    ''marked'', ''marvellous'', ''mass'', ''massive'', ''mathematical'', ''mature'', ''maximum'', ''mean'',
    ''meaningful'', ''mechanical'', ''medical'', ''medieval'', ''melodic'', ''melted'', ''mere'', ''metropolitan'',
    ''mid'', ''middle'', ''mighty'', ''mild'', ''military'', ''miniature'', ''minimal'', ''minimum'', ''minor'',
    ''missing'', ''misty'', ''mixed'', ''mobile'', ''moderate'', ''modern'', ''modest'', ''molecular'', ''monthly'',
    ''moral'', ''motionless'', ''muddy'', ''multiple'', ''mushy'', ''musical'', ''mutual'', ''mysterious'',
    ''narrow'', ''national'', ''native'', ''natural'', ''naughty'', ''naval'', ''near'', ''nearby'', ''neat'',
    ''necessary'', ''negative'', ''neighbouring'', ''nervous'', ''neutral'', ''new'', ''nice'', ''noble'', ''noisy'',
    ''normal'', ''northern'', ''nosy'', ''notable'', ''novel'', ''nuclear'', ''numerous'', ''nursing'',
    ''nutritious'', ''nutty'', ''obedient'', ''objective'', ''obliged'', ''obvious'', ''occasional'',
    ''occupational'', ''odd'', ''ok'', ''okay'', ''old'', ''olympic'', ''only'', ''open'', ''operational'',
    ''opposite'', ''optimistic'', ''oral'', ''ordinary'', ''organic'', ''organisational'', ''original'', ''other'',
    ''outdoor'', ''outer'', ''outrageous'', ''outside'', ''outstanding'', ''overall'', ''overseas'', ''overwhelming'',
    ''pale'', ''panicky'', ''parallel'', ''parental'', ''partial'', ''particular'', ''passing'', ''passive'',
    ''past'', ''patient'', ''peaceful'', ''peculiar'', ''perfect'', ''permanent'', ''persistent'', ''personal'',
    ''petite'', ''philosophical'', ''physical'', ''plain'', ''planned'', ''plastic'', ''pleasant'', ''pleased'',
    ''poised'', ''polite'', ''political'', ''popular'', ''positive'', ''possible'', ''potential'', ''powerful'',
    ''practical'', ''precious'', ''precise'', ''preferred'', ''preliminary'', ''premier'', ''prepared'', ''present'',
    ''pretty'', ''previous'', ''prickly'', ''primary'', ''prime'', ''primitive'', ''principal'', ''printed'',
    ''prior'', ''private'', ''probable'', ''productive'', ''professional'', ''profound'', ''progressive'',
    ''prominent'', ''promising'', ''proper'', ''proposed'', ''prospective'', ''protective'', ''proud'',
    ''provincial'', ''psychological'', ''public'', ''pure'', ''purring'', ''puzzled'', ''quaint'', ''quarrelsome'',
    ''querulous'', ''quick'', ''quickest'', ''quiet'', ''quintessential'', ''quixotic'', ''radical'', ''rainy'',
    ''random'', ''rapid'', ''rare'', ''raspy'', ''rational'', ''ratty'', ''raw'', ''ready'', ''realistic'', ''rear'',
    ''reasonable'', ''recent'', ''reduced'', ''redundant'', ''regional'', ''regular'', ''related'', ''relative'',
    ''relaxed'', ''relevant'', ''reliable'', ''relieved'', ''reluctant'', ''remaining'', ''remarkable'', ''remote'',
    ''renewed'', ''representative'', ''required'', ''resident'', ''residential'', ''resonant'', ''respectable'',
    ''respective'', ''responsible'', ''resulting'', ''retired'', ''revolutionary'', ''ridiculous'', ''right'',
    ''rigid'', ''ripe'', ''rising'', ''rival'', ''roasted'', ''robust'', ''rolling'', ''romantic'', ''rough'',
    ''round'', ''royal'', ''rubber'', ''rude'', ''running'', ''rural'', ''sacred'', ''sad'', ''salty'',
    ''satisfactory'', ''satisfied'', ''scared'', ''scary'', ''scattered'', ''scientific'', ''scornful'',
    ''screeching'', ''secondary'', ''secret'', ''select'', ''selected'', ''selective'', ''selfish'', ''semantic'',
    ''senior'', ''sensible'', ''sensitive'', ''separate'', ''serious'', ''severe'', ''shaggy'', ''shaky'',
    ''shallow'', ''shared'', ''sharp'', ''sheer'', ''shiny'', ''shivering'', ''shocked'', ''short'', ''shrill'',
    ''shy'', ''significant'', ''silent'', ''silky'', ''silly'', ''similar'', ''simple'', ''single'', ''skilled'',
    ''sleepy'', ''slight'', ''slim'', ''slimy'', ''slippery'', ''slow'', ''small'', ''smart'', ''smiling'',
    ''smoggy'', ''smooth'', ''social'', ''soft'', ''solar'', ''sole'', ''solid'', ''sophisticated'', ''sore'',
    ''sorry'', ''sound'', ''sour'', ''southern'', ''spare'', ''sparkling'', ''spatial'', ''special'', ''specific'',
    ''specified'', ''spectacular'', ''spicy'', ''spiritual'', ''splendid'', ''spontaneous'', ''sporting'',
    ''spotless'', ''spotty'', ''square'', ''squealing'', ''stable'', ''stale'', ''standard'', ''static'',
    ''statistical'', ''steady'', ''steep'', ''sticky'', ''stiff'', ''still'', ''stingy'', ''stormy'', ''straight'',
    ''straightforward'', ''strange'', ''strategic'', ''strict'', ''striking'', ''striped'', ''strong'',
    ''structural'', ''stuck'', ''subjective'', ''subsequent'', ''substantial'', ''subtle'', ''successful'',
    ''successive'', ''sudden'', ''sufficient'', ''suitable'', ''sunny'', ''super'', ''superb'', ''superior'',
    ''supporting'', ''supposed'', ''supreme'', ''sure'', ''surprised'', ''surprising'', ''surrounding'',
    ''surviving'', ''sweet'', ''swift'', ''symbolic'', ''sympathetic'', ''systematic'', ''tall'', ''tame'', ''tart'',
    ''tasty'', ''technical'', ''technological'', ''temporary'', ''tender'', ''tense'', ''territorial'', ''testy'',
    ''theoretical'', ''thick'', ''thin'', ''thirsty'', ''thorough'', ''thoughtful'', ''thoughtless'', ''thundering'',
    ''tight'', ''tiny'', ''tired'', ''top'', ''total'', ''tough'', ''traditional'', ''tragic'', ''tremendous'',
    ''tricky'', ''tropical'', ''troubled'', ''typical'', ''ultimate'', ''unable'', ''unacceptable'', ''unaware'',
    ''uncertain'', ''unchanged'', ''uncomfortable'', ''unconscious'', ''underground'', ''underlying'', ''uneven'',
    ''unexpected'', ''unfair'', ''unfortunate'', ''unhappy'', ''uniform'', ''uninterested'', ''unique'', ''united'',
    ''universal'', ''unknown'', ''unlikely'', ''unnecessary'', ''unpleasant'', ''unusual'', ''unwilling'', ''upper'',
    ''upset'', ''uptight'', ''urban'', ''urgent'', ''used'', ''useful'', ''usual'', ''vague'', ''valid'',
    ''valuable'', ''variable'', ''varied'', ''various'', ''varying'', ''vast'', ''verbal'', ''vertical'',
    ''vicarious'', ''victorious'', ''visible'', ''visiting'', ''visual'', ''vital'', ''vitreous'', ''vivacious'',
    ''vivid'', ''vocal'', ''vocational'', ''voiceless'', ''voluminous'', ''voluntary'', ''vulnerable'', ''wandering'',
    ''warm'', ''wasteful'', ''watery'', ''weak'', ''weary'', ''wee'', ''weekly'', ''weird'', ''welcome'', ''well'',
    ''western'', ''wet'', ''whispering'', ''whole'', ''wide'', ''widespread'', ''wild'', ''wilful'', ''willing'',
    ''willowy'', ''wily'', ''wise'', ''wispy'', ''wittering'', ''witty'', ''wonderful'', ''wooden'', ''working'',
    ''worldwide'', ''worried'', ''worrying'', ''worthwhile'', ''worthy'', ''written'', ''wrong'', ''xenacious'',
    ''xenial'', ''xenogeneic'', ''xeric'', ''xerothermic'', ''yabbering'', ''yammering'', ''yappiest'', ''yappy'',
    ''yawning'', ''yearling'', ''yearning'', ''yeasty'', ''yelling'', ''yelping'', ''yielding'', ''yodelling'',
    ''young'', ''youngest'', ''youthful'', ''ytterbic'', ''yucky'', ''yummy'', ''zany'', ''zealous'', ''zeroth'',
    ''zestful'', ''zesty'', ''zippy'', ''zonal'', ''zoophagous'', ''zygomorphic'', ''zygotic'']"

definition animals :: "string list" where
  "animals = [
    ''aardvark'', ''aardwolf'', ''albatross'', ''alligator'', ''alpaca'', ''anaconda'', ''angelfish'', ''anglerfish'',
    ''ant'', ''anteater'', ''antelope'', ''antlion'', ''aphid'', ''armadillo'', ''asp'', ''badger'', ''bandicoot'',
    ''barnacle'', ''barracuda'', ''basilisk'', ''bass'', ''bat'', ''bear'', ''bee'', ''beetle'', ''bird'', ''bison'',
    ''blackbird'', ''boa'', ''boar'', ''bobcat'', ''bobolink'', ''bug'', ''butterfly'', ''buzzard'', ''camel'',
    ''capybara'', ''cardinal'', ''caribou'', ''carp'', ''cat'', ''caterpillar'', ''catfish'', ''catshark'',
    ''cattle'', ''centipede'', ''chameleon'', ''cheetah'', ''chickadee'', ''chicken'', ''chinchilla'', ''chipmunk'',
    ''cicada'', ''clam'', ''clownfish'', ''cobra'', ''cod'', ''condor'', ''constrictor'', ''coral'', ''cow'',
    ''coyote'', ''crab'', ''crane'', ''crawdad'', ''crayfish'', ''cricket'', ''crocodile'', ''crow'', ''cuckoo'',
    ''damselfly'', ''deer'', ''dingo'', ''dinosaur'', ''dog'', ''dolphin'', ''donkey'', ''dormouse'', ''dove'',
    ''dragon'', ''dragonfly'', ''duck'', ''eagle'', ''earthworm'', ''earwig'', ''echidna'', ''eel'', ''egret'',
    ''elephant'', ''elk'', ''emu'', ''ermine'', ''falcon'', ''ferret'', ''finch'', ''firefly'', ''fish'',
    ''flamingo'', ''fly'', ''flyingfish'', ''fox'', ''frog'', ''gazelle'', ''gecko'', ''gerbil'', ''gibbon'',
    ''giraffe'', ''goat'', ''goldfish'', ''goose'', ''gopher'', ''grasshopper'', ''grouse'', ''guan'', ''guanaco'',
    ''guineafowl'', ''gull'', ''guppy'', ''haddock'', ''halibut'', ''hamster'', ''hare'', ''harrier'', ''hawk'',
    ''hedgehog'', ''heron'', ''herring'', ''hippopotamus'', ''hornet'', ''horse'', ''hoverfly'', ''hummingbird'',
    ''hyena'', ''iguana'', ''impala'', ''jackal'', ''jaguar'', ''jay'', ''jellyfish'', ''junglefowl'', ''kangaroo'',
    ''kingfisher'', ''kite'', ''kiwi'', ''koala'', ''koi'', ''krill'', ''ladybug'', ''lamprey'', ''lark'',
    ''lemming'', ''lemur'', ''leopard'', ''leopon'', ''limpet'', ''lion'', ''lizard'', ''llama'', ''lobster'',
    ''locust'', ''loon'', ''lungfish'', ''lynx'', ''macaw'', ''mackerel'', ''magpie'', ''manatee'', ''marlin'',
    ''marmoset'', ''marmot'', ''marten'', ''mastodon'', ''meadowlark'', ''meerkat'', ''mink'', ''minnow'',
    ''mockingbird'', ''mole'', ''mollusk'', ''mongoose'', ''moose'', ''mosquito'', ''moth'', ''mouse'', ''muskox'',
    ''narwhal'', ''newt'', ''nightingale'', ''ocelot'', ''octopus'', ''opossum'', ''orca'', ''ostrich'', ''otter'',
    ''owl'', ''ox'', ''panda'', ''panther'', ''parakeet'', ''parrot'', ''parrotfish'', ''partridge'', ''peacock'',
    ''peafowl'', ''pelican'', ''penguin'', ''perch'', ''pheasant'', ''pig'', ''pigeon'', ''pike'', ''piranha'',
    ''platypus'', ''pony'', ''porcupine'', ''porpoise'', ''possum'', ''prawn'', ''ptarmigan'', ''puffin'', ''puma'',
    ''python'', ''quail'', ''quelea'', ''quokka'', ''rabbit'', ''raccoon'', ''rat'', ''rattlesnake'', ''raven'',
    ''reindeer'', ''rhinoceros'', ''roadrunner'', ''rook'', ''rooster'', ''sailfish'', ''salamander'', ''salmon'',
    ''sawfish'', ''scallop'', ''scorpion'', ''seahorse'', ''shark'', ''sheep'', ''shrew'', ''shrimp'', ''silkworm'',
    ''silverfish'', ''skink'', ''skunk'', ''sloth'', ''slug'', ''smelt'', ''snail'', ''snake'', ''snipe'', ''sole'',
    ''sparrow'', ''spider'', ''spoonbill'', ''squid'', ''squirrel'', ''starfish'', ''stingray'', ''stoat'', ''stork'',
    ''sturgeon'', ''swallow'', ''swan'', ''swift'', ''swordfish'', ''swordtail'', ''tahr'', ''takin'', ''tapir'',
    ''tarantula'', ''tarsier'', ''termite'', ''tern'', ''thrush'', ''tiger'', ''tiglon'', ''toad'', ''tortoise'',
    ''toucan'', ''trout'', ''tuna'', ''turkey'', ''turtle'', ''tyrannosaurus'', ''unicorn'', ''urial'', ''vicuna'',
    ''viper'', ''vole'', ''vulture'', ''wallaby'', ''walrus'', ''warbler'', ''wasp'', ''weasel'', ''whale'',
    ''whippet'', ''whitefish'', ''wildcat'', ''wildebeest'', ''wolf'', ''wolverine'', ''wombat'', ''woodpecker'',
    ''worm'', ''wren'', ''yak'', ''zebra'']"

definition isLowerAscii :: "char \<Rightarrow> bool" where
  "isLowerAscii c \<longleftrightarrow> 97 \<le> byte c \<and> byte c \<le> 122"

text \<open>Every word is a short, non-empty run of lower-case letters.\<close>

lemma isLowerAscii_letters:
  "isLowerAscii (CHR ''a'')" "isLowerAscii (CHR ''b'')" "isLowerAscii (CHR ''c'')" "isLowerAscii (CHR ''d'')"
  "isLowerAscii (CHR ''e'')" "isLowerAscii (CHR ''f'')" "isLowerAscii (CHR ''g'')" "isLowerAscii (CHR ''h'')"
  "isLowerAscii (CHR ''i'')" "isLowerAscii (CHR ''j'')" "isLowerAscii (CHR ''k'')" "isLowerAscii (CHR ''l'')"
  "isLowerAscii (CHR ''m'')" "isLowerAscii (CHR ''n'')" "isLowerAscii (CHR ''o'')" "isLowerAscii (CHR ''p'')"
  "isLowerAscii (CHR ''q'')" "isLowerAscii (CHR ''r'')" "isLowerAscii (CHR ''s'')" "isLowerAscii (CHR ''t'')"
  "isLowerAscii (CHR ''u'')" "isLowerAscii (CHR ''v'')" "isLowerAscii (CHR ''w'')" "isLowerAscii (CHR ''x'')"
  "isLowerAscii (CHR ''y'')" "isLowerAscii (CHR ''z'')"
  by (simp_all add: isLowerAscii_def)

definition word_ok :: "nat \<Rightarrow> string \<Rightarrow> bool" where
  "word_ok n w \<longleftrightarrow> w \<noteq> [] \<and> length w \<le> n \<and> list_all isLowerAscii w"

lemma adjectives_words: "list_all (word_ok 15) adjectives"
  by (simp add: adjectives_def word_ok_def isLowerAscii_letters)

lemma animals_words: "list_all (word_ok 13) animals"
  by (simp add: animals_def word_ok_def isLowerAscii_letters)

end
