(* ===== verification/Handles.thy ===== *)
theory Handles
  imports Handle_Words
begin

text \<open>
  The rules for handles (\<open>pkg/handles/handles.go\<close>): syntax and reserved names, the skeleton under
  which look-alikes collide, the price tier and the shape of generated handles.
  \<open>unicode.ToLower\<close> beyond ASCII (\<open>ul\<close>) and \<open>sha256.Sum256\<close> are parameters.
\<close>

section \<open>Definitions\<close>

text \<open>\<open>strings.NewReplacer(...).Replace\<close>: at each position the first pair, in argument order, whose old
  string matches there; the old strings are not empty.\<close>

function replacer :: "(string \<times> string) list \<Rightarrow> string \<Rightarrow> string" where
  "replacer pairs s =
     (if s = [] then []
      else case find (\<lambda>(old, new). old \<noteq> [] \<and> hasPrefix s old) pairs of
        None \<Rightarrow> hd s # replacer pairs (tl s)
      | Some (old, new) \<Rightarrow> new @ replacer pairs (drop (length old) s))"
  by pat_completeness auto
termination
  by (relation "measure (length \<circ> snd)") (auto dest!: find_Some_mem)

declare replacer.simps [simp del]

definition hexEncode :: "string \<Rightarrow> string" where
  "hexEncode s = concat (map (\<lambda>c. [hexDigit (byte c div 16), hexDigit (byte c mod 16)]) s)"

definition BRFCLookup :: string where
  "BRFCLookup = ''0ace65da5987''"

definition BRFCReverseLookup :: string where
  "BRFCReverseLookup = ''43dcf83ddc5f''"

definition BRFCID :: "(string \<Rightarrow> string) \<Rightarrow> string \<Rightarrow> string \<Rightarrow> string \<Rightarrow> string" where
  "BRFCID sha256 title author version =
     take 12 (hexEncode (rev (sha256 (sha256 (trimSpace title @ trimSpace author @ trimSpace version)))))"

datatype handle_fault = ErrInvalidHandle | ErrReservedHandle

definition isAlnum :: "char \<Rightarrow> bool" where
  "isAlnum c \<longleftrightarrow> isLowerAscii c \<or> isDigit c"

definition handleRE :: "string \<Rightarrow> bool" where
  "handleRE s \<longleftrightarrow> s \<noteq> [] \<and> isAlnum (hd s) \<and>
     (tl s = [] \<or>
      (isAlnum (last s) \<and> length s \<le> 32 \<and>
       list_all (\<lambda>c. isAlnum c \<or> c = CHR ''.'' \<or> c = CHR ''_'' \<or> c = CHR ''-'') (butlast (tl s))))"

definition reserved :: "string list" where
  "reserved = [''admin'', ''administrator'', ''root'', ''support'', ''help'', ''postmaster'', ''abuse'',
     ''security'', ''info'', ''available'', ''api'', ''bsvalias'', ''system'', ''official'', ''noreply'']"

definition separators :: "(string \<times> string) list" where
  "separators = [(''.'', ''''), (''_'', ''''), (''-'', '''')]"

definition multiFold :: "(string \<times> string) list" where
  "multiFold = [(''rn'', ''m''), (''vv'', ''w'')]"

definition singleFold :: "(string \<times> string) list" where
  "singleFold = [(''0'', ''o''), (''1'', ''l''), (''i'', ''l''), (''5'', ''s''), (''2'', ''z''), (''8'', ''b'')]"

fun dropRepeats :: "rune option \<Rightarrow> rune list \<Rightarrow> string" where
  "dropRepeats prev [] = []"
| "dropRepeats prev (r # rs) = (if Some r \<noteq> prev then encodeRune r else []) @ dropRepeats (Some r) rs"

definition Skeleton :: "(rune \<Rightarrow> rune) \<Rightarrow> string \<Rightarrow> string" where
  "Skeleton ul s0 =
     (let s1 = toLower ul s0;
          s2 = replacer separators s1;
          s3 = replacer multiFold s2;
          s4 = replacer singleFold s3
      in dropRepeats None (runes s4))"

definition reservedSkeletons :: "(rune \<Rightarrow> rune) \<Rightarrow> string list" where
  "reservedSkeletons ul = map (Skeleton ul) reserved"

definition Validate :: "(rune \<Rightarrow> rune) \<Rightarrow> string \<Rightarrow> handle_fault option" where
  "Validate ul handle =
     (if \<not> handleRE handle then Some ErrInvalidHandle
      else if Skeleton ul handle \<in> set (reservedSkeletons ul) then Some ErrReservedHandle
      else None)"

definition TopTier :: int where
  "TopTier = 7"

definition Tier :: "string \<Rightarrow> int" where
  "Tier handle = min (max (int (length handle)) 1) TopTier"

text \<open>The letters in front of exactly two digits.\<close>

definition generatedRE :: "string \<Rightarrow> string option" where
  "generatedRE s =
     (let letters = take (length s - 2) s; digits = drop (length s - 2) s in
      if length digits = 2 \<and> list_all isDigit digits \<and> letters \<noteq> [] \<and> list_all isLowerAscii letters
      then Some letters else None)"

definition IsGenerated :: "(rune \<Rightarrow> rune) \<Rightarrow> string \<Rightarrow> bool" where
  "IsGenerated ul handle =
     (case generatedRE (toLower ul handle) of
        None \<Rightarrow> False
      | Some letters \<Rightarrow> list_ex (\<lambda>i. take i letters \<in> set adjectives \<and> drop i letters \<in> set animals) [1..<length letters])"

section \<open>The fold on ASCII strings\<close>

text \<open>Each replacer as a function on characters, except the two-letter one.\<close>

definition isSeparator :: "char \<Rightarrow> bool" where
  "isSeparator c \<longleftrightarrow> c = CHR ''.'' \<or> c = CHR ''_'' \<or> c = CHR ''-''"

definition foldChar :: "char \<Rightarrow> char" where
  "foldChar c =
     (if c = CHR ''0'' then CHR ''o'' else if c = CHR ''1'' then CHR ''l'' else if c = CHR ''i'' then CHR ''l''
      else if c = CHR ''5'' then CHR ''s'' else if c = CHR ''2'' then CHR ''z'' else if c = CHR ''8'' then CHR ''b'' else c)"

lemma replacer_Nil [simp]: "replacer pairs [] = []"
  by (simp add: replacer.simps)

lemma replacer_Cons:
  "replacer pairs (c # s) =
     (case find (\<lambda>(old, new). old \<noteq> [] \<and> hasPrefix (c # s) old) pairs of
        None \<Rightarrow> c # replacer pairs s
      | Some (old, new) \<Rightarrow> new @ replacer pairs (drop (length old) (c # s)))"
  by (simp add: replacer.simps [of pairs "c # s"] split: option.split)

lemma replacer_separators: "replacer separators s = filter (\<lambda>c. \<not> isSeparator c) s"
  by (induction s) (simp_all add: replacer_Cons separators_def isSeparator_def)

lemma replacer_single: "replacer singleFold s = map foldChar s"
  by (induction s) (simp_all add: replacer_Cons singleFold_def foldChar_def)

lemma replacer_multi:
  "replacer multiFold (c # s) =
     (if c = CHR ''r'' \<and> s \<noteq> [] \<and> hd s = CHR ''n'' then CHR ''m'' # replacer multiFold (tl s)
      else if c = CHR ''v'' \<and> s \<noteq> [] \<and> hd s = CHR ''v'' then CHR ''w'' # replacer multiFold (tl s)
      else c # replacer multiFold s)"
  by (cases s) (simp_all add: replacer_Cons multiFold_def)

lemma runes_isAscii: "isAscii s \<Longrightarrow> runes s = map byte s"
  by (induction s) (auto simp: runes_ascii isAscii_def)

lemma encodeRune_byte: "byte c < 128 \<Longrightarrow> encodeRune (byte c) = [c]"
  by (simp add: encodeRune_def)

lemma dropRepeats_ascii:
  "isAscii s \<Longrightarrow> dropRepeats (map_option byte p) (map byte s) =
     (case p of None \<Rightarrow> remdups_adj s | Some c \<Rightarrow> tl (remdups_adj (c # s)))"
proof (induction s arbitrary: p)
  case (Cons d s)
  have a: "byte d < 128" "isAscii s" using Cons.prems by (simp_all add: isAscii_def)
  note IH = Cons.IH [OF a(2), of "Some d", simplified]
  have e: "byte d = byte c \<longleftrightarrow> d = c" for c by (metis char_of_char)
  have r: "remdups_adj (d # s) = d # tl (remdups_adj (d # s))" by (metis list.collapse list.sel(1) list.simps(3) remdups_adj_Nil_iff hd_remdups_adj)
  show ?case using r IH a(1) by (cases p) (auto simp: encodeRune_byte e)
qed (auto split: option.split)

lemma isAscii_filter: "isAscii s \<Longrightarrow> isAscii (filter P s)"
  by (auto simp: isAscii_def list_all_iff)

lemma multi_pair:
  "replacer multiFold (c # d # s) =
     (if c = CHR ''r'' \<and> d = CHR ''n'' then CHR ''m'' # replacer multiFold s
      else if c = CHR ''v'' \<and> d = CHR ''v'' then CHR ''w'' # replacer multiFold s
      else c # replacer multiFold (d # s))"
  by (simp add: replacer_multi)

lemma multi_induct [case_names empty one pair]:
  assumes "P []" and "\<And>c. P [c]" and "\<And>c d s. P s \<Longrightarrow> P (d # s) \<Longrightarrow> P (c # d # s)"
  shows "P s"
  using assms by (rule induct_list012)

lemma set_multi: "set (replacer multiFold s) \<subseteq> set s \<union> {CHR ''m'', CHR ''w''}"
  by (induction s rule: multi_induct) (auto simp: multi_pair replacer_multi [of _ "[]"])

lemma isAscii_multi: "isAscii s \<Longrightarrow> isAscii (replacer multiFold s)"
  using set_multi [of s] by (fastforce simp: isAscii_def list_all_iff)

lemma isAscii_fold: "isAscii s \<Longrightarrow> isAscii (map foldChar s)"
  by (auto simp: isAscii_def list_all_iff foldChar_def)

lemma Skeleton_ascii:
  assumes "isAscii s"
  shows "Skeleton ul s = remdups_adj (map foldChar (replacer multiFold (filter (\<lambda>c. \<not> isSeparator c) (map lowerAscii s))))"
  using dropRepeats_ascii [of "map foldChar (replacer multiFold (filter (\<lambda>c. \<not> isSeparator c) (map lowerAscii s)))" None] assms
  by (simp add: Skeleton_def Let_def toLower_ascii replacer_separators replacer_single runes_isAscii
      isAscii_lower isAscii_filter isAscii_multi isAscii_fold)

text \<open>Folding again changes nothing: no folded pair, separator, capital or foldable character is left.\<close>

fun noPair :: "string \<Rightarrow> bool" where
  "noPair (c # d # s) \<longleftrightarrow> \<not> (c = CHR ''r'' \<and> d = CHR ''n'') \<and> \<not> (c = CHR ''v'' \<and> d = CHR ''v'') \<and> noPair (d # s)"
| "noPair _ \<longleftrightarrow> True"

lemma multi_noPair_id: "noPair s \<Longrightarrow> replacer multiFold s = s"
  by (induction s rule: noPair.induct) (auto simp: multi_pair replacer_multi [of _ "[]"])

lemma hd_multi: "replacer multiFold (d # s) = e # t \<Longrightarrow> e = d \<or> e = CHR ''m'' \<or> e = CHR ''w''"
  by (auto simp: replacer_multi split: if_splits)

lemma noPair_Cons: "noPair (c # s) \<longleftrightarrow> noPair s \<and> (\<forall>d t. s = d # t \<longrightarrow> \<not> (c = CHR ''r'' \<and> d = CHR ''n'') \<and> \<not> (c = CHR ''v'' \<and> d = CHR ''v''))"
  by (cases s) auto

lemma noPair_multi: "noPair (replacer multiFold s)"
proof (induction s rule: multi_induct)
  case (pair c d s)
  then show ?case by (auto simp: multi_pair noPair_Cons dest: hd_multi)
qed (auto simp: replacer_multi [of _ "[]"])

lemma noPair_fold: "noPair s \<Longrightarrow> noPair (map foldChar s)"
  by (induction s rule: noPair.induct) (auto simp: foldChar_def)

lemma noPair_remdups: "noPair s \<Longrightarrow> noPair (remdups_adj s)"
  by (induction s rule: remdups_adj.induct) (auto simp: noPair_Cons remdups_adj_Cons split: list.splits)

definition folded :: "string \<Rightarrow> bool" where
  "folded s \<longleftrightarrow> isAscii s \<and> list_all (\<lambda>c. \<not> isUpperAscii c \<and> \<not> isSeparator c \<and> foldChar c = c) s"

lemma Skeleton_folded: "folded s \<Longrightarrow> noPair s \<Longrightarrow> Skeleton ul s = remdups_adj s"
  by (simp add: Skeleton_ascii folded_def list_all_iff lowerAscii_def multi_noPair_id map_idI
      filter_id_conv_all cong: map_cong)

lemma foldChar_folded:
  "\<not> isUpperAscii c \<Longrightarrow> \<not> isSeparator c \<Longrightarrow> \<not> isUpperAscii (foldChar c) \<and> \<not> isSeparator (foldChar c)"
  "foldChar (foldChar c) = foldChar c"
  by (simp_all add: foldChar_def isUpperAscii_def isSeparator_def)

lemma remdups_adj_idem: "remdups_adj (remdups_adj xs) = remdups_adj xs"
  by (metis distinct_adj_altdef distinct_adj_remdups_adj)

lemma folded_Skeleton:
  assumes "isAscii s"
  shows "folded (Skeleton ul s) \<and> noPair (Skeleton ul s)"
proof -
  let ?s2 = "filter (\<lambda>c. \<not> isSeparator c) (map lowerAscii s)"
  let ?s3 = "replacer multiFold ?s2"
  have "list_all (\<lambda>c. \<not> isUpperAscii c \<and> \<not> isSeparator c) ?s2"
    by (auto simp: list_all_iff lowerAscii_def isUpperAscii_def)
  moreover have "\<not> isUpperAscii (CHR ''m'') \<and> \<not> isSeparator (CHR ''m'')" "\<not> isUpperAscii (CHR ''w'') \<and> \<not> isSeparator (CHR ''w'')"
    by (simp_all add: isUpperAscii_def isSeparator_def)
  ultimately have "list_all (\<lambda>c. \<not> isUpperAscii c \<and> \<not> isSeparator c) ?s3"
    using set_multi [of ?s2] unfolding list_all_iff by blast
  then have "list_all (\<lambda>c. \<not> isUpperAscii c \<and> \<not> isSeparator c \<and> foldChar c = c) (map foldChar ?s3)"
    using foldChar_folded unfolding list_all_iff set_map by blast
  moreover have "isAscii (map foldChar ?s3)" using assms by (intro isAscii_fold isAscii_multi isAscii_filter isAscii_lower)
  ultimately show ?thesis
    unfolding Skeleton_ascii [OF assms] folded_def isAscii_def
    by (simp add: list_all_iff noPair_multi noPair_fold noPair_remdups)
qed

lemma Skeleton_idem: "isAscii s \<Longrightarrow> Skeleton ul (Skeleton ul s) = Skeleton ul s"
  using folded_Skeleton [of s ul] Skeleton_folded [of "Skeleton ul s" ul]
  by (simp add: Skeleton_ascii [of s] remdups_adj_idem)

lemma Skeleton_no_repeats: "isAscii s \<Longrightarrow> distinct_adj (Skeleton ul s)"
  by (simp add: Skeleton_ascii)

section \<open>Valid and generated handles\<close>

lemma Skeleton_separators: "isAscii s \<Longrightarrow> Skeleton ul (filter (\<lambda>c. \<not> isSeparator c) s) = Skeleton ul s"
proof -
  assume a: "isAscii s"
  have b: "isSeparator c \<Longrightarrow> byte c \<in> {45, 46, 95}" for c by (auto simp: isSeparator_def)
  have sep: "isSeparator (lowerAscii c) = isSeparator c" for c
  proof (cases "isUpperAscii c")
    case True
    then have "byte (lowerAscii c) = byte c + 32" "65 \<le> byte c" "byte c \<le> 90" by (simp_all add: lowerAscii_def isUpperAscii_def)
    with b [of c] b [of "lowerAscii c"] show ?thesis by auto
  qed (simp add: lowerAscii_def)
  have "filter (\<lambda>c. \<not> isSeparator c) (map lowerAscii (filter (\<lambda>c. \<not> isSeparator c) s)) = filter (\<lambda>c. \<not> isSeparator c) (map lowerAscii s)"
    by (simp add: filter_map comp_def sep)
  then show ?thesis using a by (simp add: Skeleton_ascii isAscii_filter)
qed

lemma handleRE_ascii: "handleRE s \<Longrightarrow> isAscii s"
proof -
  assume a: "handleRE s"
  then obtain c t where s: "s = c # t" by (cases s) (auto simp: handleRE_def)
  show ?thesis
  proof (cases "t = []")
    case False
    then have t: "set t = insert (last t) (set (butlast t))" by (metis append_butlast_last_id insert_is_Un list.simps(15) set_append sup_commute empty_set)
    from a s False show ?thesis
      by (auto simp: handleRE_def isAscii_def list_all_iff t isAlnum_def isLowerAscii_def isDigit_def)
  qed (use a s in \<open>auto simp: handleRE_def isAscii_def isAlnum_def isLowerAscii_def isDigit_def\<close>)
qed

lemma multi_nonempty: "s \<noteq> [] \<Longrightarrow> replacer multiFold s \<noteq> []"
  by (cases s) (auto simp: replacer_multi)

lemma Skeleton_nonempty: "handleRE s \<Longrightarrow> Skeleton ul s \<noteq> []"
proof -
  assume a: "handleRE s"
  then have "s \<noteq> []" "isAlnum (hd s)" by (auto simp: handleRE_def)
  then have "\<not> isSeparator (lowerAscii (hd s))" "s \<noteq> []"
    by (auto simp: isAlnum_def isLowerAscii_def isDigit_def isSeparator_def lowerAscii_def isUpperAscii_def)
  then have "filter (\<lambda>c. \<not> isSeparator c) (map lowerAscii s) \<noteq> []" by (cases s) auto
  then show ?thesis using multi_nonempty by (simp add: Skeleton_ascii [OF handleRE_ascii [OF a]] remdups_adj_Nil_iff)
qed

lemma generatedRE_Some: "generatedRE s = Some l \<longleftrightarrow> (\<exists>d. s = l @ d \<and> length d = 2 \<and> list_all isDigit d \<and> l \<noteq> [] \<and> list_all isLowerAscii l)"
  by (auto simp: generatedRE_def Let_def intro!: exI [of _ "drop (length s - 2) s"])

text \<open>A generated handle is an adjective, an animal and two digits, and nothing else is.\<close>

lemma IsGenerated_iff:
  "IsGenerated ul h \<longleftrightarrow> (\<exists>a \<in> set adjectives. \<exists>b \<in> set animals. \<exists>d. toLower ul h = a @ b @ d \<and> length d = 2 \<and> list_all isDigit d)"
proof
  assume "IsGenerated ul h"
  then obtain l i where l: "generatedRE (toLower ul h) = Some l" "take i l \<in> set adjectives" "drop i l \<in> set animals"
    by (auto simp: IsGenerated_def list_ex_iff split: option.splits)
  then obtain d where d: "toLower ul h = l @ d" "length d = 2" "list_all isDigit d" by (auto simp: generatedRE_Some)
  then have "toLower ul h = take i l @ drop i l @ d" by (simp add: append_assoc [symmetric] del: append_assoc)
  with l d show "\<exists>a \<in> set adjectives. \<exists>b \<in> set animals. \<exists>d. toLower ul h = a @ b @ d \<and> length d = 2 \<and> list_all isDigit d" by blast
next
  assume "\<exists>a \<in> set adjectives. \<exists>b \<in> set animals. \<exists>d. toLower ul h = a @ b @ d \<and> length d = 2 \<and> list_all isDigit d"
  then obtain a b d where w: "a \<in> set adjectives" "b \<in> set animals" "toLower ul h = (a @ b) @ d" "length d = 2" "list_all isDigit d" by auto
  then have "word_ok 15 a" "word_ok 13 b" using adjectives_words animals_words by (auto simp: list_all_iff)
  then have ok: "a \<noteq> []" "b \<noteq> []" "list_all isLowerAscii (a @ b)" by (auto simp: word_ok_def)
  with w have "generatedRE (toLower ul h) = Some (a @ b)" by (auto simp: generatedRE_Some)
  moreover have "length a \<in> set [1..<length (a @ b)]" using ok(1,2) by (simp add: Suc_le_eq)
  ultimately show "IsGenerated ul h" using w
    by (auto simp: IsGenerated_def list_ex_iff intro!: bexI [of _ "length a"])
qed

lemma generated_handleRE:
  assumes "IsGenerated ul h" and "map lowerAscii h = h" and "isAscii h"
  shows "handleRE h"
proof -
  have h: "toLower ul h = h" using assms by (simp add: toLower_ascii)
  obtain a b d where w: "a \<in> set adjectives" "b \<in> set animals" "h = a @ b @ d" "length d = 2" "list_all isDigit d"
    using assms(1) unfolding IsGenerated_iff h by blast
  then have ok: "word_ok 15 a" "word_ok 13 b" using adjectives_words animals_words by (auto simp: list_all_iff)
  obtain d1 d2 where d: "d = [d1, d2]" "isDigit d1" "isDigit d2" using w(4,5) by (auto simp: numeral_2_eq_2 length_Suc_conv)
  have "hd h = hd a \<and> isLowerAscii (hd a)" using w(3) ok(1) by (cases a) (auto simp: word_ok_def)
  moreover have "butlast (tl h) = tl a @ b @ [d1]" using w(3) d ok by (cases a) (auto simp: word_ok_def butlast_append)
  moreover have "list_all isAlnum (tl a @ b @ [d1])" using ok d
    by (cases a) (auto simp: word_ok_def list_all_iff isAlnum_def)
  ultimately show ?thesis using w(3) d ok
    by (auto simp: handleRE_def isAlnum_def word_ok_def list_all_iff)
qed

end
