(* ===== verification/Handle_Registry.thy ===== *)
theory Handle_Registry
  imports Mongo_Store
begin

text \<open>
  The handle registry (\<open>pkg/storage/handles.go\<close>, \<open>pkg/storage/mongostore/handles.go\<close>).

  The collection is a list of documents whose handle, skeleton and identity key are unique keys. A
  statement is one atomic conditional write. Other clients write between the round trips of an
  operation: the state carries the batches of writes that arrive before each of them, so that an
  operation runs under every interleaving at the granularity of its statements.
\<close>

section \<open>The contract's data\<close>

datatype handle_error = ErrHandleTaken | ErrHandleTooSimilar | ErrKeyHasHandle | ErrHandleCooldown
  | ErrStaleCertificate | ErrHandleNotFound | ErrClaimRaced | ErrInvalidRelease | ErrRegistryFault

definition ReleasedByOwner :: string where
  "ReleasedByOwner = ''owner''"

record HandleRecord =
  hr_Handle :: string
  hr_Skeleton :: string
  hr_IdentityKey :: "string option"
  hr_LastIdentityKey :: string
  hr_Certificate :: "string option"
  hr_SerialNumber :: string
  hr_IssuedAt :: time
  hr_CreatedAt :: time
  hr_UpdatedAt :: time
  hr_ReleasedAt :: "time option"
  hr_CooldownUntil :: "time option"
  hr_ReleasedBy :: "string option"

definition Active :: "HandleRecord option \<Rightarrow> bool" where
  "Active r = (case r of None \<Rightarrow> False | Some x \<Rightarrow> hr_IdentityKey x \<noteq> None)"

record HandleClaim =
  hc_Handle :: string
  hc_Skeleton :: string
  hc_IdentityKey :: string
  hc_Certificate :: string
  hc_SerialNumber :: string
  hc_IssuedAt :: time
  hc_Now :: time

datatype ClaimResult = ClaimCreated | ClaimUpdated | ClaimUnchanged

record HandleRelease =
  rl_Handle :: string
  rl_Owner :: "string option"
  rl_IssuedAt :: "time option"
  rl_ReleasedBy :: string
  rl_CooldownUntil :: "time option"
  rl_Now :: time

definition ValidateRelease :: "HandleRelease \<Rightarrow> handle_error option" where
  "ValidateRelease r =
     (if rl_Owner r = None then None
      else if rl_IssuedAt r = None then Some ErrInvalidRelease
      else if rl_ReleasedBy r \<noteq> ReleasedByOwner then Some ErrInvalidRelease
      else None)"

definition cooldownExempt :: "HandleRecord \<Rightarrow> string \<Rightarrow> bool" where
  "cooldownExempt rec identityKey \<longleftrightarrow> identityKey \<noteq> [] \<and> hr_LastIdentityKey rec = identityKey \<and>
     hr_ReleasedBy rec = Some ReleasedByOwner"

datatype HandleField = HandleFieldHandle | HandleFieldSkeleton

datatype HandleMatchMode = HandleMatchUnset | HandleMatchPrefix | HandleMatchContains

record HandleMatch =
  hm_Field :: HandleField
  hm_Mode :: HandleMatchMode
  hm_Value :: string
  hm_Limit :: int

record 's HandleReader =
  GetHandle :: "string \<Rightarrow> 's \<Rightarrow> (handle_error + HandleRecord option) \<times> 's"
  GetHandleBySkeleton :: "string \<Rightarrow> 's \<Rightarrow> (handle_error + HandleRecord option) \<times> 's"
  GetHandleByIdentityKey :: "string \<Rightarrow> 's \<Rightarrow> (handle_error + HandleRecord option) \<times> 's"

record 's HandleStore = "'s HandleReader" +
  ClaimHandle :: "HandleClaim \<Rightarrow> 's \<Rightarrow> (handle_error + ClaimResult) \<times> 's"
  ReleaseHandle :: "HandleRelease \<Rightarrow> 's \<Rightarrow> (handle_error + unit) \<times> 's"
  FindHandles :: "HandleMatch \<Rightarrow> 's \<Rightarrow> (handle_error + HandleRecord list) \<times> 's"

section \<open>Diagnosing a refused write\<close>

definition claimRaced :: handle_error where
  "claimRaced = ErrClaimRaced"

definition DiagnoseClaim ::
  "('s, 'z) HandleReader_scheme \<Rightarrow> HandleClaim \<Rightarrow> 's \<Rightarrow> (handle_error + ClaimResult) \<times> 's" where
  "DiagnoseClaim r c s =
     (case GetHandle r (hc_Handle c) s of
        (Inl e, s1) \<Rightarrow> (Inl e, s1)
      | (Inr rec, s1) \<Rightarrow>
          (let tooSimilar = (\<lambda>s. case GetHandleBySkeleton r (hc_Skeleton c) s of
                  (Inl e, s2) \<Rightarrow> (Inl e, s2)
                | (Inr (Some sim), s2) \<Rightarrow>
                    if hr_Handle sim \<noteq> hc_Handle c then (Inl ErrHandleTooSimilar, s2) else (Inl claimRaced, s2)
                | (Inr None, s2) \<Rightarrow> (Inl claimRaced, s2));
               free = (\<lambda>cooldown. case GetHandleByIdentityKey r (hc_IdentityKey c) s1 of
                  (Inl e, s2) \<Rightarrow> (Inl e, s2)
                | (Inr (Some _), s2) \<Rightarrow> (Inl ErrKeyHasHandle, s2)
                | (Inr None, s2) \<Rightarrow> if cooldown then (Inl ErrHandleCooldown, s2) else tooSimilar s2)
           in case rec of
                None \<Rightarrow> free False
              | Some x \<Rightarrow>
                  (case hr_IdentityKey x of
                     Some k \<Rightarrow>
                       if k \<noteq> hc_IdentityKey c then (Inl ErrHandleTaken, s1)
                       else if hr_SerialNumber x = hc_SerialNumber c \<and> hr_IssuedAt x = hc_IssuedAt c \<and>
                               hr_Certificate x = Some (hc_Certificate c) then (Inr ClaimUnchanged, s1)
                       else if hc_IssuedAt c > hr_IssuedAt x \<and> hc_SerialNumber c \<noteq> hr_SerialNumber x
                       then tooSimilar s1
                       else (Inl ErrStaleCertificate, s1)
                   | None \<Rightarrow>
                       if \<not> hc_IssuedAt c > hr_IssuedAt x then (Inl ErrStaleCertificate, s1)
                       else free ((case hr_CooldownUntil x of None \<Rightarrow> False | Some t \<Rightarrow> t > hc_Now c) \<and>
                              \<not> cooldownExempt x (hc_IdentityKey c)))))"

definition releaseAlreadyApplied :: "HandleRecord \<Rightarrow> HandleRelease \<Rightarrow> bool" where
  "releaseAlreadyApplied rec rel \<longleftrightarrow>
     rl_Owner rel \<noteq> None \<and> rl_IssuedAt rel \<noteq> None \<and> rl_ReleasedBy rel = ReleasedByOwner \<and>
     hr_ReleasedBy rec = Some ReleasedByOwner \<and> rl_Owner rel = Some (hr_LastIdentityKey rec) \<and>
     map_option truncMs (rl_IssuedAt rel) = Some (truncMs (hr_IssuedAt rec))"

definition DiagnoseRelease ::
  "('s, 'z) HandleReader_scheme \<Rightarrow> HandleRelease \<Rightarrow> 's \<Rightarrow> (handle_error + unit) \<times> 's" where
  "DiagnoseRelease r rel s =
     (case GetHandle r (rl_Handle rel) s of
        (Inl e, s1) \<Rightarrow> (Inl e, s1)
      | (Inr None, s1) \<Rightarrow> (Inl ErrHandleNotFound, s1)
      | (Inr (Some rec), s1) \<Rightarrow>
          (case hr_IdentityKey rec of
             None \<Rightarrow> if releaseAlreadyApplied rec rel then (Inr (), s1) else (Inl ErrHandleNotFound, s1)
           | Some k \<Rightarrow>
               (case rl_Owner rel of
                  Some own \<Rightarrow> if k \<noteq> own then (Inl ErrHandleTaken, s1) else (Inl ErrStaleCertificate, s1)
                | None \<Rightarrow> (Inl ErrRegistryFault, s1))))"

section \<open>The collection\<close>

type_synonym handleDoc = HandleRecord

text \<open>The unique keys: the handle is the document's id, the skeleton is unique, and so is the
  identity key among the documents that have one.\<close>

definition clashes :: "handleDoc \<Rightarrow> handleDoc \<Rightarrow> bool" where
  "clashes x y \<longleftrightarrow> hr_Handle x = hr_Handle y \<or> hr_Skeleton x = hr_Skeleton y \<or>
     (hr_IdentityKey x \<noteq> None \<and> hr_IdentityKey x = hr_IdentityKey y)"

text \<open>\<open>UpdateOne\<close> by handle and condition: whether a document matched, or a duplicate key.\<close>

definition update_handle ::
  "string \<Rightarrow> (handleDoc \<Rightarrow> bool) \<Rightarrow> (handleDoc \<Rightarrow> handleDoc) \<Rightarrow> handleDoc list \<Rightarrow> bool reply \<times> handleDoc list" where
  "update_handle h P f docs =
     (case find (\<lambda>x. hr_Handle x = h \<and> P x) docs of
        None \<Rightarrow> (Reply False, docs)
      | Some x \<Rightarrow>
          if \<exists>y \<in> set docs. hr_Handle y \<noteq> h \<and> clashes (f x) y then (DuplicateKey, docs)
          else (Reply True, map (\<lambda>y. if hr_Handle y = h \<and> P y then f y else y) docs))"

definition owner_update :: "HandleClaim \<Rightarrow> time \<Rightarrow> handleDoc list \<Rightarrow> bool reply \<times> handleDoc list" where
  "owner_update c ts =
     update_handle (hc_Handle c)
       (\<lambda>x. hr_IdentityKey x = Some (hc_IdentityKey c) \<and> hr_IssuedAt x < hc_IssuedAt c \<and> hr_SerialNumber x \<noteq> hc_SerialNumber c)
       (\<lambda>x. x\<lparr>hr_Skeleton := hc_Skeleton c, hr_Certificate := Some (hc_Certificate c),
              hr_SerialNumber := hc_SerialNumber c, hr_IssuedAt := hc_IssuedAt c, hr_UpdatedAt := ts\<rparr>)"

definition reclaimable :: "HandleClaim \<Rightarrow> handleDoc \<Rightarrow> bool" where
  "reclaimable c x \<longleftrightarrow> hr_IdentityKey x = None \<and> hr_IssuedAt x < hc_IssuedAt c \<and>
     ((hc_IdentityKey c \<noteq> [] \<and> hr_LastIdentityKey x = hc_IdentityKey c \<and> hr_ReleasedBy x = Some ReleasedByOwner) \<or>
      (case hr_CooldownUntil x of None \<Rightarrow> True | Some t \<Rightarrow> t \<le> hc_Now c))"

definition reclaim :: "HandleClaim \<Rightarrow> time \<Rightarrow> handleDoc list \<Rightarrow> bool reply \<times> handleDoc list" where
  "reclaim c ts =
     update_handle (hc_Handle c) (reclaimable c)
       (\<lambda>x. x\<lparr>hr_Skeleton := hc_Skeleton c, hr_IdentityKey := Some (hc_IdentityKey c),
              hr_LastIdentityKey := hc_IdentityKey c, hr_Certificate := Some (hc_Certificate c),
              hr_SerialNumber := hc_SerialNumber c, hr_IssuedAt := hc_IssuedAt c, hr_UpdatedAt := ts,
              hr_ReleasedAt := None, hr_CooldownUntil := None, hr_ReleasedBy := None\<rparr>)"

definition new_handleDoc :: "HandleClaim \<Rightarrow> time \<Rightarrow> handleDoc" where
  "new_handleDoc c ts = \<lparr>hr_Handle = hc_Handle c, hr_Skeleton = hc_Skeleton c, hr_IdentityKey = Some (hc_IdentityKey c),
     hr_LastIdentityKey = hc_IdentityKey c, hr_Certificate = Some (hc_Certificate c),
     hr_SerialNumber = hc_SerialNumber c, hr_IssuedAt = hc_IssuedAt c, hr_CreatedAt = ts, hr_UpdatedAt = ts,
     hr_ReleasedAt = None, hr_CooldownUntil = None, hr_ReleasedBy = None\<rparr>"

definition insert_handle :: "HandleClaim \<Rightarrow> time \<Rightarrow> handleDoc list \<Rightarrow> bool reply \<times> handleDoc list" where
  "insert_handle c ts docs =
     (if \<exists>y \<in> set docs. clashes (new_handleDoc c ts) y then (DuplicateKey, docs)
      else (Reply True, docs @ [new_handleDoc c ts]))"

definition release_write :: "HandleRelease \<Rightarrow> time \<Rightarrow> handleDoc list \<Rightarrow> bool reply \<times> handleDoc list" where
  "release_write r ts =
     update_handle (rl_Handle r)
       (\<lambda>x. case rl_Owner r of
          None \<Rightarrow> hr_IdentityKey x \<noteq> None
        | Some own \<Rightarrow> hr_IdentityKey x = Some own \<and> (case rl_IssuedAt r of None \<Rightarrow> False | Some t \<Rightarrow> hr_IssuedAt x < t))
       (\<lambda>x. x\<lparr>hr_IdentityKey := None, hr_Certificate := None, hr_UpdatedAt := ts,
              hr_ReleasedAt := Some (rl_Now r), hr_ReleasedBy := Some (rl_ReleasedBy r),
              hr_IssuedAt := (case (rl_Owner r, rl_IssuedAt r) of (Some _, Some t) \<Rightarrow> t | _ \<Rightarrow> hr_IssuedAt x),
              hr_CooldownUntil := rl_CooldownUntil r\<rparr>)"

section \<open>Round trips among other clients\<close>

datatype handle_write = OwnerUpdate HandleClaim time | Reclaim HandleClaim time
  | InsertHandle HandleClaim time | ReleaseWrite HandleRelease time

fun apply_write :: "handle_write \<Rightarrow> handleDoc list \<Rightarrow> bool reply \<times> handleDoc list" where
  "apply_write (OwnerUpdate c ts) docs = owner_update c ts docs"
| "apply_write (Reclaim c ts) docs = reclaim c ts docs"
| "apply_write (InsertHandle c ts) docs = insert_handle c ts docs"
| "apply_write (ReleaseWrite r ts) docs = release_write r ts docs"

record handle_db =
  h_docs :: "handleDoc list"
  h_others :: "handle_write list list"

type_synonym registry = "handle_db conn"

definition run_writes :: "handle_write list \<Rightarrow> handleDoc list \<Rightarrow> handleDoc list" where
  "run_writes ws docs = fold (\<lambda>w ds. snd (apply_write w ds)) ws docs"

definition others_write :: "handle_db \<Rightarrow> handle_db" where
  "others_write d =
     (case h_others d of
        [] \<Rightarrow> d
      | ws # rest \<Rightarrow> d\<lparr>h_docs := run_writes ws (h_docs d), h_others := rest\<rparr>)"

definition hcall :: "(handleDoc list \<Rightarrow> 'a \<times> handleDoc list) \<Rightarrow> registry \<Rightarrow> (handle_error + 'a) \<times> registry" where
  "hcall f s =
     (case call (\<lambda>d. let d1 = others_write d; (a, docs) = f (h_docs d1) in (a, d1\<lparr>h_docs := docs\<rparr>)) s of
        (Inl _, s1) \<Rightarrow> (Inl ErrRegistryFault, s1)
      | (Inr a, s1) \<Rightarrow> (Inr a, s1))"

section \<open>Operations\<close>

definition getHandleWhere :: "(handleDoc \<Rightarrow> bool) \<Rightarrow> registry \<Rightarrow> (handle_error + HandleRecord option) \<times> registry" where
  "getHandleWhere P s = hcall (\<lambda>docs. (find P docs, docs)) s"

definition mongo_GetHandle :: "string \<Rightarrow> registry \<Rightarrow> (handle_error + HandleRecord option) \<times> registry" where
  "mongo_GetHandle h = getHandleWhere (\<lambda>x. hr_Handle x = h)"

definition mongo_GetHandleBySkeleton :: "string \<Rightarrow> registry \<Rightarrow> (handle_error + HandleRecord option) \<times> registry" where
  "mongo_GetHandleBySkeleton sk = getHandleWhere (\<lambda>x. hr_Skeleton x = sk)"

definition mongo_GetHandleByIdentityKey :: "string \<Rightarrow> registry \<Rightarrow> (handle_error + HandleRecord option) \<times> registry" where
  "mongo_GetHandleByIdentityKey k = getHandleWhere (\<lambda>x. hr_IdentityKey x = Some k)"

definition mongoReader :: "registry HandleReader" where
  "mongoReader = \<lparr>GetHandle = mongo_GetHandle, GetHandleBySkeleton = mongo_GetHandleBySkeleton,
     GetHandleByIdentityKey = mongo_GetHandleByIdentityKey\<rparr>"

definition msClaim :: "HandleClaim \<Rightarrow> HandleClaim" where
  "msClaim c = c\<lparr>hc_IssuedAt := truncMs (hc_IssuedAt c), hc_Now := truncMs (hc_Now c)\<rparr>"

definition claimOnce :: "HandleClaim \<Rightarrow> registry \<Rightarrow> (handle_error + ClaimResult) \<times> registry" where
  "claimOnce c0 s =
     (let ts = truncMs (conn_clock s); c = msClaim c0 in
      case hcall (owner_update c ts) s of
        (Inl e, s1) \<Rightarrow> (Inl e, s1)
      | (Inr DuplicateKey, s1) \<Rightarrow> DiagnoseClaim mongoReader c s1
      | (Inr (Reply True), s1) \<Rightarrow> (Inr ClaimUpdated, s1)
      | (Inr (Reply False), s1) \<Rightarrow>
          (case hcall (reclaim c ts) s1 of
             (Inl e, s2) \<Rightarrow> (Inl e, s2)
           | (Inr DuplicateKey, s2) \<Rightarrow> DiagnoseClaim mongoReader c s2
           | (Inr (Reply True), s2) \<Rightarrow> (Inr ClaimCreated, s2)
           | (Inr (Reply False), s2) \<Rightarrow>
               (case hcall (insert_handle c ts) s2 of
                  (Inl e, s3) \<Rightarrow> (Inl e, s3)
                | (Inr DuplicateKey, s3) \<Rightarrow> DiagnoseClaim mongoReader c s3
                | (Inr (Reply _), s3) \<Rightarrow> (Inr ClaimCreated, s3))))"

definition mongo_ClaimHandle :: "HandleClaim \<Rightarrow> registry \<Rightarrow> (handle_error + ClaimResult) \<times> registry" where
  "mongo_ClaimHandle c s =
     (case claimOnce c s of
        (Inl ErrClaimRaced, s1) \<Rightarrow> claimOnce c s1
      | (x, s1) \<Rightarrow> (x, s1))"

definition msRelease :: "HandleRelease \<Rightarrow> HandleRelease" where
  "msRelease r = r\<lparr>rl_Now := truncMs (rl_Now r), rl_CooldownUntil := map_option truncMs (rl_CooldownUntil r),
     rl_IssuedAt := (if rl_Owner r = None then rl_IssuedAt r else map_option truncMs (rl_IssuedAt r))\<rparr>"

definition mongo_ReleaseHandle :: "HandleRelease \<Rightarrow> registry \<Rightarrow> (handle_error + unit) \<times> registry" where
  "mongo_ReleaseHandle r0 s =
     (case ValidateRelease r0 of
        Some e \<Rightarrow> (Inl e, s)
      | None \<Rightarrow>
          (let r = msRelease r0 in
           case hcall (release_write r (truncMs (conn_clock s))) s of
             (Inl e, s1) \<Rightarrow> (Inl e, s1)
           | (Inr (Reply True), s1) \<Rightarrow> (Inr (), s1)
           | (Inr (Reply False), s1) \<Rightarrow> DiagnoseRelease mongoReader r s1
           | (Inr DuplicateKey, s1) \<Rightarrow> (Inl ErrRegistryFault, s1)))"

definition handle_field :: "HandleField \<Rightarrow> handleDoc \<Rightarrow> string" where
  "handle_field f x = (case f of HandleFieldHandle \<Rightarrow> hr_Handle x | HandleFieldSkeleton \<Rightarrow> hr_Skeleton x)"

definition handle_matches :: "HandleMatch \<Rightarrow> handleDoc \<Rightarrow> bool" where
  "handle_matches m x \<longleftrightarrow> hr_IdentityKey x \<noteq> None \<and>
     (if hm_Mode m = HandleMatchContains then containsStr (handle_field (hm_Field m) x) (hm_Value m)
      else hasPrefix (handle_field (hm_Field m) x) (hm_Value m))"

definition mongo_FindHandles :: "HandleMatch \<Rightarrow> registry \<Rightarrow> (handle_error + HandleRecord list) \<times> registry" where
  "mongo_FindHandles m s =
     (if hm_Limit m \<le> 0 then (Inr [], s)
      else hcall (\<lambda>docs. (take (nat (hm_Limit m)) (sort_key hr_Handle (filter (handle_matches m) docs)), docs)) s)"

definition MongoHandles :: "registry HandleStore" where
  "MongoHandles = \<lparr>GetHandle = mongo_GetHandle, GetHandleBySkeleton = mongo_GetHandleBySkeleton,
     GetHandleByIdentityKey = mongo_GetHandleByIdentityKey, ClaimHandle = mongo_ClaimHandle,
     ReleaseHandle = mongo_ReleaseHandle, FindHandles = mongo_FindHandles\<rparr>"

end
