(* ===== verification/Handle_Safety.thy ===== *)
theory Handle_Safety
  imports Handle_Registry
begin

text \<open>
  What the registry guarantees: the unique keys hold after every write, a handle's certificate never
  gets older, an operation under interference is a sequence of atomic writes of which at most one is
  its own, and a claim that nobody interferes with decides as documented.
\<close>

section \<open>Single writes\<close>

definition registry_ok :: "handleDoc list \<Rightarrow> bool" where
  "registry_ok docs \<longleftrightarrow> distinct (map hr_Handle docs) \<and>
     (\<forall>x \<in> set docs. \<forall>y \<in> set docs. hr_Handle x \<noteq> hr_Handle y \<longrightarrow> \<not> clashes x y)"

lemma clashes_sym: "clashes a b \<longleftrightarrow> clashes b a"
  unfolding clashes_def by metis

lemma same_handle: "registry_ok docs \<Longrightarrow> x \<in> set docs \<Longrightarrow> y \<in> set docs \<Longrightarrow> hr_Handle x = hr_Handle y \<Longrightarrow> x = y"
  by (metis map_of_distinct_eq registry_ok_def)

lemma find_handle:
  assumes "registry_ok docs" and "x \<in> set docs" and "P x"
  shows "find (\<lambda>y. hr_Handle y = hr_Handle x \<and> P y) docs = Some x"
  using assms by (intro find_unique [where f = hr_Handle]) (auto simp: registry_ok_def)

text \<open>An update either matched nothing, or would break a unique key, or changed the one document.\<close>

lemma update_handle_cases:
  assumes ok: "registry_ok docs" and f: "\<And>x. hr_Handle (f x) = hr_Handle x" and eq: "update_handle h P f docs = (rep, docs')"
  obtains (none) "rep = Reply False" "docs' = docs" "\<forall>x \<in> set docs. hr_Handle x = h \<longrightarrow> \<not> P x"
    | (dup) x y where "rep = DuplicateKey" "docs' = docs" "x \<in> set docs" "hr_Handle x = h" "P x"
        "y \<in> set docs" "hr_Handle y \<noteq> h" "clashes (f x) y"
    | (wrote) x where "rep = Reply True" "x \<in> set docs" "hr_Handle x = h" "P x"
        "docs' = map (\<lambda>y. if hr_Handle y = h then f y else y) docs" "set docs' = insert (f x) {y \<in> set docs. hr_Handle y \<noteq> h}"
        "\<forall>y \<in> set docs. hr_Handle y \<noteq> h \<longrightarrow> \<not> clashes (f x) y"
proof (cases "find (\<lambda>x. hr_Handle x = h \<and> P x) docs")
  case None
  with eq have "rep = Reply False" "docs' = docs" by (simp_all add: update_handle_def)
  with None show thesis by (intro none) (auto simp: find_None_all)
next
  case (Some x)
  then have x: "x \<in> set docs" "hr_Handle x = h" "P x" by (auto dest: find_Some_mem)
  show thesis
  proof (cases "\<exists>y \<in> set docs. hr_Handle y \<noteq> h \<and> clashes (f x) y")
    case True
    then show thesis using eq dup x Some by (auto simp: update_handle_def)
  next
    case False
    have P: "y = x" if "y \<in> set docs" "hr_Handle y = h" for y using same_handle [OF ok that(1) x(1)] that(2) x(2) by simp
    have m: "map (\<lambda>y. if hr_Handle y = h \<and> P y then f y else y) docs = map (\<lambda>y. if hr_Handle y = h then f y else y) docs"
    proof (rule map_cong [OF refl])
      fix y
      assume "y \<in> set docs"
      with P [of y] x(3) show "(if hr_Handle y = h \<and> P y then f y else y) = (if hr_Handle y = h then f y else y)"
        by (cases "hr_Handle y = h") simp_all
    qed
    have "set (map (\<lambda>y. if hr_Handle y = h then f y else y) docs) = insert (f x) {y \<in> set docs. hr_Handle y \<noteq> h}"
    proof (intro equalityI subsetI)
      fix z
      assume "z \<in> set (map (\<lambda>y. if hr_Handle y = h then f y else y) docs)"
      then obtain y where "y \<in> set docs" "z = (if hr_Handle y = h then f y else y)" by auto
      with P [of y] show "z \<in> insert (f x) {y \<in> set docs. hr_Handle y \<noteq> h}" by (cases "hr_Handle y = h") simp_all
    qed (use x in \<open>force split: if_splits\<close>)
    moreover have "rep = Reply True" "docs' = map (\<lambda>y. if hr_Handle y = h then f y else y) docs"
      using eq Some False m by (simp_all add: update_handle_def)
    ultimately show thesis using x False by (intro wrote [of x]) auto
  qed
qed

lemma update_handle_ok:
  assumes ok: "registry_ok docs" and f: "\<And>x. hr_Handle (f x) = hr_Handle x" and eq: "update_handle h P f docs = (rep, docs')"
  shows "registry_ok docs'"
  using ok f eq
proof (cases rule: update_handle_cases)
  case (wrote x)
  have "map hr_Handle docs' = map hr_Handle docs" unfolding wrote(5) using f by simp
  moreover have "\<not> clashes a b" if ab: "a \<in> set docs'" "b \<in> set docs'" "hr_Handle a \<noteq> hr_Handle b" for a b
  proof -
    consider "a = f x" "b \<in> set docs" "hr_Handle b \<noteq> h" | "b = f x" "a \<in> set docs" "hr_Handle a \<noteq> h"
      | "a \<in> set docs" "b \<in> set docs"
      using ab wrote(6) f [of x] by auto
    then show ?thesis
    proof cases
      case 2
      with wrote(7) have "\<not> clashes b a" by blast
      then show ?thesis by (simp add: clashes_sym [of a b])
    qed (use wrote(7) ok ab(3) in \<open>auto simp: registry_ok_def\<close>)
  qed
  ultimately show ?thesis using ok by (simp add: registry_ok_def)
qed (use ok in auto)

definition write_ok :: "handleDoc list \<Rightarrow> handleDoc list \<Rightarrow> bool" where
  "write_ok docs docs' \<longleftrightarrow> registry_ok docs' \<and>
     (\<forall>x \<in> set docs. \<exists>x' \<in> set docs'. hr_Handle x' = hr_Handle x \<and> hr_CreatedAt x' = hr_CreatedAt x \<and> hr_IssuedAt x \<le> hr_IssuedAt x')"

lemma write_ok_refl: "registry_ok docs \<Longrightarrow> write_ok docs docs"
  by (auto simp: write_ok_def)

lemma write_ok_trans:
  assumes "write_ok a b" and "write_ok b c"
  shows "write_ok a c"
  unfolding write_ok_def
proof (intro conjI ballI)
  fix x
  assume "x \<in> set a"
  with assms(1) obtain y where y: "y \<in> set b" "hr_Handle y = hr_Handle x" "hr_CreatedAt y = hr_CreatedAt x" "hr_IssuedAt x \<le> hr_IssuedAt y"
    unfolding write_ok_def by blast
  with assms(2) obtain z where "z \<in> set c" "hr_Handle z = hr_Handle y" "hr_CreatedAt z = hr_CreatedAt y" "hr_IssuedAt y \<le> hr_IssuedAt z"
    unfolding write_ok_def by blast
  with y show "\<exists>x' \<in> set c. hr_Handle x' = hr_Handle x \<and> hr_CreatedAt x' = hr_CreatedAt x \<and> hr_IssuedAt x \<le> hr_IssuedAt x'"
    by (intro bexI [of _ z]) auto
qed (use assms in \<open>simp add: write_ok_def\<close>)

lemma update_write_ok:
  assumes ok: "registry_ok docs" and f: "\<And>x. hr_Handle (f x) = hr_Handle x" "\<And>x. hr_CreatedAt (f x) = hr_CreatedAt x"
    and g: "\<And>x. P x \<Longrightarrow> hr_IssuedAt x \<le> hr_IssuedAt (f x)" and eq: "update_handle h P f docs = (rep, docs')"
  shows "write_ok docs docs'"
  using ok f(1) eq
proof (cases rule: update_handle_cases)
  case (wrote x)
  have "registry_ok docs'" using update_handle_ok [OF ok f(1) eq] .
  moreover have "\<exists>x' \<in> set docs'. hr_Handle x' = hr_Handle y \<and> hr_CreatedAt x' = hr_CreatedAt y \<and> hr_IssuedAt y \<le> hr_IssuedAt x'"
    if y: "y \<in> set docs" for y
  proof (cases "hr_Handle y = h")
    case True
    then have "y = x" using same_handle [OF ok y wrote(2)] wrote(3) by simp
    with wrote(4,6) f g show ?thesis by (intro bexI [of _ "f x"]) auto
  next
    case False
    with wrote(6) y show ?thesis by (intro bexI [of _ y]) auto
  qed
  ultimately show ?thesis by (simp add: write_ok_def)
qed (simp_all add: write_ok_refl ok)

lemma insert_write_ok:
  assumes ok: "registry_ok docs" and eq: "insert_handle c ts docs = (rep, docs')"
  shows "write_ok docs docs'"
proof (cases "\<exists>y \<in> set docs. clashes (new_handleDoc c ts) y")
  case True
  with eq ok show ?thesis by (auto simp: insert_handle_def write_ok_refl)
next
  case False
  with eq have d: "docs' = docs @ [new_handleDoc c ts]" by (auto simp: insert_handle_def)
  have new: "hr_Handle (new_handleDoc c ts) \<notin> hr_Handle ` set docs" using False by (auto simp: clashes_def)
  have nc: "\<not> clashes (new_handleDoc c ts) y" "\<not> clashes y (new_handleDoc c ts)" if "y \<in> set docs" for y
    using False that clashes_sym by blast+
  have "registry_ok docs'" using ok nc new by (auto simp: d registry_ok_def)
  then show ?thesis by (auto simp: write_ok_def d)
qed

text \<open>Every write keeps the unique keys, every document and its creation time, and never makes a
  certificate older.\<close>

lemma apply_write_ok:
  assumes ok: "registry_ok docs" and eq: "apply_write w docs = (rep, docs')"
  shows "write_ok docs docs'"
proof (cases w)
  case (OwnerUpdate c ts)
  show ?thesis by (rule update_write_ok [OF ok _ _ _ eq [unfolded OwnerUpdate apply_write.simps owner_update_def]]) auto
next
  case (Reclaim c ts)
  show ?thesis by (rule update_write_ok [OF ok _ _ _ eq [unfolded Reclaim apply_write.simps reclaim_def]])
      (auto simp: reclaimable_def)
next
  case (InsertHandle c ts)
  then show ?thesis using insert_write_ok [OF ok] eq by simp
next
  case (ReleaseWrite r ts)
  show ?thesis by (rule update_write_ok [OF ok _ _ _ eq [unfolded ReleaseWrite apply_write.simps release_write_def]])
      (auto split: option.splits)
qed

lemma run_writes_Nil [simp]: "run_writes [] docs = docs"
  by (simp add: run_writes_def)

lemma run_writes_Cons [simp]: "run_writes (w # ws) docs = run_writes ws (snd (apply_write w docs))"
  by (simp add: run_writes_def)

lemma run_writes_append [simp]: "run_writes (ws @ vs) docs = run_writes vs (run_writes ws docs)"
  by (simp add: run_writes_def)

lemma run_writes_ok: "registry_ok docs \<Longrightarrow> write_ok docs (run_writes ws docs)"
proof (induction ws arbitrary: docs)
  case (Cons w ws)
  have "write_ok docs (snd (apply_write w docs))" using apply_write_ok [OF Cons.prems] by (metis prod.collapse)
  moreover from this have "write_ok (snd (apply_write w docs)) (run_writes ws (snd (apply_write w docs)))"
    by (intro Cons.IH) (simp add: write_ok_def)
  ultimately show ?case by (auto intro: write_ok_trans)
qed (simp add: write_ok_refl)

lemma run_writes_registry: "registry_ok docs \<Longrightarrow> registry_ok (run_writes ws docs)"
  using run_writes_ok [of docs ws] by (simp add: write_ok_def)

section \<open>Colliding claims\<close>

text \<open>The claims of a history that bound a handle to a key.\<close>

fun created_in :: "handle_write list \<Rightarrow> handleDoc list \<Rightarrow> HandleClaim list" where
  "created_in [] docs = []"
| "created_in (w # ws) docs =
     (case w of
        Reclaim c ts \<Rightarrow> if fst (apply_write w docs) = Reply True then [c] else []
      | InsertHandle c ts \<Rightarrow> if fst (apply_write w docs) = Reply True then [c] else []
      | _ \<Rightarrow> []) @ created_in ws (snd (apply_write w docs))"

fun claim_write :: "(string \<Rightarrow> string) \<Rightarrow> handle_write \<Rightarrow> bool" where
  "claim_write skel (OwnerUpdate c ts) \<longleftrightarrow> hc_Skeleton c = skel (hc_Handle c)"
| "claim_write skel (Reclaim c ts) \<longleftrightarrow> hc_Skeleton c = skel (hc_Handle c)"
| "claim_write skel (InsertHandle c ts) \<longleftrightarrow> hc_Skeleton c = skel (hc_Handle c)"
| "claim_write skel (ReleaseWrite r ts) \<longleftrightarrow> False"

definition held :: "handleDoc list \<Rightarrow> HandleClaim \<Rightarrow> bool" where
  "held docs c \<longleftrightarrow> (\<exists>x \<in> set docs. hr_Handle x = hc_Handle c \<and> hr_IdentityKey x = Some (hc_IdentityKey c) \<and> hr_Skeleton x = hc_Skeleton c)"

lemma heldI: "x \<in> set docs \<Longrightarrow> hr_Handle x = hc_Handle c \<Longrightarrow> hr_IdentityKey x = Some (hc_IdentityKey c) \<Longrightarrow>
    hr_Skeleton x = hc_Skeleton c \<Longrightarrow> held docs c"
  by (auto simp: held_def)

lemma held_update:
  assumes ok: "registry_ok docs" and h: "held docs c" and f: "\<And>x. hr_Handle (f x) = hr_Handle x"
    and g: "\<And>x. P x \<Longrightarrow> hr_Handle x = h \<Longrightarrow> h = hc_Handle c \<Longrightarrow> hr_IdentityKey x = Some (hc_IdentityKey c) \<Longrightarrow>
      hr_IdentityKey (f x) = Some (hc_IdentityKey c) \<and> hr_Skeleton (f x) = hc_Skeleton c"
    and eq: "update_handle h P f docs = (rep, docs')"
  shows "held docs' c"
  using ok f eq
proof (cases rule: update_handle_cases)
  case (wrote x)
  obtain y where y: "y \<in> set docs" "hr_Handle y = hc_Handle c" "hr_IdentityKey y = Some (hc_IdentityKey c)" "hr_Skeleton y = hc_Skeleton c"
    using h by (auto simp: held_def)
  show ?thesis
  proof (cases "hr_Handle y = h")
    case True
    then have "y = x" using same_handle [OF ok y(1) wrote(2)] wrote(3) by simp
    with g [OF wrote(4,3)] y True wrote(6) f show ?thesis by (intro heldI [of "f x"]) auto
  next
    case False
    with y wrote(6) show ?thesis by (intro heldI [of y]) auto
  qed
qed (use h in auto)

lemma held_write:
  assumes ok: "registry_ok docs" and h: "held docs c" and sk: "hc_Skeleton c = skel (hc_Handle c)"
    and w: "claim_write skel w" and eq: "apply_write w docs = (rep, docs')"
  shows "held docs' c"
proof (cases w)
  case (OwnerUpdate d ts)
  show ?thesis
    by (rule held_update [OF ok h _ _ eq [unfolded OwnerUpdate apply_write.simps owner_update_def]])
      (use w sk OwnerUpdate in auto)
next
  case (Reclaim d ts)
  show ?thesis
    by (rule held_update [OF ok h _ _ eq [unfolded Reclaim apply_write.simps reclaim_def]])
      (auto simp: reclaimable_def)
next
  case (InsertHandle d ts)
  with eq h show ?thesis by (auto simp: insert_handle_def held_def split: if_splits)
next
  case (ReleaseWrite r ts)
  with w show ?thesis by simp
qed

text \<open>A claim that binds a handle collides with none that already holds one, and holds its own.\<close>

definition apart :: "HandleClaim \<Rightarrow> HandleClaim \<Rightarrow> bool" where
  "apart c d \<longleftrightarrow> hc_Handle c \<noteq> hc_Handle d \<and> hc_Skeleton c \<noteq> hc_Skeleton d \<and> hc_IdentityKey c \<noteq> hc_IdentityKey d"

lemma reclaim_created:
  assumes ok: "registry_ok docs" and eq: "reclaim d ts docs = (Reply True, docs')"
  shows "held docs' d" and "held docs c \<Longrightarrow> apart d c"
proof -
  let ?f = "\<lambda>x. x\<lparr>hr_Skeleton := hc_Skeleton d, hr_IdentityKey := Some (hc_IdentityKey d),
              hr_LastIdentityKey := hc_IdentityKey d, hr_Certificate := Some (hc_Certificate d),
              hr_SerialNumber := hc_SerialNumber d, hr_IssuedAt := hc_IssuedAt d, hr_UpdatedAt := ts,
              hr_ReleasedAt := None, hr_CooldownUntil := None, hr_ReleasedBy := None\<rparr>"
  have f: "\<And>x. hr_Handle (?f x) = hr_Handle x" by simp
  have "held docs' d \<and> (held docs c \<longrightarrow> apart d c)"
    using ok f eq [unfolded reclaim_def]
  proof (cases rule: update_handle_cases)
    case (wrote x)
    have "held docs' d" using wrote(3,6) by (intro heldI [of "?f x"]) auto
    moreover have "apart d c" if hc: "held docs c"
    proof -
      obtain y where y: "y \<in> set docs" "hr_Handle y = hc_Handle c" "hr_IdentityKey y = Some (hc_IdentityKey c)" "hr_Skeleton y = hc_Skeleton c"
        using hc by (auto simp: held_def)
      have "hr_Handle y \<noteq> hc_Handle d"
      proof
        assume "hr_Handle y = hc_Handle d"
        then have "y = x" using same_handle [OF ok y(1) wrote(2)] wrote(3) by simp
        with wrote(4) y(3) show False by (simp add: reclaimable_def)
      qed
      with wrote(7) y show ?thesis by (auto simp: apart_def clashes_def)
    qed
    ultimately show ?thesis by blast
  qed simp_all
  then show "held docs' d" "held docs c \<Longrightarrow> apart d c" by blast+
qed

lemma insert_created:
  assumes "insert_handle d ts docs = (Reply True, docs')"
  shows "held docs' d" and "held docs c \<Longrightarrow> apart d c"
  using assms by (auto simp: insert_handle_def held_def apart_def clashes_def new_handleDoc_def split: if_splits)

lemma created_apart:
  assumes "registry_ok docs" and "\<forall>w \<in> set ws. claim_write skel w"
    and "\<forall>c \<in> set cs. held docs c \<and> hc_Skeleton c = skel (hc_Handle c)"
  shows "sorted_wrt (\<lambda>c d. apart d c) (created_in ws docs) \<and> (\<forall>c \<in> set cs. \<forall>d \<in> set (created_in ws docs). apart d c)"
  using assms
proof (induction ws arbitrary: docs cs)
  case (Cons w ws)
  obtain rep docs' where eq: "apply_write w docs = (rep, docs')" by fastforce
  have ok': "registry_ok docs'" using apply_write_ok [OF Cons.prems(1) eq] by (simp add: write_ok_def)
  have w: "claim_write skel w" "\<forall>v \<in> set ws. claim_write skel v" using Cons.prems(2) by auto
  have keep: "\<forall>c \<in> set cs. held docs' c \<and> hc_Skeleton c = skel (hc_Handle c)"
    using Cons.prems(3) held_write [OF Cons.prems(1) _ _ w(1) eq] by blast
  consider (no) "created_in (w # ws) docs = created_in ws docs'"
    | (new) d where "created_in (w # ws) docs = d # created_in ws docs'" "held docs' d" "hc_Skeleton d = skel (hc_Handle d)"
        "\<forall>c \<in> set cs. apart d c"
  proof (cases w)
    case (Reclaim d ts)
    with eq w no new reclaim_created [OF Cons.prems(1), of d ts docs'] Cons.prems(3) show thesis
      by (cases "rep = Reply True") auto
  next
    case (InsertHandle d ts)
    with eq w no new insert_created [of d ts docs docs'] Cons.prems(3) show thesis
      by (cases "rep = Reply True") auto
  qed (use eq no in auto)
  then show ?case
  proof cases
    case no
    with Cons.IH [OF ok' w(2) keep] show ?thesis by simp
  next
    case (new d)
    have "\<forall>c \<in> set (d # cs). held docs' c \<and> hc_Skeleton c = skel (hc_Handle c)" using keep new by simp
    from Cons.IH [OF ok' w(2) this] new show ?thesis by simp
  qed
qed simp

lemma created_distinct:
  assumes "registry_ok docs" and "\<forall>w \<in> set ws. claim_write skel w"
  shows "distinct (map hc_Handle (created_in ws docs)) \<and> distinct (map hc_Skeleton (created_in ws docs)) \<and>
    distinct (map hc_IdentityKey (created_in ws docs))"
proof -
  have "sorted_wrt (\<lambda>c d. apart d c) (created_in ws docs)" using created_apart [OF assms, of "[]"] by simp
  moreover have "distinct (map hc_Handle cs) \<and> distinct (map hc_Skeleton cs) \<and> distinct (map hc_IdentityKey cs)"
    if "sorted_wrt (\<lambda>c d. apart d c) cs" for cs
    using that by (induction cs) (auto simp: apart_def)
  ultimately show ?thesis by blast
qed

section \<open>Round trips\<close>

abbreviation reg_docs :: "registry \<Rightarrow> handleDoc list" where
  "reg_docs s \<equiv> h_docs (conn_data s)"

text \<open>The writes other clients may still make.\<close>

definition env_writes :: "registry \<Rightarrow> handle_write set" where
  "env_writes s = set (concat (h_others (conn_data s)))"

definition quiet :: "registry \<Rightarrow> bool" where
  "quiet s \<longleftrightarrow> healthy s \<and> env_writes s = {}"

text \<open>Nothing but writes of other clients happened.\<close>

definition env :: "registry \<Rightarrow> registry \<Rightarrow> bool" where
  "env s s' \<longleftrightarrow> (\<exists>ws. set ws \<subseteq> env_writes s \<and> reg_docs s' = run_writes ws (reg_docs s)) \<and>
     env_writes s' \<subseteq> env_writes s \<and> conn_clock s' = conn_clock s"

lemma env_refl: "env s s"
  by (auto simp: env_def intro!: exI [of _ "[]"])

lemma env_trans:
  assumes "env a b" and "env b c"
  shows "env a c"
proof -
  obtain ws vs where "set ws \<subseteq> env_writes a" "reg_docs b = run_writes ws (reg_docs a)"
    "set vs \<subseteq> env_writes b" "reg_docs c = run_writes vs (reg_docs b)" using assms unfolding env_def by blast
  with assms show ?thesis unfolding env_def by (intro conjI exI [of _ "ws @ vs"]) auto
qed

lemma others_write_run:
  "\<exists>ws. set ws \<subseteq> set (concat (h_others d)) \<and> h_docs (others_write d) = run_writes ws (h_docs d) \<and>
     set (concat (h_others (others_write d))) \<subseteq> set (concat (h_others d))"
  by (cases "h_others d") (auto simp: others_write_def intro: exI [of _ "[]"])

lemma hcall_cases:
  assumes eq: "hcall f s = (y, s')"
  obtains (ok) s1 a where "env s s1" "y = Inr a" "f (reg_docs s1) = (a, reg_docs s')" "env_writes s' = env_writes s1"
      "conn_clock s' = conn_clock s1"
    | (fault) s1 where "env s s1" "y = Inl ErrRegistryFault" "\<not> healthy s" "env_writes s' = env_writes s1"
      "reg_docs s' = reg_docs s1 \<or> reg_docs s' = snd (f (reg_docs s1))" "conn_clock s' = conn_clock s1"
proof -
  let ?g = "\<lambda>d. let d1 = others_write d; (a, docs) = f (h_docs d1) in (a, d1\<lparr>h_docs := docs\<rparr>)"
  let ?d1 = "others_write (conn_data s)" and ?s1 = "s\<lparr>conn_data := others_write (conn_data s)\<rparr>"
  obtain a docs where fd: "f (h_docs ?d1) = (a, docs)" by fastforce
  obtain z s2 where z: "call ?g s = (z, s2)" by fastforce
  have g: "?g (conn_data s) = (a, ?d1\<lparr>h_docs := docs\<rparr>)" by (simp add: fd)
  note c = call_cases [OF z g] and cl = call_clock [OF z]
  have e1: "env s ?s1" using others_write_run [of "conn_data s"] by (auto simp: env_def env_writes_def)
  from eq z consider (i) b where "z = Inr b" "y = Inr b" "s' = s2" | (l) e where "z = Inl e" "y = Inl ErrRegistryFault" "s' = s2"
    by (auto simp: hcall_def split: sum.splits)
  then show thesis
  proof cases
    case i
    with c have "b = a" "conn_data s' = ?d1\<lparr>h_docs := docs\<rparr>" by auto
    with i e1 fd cl show thesis by (intro ok [of ?s1 a]) (auto simp: env_writes_def)
  next
    case l
    then have nh: "\<not> healthy s" and "conn_data s' = conn_data s \<or> conn_data s' = ?d1\<lparr>h_docs := docs\<rparr>" using c by auto
    then show thesis
    proof (elim disjE)
      assume "conn_data s' = conn_data s"
      with l nh cl show thesis by (intro fault [of s]) (auto simp: env_refl env_writes_def)
    next
      assume "conn_data s' = ?d1\<lparr>h_docs := docs\<rparr>"
      with l nh e1 fd cl show thesis by (intro fault [of ?s1]) (auto simp: env_writes_def)
    qed
  qed
qed

lemma hcall_quiet:
  assumes q: "quiet s" and f: "f (reg_docs s) = (a, docs)"
  obtains s' where "hcall f s = (Inr a, s')" "quiet s'" "reg_docs s' = docs" "conn_clock s' = conn_clock s"
proof -
  let ?g = "\<lambda>d. let d1 = others_write d; (a, docs) = f (h_docs d1) in (a, d1\<lparr>h_docs := docs\<rparr>)"
  have e: "concat (h_others (conn_data s)) = []" using q by (simp add: quiet_def env_writes_def)
  then have o: "h_docs (others_write (conn_data s)) = reg_docs s" "concat (h_others (others_write (conn_data s))) = []"
    by (cases "h_others (conn_data s)"; simp add: others_write_def)+
  then have g: "?g (conn_data s) = (a, (others_write (conn_data s))\<lparr>h_docs := docs\<rparr>)" using f by simp
  have h: "healthy s" using q by (simp add: quiet_def)
  from call_healthy [OF h, of ?g] g obtain s' where s': "call ?g s = (Inr a, s')" "healthy s'"
      "conn_data s' = (others_write (conn_data s))\<lparr>h_docs := docs\<rparr>" "conn_clock s' = conn_clock s" by auto
  show thesis
  proof (rule that)
    show "hcall f s = (Inr a, s')" using s'(1) by (simp add: hcall_def)
    show "quiet s'" using s' o by (simp add: quiet_def env_writes_def)
  qed (use s' in simp_all)
qed

section \<open>Operations as histories\<close>

lemma env_step: "env s s1 \<Longrightarrow> env_writes s' = env_writes s1 \<Longrightarrow> conn_clock s' = conn_clock s1 \<Longrightarrow>
    reg_docs s' = reg_docs s1 \<Longrightarrow> env s s'"
  by (auto simp: env_def)

lemma read_env:
  assumes "hcall (\<lambda>docs. (g docs, docs)) s = (y, s')"
  shows "env s s'"
  using assms by (rule hcall_cases) (auto intro: env_step)

lemma reader_env:
  "mongo_GetHandle h s = (y, s') \<Longrightarrow> env s s'"
  "mongo_GetHandleBySkeleton h s = (y, s') \<Longrightarrow> env s s'"
  "mongo_GetHandleByIdentityKey h s = (y, s') \<Longrightarrow> env s s'"
  by (auto simp: mongo_GetHandle_def mongo_GetHandleBySkeleton_def mongo_GetHandleByIdentityKey_def getHandleWhere_def
      intro: read_env)

lemma mongoReader_sel [simp]:
  "GetHandle mongoReader = mongo_GetHandle" "GetHandleBySkeleton mongoReader = mongo_GetHandleBySkeleton"
  "GetHandleByIdentityKey mongoReader = mongo_GetHandleByIdentityKey"
  by (simp_all add: mongoReader_def)

lemma DiagnoseClaim_env:
  assumes "DiagnoseClaim mongoReader c s = (x, s')"
  shows "env s s' \<and> x \<noteq> Inr ClaimCreated \<and> x \<noteq> Inr ClaimUpdated"
proof -
  obtain y1 s1 where y1: "mongo_GetHandle (hc_Handle c) s = (y1, s1)" by fastforce
  obtain y2 s2 where y2: "mongo_GetHandleByIdentityKey (hc_IdentityKey c) s1 = (y2, s2)" by fastforce
  obtain y3 s3 where y3: "mongo_GetHandleBySkeleton (hc_Skeleton c) s2 = (y3, s3)" by fastforce
  obtain y4 s4 where y4: "mongo_GetHandleBySkeleton (hc_Skeleton c) s1 = (y4, s4)" by fastforce
  note e = reader_env(1) [OF y1] reader_env(3) [OF y2] reader_env(2) [OF y3] reader_env(2) [OF y4]
  have "s' \<in> {s1, s2, s3, s4} \<and> x \<noteq> Inr ClaimCreated \<and> x \<noteq> Inr ClaimUpdated"
    using assms unfolding DiagnoseClaim_def mongoReader_sel y1 Let_def
    by (auto simp: y2 y3 y4 claimRaced_def split: sum.splits option.splits if_splits)
  then show ?thesis using e env_trans [OF e(1)] env_trans [OF env_trans [OF e(1,2)]] by auto
qed

lemma apply_write_fun:
  "apply_write (OwnerUpdate c ts) = owner_update c ts" "apply_write (Reclaim c ts) = reclaim c ts"
  "apply_write (InsertHandle c ts) = insert_handle c ts" "apply_write (ReleaseWrite r ts) = release_write r ts"
  by (simp_all add: fun_eq_iff)

lemma apply_noop: "apply_write w docs = (rep, docs') \<Longrightarrow> rep \<noteq> Reply True \<Longrightarrow> docs' = docs"
  by (cases w) (auto simp: owner_update_def reclaim_def release_write_def update_handle_def insert_handle_def
      split: option.splits if_splits)

text \<open>What a claim did: nothing of its own when it was refused, one write that applied when it was
  accepted, and at most one when the database did not answer.\<close>

definition claim_history ::
  "HandleClaim \<Rightarrow> time \<Rightarrow> handle_write set \<Rightarrow> handleDoc list \<Rightarrow> handle_error + ClaimResult \<Rightarrow> handleDoc list \<Rightarrow> bool" where
  "claim_history c ts E docs x docs' \<longleftrightarrow> (\<exists>ws. set ws \<subseteq> E \<and>
     (case x of
        Inr ClaimCreated \<Rightarrow> \<exists>w \<in> {Reclaim c ts, InsertHandle c ts}.
          fst (apply_write w (run_writes ws docs)) = Reply True \<and> docs' = run_writes (ws @ [w]) docs
      | Inr ClaimUpdated \<Rightarrow> fst (apply_write (OwnerUpdate c ts) (run_writes ws docs)) = Reply True \<and>
          docs' = run_writes (ws @ [OwnerUpdate c ts]) docs
      | Inr ClaimUnchanged \<Rightarrow> docs' = run_writes ws docs
      | Inl e \<Rightarrow> docs' = run_writes ws docs \<or>
          (e = ErrRegistryFault \<and> (\<exists>w \<in> {OwnerUpdate c ts, Reclaim c ts, InsertHandle c ts}. docs' = run_writes (ws @ [w]) docs))))"

lemma claim_history_prefix:
  assumes "set ws \<subseteq> E" and "claim_history c ts E (run_writes ws docs) x docs'"
  shows "claim_history c ts E docs x docs'"
proof -
  obtain vs where "set vs \<subseteq> E" and v: "case x of
        Inr ClaimCreated \<Rightarrow> \<exists>w \<in> {Reclaim c ts, InsertHandle c ts}.
          fst (apply_write w (run_writes (ws @ vs) docs)) = Reply True \<and> docs' = run_writes ((ws @ vs) @ [w]) docs
      | Inr ClaimUpdated \<Rightarrow> fst (apply_write (OwnerUpdate c ts) (run_writes (ws @ vs) docs)) = Reply True \<and>
          docs' = run_writes ((ws @ vs) @ [OwnerUpdate c ts]) docs
      | Inr ClaimUnchanged \<Rightarrow> docs' = run_writes (ws @ vs) docs
      | Inl e \<Rightarrow> docs' = run_writes (ws @ vs) docs \<or>
          (e = ErrRegistryFault \<and> (\<exists>w \<in> {OwnerUpdate c ts, Reclaim c ts, InsertHandle c ts}. docs' = run_writes ((ws @ vs) @ [w]) docs))"
    using assms(2) unfolding claim_history_def run_writes_append by blast
  with assms(1) show ?thesis unfolding claim_history_def by (intro exI [of _ "ws @ vs"] conjI) auto
qed

lemma claim_history_env:
  assumes "env s s1" and "claim_history c ts (env_writes s1) (reg_docs s1) x docs'"
  shows "claim_history c ts (env_writes s) (reg_docs s) x docs'"
proof -
  obtain ws where ws: "set ws \<subseteq> env_writes s" "reg_docs s1 = run_writes ws (reg_docs s)" and sub: "env_writes s1 \<subseteq> env_writes s"
    using assms(1) by (auto simp: env_def)
  have "claim_history c ts (env_writes s) (reg_docs s1) x docs'"
    using assms(2) sub unfolding claim_history_def by (meson subset_trans)
  then show ?thesis using claim_history_prefix [OF ws(1)] ws(2) by simp
qed

text \<open>One statement of a claim: the reply of the write, and the state in which it ran.\<close>

lemma write_trip:
  assumes "hcall (apply_write w) s = (y, s')"
  obtains (wrote) s1 where "env s s1" "y = Inr (Reply True)" "fst (apply_write w (reg_docs s1)) = Reply True"
      "reg_docs s' = snd (apply_write w (reg_docs s1))"
    | (refused) rep where "y = Inr rep" "rep \<noteq> Reply True" "env s s'"
    | (fault) s1 where "env s s1" "y = Inl ErrRegistryFault" "reg_docs s' = reg_docs s1 \<or> reg_docs s' = snd (apply_write w (reg_docs s1))"
  using assms
proof (rule hcall_cases)
  fix s1 a
  assume a: "env s s1" "y = Inr a" "apply_write w (reg_docs s1) = (a, reg_docs s')" "env_writes s' = env_writes s1"
    "conn_clock s' = conn_clock s1"
  show thesis
  proof (cases "a = Reply True")
    case True
    with a show thesis by (intro wrote [of s1]) auto
  next
    case False
    with a apply_noop have "reg_docs s' = reg_docs s1" by blast
    with a False show thesis by (intro refused [of a]) (auto intro: env_step)
  qed
next
  fix s1
  assume "env s s1" "y = Inl ErrRegistryFault" "reg_docs s' = reg_docs s1 \<or> reg_docs s' = snd (apply_write w (reg_docs s1))"
  then show thesis by (rule fault)
qed

lemma claim_wrote:
  assumes "env s s1" and "fst (apply_write w (reg_docs s1)) = Reply True" and "docs' = snd (apply_write w (reg_docs s1))"
    and "(x = Inr ClaimCreated \<and> w \<in> {Reclaim c ts, InsertHandle c ts}) \<or> (x = Inr ClaimUpdated \<and> w = OwnerUpdate c ts)"
  shows "claim_history c ts (env_writes s) (reg_docs s) x docs'"
  by (rule claim_history_env [OF assms(1)])
    (use assms(2-4) in \<open>auto simp: claim_history_def intro!: exI [of _ "[]"]\<close>)

lemma claim_fault:
  assumes "env s s1" and "docs' = reg_docs s1 \<or> docs' = snd (apply_write w (reg_docs s1))"
    and "w \<in> {OwnerUpdate c ts, Reclaim c ts, InsertHandle c ts}"
  shows "claim_history c ts (env_writes s) (reg_docs s) (Inl ErrRegistryFault) docs'"
  by (rule claim_history_env [OF assms(1)])
    (use assms(2,3) in \<open>auto simp: claim_history_def intro!: exI [of _ "[]"]\<close>)

lemma claim_diagnosed:
  assumes "env s s1" and "DiagnoseClaim mongoReader c s1 = (x, s')"
  shows "claim_history c ts (env_writes s) (reg_docs s) x (reg_docs s') \<and> env s s'"
proof -
  note d = DiagnoseClaim_env [OF assms(2)]
  have e: "env s s'" using env_trans [OF assms(1)] d by blast
  then obtain ws where "set ws \<subseteq> env_writes s" "reg_docs s' = run_writes ws (reg_docs s)" by (auto simp: env_def)
  with d e show ?thesis unfolding claim_history_def
    by (intro conjI exI [of _ ws]) (auto split: sum.splits ClaimResult.splits)
qed

text \<open>A statement of the claim with what follows it: every outcome but a miss ends the claim.\<close>

lemma claim_trip:
  assumes e: "env s s0" and y: "hcall (apply_write w) s0 = (y, s1)"
    and w: "(res = ClaimCreated \<and> w \<in> {Reclaim c ts, InsertHandle c ts}) \<or> (res = ClaimUpdated \<and> w = OwnerUpdate c ts)"
    and run: "(case y of Inl e \<Rightarrow> (Inl e, s1) | Inr DuplicateKey \<Rightarrow> DiagnoseClaim mongoReader c s1
       | Inr (Reply b) \<Rightarrow> if b then (Inr res, s1) else k s1) = (x, s')"
    and k: "y = Inr (Reply False) \<Longrightarrow> env s s1 \<Longrightarrow> k s1 = (x, s') \<Longrightarrow>
      claim_history c ts (env_writes s) (reg_docs s) x (reg_docs s') \<and> (x = Inl ErrClaimRaced \<longrightarrow> env s s')"
  shows "claim_history c ts (env_writes s) (reg_docs s) x (reg_docs s') \<and> (x = Inl ErrClaimRaced \<longrightarrow> env s s')"
  using y
proof (cases rule: write_trip)
  case (wrote t)
  with run have "x = Inr res" "s' = s1" by auto
  with claim_wrote [OF env_trans [OF e wrote(1)] wrote(3,4), of x c ts] w show ?thesis by auto
next
  case (fault t)
  with run have "x = Inl ErrRegistryFault" "s' = s1" by auto
  with claim_fault [OF env_trans [OF e fault(1)] fault(3), of c ts] w show ?thesis by auto
next
  case (refused rep)
  note e1 = env_trans [OF e refused(3)]
  show ?thesis
  proof (cases rep)
    case DuplicateKey
    with refused run have "DiagnoseClaim mongoReader c s1 = (x, s')" by simp
    from claim_diagnosed [OF e1 this] show ?thesis by blast
  next
    case (Reply b)
    with refused run k e1 show ?thesis by auto
  qed
qed

lemma claimOnce_history:
  assumes eq: "claimOnce c0 s = (x, s')"
  shows "claim_history (msClaim c0) (truncMs (conn_clock s)) (env_writes s) (reg_docs s) x (reg_docs s') \<and>
    (x = Inl ErrClaimRaced \<longrightarrow> env s s')"
proof -
  let ?c = "msClaim c0" and ?ts = "truncMs (conn_clock s)"
  let ?h = "\<lambda>w. hcall (apply_write w)"
  let ?after = "\<lambda>y (s1 :: registry) res k. case y of Inl e \<Rightarrow> (Inl e, s1) | Inr DuplicateKey \<Rightarrow> DiagnoseClaim mongoReader ?c s1
       | Inr (Reply b) \<Rightarrow> if b then (Inr res, s1) else k s1"
  let ?k2 = "\<lambda>s2. ?after (fst (?h (InsertHandle ?c ?ts) s2)) (snd (?h (InsertHandle ?c ?ts) s2)) ClaimCreated (\<lambda>s. (Inr ClaimCreated, s))"
  let ?k1 = "\<lambda>s1. ?after (fst (?h (Reclaim ?c ?ts) s1)) (snd (?h (Reclaim ?c ?ts) s1)) ClaimCreated ?k2"
  have "claimOnce c0 s = ?after (fst (?h (OwnerUpdate ?c ?ts) s)) (snd (?h (OwnerUpdate ?c ?ts) s)) ClaimUpdated ?k1"
    unfolding claimOnce_def Let_def apply_write_fun [symmetric] case_prod_beta by (auto split: sum.split reply.split bool.split simp del: apply_write.simps)
  with eq have run: "?after (fst (?h (OwnerUpdate ?c ?ts) s)) (snd (?h (OwnerUpdate ?c ?ts) s)) ClaimUpdated ?k1 = (x, s')" by simp
  show ?thesis
  proof (rule claim_trip [where w = "OwnerUpdate ?c ?ts" and res = ClaimUpdated and k = ?k1, OF env_refl prod.collapse [symmetric] _ run])
    let ?s1 = "snd (?h (OwnerUpdate ?c ?ts) s)"
    assume e1: "env s ?s1" and run1: "?k1 ?s1 = (x, s')"
    show ?thesis
    proof (rule claim_trip [where w = "Reclaim ?c ?ts" and res = ClaimCreated and k = ?k2, OF e1 prod.collapse [symmetric] _ run1])
      let ?s2 = "snd (?h (Reclaim ?c ?ts) ?s1)"
      assume e2: "env s ?s2" and run2: "?k2 ?s2 = (x, s')"
      show ?thesis
      proof (rule claim_trip [where w = "InsertHandle ?c ?ts" and res = ClaimCreated and k = "\<lambda>s. (Inr ClaimCreated, s)",
            OF e2 prod.collapse [symmetric] _ run2])
        assume "fst (?h (InsertHandle ?c ?ts) ?s2) = Inr (Reply False)"
        then obtain t where "hcall (apply_write (InsertHandle ?c ?ts)) ?s2 = (Inr (Reply False), t)" by (metis prod.collapse)
        then show ?thesis by (rule hcall_cases) (auto simp: insert_handle_def split: if_splits)
      qed simp
    qed simp
  qed simp
qed

lemma ClaimHandle_history:
  assumes eq: "mongo_ClaimHandle c s = (x, s')"
  shows "claim_history (msClaim c) (truncMs (conn_clock s)) (env_writes s) (reg_docs s) x (reg_docs s')"
proof -
  obtain y s1 where y: "claimOnce c s = (y, s1)" by fastforce
  note h = claimOnce_history [OF y]
  show ?thesis
  proof (cases "y = Inl ErrClaimRaced")
    case True
    with eq y have c2: "claimOnce c s1 = (x, s')" by (simp add: mongo_ClaimHandle_def)
    have e: "env s s1" using h True by simp
    then have "conn_clock s1 = conn_clock s" by (simp add: env_def)
    with claimOnce_history [OF c2] claim_history_env [OF e] show ?thesis by simp
  next
    case False
    with eq y have "x = y" "s' = s1" by (auto simp: mongo_ClaimHandle_def split: sum.splits handle_error.splits)
    with h show ?thesis by simp
  qed
qed

end
