(* ===== verification/Handle_Decision.thy ===== *)
theory Handle_Decision
  imports Handle_Safety
begin

text \<open>
  The decision a claim and a release are documented to take (\<open>ClaimHandle\<close> and \<open>ReleaseHandle\<close> of the
  \<open>HandleStore\<close> contract), as functions of the records, and the proof that the store's sequence of
  conditional writes and diagnosing reads takes exactly that decision when nobody interferes.
\<close>

section \<open>The documented decision\<close>

definition claim_newer :: "HandleClaim \<Rightarrow> HandleRecord \<Rightarrow> bool" where
  "claim_newer c x \<longleftrightarrow> hr_IssuedAt x < hc_IssuedAt c"

definition too_similar :: "HandleRecord list \<Rightarrow> HandleClaim \<Rightarrow> bool" where
  "too_similar docs c \<longleftrightarrow> (\<exists>y \<in> set docs. hr_Handle y \<noteq> hc_Handle c \<and> hr_Skeleton y = hc_Skeleton c)"

definition key_holds :: "HandleRecord list \<Rightarrow> string \<Rightarrow> bool" where
  "key_holds docs k \<longleftrightarrow> (\<exists>y \<in> set docs. hr_IdentityKey y = Some k)"

definition cooling :: "HandleRecord \<Rightarrow> HandleClaim \<Rightarrow> bool" where
  "cooling x c \<longleftrightarrow> (case hr_CooldownUntil x of None \<Rightarrow> False | Some t \<Rightarrow> hc_Now c < t) \<and> \<not> cooldownExempt x (hc_IdentityKey c)"

definition claim_spec :: "HandleRecord list \<Rightarrow> HandleClaim \<Rightarrow> handle_error + ClaimResult" where
  "claim_spec docs c =
     (case find (\<lambda>x. hr_Handle x = hc_Handle c) docs of
        None \<Rightarrow>
          if key_holds docs (hc_IdentityKey c) then Inl ErrKeyHasHandle
          else if too_similar docs c then Inl ErrHandleTooSimilar
          else Inr ClaimCreated
      | Some x \<Rightarrow>
          (case hr_IdentityKey x of
             Some k \<Rightarrow>
               if k \<noteq> hc_IdentityKey c then Inl ErrHandleTaken
               else if claim_newer c x \<and> hc_SerialNumber c \<noteq> hr_SerialNumber x
               then (if too_similar docs c then Inl ErrHandleTooSimilar else Inr ClaimUpdated)
               else if hr_SerialNumber x = hc_SerialNumber c \<and> hr_IssuedAt x = hc_IssuedAt c \<and>
                       hr_Certificate x = Some (hc_Certificate c) then Inr ClaimUnchanged
               else Inl ErrStaleCertificate
           | None \<Rightarrow>
               if \<not> claim_newer c x then Inl ErrStaleCertificate
               else if key_holds docs (hc_IdentityKey c) then Inl ErrKeyHasHandle
               else if cooling x c then Inl ErrHandleCooldown
               else if too_similar docs c then Inl ErrHandleTooSimilar
               else Inr ClaimCreated))"

definition release_spec :: "HandleRecord list \<Rightarrow> HandleRelease \<Rightarrow> handle_error + unit" where
  "release_spec docs r =
     (case find (\<lambda>x. hr_Handle x = rl_Handle r) docs of
        None \<Rightarrow> Inl ErrHandleNotFound
      | Some x \<Rightarrow>
          (case hr_IdentityKey x of
             None \<Rightarrow> if releaseAlreadyApplied x r then Inr () else Inl ErrHandleNotFound
           | Some k \<Rightarrow>
               (case (rl_Owner r, rl_IssuedAt r) of
                  (None, _) \<Rightarrow> Inr ()
                | (Some own, it) \<Rightarrow>
                    if k \<noteq> own then Inl ErrHandleTaken
                    else if (case it of None \<Rightarrow> False | Some t \<Rightarrow> hr_IssuedAt x < t) then Inr ()
                    else Inl ErrStaleCertificate)))"

section \<open>Reads nobody interferes with\<close>

lemma getHandleWhere_quiet:
  assumes "quiet s"
  obtains s' where "getHandleWhere P s = (Inr (find P (reg_docs s)), s')" "quiet s'" "reg_docs s' = reg_docs s"
    "conn_clock s' = conn_clock s"
  using hcall_quiet [OF assms, of "\<lambda>docs. (find P docs, docs)"] unfolding getHandleWhere_def by blast

lemmas reader_defs = mongo_GetHandle_def mongo_GetHandleBySkeleton_def mongo_GetHandleByIdentityKey_def

lemma find_skeleton:
  assumes ok: "registry_ok docs" and "too_similar docs c"
  obtains y where "find (\<lambda>y. hr_Skeleton y = hc_Skeleton c) docs = Some y" "hr_Handle y \<noteq> hc_Handle c"
proof -
  obtain y where y: "y \<in> set docs" "hr_Handle y \<noteq> hc_Handle c" "hr_Skeleton y = hc_Skeleton c"
    using assms(2) by (auto simp: too_similar_def)
  have "find (\<lambda>y. hr_Skeleton y = hc_Skeleton c) docs = Some y"
    using ok y by (intro find_unique [where f = hr_Handle]) (simp_all add: registry_ok_def clashes_def, metis)
  with y that show thesis by blast
qed

lemma find_key: "key_holds docs k \<longleftrightarrow> find (\<lambda>y. hr_IdentityKey y = Some k) docs \<noteq> None"
  by (auto simp: find_None_all key_holds_def)

text \<open>What the diagnosis reads out of records that do not change under it.\<close>

definition diagnosis :: "HandleRecord list \<Rightarrow> HandleClaim \<Rightarrow> handle_error + ClaimResult" where
  "diagnosis docs c = (case claim_spec docs c of
      Inr ClaimUnchanged \<Rightarrow> Inr ClaimUnchanged | Inr _ \<Rightarrow> Inl ErrClaimRaced | Inl e \<Rightarrow> Inl e)"

lemma DiagnoseClaim_quiet:
  assumes q: "quiet s" and ok: "registry_ok (reg_docs s)"
  shows "fst (DiagnoseClaim mongoReader c s) = diagnosis (reg_docs s) c"
proof -
  let ?d = "reg_docs s"
  obtain s1 where s1: "mongo_GetHandle (hc_Handle c) s = (Inr (find (\<lambda>x. hr_Handle x = hc_Handle c) ?d), s1)" "quiet s1" "reg_docs s1 = ?d"
    using getHandleWhere_quiet [OF q] unfolding reader_defs by metis
  obtain s2 where s2: "mongo_GetHandleByIdentityKey (hc_IdentityKey c) s1 = (Inr (find (\<lambda>x. hr_IdentityKey x = Some (hc_IdentityKey c)) ?d), s2)"
    "quiet s2" "reg_docs s2 = ?d"
    using getHandleWhere_quiet [OF s1(2)] s1(3) unfolding reader_defs by metis
  have sk: "\<exists>t'. mongo_GetHandleBySkeleton (hc_Skeleton c) t = (Inr (find (\<lambda>x. hr_Skeleton x = hc_Skeleton c) ?d), t')"
    if "quiet t" "reg_docs t = ?d" for t
    using getHandleWhere_quiet [OF that(1)] that(2) unfolding reader_defs by metis
  obtain s3 s4 where s3: "mongo_GetHandleBySkeleton (hc_Skeleton c) s1 = (Inr (find (\<lambda>x. hr_Skeleton x = hc_Skeleton c) ?d), s3)"
    "mongo_GetHandleBySkeleton (hc_Skeleton c) s2 = (Inr (find (\<lambda>x. hr_Skeleton x = hc_Skeleton c) ?d), s4)"
    using sk s1 s2 by blast
  have sim: "fst (case mongo_GetHandleBySkeleton (hc_Skeleton c) t of
                  (Inl e, s2) \<Rightarrow> (Inl e, s2)
                | (Inr (Some sim), s2) \<Rightarrow>
                    if hr_Handle sim \<noteq> hc_Handle c then (Inl ErrHandleTooSimilar, s2) else (Inl claimRaced, s2)
                | (Inr None, s2) \<Rightarrow> (Inl claimRaced, s2)) =
       (if too_similar ?d c then Inl ErrHandleTooSimilar else (Inl ErrClaimRaced :: handle_error + ClaimResult))"
    if "t \<in> {s1, s2}" for t
  proof (cases "too_similar ?d c")
    case True
    with find_skeleton [OF ok] that s3 show ?thesis by fastforce
  next
    case False
    with that s3 show ?thesis
      by (auto simp: too_similar_def claimRaced_def split: option.split dest!: find_Some_mem)
  qed
  note sims = sim [of s1, simplified] sim [of s2, simplified]
  consider (absent) "find (\<lambda>x. hr_Handle x = hc_Handle c) ?d = None"
    | (released) x where "find (\<lambda>x. hr_Handle x = hc_Handle c) ?d = Some x" "hr_IdentityKey x = None"
    | (active) x k where "find (\<lambda>x. hr_Handle x = hc_Handle c) ?d = Some x" "hr_IdentityKey x = Some k"
    by (metis not_None_eq)
  then show ?thesis
  proof cases
    case absent
    show ?thesis
      by (cases "find (\<lambda>x. hr_IdentityKey x = Some (hc_IdentityKey c)) ?d")
        (simp_all add: DiagnoseClaim_def mongoReader_sel s1(1) s2(1) Let_def diagnosis_def claim_spec_def absent sims
          find_key)
  next
    case (released x)
    show ?thesis
      by (cases "find (\<lambda>x. hr_IdentityKey x = Some (hc_IdentityKey c)) ?d")
        (simp_all add: DiagnoseClaim_def mongoReader_sel s1(1) s2(1) Let_def diagnosis_def claim_spec_def released sims
          find_key cooling_def claim_newer_def)
  next
    case (active x k)
    show ?thesis
      by (simp add: DiagnoseClaim_def mongoReader_sel s1(1) Let_def diagnosis_def claim_spec_def active sims claim_newer_def)
  qed
qed

section \<open>Claims nobody interferes with\<close>

lemma update_handle_find:
  assumes ok: "registry_ok docs"
  shows "update_handle h P f docs =
    (case find (\<lambda>x. hr_Handle x = h) docs of
       None \<Rightarrow> (Reply False, docs)
     | Some x \<Rightarrow>
         if \<not> P x then (Reply False, docs)
         else if \<exists>y \<in> set docs. hr_Handle y \<noteq> h \<and> clashes (f x) y then (DuplicateKey, docs)
         else (Reply True, map (\<lambda>y. if hr_Handle y = h then f x else y) docs))"
proof (cases "find (\<lambda>x. hr_Handle x = h) docs")
  case None
  then have "find (\<lambda>x. hr_Handle x = h \<and> P x) docs = None" by (simp add: find_None_all)
  with None show ?thesis by (simp add: update_handle_def)
next
  case (Some x)
  then have x: "x \<in> set docs" "hr_Handle x = h" by (auto dest: find_Some_mem)
  have u: "y = x" if "y \<in> set docs" "hr_Handle y = h" for y using same_handle [OF ok that(1) x(1)] that(2) x(2) by simp
  show ?thesis
  proof (cases "P x")
    case True
    have "find (\<lambda>x. hr_Handle x = h \<and> P x) docs = Some x" using find_handle [OF ok x(1), of P] True x(2) by simp
    moreover have "map (\<lambda>y. if hr_Handle y = h \<and> P y then f y else y) docs = map (\<lambda>y. if hr_Handle y = h then f x else y) docs"
    proof (rule map_cong [OF refl])
      fix y
      assume y: "y \<in> set docs"
      show "(if hr_Handle y = h \<and> P y then f y else y) = (if hr_Handle y = h then f x else y)"
        using u [OF y] True by (cases "hr_Handle y = h") auto
    qed
    ultimately show ?thesis using Some True by (simp add: update_handle_def)
  next
    case False
    have "find (\<lambda>x. hr_Handle x = h \<and> P x) docs = None" using u False by (auto simp: find_None_all)
    with Some False show ?thesis by (simp add: update_handle_def)
  qed
qed

lemma owner_update_reply:
  assumes ok: "registry_ok docs"
  shows "fst (owner_update c ts docs) =
    (case find (\<lambda>x. hr_Handle x = hc_Handle c) docs of
       None \<Rightarrow> Reply False
     | Some x \<Rightarrow>
         if hr_IdentityKey x = Some (hc_IdentityKey c) \<and> claim_newer c x \<and> hc_SerialNumber c \<noteq> hr_SerialNumber x
         then (if too_similar docs c then DuplicateKey else Reply True) else Reply False)"
proof (cases "find (\<lambda>x. hr_Handle x = hc_Handle c) docs")
  case (Some x)
  then have x: "x \<in> set docs" "hr_Handle x = hc_Handle c" by (auto dest: find_Some_mem)
  have "\<not> clashes x y" if "y \<in> set docs" "hr_Handle y \<noteq> hc_Handle c" for y
    using ok x that by (auto simp: registry_ok_def)
  then show ?thesis
    using Some x by (fastforce simp: owner_update_def update_handle_find [OF ok] claim_newer_def too_similar_def clashes_def)
qed (simp add: owner_update_def update_handle_find [OF ok])

lemma reclaim_reply:
  assumes ok: "registry_ok docs"
  shows "fst (reclaim c ts docs) =
    (case find (\<lambda>x. hr_Handle x = hc_Handle c) docs of
       None \<Rightarrow> Reply False
     | Some x \<Rightarrow>
         if hr_IdentityKey x = None \<and> claim_newer c x \<and> \<not> cooling x c
         then (if too_similar docs c \<or> key_holds docs (hc_IdentityKey c) then DuplicateKey else Reply True) else Reply False)"
proof (cases "find (\<lambda>x. hr_Handle x = hc_Handle c) docs")
  case (Some x)
  then have x: "x \<in> set docs" "hr_Handle x = hc_Handle c" by (auto dest: find_Some_mem)
  have u: "y = x" if "y \<in> set docs" "hr_Handle y = hc_Handle c" for y using same_handle [OF ok that(1) x(1)] that(2) x(2) by simp
  have r: "reclaimable c x \<longleftrightarrow> hr_IdentityKey x = None \<and> claim_newer c x \<and> \<not> cooling x c"
    by (auto simp: reclaimable_def claim_newer_def cooling_def cooldownExempt_def split: option.splits)
  have "key_holds docs (hc_IdentityKey c) \<longleftrightarrow> (\<exists>y \<in> set docs. hr_Handle y \<noteq> hc_Handle c \<and> hr_IdentityKey y = Some (hc_IdentityKey c))"
    if "hr_IdentityKey x = None" using u that by (fastforce simp: key_holds_def)
  then show ?thesis
    using Some x(2) r by (auto simp: reclaim_def update_handle_find [OF ok] too_similar_def clashes_def)
qed (simp add: reclaim_def update_handle_find [OF ok])

lemma insert_reply:
  "fst (insert_handle c ts docs) =
    (if find (\<lambda>x. hr_Handle x = hc_Handle c) docs = None \<and> \<not> too_similar docs c \<and> \<not> key_holds docs (hc_IdentityKey c)
     then Reply True else DuplicateKey)"
  by (auto simp: insert_handle_def find_None_all too_similar_def key_holds_def clashes_def new_handleDoc_def)

text \<open>The three statements and the diagnosis on records that do not change under them.\<close>

definition claim_steps :: "HandleRecord list \<Rightarrow> HandleClaim \<Rightarrow> time \<Rightarrow> handle_error + ClaimResult" where
  "claim_steps docs c ts =
     (case fst (owner_update c ts docs) of
        DuplicateKey \<Rightarrow> diagnosis docs c
      | Reply True \<Rightarrow> Inr ClaimUpdated
      | Reply False \<Rightarrow>
          (case fst (reclaim c ts docs) of
             DuplicateKey \<Rightarrow> diagnosis docs c
           | Reply True \<Rightarrow> Inr ClaimCreated
           | Reply False \<Rightarrow>
               (case fst (insert_handle c ts docs) of DuplicateKey \<Rightarrow> diagnosis docs c | Reply _ \<Rightarrow> Inr ClaimCreated)))"

lemma claim_steps_spec:
  assumes ok: "registry_ok docs"
  shows "claim_steps docs c ts = claim_spec docs c"
proof (cases "find (\<lambda>x. hr_Handle x = hc_Handle c) docs")
  case None
  then show ?thesis
    by (simp add: claim_steps_def owner_update_reply [OF ok] reclaim_reply [OF ok] insert_reply diagnosis_def claim_spec_def)
next
  case (Some x)
  then show ?thesis
    by (cases "hr_IdentityKey x")
      (auto simp: claim_steps_def owner_update_reply [OF ok] reclaim_reply [OF ok] insert_reply diagnosis_def claim_spec_def)
qed

lemma claimOnce_steps:
  assumes q: "quiet s" and ok: "registry_ok (reg_docs s)"
  shows "fst (claimOnce c0 s) = claim_steps (reg_docs s) (msClaim c0) (truncMs (conn_clock s))"
proof -
  let ?c = "msClaim c0" and ?ts = "truncMs (conn_clock s)" and ?d = "reg_docs s"
  have step: "\<exists>t'. hcall (apply_write w) t = (Inr (fst (apply_write w ?d)), t') \<and> quiet t' \<and>
      (fst (apply_write w ?d) \<noteq> Reply True \<longrightarrow> reg_docs t' = ?d)" if "quiet t" "reg_docs t = ?d" for t w
    using hcall_quiet [OF that(1), of "apply_write w"] that(2) apply_noop [of w ?d] by (metis prod.collapse)
  have diag: "fst (DiagnoseClaim mongoReader ?c t) = diagnosis ?d ?c" if "quiet t" "reg_docs t = ?d" for t
    using DiagnoseClaim_quiet [of t ?c] ok that by simp
  obtain s1 where s1: "hcall (owner_update ?c ?ts) s = (Inr (fst (owner_update ?c ?ts ?d)), s1)" "quiet s1"
      "fst (owner_update ?c ?ts ?d) \<noteq> Reply True \<Longrightarrow> reg_docs s1 = ?d"
    using step [OF q refl, of "OwnerUpdate ?c ?ts"] unfolding apply_write_fun by blast
  show ?thesis
  proof (cases "fst (owner_update ?c ?ts ?d) = Reply False")
    case o: True
    then have d1: "reg_docs s1 = ?d" using s1(3) by simp
    obtain s2 where s2: "hcall (reclaim ?c ?ts) s1 = (Inr (fst (reclaim ?c ?ts ?d)), s2)" "quiet s2"
        "fst (reclaim ?c ?ts ?d) \<noteq> Reply True \<Longrightarrow> reg_docs s2 = ?d"
      using step [OF s1(2) d1, of "Reclaim ?c ?ts"] unfolding apply_write_fun by blast
    show ?thesis
    proof (cases "fst (reclaim ?c ?ts ?d) = Reply False")
      case r: True
      then have d2: "reg_docs s2 = ?d" using s2(3) by simp
      obtain s3 where s3: "hcall (insert_handle ?c ?ts) s2 = (Inr (fst (insert_handle ?c ?ts ?d)), s3)" "quiet s3"
          "fst (insert_handle ?c ?ts ?d) \<noteq> Reply True \<Longrightarrow> reg_docs s3 = ?d"
        using step [OF s2(2) d2, of "InsertHandle ?c ?ts"] unfolding apply_write_fun by blast
      then show ?thesis
        by (cases "fst (insert_handle ?c ?ts ?d)") (simp_all add: claimOnce_def claim_steps_def s1(1) s2(1) s3(1) o r diag)
    next
      case False
      then show ?thesis
        using s2 diag [OF s2(2)] by (cases "fst (reclaim ?c ?ts ?d)") (auto simp: claimOnce_def claim_steps_def s1(1) s2(1) o)
    qed
  next
    case False
    then show ?thesis
      using s1 diag [OF s1(2)] by (cases "fst (owner_update ?c ?ts ?d)") (auto simp: claimOnce_def claim_steps_def s1(1))
  qed
qed

lemma claim_spec_not_raced: "claim_spec docs c \<noteq> Inl ErrClaimRaced"
  by (auto simp: claim_spec_def split: option.split)

text \<open>Without interference the store decides as documented, and never reports a race.\<close>

lemma ClaimHandle_quiet:
  assumes "quiet s" and "registry_ok (reg_docs s)"
  shows "fst (mongo_ClaimHandle c s) = claim_spec (reg_docs s) (msClaim c)"
proof -
  have "fst (claimOnce c s) = claim_spec (reg_docs s) (msClaim c)"
    using claimOnce_steps [OF assms] claim_steps_spec [OF assms(2)] by simp
  then show ?thesis
    using claim_spec_not_raced [of "reg_docs s" "msClaim c"]
    by (auto simp: mongo_ClaimHandle_def split: prod.split sum.split handle_error.split)
qed

section \<open>Bound and released records\<close>

text \<open>An active record names its owner twice and carries a certificate; a released one carries its
  release and no certificate.\<close>

definition binding_ok :: "HandleRecord \<Rightarrow> bool" where
  "binding_ok x =
     (case hr_IdentityKey x of
        Some k \<Rightarrow> hr_LastIdentityKey x = k \<and> hr_Certificate x \<noteq> None \<and> hr_ReleasedAt x = None \<and>
          hr_CooldownUntil x = None \<and> hr_ReleasedBy x = None
      | None \<Rightarrow> hr_Certificate x = None \<and> hr_ReleasedAt x \<noteq> None \<and> hr_ReleasedBy x \<noteq> None)"

definition registry_inv :: "HandleRecord list \<Rightarrow> bool" where
  "registry_inv docs \<longleftrightarrow> registry_ok docs \<and> (\<forall>x \<in> set docs. binding_ok x)"

lemma update_binding:
  assumes "registry_inv docs" and "\<And>x. hr_Handle (f x) = hr_Handle x" and "\<And>x. binding_ok x \<Longrightarrow> P x \<Longrightarrow> binding_ok (f x)"
    and eq: "update_handle h P f docs = (rep, docs')"
  shows "\<forall>x \<in> set docs'. binding_ok x"
proof -
  have ok: "registry_ok docs" and b: "\<forall>x \<in> set docs. binding_ok x" using assms(1) by (simp_all add: registry_inv_def)
  from ok assms(2) eq show ?thesis
  proof (cases rule: update_handle_cases)
    case (wrote x)
    then show ?thesis using b assms(3) by auto
  qed (use b in simp_all)
qed

lemma apply_write_binding:
  assumes inv: "registry_inv docs" and eq: "apply_write w docs = (rep, docs')"
  shows "\<forall>x \<in> set docs'. binding_ok x"
proof (cases w)
  case (OwnerUpdate c ts)
  show ?thesis by (rule update_binding [OF inv _ _ eq [unfolded OwnerUpdate apply_write.simps owner_update_def]])
      (auto simp: binding_ok_def)
next
  case (Reclaim c ts)
  show ?thesis by (rule update_binding [OF inv _ _ eq [unfolded Reclaim apply_write.simps reclaim_def]])
      (auto simp: binding_ok_def)
next
  case (InsertHandle c ts)
  with eq inv show ?thesis by (auto simp: insert_handle_def registry_inv_def binding_ok_def new_handleDoc_def split: if_splits)
next
  case (ReleaseWrite r ts)
  show ?thesis by (rule update_binding [OF inv _ _ eq [unfolded ReleaseWrite apply_write.simps release_write_def]])
      (auto simp: binding_ok_def)
qed

lemma run_writes_inv: "registry_inv docs \<Longrightarrow> registry_inv (run_writes ws docs)"
proof (induction ws arbitrary: docs)
  case (Cons w ws)
  obtain rep docs' where eq: "apply_write w docs = (rep, docs')" by fastforce
  have "registry_inv docs'"
    using apply_write_ok [OF _ eq] apply_write_binding [OF Cons.prems eq] Cons.prems by (auto simp: registry_inv_def write_ok_def)
  with Cons.IH eq show ?case by simp
qed simp

text \<open>Whatever an operation and the other clients did, it was a sequence of writes.\<close>

lemma claim_history_writes:
  assumes "claim_history c ts E docs x docs'"
  shows "\<exists>ws. docs' = run_writes ws docs"
proof -
  have "\<exists>ws. docs' = run_writes ws docs \<or> (\<exists>w. docs' = run_writes (ws @ [w]) docs)"
  proof (cases x)
    case (Inl e)
    show ?thesis using assms unfolding claim_history_def Inl sum.case by blast
  next
    case (Inr b)
    show ?thesis using assms unfolding claim_history_def Inr sum.case by (cases b; simp only: ClaimResult.case; blast)
  qed
  then show ?thesis by blast
qed

lemma DiagnoseRelease_env: "DiagnoseRelease mongoReader r s = (x, s') \<Longrightarrow> env s s'"
  by (cases "mongo_GetHandle (rl_Handle r) s")
    (auto simp: DiagnoseRelease_def split: sum.splits option.splits if_splits dest: reader_env(1))

lemma ReleaseHandle_writes:
  assumes eq: "mongo_ReleaseHandle r s = (x, s')"
  shows "\<exists>ws. reg_docs s' = run_writes ws (reg_docs s)"
proof (cases "ValidateRelease r")
  case (Some e)
  with eq have "s' = s" by (simp add: mongo_ReleaseHandle_def)
  then show ?thesis by (auto intro: exI [of _ "[]"])
next
  case None
  let ?w = "ReleaseWrite (msRelease r) (truncMs (conn_clock s))"
  have e: "env s t \<Longrightarrow> \<exists>ws. reg_docs t = run_writes ws (reg_docs s)" for t by (auto simp: env_def)
  have own: "\<exists>ws. reg_docs t = run_writes ws (reg_docs s)" if "env s t0" "reg_docs t = snd (apply_write ?w (reg_docs t0))" for t t0
    using e [OF that(1)] that(2) by (metis run_writes_Cons run_writes_Nil run_writes_append)
  obtain y s1 where y: "hcall (apply_write ?w) s = (y, s1)" by fastforce
  note eq' = eq [unfolded mongo_ReleaseHandle_def None Let_def option.case apply_write_fun(4) [symmetric] y prod.case]
  from y show ?thesis
  proof (cases rule: write_trip)
    case (wrote t)
    with eq' own show ?thesis by auto
  next
    case (fault t)
    with eq' own e show ?thesis by auto
  next
    case (refused rep)
    with eq' have "s' = s1 \<or> DiagnoseRelease mongoReader (msRelease r) s1 = (x, s')"
      by (cases rep) (auto split: bool.splits)
    with refused(3) e env_trans DiagnoseRelease_env show ?thesis by blast
  qed
qed

lemma mongo_FindHandles_env: "mongo_FindHandles m s = (y, s') \<Longrightarrow> env s s'"
  by (auto simp: mongo_FindHandles_def env_refl split: if_splits intro: read_env)

section \<open>Releases nobody interferes with\<close>

lemma release_reply:
  assumes ok: "registry_ok docs"
  shows "fst (release_write r ts docs) =
    (case find (\<lambda>x. hr_Handle x = rl_Handle r) docs of
       None \<Rightarrow> Reply False
     | Some x \<Rightarrow> Reply (case rl_Owner r of
          None \<Rightarrow> hr_IdentityKey x \<noteq> None
        | Some own \<Rightarrow> hr_IdentityKey x = Some own \<and> (case rl_IssuedAt r of None \<Rightarrow> False | Some t \<Rightarrow> hr_IssuedAt x < t)))"
proof (cases "find (\<lambda>x. hr_Handle x = rl_Handle r) docs")
  case (Some x)
  then have x: "x \<in> set docs" "hr_Handle x = rl_Handle r" by (auto dest: find_Some_mem)
  have "hr_Skeleton y \<noteq> hr_Skeleton x" if "y \<in> set docs" "hr_Handle y \<noteq> rl_Handle r" for y
    using ok x that by (fastforce simp: registry_ok_def clashes_def)
  then show ?thesis
    using Some x by (fastforce simp: release_write_def update_handle_find [OF ok] clashes_def)
qed (simp add: release_write_def update_handle_find [OF ok])

lemma ReleaseHandle_quiet:
  assumes q: "quiet s" and ok: "registry_ok (reg_docs s)" and v: "ValidateRelease r = None"
  shows "fst (mongo_ReleaseHandle r s) = release_spec (reg_docs s) (msRelease r)"
proof -
  let ?r = "msRelease r" and ?ts = "truncMs (conn_clock s)" and ?d = "reg_docs s"
  obtain s1 where s1: "hcall (release_write ?r ?ts) s = (Inr (fst (release_write ?r ?ts ?d)), s1)" "quiet s1"
      "reg_docs s1 = snd (release_write ?r ?ts ?d)"
    using hcall_quiet [OF q, of "release_write ?r ?ts"] by (metis prod.collapse)
  have d1: "reg_docs s1 = ?d" if "fst (release_write ?r ?ts ?d) = Reply False"
    using apply_noop [of "ReleaseWrite ?r ?ts" ?d] that s1(3) by (cases "release_write ?r ?ts ?d") auto
  obtain s2 where s2: "mongo_GetHandle (rl_Handle ?r) s1 = (Inr (find (\<lambda>x. hr_Handle x = rl_Handle ?r) (reg_docs s1)), s2)"
    using getHandleWhere_quiet [OF s1(2)] unfolding reader_defs by metis
  show ?thesis
  proof (cases "find (\<lambda>x. hr_Handle x = rl_Handle ?r) ?d")
    case None
    then have "fst (release_write ?r ?ts ?d) = Reply False" by (simp add: release_reply [OF ok])
    with None v s2 d1 s1(1) show ?thesis by (simp add: mongo_ReleaseHandle_def Let_def DiagnoseRelease_def release_spec_def)
  next
    case (Some x)
    show ?thesis
    proof (cases "fst (release_write ?r ?ts ?d) = Reply True")
      case True
      with Some v s1(1) show ?thesis
        by (auto simp: mongo_ReleaseHandle_def Let_def release_spec_def release_reply [OF ok] split: option.splits)
    next
      case False
      then have f: "fst (release_write ?r ?ts ?d) = Reply False" using Some by (simp add: release_reply [OF ok])
      then have "fst (mongo_ReleaseHandle r s) = fst (DiagnoseRelease mongoReader ?r s1)"
        using v s1(1) by (simp add: mongo_ReleaseHandle_def Let_def)
      with f Some d1 s2 show ?thesis
        by (auto simp: DiagnoseRelease_def release_spec_def release_reply [OF ok] split: option.splits)
    qed
  qed
qed

lemma env_quiet: "env s s' \<Longrightarrow> quiet s \<Longrightarrow> reg_docs s' = reg_docs s"
  by (auto simp: env_def quiet_def)

lemma ReleaseHandle_docs:
  assumes q: "quiet s" and v: "ValidateRelease r = None"
  shows "reg_docs (snd (mongo_ReleaseHandle r s)) = snd (release_write (msRelease r) (truncMs (conn_clock s)) (reg_docs s))"
proof -
  let ?w = "release_write (msRelease r) (truncMs (conn_clock s))"
  obtain rep docs where w: "?w (reg_docs s) = (rep, docs)" by fastforce
  from hcall_quiet [OF q, of ?w] w obtain s1 where s1: "hcall ?w s = (Inr rep, s1)" "quiet s1" "reg_docs s1 = docs" by metis
  have "reg_docs (snd (DiagnoseRelease mongoReader (msRelease r) s1)) = docs"
    using env_quiet [OF _ s1(2)] DiagnoseRelease_env s1(3) by (metis prod.collapse)
  with s1 w v show ?thesis by (auto simp: mongo_ReleaseHandle_def Let_def split: reply.split bool.split)
qed

text \<open>The record an applied release leaves, and that the same owner release applied again finds it
  already done.\<close>

lemma find_map_handle:
  assumes "find (\<lambda>x. hr_Handle x = h) docs = Some x" and "hr_Handle z = h"
  shows "find (\<lambda>x. hr_Handle x = h) (map (\<lambda>y. if hr_Handle y = h then z else y) docs) = Some z"
  using assms by (induction docs) auto

lemma update_applied:
  assumes ok: "registry_ok docs" and f: "\<And>x. hr_Handle (f x) = hr_Handle x" and eq: "update_handle h P f docs = (Reply True, docs')"
  obtains x where "find (\<lambda>x. hr_Handle x = h) docs = Some x" "P x" "find (\<lambda>x. hr_Handle x = h) docs' = Some (f x)"
proof -
  obtain x where x: "find (\<lambda>x. hr_Handle x = h) docs = Some x" "P x" "docs' = map (\<lambda>y. if hr_Handle y = h then f x else y) docs"
    using eq unfolding update_handle_find [OF ok] by (auto split: option.splits if_splits)
  with find_map_handle [OF x(1), of "f x"] find_Some_mem [OF x(1)] f that show thesis by simp
qed

lemma release_applied:
  assumes ok: "registry_inv docs" and w: "release_write r ts docs = (Reply True, docs')"
  obtains x x' where "find (\<lambda>x. hr_Handle x = rl_Handle r) docs = Some x" "hr_IdentityKey x \<noteq> None"
    "find (\<lambda>x. hr_Handle x = rl_Handle r) docs' = Some x'" "hr_IdentityKey x' = None" "hr_Certificate x' = None"
    "hr_LastIdentityKey x' = the (hr_IdentityKey x)" "hr_ReleasedBy x' = Some (rl_ReleasedBy r)"
    "hr_CooldownUntil x' = rl_CooldownUntil r"
    "rl_Owner r \<noteq> None \<longrightarrow> hr_IdentityKey x = rl_Owner r \<and> rl_IssuedAt r = Some (hr_IssuedAt x')"
proof -
  have rok: "registry_ok docs" using ok by (simp add: registry_inv_def)
  show thesis
  proof (rule update_applied [OF rok _ w [unfolded release_write_def]])
    fix x
    assume x: "find (\<lambda>x. hr_Handle x = rl_Handle r) docs = Some x"
    then have b: "binding_ok x" using ok find_Some_mem [OF x] by (simp add: registry_inv_def)
    assume own: "case rl_Owner r of None \<Rightarrow> hr_IdentityKey x \<noteq> None
        | Some own \<Rightarrow> hr_IdentityKey x = Some own \<and> (case rl_IssuedAt r of None \<Rightarrow> False | Some t \<Rightarrow> hr_IssuedAt x < t)"
    assume f: "find (\<lambda>x. hr_Handle x = rl_Handle r) docs' = Some (x\<lparr>hr_IdentityKey := None, hr_Certificate := None, hr_UpdatedAt := ts,
              hr_ReleasedAt := Some (rl_Now r), hr_ReleasedBy := Some (rl_ReleasedBy r),
              hr_IssuedAt := (case (rl_Owner r, rl_IssuedAt r) of (Some _, Some t) \<Rightarrow> t | _ \<Rightarrow> hr_IssuedAt x),
              hr_CooldownUntil := rl_CooldownUntil r\<rparr>)"
    show thesis by (rule that [OF x _ f]) (use b own in \<open>auto simp: binding_ok_def split: option.splits\<close>)
  qed simp
qed

lemma release_again:
  assumes ok: "registry_inv docs" and own: "rl_Owner r \<noteq> None" "rl_ReleasedBy r = ReleasedByOwner"
    and w: "release_write r ts docs = (Reply True, docs')"
  shows "release_spec docs' r = Inr ()"
proof -
  show ?thesis
    by (rule release_applied [OF ok w]) (use own in \<open>auto simp: release_spec_def releaseAlreadyApplied_def\<close>)
qed

text \<open>The record an accepted claim leaves.\<close>

lemma claim_applied:
  assumes ok: "registry_ok docs" and w: "w \<in> {OwnerUpdate c ts, Reclaim c ts, InsertHandle c ts}"
    and eq: "apply_write w docs = (Reply True, docs')"
  obtains x' where "find (\<lambda>x. hr_Handle x = hc_Handle c) docs' = Some x'" "hr_IdentityKey x' = Some (hc_IdentityKey c)"
    "hr_Certificate x' = Some (hc_Certificate c)" "hr_SerialNumber x' = hc_SerialNumber c" "hr_IssuedAt x' = hc_IssuedAt c"
    "hr_Skeleton x' = hc_Skeleton c"
proof -
  consider (o) "w = OwnerUpdate c ts" | (r) "w = Reclaim c ts" | (i) "w = InsertHandle c ts" using w by blast
  then show thesis
  proof cases
    case o
    then have e: "owner_update c ts docs = (Reply True, docs')" using eq by simp
    show thesis by (rule update_applied [OF ok _ e [unfolded owner_update_def]]) (auto intro: that)
  next
    case r
    then have e: "reclaim c ts docs = (Reply True, docs')" using eq by simp
    show thesis by (rule update_applied [OF ok _ e [unfolded reclaim_def]]) (auto intro: that)
  next
    case i
    then have "docs' = docs @ [new_handleDoc c ts]" "find (\<lambda>x. hr_Handle x = hc_Handle c) docs = None"
      using eq by (auto simp: insert_handle_def find_None_all clashes_def new_handleDoc_def split: if_splits)
    then have "find (\<lambda>x. hr_Handle x = hc_Handle c) docs' = Some (new_handleDoc c ts)"
      by (induction docs arbitrary: docs') (auto simp: new_handleDoc_def split: if_splits)
    then show thesis by (rule that) (simp_all add: new_handleDoc_def)
  qed
qed

end
