(* ===== verification/Handle_Interface.thy ===== *)
theory Handle_Interface
  imports Handle_Decision
begin

text \<open>
  What the lookup and purchase handlers rely on: the promises of the \<open>HandleStore\<close> contract to a
  client nobody races with, as a locale over the stored records, and its interpretation on the
  MongoDB registry.
\<close>

section \<open>Operations on a quiet registry stay quiet\<close>

lemma hcall_stays_quiet: "hcall f s = (y, s') \<Longrightarrow> quiet s \<Longrightarrow> quiet s'"
  using hcall_quiet [of s f "fst (f (reg_docs s))" "snd (f (reg_docs s))"] by (metis prod.collapse prod.inject)

lemma reader_stays_quiet:
  "mongo_GetHandle h s = (y, s') \<Longrightarrow> quiet s \<Longrightarrow> quiet s'"
  "mongo_GetHandleBySkeleton h s = (y, s') \<Longrightarrow> quiet s \<Longrightarrow> quiet s'"
  "mongo_GetHandleByIdentityKey h s = (y, s') \<Longrightarrow> quiet s \<Longrightarrow> quiet s'"
  by (auto simp: reader_defs getHandleWhere_def intro: hcall_stays_quiet)

lemma DiagnoseClaim_stays_quiet:
  assumes "DiagnoseClaim mongoReader c s = (x, s')" and q: "quiet s"
  shows "quiet s'"
proof -
  obtain y1 s1 where y1: "mongo_GetHandle (hc_Handle c) s = (y1, s1)" by fastforce
  obtain y2 s2 where y2: "mongo_GetHandleByIdentityKey (hc_IdentityKey c) s1 = (y2, s2)" by fastforce
  obtain y3 s3 where y3: "mongo_GetHandleBySkeleton (hc_Skeleton c) s2 = (y3, s3)" by fastforce
  obtain y4 s4 where y4: "mongo_GetHandleBySkeleton (hc_Skeleton c) s1 = (y4, s4)" by fastforce
  note q1 = reader_stays_quiet(1) [OF y1 q]
  note q2 = reader_stays_quiet(3) [OF y2 q1]
  have "s' \<in> {s1, s2, s3, s4}"
    using assms unfolding DiagnoseClaim_def mongoReader_sel y1 Let_def
    by (auto simp: y2 y3 y4 split: sum.splits option.splits if_splits)
  with q1 q2 reader_stays_quiet(2) [OF y3 q2] reader_stays_quiet(2) [OF y4 q1] show ?thesis by auto
qed

lemma claimOnce_stays_quiet:
  assumes eq: "claimOnce c s = (x, s')" and q: "quiet s"
  shows "quiet s'"
proof -
  let ?c = "msClaim c" and ?ts = "truncMs (conn_clock s)"
  obtain y1 s1 where y1: "hcall (owner_update ?c ?ts) s = (y1, s1)" by fastforce
  obtain y2 s2 where y2: "hcall (reclaim ?c ?ts) s1 = (y2, s2)" by fastforce
  obtain y3 s3 where y3: "hcall (insert_handle ?c ?ts) s2 = (y3, s3)" by fastforce
  note q1 = hcall_stays_quiet [OF y1 q]
  note q2 = hcall_stays_quiet [OF y2 q1]
  note q3 = hcall_stays_quiet [OF y3 q2]
  have "s' \<in> {s1, s2, s3} \<or> (\<exists>t \<in> {s1, s2, s3}. DiagnoseClaim mongoReader ?c t = (x, s'))"
    using eq unfolding claimOnce_def Let_def y1 y2 y3
    by (auto simp: y2 y3 split: sum.splits reply.splits bool.splits)
  with q1 q2 q3 DiagnoseClaim_stays_quiet show ?thesis by blast
qed

lemma ClaimHandle_stays_quiet:
  assumes eq: "mongo_ClaimHandle c s = (x, s')" and q: "quiet s"
  shows "quiet s'"
proof -
  obtain y s1 where y: "claimOnce c s = (y, s1)" by fastforce
  have "s' = s1 \<or> claimOnce c s1 = (x, s')"
    using eq y by (auto simp: mongo_ClaimHandle_def split: sum.splits handle_error.splits)
  with claimOnce_stays_quiet [OF y q] claimOnce_stays_quiet show ?thesis by blast
qed

lemma ReleaseHandle_stays_quiet:
  assumes eq: "mongo_ReleaseHandle r s = (x, s')" and q: "quiet s"
  shows "quiet s'"
proof (cases "ValidateRelease r")
  case (Some e)
  with eq q show ?thesis by (simp add: mongo_ReleaseHandle_def)
next
  case None
  obtain y s1 where y: "hcall (release_write (msRelease r) (truncMs (conn_clock s))) s = (y, s1)" by fastforce
  obtain z s2 where z: "mongo_GetHandle (rl_Handle (msRelease r)) s1 = (z, s2)" by fastforce
  note q1 = hcall_stays_quiet [OF y q]
  have "s' \<in> {s1, s2}"
    using eq None y z by (auto simp: mongo_ReleaseHandle_def DiagnoseRelease_def split: sum.splits reply.splits bool.splits option.splits if_splits)
  with q1 reader_stays_quiet(1) [OF z q1] show ?thesis by auto
qed

section \<open>The contract\<close>

text \<open>The effect of a claim on the records: none when it is refused or already in place, otherwise
  one of its own writes.\<close>

definition claim_effect :: "HandleClaim \<Rightarrow> handle_error + ClaimResult \<Rightarrow> HandleRecord list \<Rightarrow> HandleRecord list \<Rightarrow> bool" where
  "claim_effect c x recs recs' \<longleftrightarrow>
     (case x of
        Inr ClaimCreated \<Rightarrow> \<exists>ts. \<exists>w \<in> {Reclaim c ts, InsertHandle c ts}. apply_write w recs = (Reply True, recs')
      | Inr ClaimUpdated \<Rightarrow> \<exists>ts. apply_write (OwnerUpdate c ts) recs = (Reply True, recs')
      | _ \<Rightarrow> recs' = recs)"

locale handle_registry =
  fixes H :: "'s HandleStore"
    and ok :: "'s \<Rightarrow> bool"
    and recs :: "'s \<Rightarrow> HandleRecord list"
  assumes recs_inv: "ok s \<Longrightarrow> registry_inv (recs s)"
    and get_handle: "ok s \<Longrightarrow> \<exists>s'. GetHandle H h s = (Inr (find (\<lambda>x. hr_Handle x = h) (recs s)), s') \<and> ok s' \<and> recs s' = recs s"
    and get_skeleton: "ok s \<Longrightarrow>
          \<exists>s'. GetHandleBySkeleton H sk s = (Inr (find (\<lambda>x. hr_Skeleton x = sk) (recs s)), s') \<and> ok s' \<and> recs s' = recs s"
    and get_key: "ok s \<Longrightarrow>
          \<exists>s'. GetHandleByIdentityKey H k s = (Inr (find (\<lambda>x. hr_IdentityKey x = Some k) (recs s)), s') \<and> ok s' \<and> recs s' = recs s"
    and find_handles: "ok s \<Longrightarrow> 0 < hm_Limit m \<Longrightarrow>
          \<exists>s'. FindHandles H m s = (Inr (take (nat (hm_Limit m)) (sort_key hr_Handle (filter (handle_matches m) (recs s)))), s') \<and>
            ok s' \<and> recs s' = recs s"
    and claim: "ok s \<Longrightarrow>
          \<exists>s'. ClaimHandle H c s = (claim_spec (recs s) (msClaim c), s') \<and> ok s' \<and>
            claim_effect (msClaim c) (claim_spec (recs s) (msClaim c)) (recs s) (recs s')"
    and release: "ok s \<Longrightarrow> ValidateRelease r = None \<Longrightarrow>
          \<exists>ts s'. ReleaseHandle H r s = (release_spec (recs s) (msRelease r), s') \<and> ok s' \<and>
            recs s' = snd (release_write (msRelease r) ts (recs s))"

section \<open>The MongoDB registry\<close>

abbreviation registry_up :: "registry \<Rightarrow> bool" where
  "registry_up s \<equiv> quiet s \<and> registry_inv (reg_docs s)"

lemma claim_history_effect:
  assumes "claim_history c ts {} docs x docs'" and "x \<noteq> Inl ErrRegistryFault"
  shows "claim_effect c x docs docs'"
proof (cases x)
  case (Inl e)
  with assms show ?thesis by (simp add: claim_history_def claim_effect_def)
next
  case (Inr b)
  have e: "apply_write w docs = (Reply True, docs')" if "fst (apply_write w docs) = Reply True" "docs' = run_writes [w] docs" for w
    using that by (cases "apply_write w docs") simp
  show ?thesis
  proof (cases b)
    case ClaimCreated
    then obtain w where "w \<in> {Reclaim c ts, InsertHandle c ts}" "fst (apply_write w docs) = Reply True" "docs' = run_writes [w] docs"
      using assms(1) Inr by (simp add: claim_history_def del: apply_write.simps) blast
    with e ClaimCreated Inr show ?thesis unfolding claim_effect_def by fastforce
  next
    case ClaimUpdated
    with e [of "OwnerUpdate c ts"] assms(1) Inr show ?thesis by (auto simp: claim_history_def claim_effect_def)
  next
    case ClaimUnchanged
    with assms(1) Inr show ?thesis by (simp add: claim_history_def claim_effect_def)
  qed
qed

lemma ClaimHandle_up:
  assumes up: "registry_up s" and eq: "mongo_ClaimHandle c s = (x, s')"
  shows "x = claim_spec (reg_docs s) (msClaim c) \<and> registry_up s' \<and> claim_effect (msClaim c) x (reg_docs s) (reg_docs s')"
proof -
  have ok: "registry_ok (reg_docs s)" "quiet s" using up by (auto simp: registry_inv_def)
  have x: "x = claim_spec (reg_docs s) (msClaim c)" using ClaimHandle_quiet [OF ok(2,1), of c] eq by simp
  have h: "claim_history (msClaim c) (truncMs (conn_clock s)) {} (reg_docs s) x (reg_docs s')"
    using ClaimHandle_history [OF eq] ok(2) by (simp add: quiet_def)
  have "x \<noteq> Inl ErrRegistryFault" by (auto simp: x claim_spec_def split: option.split)
  with h have "claim_effect (msClaim c) x (reg_docs s) (reg_docs s')" by (rule claim_history_effect)
  moreover have "registry_inv (reg_docs s')" using claim_history_writes [OF h] run_writes_inv up by metis
  ultimately show ?thesis using x ClaimHandle_stays_quiet [OF eq ok(2)] by simp
qed

lemma ReleaseHandle_up:
  assumes up: "registry_up s" and v: "ValidateRelease r = None" and eq: "mongo_ReleaseHandle r s = (x, s')"
  shows "x = release_spec (reg_docs s) (msRelease r) \<and> registry_up s' \<and>
    reg_docs s' = snd (release_write (msRelease r) (truncMs (conn_clock s)) (reg_docs s))"
proof -
  have ok: "registry_ok (reg_docs s)" "quiet s" using up by (auto simp: registry_inv_def)
  have "registry_inv (reg_docs s')" using ReleaseHandle_writes [OF eq] run_writes_inv up by metis
  then show ?thesis
    using ReleaseHandle_quiet [OF ok(2,1) v] ReleaseHandle_docs [OF ok(2) v] ReleaseHandle_stays_quiet [OF eq ok(2)] eq by simp
qed

interpretation mongoHandles: handle_registry MongoHandles registry_up reg_docs
proof
  fix s :: registry and h sk k m c r
  assume up: "registry_up s"
  show "registry_inv (reg_docs s)" using up by simp
  note g = getHandleWhere_quiet [of s]
  show "\<exists>s'. GetHandle MongoHandles h s = (Inr (find (\<lambda>x. hr_Handle x = h) (reg_docs s)), s') \<and> registry_up s' \<and> reg_docs s' = reg_docs s"
    by (rule g [of "\<lambda>x. hr_Handle x = h"]) (use up in \<open>simp_all add: MongoHandles_def mongo_GetHandle_def\<close>)
  show "\<exists>s'. GetHandleBySkeleton MongoHandles sk s = (Inr (find (\<lambda>x. hr_Skeleton x = sk) (reg_docs s)), s') \<and> registry_up s' \<and> reg_docs s' = reg_docs s"
    by (rule g [of "\<lambda>x. hr_Skeleton x = sk"]) (use up in \<open>simp_all add: MongoHandles_def mongo_GetHandleBySkeleton_def\<close>)
  show "\<exists>s'. GetHandleByIdentityKey MongoHandles k s = (Inr (find (\<lambda>x. hr_IdentityKey x = Some k) (reg_docs s)), s') \<and> registry_up s' \<and> reg_docs s' = reg_docs s"
    by (rule g [of "\<lambda>x. hr_IdentityKey x = Some k"]) (use up in \<open>simp_all add: MongoHandles_def mongo_GetHandleByIdentityKey_def\<close>)
  show "\<exists>s'. ClaimHandle MongoHandles c s = (claim_spec (reg_docs s) (msClaim c), s') \<and> registry_up s' \<and>
      claim_effect (msClaim c) (claim_spec (reg_docs s) (msClaim c)) (reg_docs s) (reg_docs s')"
    using ClaimHandle_up [OF up, of c] by (cases "mongo_ClaimHandle c s") (auto simp: MongoHandles_def)
  show "\<exists>s'. FindHandles MongoHandles m s = (Inr (take (nat (hm_Limit m)) (sort_key hr_Handle (filter (handle_matches m) (reg_docs s)))), s') \<and>
      registry_up s' \<and> reg_docs s' = reg_docs s" if "0 < hm_Limit m"
    by (rule hcall_quiet [of s "\<lambda>docs. (take (nat (hm_Limit m)) (sort_key hr_Handle (filter (handle_matches m) docs)), docs)", OF _ refl])
      (use up that in \<open>simp_all add: MongoHandles_def mongo_FindHandles_def\<close>)
  show "\<exists>ts s'. ReleaseHandle MongoHandles r s = (release_spec (reg_docs s) (msRelease r), s') \<and> registry_up s' \<and>
      reg_docs s' = snd (release_write (msRelease r) ts (reg_docs s))" if "ValidateRelease r = None"
    using ReleaseHandle_up [OF up that] by (cases "mongo_ReleaseHandle r s") (auto simp: MongoHandles_def)
qed

end
