(* ===== verification/Lookup.thy ===== *)
theory Lookup
  imports Handles Handle_Interface Http
begin

text \<open>
  The lookup endpoints (\<open>pkg/handlers/lookup.go\<close>, except \<open>PutHandle\<close>) and the operator's release
  (\<open>pkg/handlers/admin_handle.go\<close>). The clock is an argument; routing, path values and the size limit
  of the request body are outside.
\<close>

section \<open>Definitions\<close>

record LookupConfig =
  lc_Domain :: string
  lc_Host :: string
  lc_Cooldown :: int
  lc_AdminKeys :: "string list"

definition searchLimit :: nat where "searchLimit = 10"
definition searchMinLength :: nat where "searchMinLength = 2"
definition substringMinimum :: nat where "substringMinimum = 3"
definition maxQueryLength :: nat where "maxQueryLength = 32"

definition pubkeyRE :: "string \<Rightarrow> bool" where
  "pubkeyRE s \<longleftrightarrow> length s = 66 \<and> s ! 0 = CHR ''0'' \<and> (s ! 1 = CHR ''2'' \<or> s ! 1 = CHR ''3'') \<and>
     list_all (\<lambda>c. isDigit c \<or> (97 \<le> byte c \<and> byte c \<le> 102)) (drop 2 s)"

definition queryRE :: "string \<Rightarrow> bool" where
  "queryRE s \<longleftrightarrow> s \<noteq> [] \<and> list_all (\<lambda>c. isAlnum c \<or> isSeparator c) s"

datatype lookup_body = RawMessage string | RawMessages "string list" | AvailabilityResponse bool string
  | CapabilityDocument string "(string \<times> string) list" | AdminReleased string string | EmptyBody

definition clock :: "time \<Rightarrow> time" where
  "clock t = truncMs t"

definition availableWithoutHandle :: "lookup_body response" where
  "availableWithoutHandle = writeError 400 ''ERR_INVALID_LOOKUP'' ''Expected /api/handle/available/{handle}.''"

definition WellKnown :: "LookupConfig \<Rightarrow> lookup_body response" where
  "WellKnown cfg = writeJSON 200 (CapabilityDocument ''1.0''
     [(BRFCLookup, lc_Host cfg @ ''/api/handle/{query}''), (BRFCReverseLookup, lc_Host cfg @ ''/api/identityKey/{pubkey}'')])"

definition writeCertificates :: "string list \<Rightarrow> lookup_body response" where
  "writeCertificates certs = writeJSON 200 (RawMessages certs)"

definition claimErrors :: "(handle_error \<times> string \<times> string) list" where
  "claimErrors =
     [(ErrHandleTaken, ''ERR_HANDLE_TAKEN'', ''That handle belongs to another identity key.''),
      (ErrHandleTooSimilar, ''ERR_HANDLE_TOO_SIMILAR'', ''That handle looks too much like an existing one.''),
      (ErrKeyHasHandle, ''ERR_KEY_HAS_HANDLE'', ''This identity key already has a handle; release it first.''),
      (ErrHandleCooldown, ''ERR_HANDLE_COOLDOWN'', ''That handle was released recently and is not yet available.''),
      (ErrStaleCertificate, ''ERR_STALE_CERTIFICATE'', ''issuedAt and serialNumber must be newer than the stored certificate.'')]"

definition writeStoreError :: "handle_error \<Rightarrow> lookup_body response" where
  "writeStoreError e =
     (if e = ErrHandleNotFound then writeError 404 ''ERR_HANDLE_NOT_FOUND'' ''No active handle.''
      else case map_of claimErrors e of
        Some (code, desc) \<Rightarrow> writeError 409 code desc
      | None \<Rightarrow> writeError 500 ''ERR_INTERNAL'' ''Storage failure; safe to retry.'')"

definition normaliseQuery :: "(rune \<Rightarrow> rune) \<Rightarrow> LookupConfig \<Rightarrow> string \<Rightarrow> string option" where
  "normaliseQuery ul cfg q0 =
     (let q = toLower ul (trimSpace q0);
          q1 = (case cut (CHR ''@'') q of
                  None \<Rightarrow> Some q
                | Some (local, domPart) \<Rightarrow> if hasPrefix (lc_Domain cfg) domPart then Some local else None)
      in case q1 of
           None \<Rightarrow> None
         | Some x \<Rightarrow>
             if length x < searchMinLength \<or> length x > maxQueryLength \<or> \<not> queryRE x then None else Some x)"

definition searchTiers :: "(rune \<Rightarrow> rune) \<Rightarrow> string \<Rightarrow> HandleMatch list" where
  "searchTiers ul q =
     (let sk = Skeleton ul q in
      [\<lparr>hm_Field = HandleFieldHandle, hm_Mode = HandleMatchPrefix, hm_Value = q, hm_Limit = 0\<rparr>] @
      (if length sk \<ge> searchMinLength
       then [\<lparr>hm_Field = HandleFieldSkeleton, hm_Mode = HandleMatchPrefix, hm_Value = sk, hm_Limit = 0\<rparr>] else []) @
      (if length q \<ge> substringMinimum
       then [\<lparr>hm_Field = HandleFieldHandle, hm_Mode = HandleMatchContains, hm_Value = q, hm_Limit = 0\<rparr>] else []))"

definition addCert :: "HandleRecord \<Rightarrow> string list \<times> string list \<Rightarrow> string list \<times> string list" where
  "addCert r acc =
     (case (acc, hr_Certificate r) of
        ((certs, seen), Some cert) \<Rightarrow>
          if hr_Handle r \<notin> set seen \<and> length certs < searchLimit then (certs @ [cert], hr_Handle r # seen) else acc
      | (_, None) \<Rightarrow> acc)"

fun tiersLoop ::
  "'s HandleStore \<Rightarrow> HandleMatch list \<Rightarrow> string list \<times> string list \<Rightarrow> 's \<Rightarrow> (handle_error + string list) \<times> 's" where
  "tiersLoop H [] acc s = (Inr (fst acc), s)"
| "tiersLoop H (m # ms) acc s =
     (if length (fst acc) \<ge> searchLimit then (Inr (fst acc), s)
      else case FindHandles H (m\<lparr>hm_Limit := int searchLimit\<rparr>) s of
        (Inl e, s1) \<Rightarrow> (Inl e, s1)
      | (Inr rs, s1) \<Rightarrow> tiersLoop H ms (fold addCert rs acc) s1)"

definition search :: "(rune \<Rightarrow> rune) \<Rightarrow> 's HandleStore \<Rightarrow> string \<Rightarrow> 's \<Rightarrow> (handle_error + string list) \<times> 's" where
  "search ul H q s =
     (case GetHandle H q s of
        (Inl e, s1) \<Rightarrow> (Inl e, s1)
      | (Inr exact, s1) \<Rightarrow>
          tiersLoop H (searchTiers ul q) (if Active exact then addCert (the exact) ([], []) else ([], [])) s1)"

definition SearchHandles ::
  "(rune \<Rightarrow> rune) \<Rightarrow> LookupConfig \<Rightarrow> 's HandleStore \<Rightarrow> string \<Rightarrow> 's \<Rightarrow> lookup_body response \<times> 's" where
  "SearchHandles ul cfg H query s =
     (case normaliseQuery ul cfg query of
        None \<Rightarrow> (writeCertificates [], s)
      | Some q \<Rightarrow>
          (case search ul H q s of
             (Inl e, s1) \<Rightarrow> (writeStoreError e, s1)
           | (Inr certs, s1) \<Rightarrow> (writeCertificates certs, s1)))"

definition LookupIdentityKey :: "(rune \<Rightarrow> rune) \<Rightarrow> 's HandleStore \<Rightarrow> string \<Rightarrow> 's \<Rightarrow> lookup_body response \<times> 's" where
  "LookupIdentityKey ul H pubkey s =
     (let key = toLower ul pubkey in
      if \<not> pubkeyRE key then
        (writeError 400 ''ERR_INVALID_LOOKUP'' ''Expected a 33-byte compressed public key in hex.'', s)
      else case GetHandleByIdentityKey H key s of
        (Inl e, s1) \<Rightarrow> (writeStoreError e, s1)
      | (Inr rec, s1) \<Rightarrow>
          (case rec of
             None \<Rightarrow> (writeStoreError ErrHandleNotFound, s1)
           | Some x \<Rightarrow>
               (case hr_Certificate x of
                  None \<Rightarrow> (writeStoreError ErrHandleNotFound, s1)
                | Some cert \<Rightarrow> (writeJSON 200 (RawMessage cert), s1))))"

definition unavailableReason ::
  "(rune \<Rightarrow> rune) \<Rightarrow> 's HandleStore \<Rightarrow> time \<Rightarrow> string \<Rightarrow> 's \<Rightarrow> (handle_error + string) \<times> 's" where
  "unavailableReason ul H now handle s =
     (case Handles.Validate ul handle of
        Some ErrReservedHandle \<Rightarrow> (Inr ''reserved'', s)
      | Some ErrInvalidHandle \<Rightarrow> (Inr ''invalid'', s)
      | None \<Rightarrow>
          (case GetHandleBySkeleton H (Skeleton ul handle) s of
             (Inl e, s1) \<Rightarrow> (Inl e, s1)
           | (Inr None, s1) \<Rightarrow> (Inr [], s1)
           | (Inr (Some rec), s1) \<Rightarrow>
               (let t = clock now in
                if hr_Handle rec \<noteq> handle then (Inr ''too_similar'', s1)
                else if Active (Some rec) then (Inr ''taken'', s1)
                else if (case hr_CooldownUntil rec of None \<Rightarrow> False | Some u \<Rightarrow> u > t) then (Inr ''cooldown'', s1)
                else if \<not> hr_IssuedAt rec < t then (Inr ''stale'', s1)
                else (Inr [], s1))))"

definition HandleAvailable :: "(rune \<Rightarrow> rune) \<Rightarrow> 's HandleStore \<Rightarrow> time \<Rightarrow> string \<Rightarrow> 's \<Rightarrow> lookup_body response \<times> 's" where
  "HandleAvailable ul H now handle s =
     (case unavailableReason ul H now (toLower ul handle) s of
        (Inl e, s1) \<Rightarrow> (writeStoreError e, s1)
      | (Inr reason, s1) \<Rightarrow> (writeJSON 200 (AvailabilityResponse (reason = []) reason), s1))"

record AdminReleaseRequest =
  ar_Handle :: string
  ar_SkipCooldown :: "bool option"

text \<open>\<open>cfg\<close> is \<open>None\<close> when lookups are off.\<close>

definition adminReleaseHandle ::
  "(rune \<Rightarrow> rune) \<Rightarrow> LookupConfig option \<Rightarrow> 's HandleStore \<Rightarrow> time \<Rightarrow> string \<Rightarrow> AdminReleaseRequest decoded \<Rightarrow> 's \<Rightarrow> lookup_body response \<times> 's" where
  "adminReleaseHandle ul cfg H now caller0 body s =
     (if caller0 = [] then (writeError 401 ''ERR_AUTH_REQUIRED'' ''Authentication required.'', s)
      else let caller = toLower ul caller0 in
      case cfg of
        None \<Rightarrow> (writeError 403 ''ERR_NOT_ADMIN'' ''This identity key may not release handles.'', s)
      | Some c \<Rightarrow>
          if caller \<notin> set (lc_AdminKeys c) then (writeError 403 ''ERR_NOT_ADMIN'' ''This identity key may not release handles.'', s)
          else case body of
            Decoded req \<Rightarrow>
              if ar_Handle req = [] then (writeError 400 ''ERR_INVALID_REQUEST'' ''Expected {\"handle\": \"...\"}.'', s)
              else let handle = toLower ul (trimSpace (ar_Handle req)); t = clock now;
                       until = (if ar_SkipCooldown req = Some False then Some (t + lc_Cooldown c) else None);
                       rel = \<lparr>rl_Handle = handle, rl_Owner = None, rl_IssuedAt = None, rl_ReleasedBy = caller,
                              rl_CooldownUntil = until, rl_Now = t\<rparr>
                   in case ReleaseHandle H rel s of
                        (Inl e, s1) \<Rightarrow> (writeStoreError e, s1)
                      | (Inr _, s1) \<Rightarrow> (writeJSON 200 (AdminReleased ''success'' handle), s1)
          | _ \<Rightarrow> (writeError 400 ''ERR_INVALID_REQUEST'' ''Expected {\"handle\": \"...\"}.'', s))"

section \<open>Search results\<close>

text \<open>The answer so far, as the records it shows.\<close>

definition showing :: "HandleRecord list \<Rightarrow> HandleRecord list \<Rightarrow> string list \<times> string list \<Rightarrow> bool" where
  "showing docs rs acc \<longleftrightarrow> fst acc = map (\<lambda>r. the (hr_Certificate r)) rs \<and> set (snd acc) = hr_Handle ` set rs \<and>
     distinct (map hr_Handle rs) \<and> length rs \<le> searchLimit \<and> set rs \<subseteq> set docs \<and> (\<forall>r \<in> set rs. hr_Certificate r \<noteq> None)"

lemma showing_Nil: "showing docs [] ([], [])"
  by (simp add: showing_def)

lemma addCert_showing:
  assumes u: "registry_ok docs" and s: "showing docs rs acc" and r: "r \<in> set docs" "hr_Certificate r \<noteq> None"
  obtains more where "showing docs (rs @ more) (addCert r acc)" "set more \<subseteq> {r}" "length (rs @ more) < searchLimit \<longrightarrow> r \<in> set (rs @ more)"
    "rs = [] \<longrightarrow> more = [r]"
proof -
  obtain certs seen cert where a: "acc = (certs, seen)" "hr_Certificate r = Some cert" using r(2) by (cases acc) auto
  have c: "certs = map (\<lambda>r. the (hr_Certificate r)) rs" "set seen = hr_Handle ` set rs" using s a by (auto simp: showing_def)
  show thesis
  proof (cases "hr_Handle r \<in> set seen")
    case True
    then obtain x where x: "x \<in> set rs" "hr_Handle x = hr_Handle r" using c by auto
    then have "x = r" using same_handle [OF u _ r(1)] s by (auto simp: showing_def)
    with x(1) s a True show thesis by (intro that [of "[]"]) (auto simp: addCert_def)
  next
    case False
    show thesis
    proof (cases "length certs < searchLimit")
      case True
      with False a c s r show thesis by (intro that [of "[r]"]) (auto simp: addCert_def showing_def)
    next
      case full: False
      with False a c s show thesis by (intro that [of "[]"]) (auto simp: addCert_def searchLimit_def)
    qed
  qed
qed

lemma fold_addCert_showing:
  assumes u: "registry_ok docs" and "showing docs rs acc" and "\<forall>r \<in> set L. r \<in> set docs \<and> hr_Certificate r \<noteq> None"
  shows "\<exists>more. showing docs (rs @ more) (fold addCert L acc) \<and> set more \<subseteq> set L \<and>
    (length (rs @ more) < searchLimit \<longrightarrow> set L \<subseteq> set (rs @ more))"
  using assms(2,3)
proof (induction L arbitrary: rs acc)
  case Nil
  then show ?case by (intro exI [of _ "[]"]) simp
next
  case (Cons r L)
  from Cons.prems have r: "r \<in> set docs" "hr_Certificate r \<noteq> None" by auto
  obtain m1 where m1: "showing docs (rs @ m1) (addCert r acc)" "set m1 \<subseteq> {r}" "length (rs @ m1) < searchLimit \<longrightarrow> r \<in> set (rs @ m1)"
    by (rule addCert_showing [OF u Cons.prems(1) r])
  from Cons.IH [OF m1(1)] Cons.prems(2) obtain m2 where m2: "showing docs ((rs @ m1) @ m2) (fold addCert L (addCert r acc))"
    "set m2 \<subseteq> set L" "length ((rs @ m1) @ m2) < searchLimit \<longrightarrow> set L \<subseteq> set ((rs @ m1) @ m2)" by auto
  show ?case
  proof (intro exI [of _ "m1 @ m2"] conjI)
    show "showing docs (rs @ m1 @ m2) (fold addCert (r # L) acc)" using m2(1) by simp
    show "set (m1 @ m2) \<subseteq> set (r # L)" using m1(2) m2(2) by auto
    show "length (rs @ m1 @ m2) < searchLimit \<longrightarrow> set (r # L) \<subseteq> set (rs @ m1 @ m2)" using m1(3) m2(3) by auto
  qed
qed

text \<open>The first ten of the matches, when the answer is short of ten, are all of them.\<close>

lemma take_all_matches:
  assumes "distinct (map hr_Handle L)" and "set (take searchLimit L) \<subseteq> set rs" and "length rs < searchLimit"
  shows "set L \<subseteq> set rs"
proof -
  have "distinct (take searchLimit L)" using assms(1) by (metis distinct_map distinct_take)
  then have "length (take searchLimit L) \<le> length rs"
    using assms(2) by (metis card_length card_mono distinct_card finite_set le_trans)
  with assms(3) have "length L < searchLimit" by simp
  with assms(2) show ?thesis by simp
qed

context handle_registry
begin

abbreviation tier_list :: "HandleMatch \<Rightarrow> 's \<Rightarrow> HandleRecord list" where
  "tier_list m s \<equiv> sort_key hr_Handle (filter (handle_matches m) (recs s))"

lemma tier_list_facts:
  assumes "ok s"
  shows "distinct (map hr_Handle (tier_list m s))"
    and "\<forall>r \<in> set (tier_list m s). r \<in> set (recs s) \<and> hr_Certificate r \<noteq> None"
proof -
  have i: "distinct (map hr_Handle (recs s))" "\<forall>x \<in> set (recs s). binding_ok x"
    using recs_inv [OF assms] by (auto simp: registry_inv_def registry_ok_def)
  have "mset (map hr_Handle (tier_list m s)) = mset (map hr_Handle (filter (handle_matches m) (recs s)))" by simp
  with i(1) show "distinct (map hr_Handle (tier_list m s))" by (metis distinct_map_filter' mset_eq_imp_distinct_iff)
  show "\<forall>r \<in> set (tier_list m s). r \<in> set (recs s) \<and> hr_Certificate r \<noteq> None"
    using i(2) by (auto simp: handle_matches_def binding_ok_def split: option.splits)
qed

lemma tiersLoop_ok:
  assumes "ok s" and "showing (recs s) rs acc"
  shows "\<exists>more s'. tiersLoop H ms acc s = (Inr (map (\<lambda>r. the (hr_Certificate r)) (rs @ more)), s') \<and> ok s' \<and> recs s' = recs s \<and>
    distinct (map hr_Handle (rs @ more)) \<and> length (rs @ more) \<le> searchLimit \<and>
    (\<forall>r \<in> set more. r \<in> set (recs s) \<and> (\<exists>m \<in> set ms. handle_matches m r)) \<and>
    (length (rs @ more) < searchLimit \<longrightarrow> (\<forall>r \<in> set (recs s). (\<exists>m \<in> set ms. handle_matches m r) \<longrightarrow> r \<in> set (rs @ more)))"
  using assms
proof (induction ms arbitrary: rs acc s)
  case Nil
  then show ?case by (intro exI [of _ "[]"] exI [of _ s]) (auto simp: showing_def)
next
  case (Cons m ms)
  show ?case
  proof (cases "length (fst acc) \<ge> searchLimit")
    case True
    with Cons.prems show ?thesis by (intro exI [of _ "[]"] exI [of _ s]) (auto simp: showing_def)
  next
    case False
    let ?m = "m\<lparr>hm_Limit := int searchLimit\<rparr>"
    have hm: "handle_matches ?m = handle_matches m" by (simp add: handle_matches_def fun_eq_iff)
    have lim: "0 < hm_Limit ?m" "nat (hm_Limit ?m) = searchLimit" by (simp_all add: searchLimit_def)
    from find_handles [OF Cons.prems(1) lim(1)] obtain s1 where
      s1: "FindHandles H ?m s = (Inr (take searchLimit (tier_list m s)), s1)" "ok s1" "recs s1 = recs s"
      unfolding hm lim(2) by blast
    note tf = tier_list_facts [OF Cons.prems(1), of m]
    have u: "registry_ok (recs s)" using recs_inv [OF Cons.prems(1)] by (simp add: registry_inv_def)
    obtain m1 where m1: "showing (recs s) (rs @ m1) (fold addCert (take searchLimit (tier_list m s)) acc)"
        "set m1 \<subseteq> set (take searchLimit (tier_list m s))"
        "length (rs @ m1) < searchLimit \<longrightarrow> set (take searchLimit (tier_list m s)) \<subseteq> set (rs @ m1)"
      using fold_addCert_showing [OF u Cons.prems(2), of "take searchLimit (tier_list m s)"] tf(2) by (meson in_set_takeD)
    from Cons.IH [OF s1(2)] m1(1) s1(3) obtain m2 s' where m2:
        "tiersLoop H ms (fold addCert (take searchLimit (tier_list m s)) acc) s1 = (Inr (map (\<lambda>r. the (hr_Certificate r)) ((rs @ m1) @ m2)), s')"
        "ok s'" "recs s' = recs s" "distinct (map hr_Handle ((rs @ m1) @ m2))" "length ((rs @ m1) @ m2) \<le> searchLimit"
        "\<forall>r \<in> set m2. r \<in> set (recs s) \<and> (\<exists>m \<in> set ms. handle_matches m r)"
        "length ((rs @ m1) @ m2) < searchLimit \<longrightarrow> (\<forall>r \<in> set (recs s). (\<exists>m \<in> set ms. handle_matches m r) \<longrightarrow> r \<in> set ((rs @ m1) @ m2))"
      by metis
    have all1: "set (tier_list m s) \<subseteq> set (rs @ m1)" if "length (rs @ m1 @ m2) < searchLimit"
      using take_all_matches [OF tf(1), of "rs @ m1"] m1(3) that by simp
    show ?thesis
    proof (intro exI [of _ "m1 @ m2"] exI [of _ s'] conjI)
      show "tiersLoop H (m # ms) acc s = (Inr (map (\<lambda>r. the (hr_Certificate r)) (rs @ m1 @ m2)), s')"
        using False s1(1) m2(1) by simp
      show "\<forall>r \<in> set (m1 @ m2). r \<in> set (recs s) \<and> (\<exists>m \<in> set (m # ms). handle_matches m r)"
        using m1(2) m2(6) by (auto dest!: subsetD in_set_takeD)
      show "length (rs @ m1 @ m2) < searchLimit \<longrightarrow>
          (\<forall>r \<in> set (recs s). (\<exists>m \<in> set (m # ms). handle_matches m r) \<longrightarrow> r \<in> set (rs @ m1 @ m2))"
        using all1 m2(7) by auto
    qed (use m2 in simp_all)
  qed
qed

text \<open>A search shows at most ten certificates, each of an active handle that is the query or matches a
  tier, no handle twice, the exact handle first; and when it shows fewer than ten, it shows them all.\<close>

lemma search_ok:
  assumes up: "ok s"
  shows "\<exists>rs s'. search ul H q s = (Inr (map (\<lambda>r. the (hr_Certificate r)) rs), s') \<and> ok s' \<and> recs s' = recs s \<and>
    distinct (map hr_Handle rs) \<and> length rs \<le> searchLimit \<and>
    (\<forall>r \<in> set rs. r \<in> set (recs s) \<and> hr_IdentityKey r \<noteq> None \<and> (hr_Handle r = q \<or> (\<exists>m \<in> set (searchTiers ul q). handle_matches m r))) \<and>
    (\<forall>r \<in> set (recs s). hr_Handle r = q \<and> hr_IdentityKey r \<noteq> None \<longrightarrow> rs \<noteq> [] \<and> hd rs = r) \<and>
    (length rs < searchLimit \<longrightarrow> (\<forall>r \<in> set (recs s). (\<exists>m \<in> set (searchTiers ul q). handle_matches m r) \<longrightarrow> r \<in> set rs))"
proof -
  have inv: "registry_ok (recs s)" "\<forall>x \<in> set (recs s). binding_ok x" using recs_inv [OF up] by (simp_all add: registry_inv_def)
  let ?x = "find (\<lambda>x. hr_Handle x = q) (recs s)"
  obtain s1 where s1: "GetHandle H q s = (Inr ?x, s1)" "ok s1" "recs s1 = recs s" using get_handle [OF up] by blast
  let ?acc = "if Active ?x then addCert (the ?x) ([], []) else ([], [])"
  let ?rs = "if Active ?x then [the ?x] else []"
  have act: "Active ?x \<Longrightarrow> the ?x \<in> set (recs s) \<and> hr_Handle (the ?x) = q \<and> hr_Certificate (the ?x) \<noteq> None \<and> hr_IdentityKey (the ?x) \<noteq> None"
    using inv(2) by (auto simp: Active_def binding_ok_def split: option.splits dest!: find_Some_mem)
  have sh: "showing (recs s) ?rs ?acc"
  proof (cases "Active ?x")
    case True
    obtain more where "showing (recs s) ([] @ more) (addCert (the ?x) ([], []))" "more = [the ?x]"
      using addCert_showing [OF inv(1) showing_Nil, of "the ?x"] act [OF True] by metis
    with True show ?thesis by simp
  qed (simp add: showing_Nil)
  with s1(3) have "showing (recs s1) ?rs ?acc" by simp
  from tiersLoop_ok [OF s1(2) this, of "searchTiers ul q"] s1(3) obtain more s' where m:
      "tiersLoop H (searchTiers ul q) ?acc s1 = (Inr (map (\<lambda>r. the (hr_Certificate r)) (?rs @ more)), s')" "ok s'" "recs s' = recs s"
      "distinct (map hr_Handle (?rs @ more))" "length (?rs @ more) \<le> searchLimit"
      "\<forall>r \<in> set more. r \<in> set (recs s) \<and> (\<exists>m \<in> set (searchTiers ul q). handle_matches m r)"
      "length (?rs @ more) < searchLimit \<longrightarrow> (\<forall>r \<in> set (recs s). (\<exists>m \<in> set (searchTiers ul q). handle_matches m r) \<longrightarrow> r \<in> set (?rs @ more))"
    by metis
  show ?thesis
  proof (intro exI [of _ "?rs @ more"] exI [of _ s'] conjI)
    show "search ul H q s = (Inr (map (\<lambda>r. the (hr_Certificate r)) (?rs @ more)), s')" using s1(1) m(1) by (simp add: search_def)
    show "\<forall>r \<in> set (?rs @ more). r \<in> set (recs s) \<and> hr_IdentityKey r \<noteq> None \<and> (hr_Handle r = q \<or> (\<exists>m \<in> set (searchTiers ul q). handle_matches m r))"
      using m(6) act by (auto simp: handle_matches_def split: if_splits)
    show "\<forall>r \<in> set (recs s). hr_Handle r = q \<and> hr_IdentityKey r \<noteq> None \<longrightarrow> ?rs @ more \<noteq> [] \<and> hd (?rs @ more) = r"
    proof (intro ballI impI)
      fix r
      assume r: "r \<in> set (recs s)" "hr_Handle r = q \<and> hr_IdentityKey r \<noteq> None"
      then have "?x = Some r" using find_handle [OF inv(1) r(1), of "\<lambda>_. True"] by simp
      with r show "?rs @ more \<noteq> [] \<and> hd (?rs @ more) = r" by (simp add: Active_def)
    qed
  qed (use m in simp_all)
qed

lemma LookupIdentityKey_ok:
  assumes up: "ok s" and key: "pubkeyRE (toLower ul k)"
  shows "\<exists>s'. LookupIdentityKey ul H k s =
      ((case find (\<lambda>x. hr_IdentityKey x = Some (toLower ul k)) (recs s) of
          None \<Rightarrow> writeError 404 ''ERR_HANDLE_NOT_FOUND'' ''No active handle.''
        | Some x \<Rightarrow> writeJSON 200 (RawMessage (the (hr_Certificate x)))), s') \<and> ok s' \<and> recs s' = recs s"
proof -
  let ?f = "find (\<lambda>x. hr_IdentityKey x = Some (toLower ul k)) (recs s)"
  obtain s1 where s1: "GetHandleByIdentityKey H (toLower ul k) s = (Inr ?f, s1)" "ok s1" "recs s1 = recs s" using get_key [OF up] by blast
  have c: "hr_Certificate x \<noteq> None" if "?f = Some x" for x
    using recs_inv [OF up] find_Some_mem [OF that] by (auto simp: registry_inv_def binding_ok_def split: option.splits)
  show ?thesis
  proof (cases ?f)
    case None
    with s1 key show ?thesis by (simp add: LookupIdentityKey_def Let_def writeStoreError_def)
  next
    case (Some x)
    with c s1 key show ?thesis by (auto simp: LookupIdentityKey_def Let_def split: option.split)
  qed
qed

text \<open>The availability check agrees with the registry: a handle is called available exactly when a
  certificate dated now, of a key that never had a handle, would take it.\<close>

lemma available_iff_claimable:
  assumes up: "ok s" and sk: "\<forall>x \<in> set (recs s). hr_Skeleton x = Skeleton ul (hr_Handle x)"
    and valid: "Handles.Validate ul (hc_Handle c) = None"
    and c: "hc_Skeleton c = Skeleton ul (hc_Handle c)" "hc_IssuedAt c = clock now" "hc_Now c = clock now"
    and new: "\<forall>x \<in> set (recs s). hr_IdentityKey x \<noteq> Some (hc_IdentityKey c) \<and> hr_LastIdentityKey x \<noteq> hc_IdentityKey c"
    and eq: "unavailableReason ul H now (hc_Handle c) s = (Inr reason, s')"
  shows "reason = [] \<longleftrightarrow> claim_spec (recs s) c = Inr ClaimCreated"
proof -
  have inv: "registry_ok (recs s)" using recs_inv [OF up] by (simp add: registry_inv_def)
  let ?f = "find (\<lambda>x. hr_Skeleton x = Skeleton ul (hc_Handle c)) (recs s)" and ?g = "find (\<lambda>x. hr_Handle x = hc_Handle c) (recs s)"
  obtain s1 where s1: "GetHandleBySkeleton H (Skeleton ul (hc_Handle c)) s = (Inr ?f, s1)" using get_skeleton [OF up] by blast
  have k: "\<not> key_holds (recs s) (hc_IdentityKey c)" using new by (auto simp: key_holds_def)
  have uniq: "x = y" if "x \<in> set (recs s)" "y \<in> set (recs s)" "hr_Skeleton x = hr_Skeleton y" for x y
    using inv that same_handle [OF inv that(1,2)] by (auto simp: registry_ok_def clashes_def)
  show ?thesis
  proof (cases ?f)
    case None
    then have no: "\<forall>x \<in> set (recs s). hr_Skeleton x \<noteq> Skeleton ul (hc_Handle c)" by (simp add: find_None_all)
    then have "?g = None" "\<not> too_similar (recs s) c" using sk c(1) by (auto simp: find_None_all too_similar_def)
    with None s1 valid eq k show ?thesis by (simp add: unavailableReason_def claim_spec_def)
  next
    case (Some x)
    then have x: "x \<in> set (recs s)" "hr_Skeleton x = Skeleton ul (hc_Handle c)" by (auto dest: find_Some_mem)
    show ?thesis
    proof (cases "hr_Handle x = hc_Handle c")
      case True
      then have g: "?g = Some x" using find_handle [OF inv x(1), of "\<lambda>_. True"] by simp
      have ns: "\<not> too_similar (recs s) c" using uniq x c(1) True unfolding too_similar_def by metis
      have ex: "\<not> cooldownExempt x (hc_IdentityKey c)" using new x(1) by (auto simp: cooldownExempt_def)
      from Some True s1 valid eq g ns ex k new x(1) show ?thesis
        by (auto simp: unavailableReason_def claim_spec_def Let_def Active_def cooling_def claim_newer_def c(2,3)
            split: option.splits if_splits)
    next
      case False
      then have "too_similar (recs s) c" using x c(1) by (auto simp: too_similar_def)
      moreover have "?g = None"
        using uniq [OF _ x(1)] sk x(2) False by (auto simp: find_None_all)
      ultimately show ?thesis using Some False s1 valid eq k by (auto simp: unavailableReason_def claim_spec_def Let_def)
    qed
  qed
qed

text \<open>The check and then the claim, when nobody else writes in between.\<close>

lemma unavailable_reads: "ok s \<Longrightarrow> unavailableReason ul H now h s = (x, s') \<Longrightarrow> ok s' \<and> recs s' = recs s"
  using get_skeleton [of s "Skeleton ul h"]
  by (auto simp: unavailableReason_def Let_def split: option.splits handle_fault.splits if_splits)

lemma available_then_claim:
  assumes up: "ok s" and sk: "\<forall>x \<in> set (recs s). hr_Skeleton x = Skeleton ul (hr_Handle x)"
    and valid: "Handles.Validate ul (hc_Handle c) = None"
    and c: "hc_Skeleton c = Skeleton ul (hc_Handle c)" "hc_IssuedAt c = clock now" "hc_Now c = clock now"
    and new: "\<forall>x \<in> set (recs s). hr_IdentityKey x \<noteq> Some (hc_IdentityKey c) \<and> hr_LastIdentityKey x \<noteq> hc_IdentityKey c"
    and eq: "unavailableReason ul H now (hc_Handle c) s = (Inr reason, s')"
  shows "reason = [] \<longleftrightarrow> fst (ClaimHandle H c s') = Inr ClaimCreated"
proof -
  have "msClaim c = c" using c(2,3) by (simp add: msClaim_def clock_def)
  moreover note unavailable_reads [OF up eq]
  ultimately have "fst (ClaimHandle H c s') = claim_spec (recs s) c" using claim [of s' c] by auto
  with available_iff_claimable [OF assms] show ?thesis by simp
qed

end

end
