(* ===== verification/Base64.thy ===== *)
theory Base64
  imports Go_Strings
begin

text \<open>
  Go's \<open>encoding/base64\<close> as far as the server uses it: \<open>StdEncoding\<close> with padding (the serial number
  of a certificate, Pub/Sub data) and \<open>RawURLEncoding\<close> without (the parts of a compact JWS). The
  decoder skips line breaks and ignores trailing bits that are not zero. Not code of the repository.
\<close>

definition stdDigit :: "nat \<Rightarrow> char" where
  "stdDigit d = char_of (if d < 26 then 65 + d else if d < 52 then 71 + d else if d < 62 then d - 4 else if d = 62 then 43 else 47)"

definition stdValue :: "char \<Rightarrow> nat option" where
  "stdValue c =
     (let b = byte c in
      if 65 \<le> b \<and> b \<le> 90 then Some (b - 65)
      else if 97 \<le> b \<and> b \<le> 122 then Some (b - 71)
      else if 48 \<le> b \<and> b \<le> 57 then Some (b + 4)
      else if b = 43 then Some 62 else if b = 47 then Some 63 else None)"

definition urlValue :: "char \<Rightarrow> nat option" where
  "urlValue c =
     (if c = CHR ''-'' then Some 62 else if c = CHR ''_'' then Some 63
      else if c = CHR ''+'' \<or> c = CHR 0x2F then None else stdValue c)"

lemma stdValue_digit: "d < 64 \<Longrightarrow> stdValue (stdDigit d) = Some d"
proof -
  assume "d < 64"
  then have "d \<in> set [0..<64]" by simp
  moreover have "list_all (\<lambda>d. stdValue (stdDigit d) = Some d) [0..<64]" by code_simp
  ultimately show ?thesis by (simp add: list_all_iff)
qed

lemma stdDigit_plain: "d < 64 \<Longrightarrow> stdDigit d \<noteq> CHR ''='' \<and> byte (stdDigit d) \<noteq> 10 \<and> byte (stdDigit d) \<noteq> 13"
proof -
  assume "d < 64"
  then have "d \<in> set [0..<64]" by simp
  moreover have "list_all (\<lambda>d. stdDigit d \<noteq> CHR ''='' \<and> byte (stdDigit d) \<noteq> 10 \<and> byte (stdDigit d) \<noteq> 13) [0..<64]" by code_simp
  ultimately show ?thesis by (simp add: list_all_iff)
qed

text \<open>Three bytes are four digits.\<close>

definition byte1 :: "nat \<Rightarrow> nat \<Rightarrow> char" where "byte1 a b = char_of (a * 4 + b div 16)"
definition byte2 :: "nat \<Rightarrow> nat \<Rightarrow> char" where "byte2 b c = char_of (b mod 16 * 16 + c div 4)"
definition byte3 :: "nat \<Rightarrow> nat \<Rightarrow> char" where "byte3 c d = char_of (c mod 4 * 64 + d)"

fun encodeStd :: "string \<Rightarrow> string" where
  "encodeStd [] = []"
| "encodeStd [x] = [stdDigit (byte x div 4), stdDigit (byte x mod 4 * 16), CHR ''='', CHR ''='']"
| "encodeStd [x, y] = [stdDigit (byte x div 4), stdDigit (byte x mod 4 * 16 + byte y div 16),
     stdDigit (byte y mod 16 * 4), CHR ''='']"
| "encodeStd (x # y # z # s) = [stdDigit (byte x div 4), stdDigit (byte x mod 4 * 16 + byte y div 16),
     stdDigit (byte y mod 16 * 4 + byte z div 64), stdDigit (byte z mod 64)] @ encodeStd s"

text \<open>A padded group can only be the last.\<close>

fun decodeQuads :: "string \<Rightarrow> string option" where
  "decodeQuads [] = Some []"
| "decodeQuads [c1, c2, c3, c4] =
     (case (stdValue c1, stdValue c2, stdValue c3, stdValue c4) of
        (Some a, Some b, Some c, Some d) \<Rightarrow> Some [byte1 a b, byte2 b c, byte3 c d]
      | (Some a, Some b, Some c, None) \<Rightarrow> if c4 = CHR ''='' then Some [byte1 a b, byte2 b c] else None
      | (Some a, Some b, None, None) \<Rightarrow> if c3 = CHR ''='' \<and> c4 = CHR ''='' then Some [byte1 a b] else None
      | _ \<Rightarrow> None)"
| "decodeQuads (c1 # c2 # c3 # c4 # s) =
     (case (stdValue c1, stdValue c2, stdValue c3, stdValue c4, decodeQuads s) of
        (Some a, Some b, Some c, Some d, Some r) \<Rightarrow> Some ([byte1 a b, byte2 b c, byte3 c d] @ r)
      | _ \<Rightarrow> None)"
| "decodeQuads _ = None"

definition noBreaks :: "string \<Rightarrow> string" where
  "noBreaks s = filter (\<lambda>c. byte c \<noteq> 10 \<and> byte c \<noteq> 13) s"

definition decodeStd :: "string \<Rightarrow> string option" where
  "decodeStd s = decodeQuads (noBreaks s)"

fun decodeRaw :: "string \<Rightarrow> string option" where
  "decodeRaw [] = Some []"
| "decodeRaw [c1, c2] =
     (case (urlValue c1, urlValue c2) of (Some a, Some b) \<Rightarrow> Some [byte1 a b] | _ \<Rightarrow> None)"
| "decodeRaw [c1, c2, c3] =
     (case (urlValue c1, urlValue c2, urlValue c3) of
        (Some a, Some b, Some c) \<Rightarrow> Some [byte1 a b, byte2 b c] | _ \<Rightarrow> None)"
| "decodeRaw (c1 # c2 # c3 # c4 # s) =
     (case (urlValue c1, urlValue c2, urlValue c3, urlValue c4, decodeRaw s) of
        (Some a, Some b, Some c, Some d, Some r) \<Rightarrow> Some ([byte1 a b, byte2 b c, byte3 c d] @ r)
      | _ \<Rightarrow> None)"
| "decodeRaw _ = None"

definition decodeRawURL :: "string \<Rightarrow> string option" where
  "decodeRawURL s = decodeRaw (noBreaks s)"

text \<open>Decoding gives back what was encoded.\<close>

lemma group_bytes:
  fixes x y z :: char
  shows "byte1 (byte x div 4) (byte x mod 4 * 16 + byte y div 16) = x" "byte1 (byte x div 4) (byte x mod 4 * 16) = x"
    and "byte2 (byte x mod 4 * 16 + byte y div 16) (byte y mod 16 * 4 + byte z div 64) = y"
    and "byte2 (byte x mod 4 * 16 + byte y div 16) (byte y mod 16 * 4) = y"
    and "byte3 (byte y mod 16 * 4 + byte z div 64) (byte z mod 64) = z"
proof -
  have b: "byte x < 256" "byte y < 256" "byte z < 256" by simp_all
  have "byte y div 16 < 16" "byte z div 64 < 4" "byte y mod 16 < 16" using b by (simp_all add: less_mult_imp_div_less)
  then have "byte x div 4 * 4 + (byte x mod 4 * 16 + byte y div 16) div 16 = byte x"
      "byte x div 4 * 4 + (byte x mod 4 * 16) div 16 = byte x"
      "(byte x mod 4 * 16 + byte y div 16) mod 16 * 16 + (byte y mod 16 * 4 + byte z div 64) div 4 = byte y"
      "(byte x mod 4 * 16 + byte y div 16) mod 16 * 16 + (byte y mod 16 * 4) div 4 = byte y"
      "(byte y mod 16 * 4 + byte z div 64) mod 4 * 64 + byte z mod 64 = byte z"
    by simp_all
  then show "byte1 (byte x div 4) (byte x mod 4 * 16 + byte y div 16) = x" "byte1 (byte x div 4) (byte x mod 4 * 16) = x"
      "byte2 (byte x mod 4 * 16 + byte y div 16) (byte y mod 16 * 4 + byte z div 64) = y"
      "byte2 (byte x mod 4 * 16 + byte y div 16) (byte y mod 16 * 4) = y"
      "byte3 (byte y mod 16 * 4 + byte z div 64) (byte z mod 64) = z"
    unfolding byte1_def byte2_def byte3_def by simp_all
qed

lemma group_digits:
  fixes x y z :: char
  shows "byte x div 4 < 64" "byte x mod 4 * 16 + byte y div 16 < 64" "byte x mod 4 * 16 < 64"
    "byte y mod 16 * 4 + byte z div 64 < 64" "byte y mod 16 * 4 < 64" "byte z mod 64 < (64 :: nat)"
proof -
  have "byte x < 256" "byte y < 256" "byte z < 256" by simp_all
  then have "byte y div 16 < 16" "byte z div 64 < 4" "byte x mod 4 < 4" "byte y mod 16 < 16" by (simp_all add: less_mult_imp_div_less)
  then show "byte x mod 4 * 16 + byte y div 16 < 64" "byte x mod 4 * 16 < 64"
    "byte y mod 16 * 4 + byte z div 64 < 64" "byte y mod 16 * 4 < 64" by linarith+
  show "byte x div 4 < 64" "byte z mod 64 < (64 :: nat)" using \<open>byte x < 256\<close> by (simp_all add: less_mult_imp_div_less)
qed

lemma stdValue_pad: "stdValue (CHR ''='') = None"
  by code_simp

lemma noBreaks_encode: "noBreaks (encodeStd s) = encodeStd s"
  by (induction s rule: encodeStd.induct) (simp_all add: noBreaks_def stdDigit_plain group_digits)

lemma decodeQuads_encode: "decodeQuads (encodeStd s) = Some s"
proof (induction s rule: encodeStd.induct)
  case (4 x y z s)
  show ?case
  proof (cases "encodeStd s")
    case Nil
    with 4 have "s = []" by simp
    with Nil show ?thesis by (simp add: stdValue_digit group_digits group_bytes)
  next
    case (Cons c cs)
    with 4 show ?thesis by (simp add: stdValue_digit group_digits group_bytes)
  qed
qed (simp_all add: stdValue_digit group_digits group_bytes stdValue_pad)

lemma decodeStd_encode: "decodeStd (encodeStd s) = Some s"
  by (simp add: decodeStd_def noBreaks_encode decodeQuads_encode)

end
