(* ===== verification/Profile_Cert.thy ===== *)
theory Profile_Cert
  imports Base64
begin

text \<open>
  Profile certificates (\<open>pkg/profilecert/profilecert.go\<close>). The certificate type, its JSON form, its
  signature check and its keys belong to the SDK: \<open>sdk\<close> carries them, with \<open>time.Parse\<close>. A key is
  \<open>None\<close> where the JSON left its point unset.
\<close>

section \<open>Definitions\<close>

record 'k Certificate =
  ce_Type :: string
  ce_SerialNumber :: string
  ce_Subject :: "'k option"
  ce_Certifier :: "'k option"
  ce_RevocationOutpoint :: "(string \<times> nat) option"
  ce_Fields :: "(string \<times> string) list"

record 'k cert_sdk =
  sdk_unmarshal :: "string \<Rightarrow> string + 'k Certificate"
  sdk_verify :: "'k Certificate \<Rightarrow> string option"
  sdk_encode :: "'k Certificate \<Rightarrow> string + string"
  sdk_toDERHex :: "'k \<Rightarrow> string"
  sdk_parseTime :: "string \<Rightarrow> time option"

definition certType :: string where
  "certType = ''SbatVXXssDW3AO0J9bxIljkHGbPBGCVAXg94gXFf0cE=''"

definition MaxClockSkew :: int where
  "MaxClockSkew = 5 * 60 * 1000 * msec"

definition MaxBody :: nat where "MaxBody = 16384"
definition maxFields :: nat where "maxFields = 32"
definition maxFieldName :: nat where "maxFieldName = 50"
definition maxFieldValue :: nat where "maxFieldValue = 1024"
definition serialBytes :: nat where "serialBytes = 32"

definition zeroTxid :: string where
  "zeroTxid = replicate 64 (CHR ''0'')"

datatype cert_error = ErrInvalidCert string | ErrWrongDomain

record Profile =
  pf_Handle :: string
  pf_Paymail :: string
  pf_IdentityKey :: string
  pf_SerialNumber :: string
  pf_IssuedAt :: time
  pf_Released :: bool
  pf_JSON :: string

definition invalidCert :: "string \<Rightarrow> cert_error + 'a" where
  "invalidCert m = Inl (ErrInvalidCert m)"

text \<open>Whether the serial is 32 bytes in canonical base64.\<close>

definition serialOk :: "string \<Rightarrow> bool" where
  "serialOk serial = (case decodeStd serial of None \<Rightarrow> False | Some b \<Rightarrow> length b = serialBytes \<and> encodeStd b = serial)"

text \<open>A field that is too large, with the text of its error.\<close>

definition badField :: "string \<times> string \<Rightarrow> string option" where
  "badField f =
     (if length (fst f) \<ge> maxFieldName then Some (''field name must be under '' @ itoa (int maxFieldName) @ '' bytes'')
      else if length (snd f) > maxFieldValue
      then Some (''field '' @ fst f @ '' larger than '' @ itoa (int maxFieldValue) @ '' bytes'')
      else None)"

definition fieldValue :: "'k Certificate \<Rightarrow> string \<Rightarrow> string" where
  "fieldValue c name = (case map_of (ce_Fields c) name of None \<Rightarrow> [] | Some v \<Rightarrow> v)"

text \<open>The checks of the certificate itself, up to its signature.\<close>

definition checkCertificate :: "'k cert_sdk \<Rightarrow> 'k Certificate \<Rightarrow> cert_error + 'k" where
  "checkCertificate sdk c =
     (if ce_Type c \<noteq> certType then invalidCert ''wrong certificate type''
      else if \<not> serialOk (ce_SerialNumber c) then
        invalidCert (''serialNumber must be '' @ itoa (int serialBytes) @ '' bytes in canonical base64'')
      else case (ce_Subject c, ce_Certifier c) of
        (Some subject, Some certifier) \<Rightarrow>
          if subject \<noteq> certifier then invalidCert ''subject and certifier differ''
          else if ce_RevocationOutpoint c \<noteq> Some (zeroTxid, 0) then invalidCert ''revocationOutpoint must be the zero outpoint''
          else if length (ce_Fields c) > maxFields then invalidCert (''more than '' @ itoa (int maxFields) @ '' fields'')
          else (case find (\<lambda>f. badField f \<noteq> None) (ce_Fields c) of
                  Some f \<Rightarrow> invalidCert (the (badField f))
                | None \<Rightarrow>
                    (case sdk_verify sdk c of
                       Some err \<Rightarrow> invalidCert (''signature: '' @ err)
                     | None \<Rightarrow> Inr subject))
      | _ \<Rightarrow> invalidCert ''subject and certifier are required'')"

text \<open>The encoder ends its output with a line break, which \<open>bytes.TrimRight\<close> removes.\<close>

definition trimNewlines :: "string \<Rightarrow> string" where
  "trimNewlines s = rev (dropWhile (\<lambda>c. byte c = 10) (rev s))"

definition Parse :: "(rune \<Rightarrow> rune) \<Rightarrow> 'k cert_sdk \<Rightarrow> string \<Rightarrow> string \<Rightarrow> time \<Rightarrow> cert_error + Profile" where
  "Parse ul sdk body domain now =
     (if domain = [] then invalidCert ''no domain configured''
      else if length body > MaxBody then invalidCert (''larger than '' @ itoa (int MaxBody) @ '' bytes'')
      else case sdk_unmarshal sdk body of
        Inl err \<Rightarrow> invalidCert (''not a certificate: '' @ err)
      | Inr c \<Rightarrow>
          (case checkCertificate sdk c of
             Inl e \<Rightarrow> Inl e
           | Inr subject \<Rightarrow>
               (let paymail = fieldValue c ''paymail'' in
                case cut (CHR ''@'') paymail of
                  None \<Rightarrow> invalidCert ''paymail field must be lowercase handle@domain''
                | Some (handle, domPart) \<Rightarrow>
                    if handle = [] \<or> domPart = [] \<or> paymail \<noteq> toLower ul paymail then
                      invalidCert ''paymail field must be lowercase handle@domain''
                    else if domPart \<noteq> toLower ul domain then Inl ErrWrongDomain
                    else case sdk_parseTime sdk (fieldValue c ''issuedAt'') of
                      None \<Rightarrow> invalidCert ''issuedAt field must be RFC 3339''
                    | Some issuedAt \<Rightarrow>
                        if issuedAt > now + MaxClockSkew then invalidCert ''issuedAt is more than 5m0s ahead of this server''
                        else case sdk_encode sdk c of
                          Inl err \<Rightarrow> invalidCert (''re-marshal: '' @ err)
                        | Inr buf \<Rightarrow>
                            (let canonical = trimNewlines buf in
                             if length canonical > MaxBody then
                               invalidCert (''canonical form larger than '' @ itoa (int MaxBody) @ '' bytes'')
                             else Inr \<lparr>pf_Handle = handle, pf_Paymail = paymail, pf_IdentityKey = sdk_toDERHex sdk subject,
                                     pf_SerialNumber = ce_SerialNumber c, pf_IssuedAt = truncMs issuedAt,
                                     pf_Released = (fieldValue c ''released'' = ''true''), pf_JSON = canonical\<rparr>))))"

section \<open>What an accepted certificate is\<close>

lemma serialOk_iff: "serialOk s \<longleftrightarrow> (\<exists>b. length b = serialBytes \<and> s = encodeStd b)"
  by (auto simp: serialOk_def decodeStd_encode split: option.split)

text \<open>A certificate within its bounds: the profile type, a serial of 32 bytes in canonical base64, the zero
  outpoint, at most 32 fields with names under 50 bytes and values of at most 1024.\<close>

definition cert_bounded :: "'k Certificate \<Rightarrow> bool" where
  "cert_bounded c \<longleftrightarrow>
     ce_Type c = ''SbatVXXssDW3AO0J9bxIljkHGbPBGCVAXg94gXFf0cE='' \<and>
     (\<exists>b. length b = 32 \<and> ce_SerialNumber c = encodeStd b) \<and>
     ce_RevocationOutpoint c = Some (replicate 64 (CHR ''0''), 0) \<and>
     length (ce_Fields c) \<le> 32 \<and> (\<forall>f \<in> set (ce_Fields c). length (fst f) < 50 \<and> length (snd f) \<le> 1024)"

lemma badField_None: "badField f = None \<longleftrightarrow> length (fst f) < 50 \<and> length (snd f) \<le> 1024"
  by (auto simp: badField_def maxFieldName_def maxFieldValue_def)

lemma checkCertificate_iff:
  "checkCertificate sdk c = Inr k \<longleftrightarrow>
     cert_bounded c \<and> ce_Subject c = Some k \<and> ce_Certifier c = Some k \<and> sdk_verify sdk c = None"
proof -
  have b: "cert_bounded c \<longleftrightarrow> ce_Type c = certType \<and> serialOk (ce_SerialNumber c) \<and> ce_RevocationOutpoint c = Some (zeroTxid, 0) \<and>
      \<not> length (ce_Fields c) > maxFields \<and> find (\<lambda>f. badField f \<noteq> None) (ce_Fields c) = None"
    by (auto simp: cert_bounded_def certType_def serialOk_iff serialBytes_def zeroTxid_def maxFields_def find_None_all badField_None)
  show ?thesis unfolding b
    by (cases "ce_Subject c"; cases "ce_Certifier c"; cases "find (\<lambda>f. badField f \<noteq> None) (ce_Fields c)")
      (auto simp: checkCertificate_def invalidCert_def split: option.splits)
qed

text \<open>The profile of a certificate that is in order: within its bounds and self-signed, with a lower-case
  paymail of the server's domain, dated at most five minutes ahead, and of a canonical form within the
  bound of the body.\<close>

definition profile_of :: "(rune \<Rightarrow> rune) \<Rightarrow> 'k cert_sdk \<Rightarrow> string \<Rightarrow> time \<Rightarrow> 'k Certificate \<Rightarrow> Profile \<Rightarrow> bool" where
  "profile_of ul sdk domain now c p \<longleftrightarrow>
     cert_bounded c \<and> sdk_verify sdk c = None \<and>
     (\<exists>k. ce_Subject c = Some k \<and> ce_Certifier c = Some k \<and> pf_IdentityKey p = sdk_toDERHex sdk k) \<and>
     pf_SerialNumber p = ce_SerialNumber c \<and>
     pf_Paymail p = fieldValue c ''paymail'' \<and> pf_Paymail p = pf_Handle p @ ''@'' @ toLower ul domain \<and>
     toLower ul (pf_Paymail p) = pf_Paymail p \<and> pf_Handle p \<noteq> [] \<and> CHR ''@'' \<notin> set (pf_Handle p) \<and> toLower ul domain \<noteq> [] \<and>
     (\<exists>t. sdk_parseTime sdk (fieldValue c ''issuedAt'') = Some t \<and> t \<le> now + 5 * 60 * 1000 * msec \<and> pf_IssuedAt p = truncMs t) \<and>
     (pf_Released p \<longleftrightarrow> fieldValue c ''released'' = ''true'') \<and>
     (\<exists>buf. sdk_encode sdk c = Inr buf \<and> pf_JSON p = trimNewlines buf) \<and> length (pf_JSON p) \<le> 16384"

lemma Parse_profile:
  assumes "Parse ul sdk body domain now = Inr p"
  shows "domain \<noteq> [] \<and> length body \<le> 16384 \<and> (\<exists>c. sdk_unmarshal sdk body = Inr c \<and> profile_of ul sdk domain now c p)"
proof -
  obtain c k handle domPart issuedAt buf where c: "sdk_unmarshal sdk body = Inr c" "length body \<le> MaxBody" "domain \<noteq> []"
    and k: "checkCertificate sdk c = Inr k"
    and pm: "cut (CHR ''@'') (fieldValue c ''paymail'') = Some (handle, domPart)" "handle \<noteq> []" "domPart \<noteq> []"
      "fieldValue c ''paymail'' = toLower ul (fieldValue c ''paymail'')" "domPart = toLower ul domain"
    and t: "sdk_parseTime sdk (fieldValue c ''issuedAt'') = Some issuedAt" "issuedAt \<le> now + MaxClockSkew"
    and j: "sdk_encode sdk c = Inr buf" "length (trimNewlines buf) \<le> MaxBody"
    and p: "p = \<lparr>pf_Handle = handle, pf_Paymail = fieldValue c ''paymail'', pf_IdentityKey = sdk_toDERHex sdk k,
       pf_SerialNumber = ce_SerialNumber c, pf_IssuedAt = truncMs issuedAt,
       pf_Released = (fieldValue c ''released'' = ''true''), pf_JSON = trimNewlines buf\<rparr>"
    using assms unfolding Parse_def Let_def invalidCert_def
    by (auto simp: not_less split: if_splits sum.splits option.splits)
  note cc = k [unfolded checkCertificate_iff] and ct = cut_Some [OF pm(1)]
  have "pf_Paymail p = pf_Handle p @ ''@'' @ toLower ul domain" "CHR ''@'' \<notin> set (pf_Handle p)" using p ct pm(5) by simp_all
  moreover have "toLower ul (pf_Paymail p) = pf_Paymail p" using p pm(4) by simp
  ultimately have "profile_of ul sdk domain now c p"
    using cc pm(2,3,5) t j unfolding profile_of_def by (simp add: p MaxClockSkew_def MaxBody_def)
  with c show ?thesis by (auto simp: MaxBody_def)
qed

lemma profile_Parse:
  assumes "domain \<noteq> []" and "length body \<le> 16384" and "sdk_unmarshal sdk body = Inr c" and "profile_of ul sdk domain now c p"
  shows "Parse ul sdk body domain now = Inr p"
proof -
  from assms(4) obtain k t buf where k: "checkCertificate sdk c = Inr k" "pf_IdentityKey p = sdk_toDERHex sdk k"
    and t: "sdk_parseTime sdk (fieldValue c ''issuedAt'') = Some t" "t \<le> now + MaxClockSkew" "pf_IssuedAt p = truncMs t"
    and j: "sdk_encode sdk c = Inr buf" "pf_JSON p = trimNewlines buf" "length (trimNewlines buf) \<le> MaxBody"
    unfolding profile_of_def checkCertificate_iff by (auto simp: MaxClockSkew_def MaxBody_def)
  have pm: "fieldValue c ''paymail'' = pf_Handle p @ CHR ''@'' # toLower ul domain" "pf_Paymail p = fieldValue c ''paymail''"
      "toLower ul (fieldValue c ''paymail'') = fieldValue c ''paymail''" "pf_Handle p \<noteq> []" "CHR ''@'' \<notin> set (pf_Handle p)" "toLower ul domain \<noteq> []"
    using assms(4) unfolding profile_of_def by auto
  have ct: "cut (CHR ''@'') (fieldValue c ''paymail'') = Some (pf_Handle p, toLower ul domain)"
    unfolding pm(1) by (rule cut_append [OF pm(5)])
  have "p = \<lparr>pf_Handle = pf_Handle p, pf_Paymail = fieldValue c ''paymail'', pf_IdentityKey = sdk_toDERHex sdk k,
       pf_SerialNumber = ce_SerialNumber c, pf_IssuedAt = truncMs t,
       pf_Released = (fieldValue c ''released'' = ''true''), pf_JSON = trimNewlines buf\<rparr>"
    using assms(4) k(2) t(3) j(2) unfolding profile_of_def by (cases p) simp
  then show ?thesis unfolding Parse_def Let_def
    using assms(1-3) k(1) t j pm(3,4,6) ct by (simp add: MaxBody_def)
qed

end
