(* ===== verification/Subscriptions.thy ===== *)
theory Subscriptions
  imports Mongo_Store
begin

text \<open>
  Store subscriptions (\<open>pkg/storage/subscriptions.go\<close>, \<open>pkg/storage/mongostore/subscriptions.go\<close>).
  The collection is keyed by the subscription's id. Like the handle registry it is shared: the state
  carries the writes other clients make before each round trip.
\<close>

section \<open>The contract's data\<close>

datatype sub_error = ErrSubscriptionNotFound | ErrSubscriptionRaced | ErrSubscriptionFault

definition StoreAppStore :: string where "StoreAppStore = ''app-store''"
definition StoreGooglePlay :: string where "StoreGooglePlay = ''google-play''"

definition SubActive :: string where "SubActive = ''active''"
definition SubCanceled :: string where "SubCanceled = ''canceled''"
definition SubGrace :: string where "SubGrace = ''grace''"
definition SubOnHold :: string where "SubOnHold = ''on_hold''"
definition SubExpired :: string where "SubExpired = ''expired''"
definition SubRevoked :: string where "SubRevoked = ''revoked''"
definition SubPending :: string where "SubPending = ''pending''"
definition SubWrongTier :: string where "SubWrongTier = ''wrong_tier''"

lemmas sub_states = SubActive_def SubCanceled_def SubGrace_def SubOnHold_def SubExpired_def SubRevoked_def
  SubPending_def SubWrongTier_def

definition SubscriptionID :: "string \<Rightarrow> string \<Rightarrow> string" where
  "SubscriptionID store storeID = store @ '':'' @ storeID"

record SubscriptionStatus =
  ss_ProductID :: string
  ss_BasePlan :: string
  ss_Tier :: int
  ss_State :: string
  ss_ExpiresAt :: time
  ss_Environment :: string

record Subscription =
  su_Status :: SubscriptionStatus
  su_ID :: string
  su_Store :: string
  su_StoreID :: string
  su_Handle :: string
  su_IdentityKey :: string
  su_CreatedAt :: time
  su_UpdatedAt :: time
  su_ReleasedAt :: "time option"

record 's SubscriptionStore =
  GetSubscription :: "string \<Rightarrow> 's \<Rightarrow> (sub_error + Subscription option) \<times> 's"
  BindSubscription :: "Subscription \<Rightarrow> Subscription option \<Rightarrow> 's \<Rightarrow> (sub_error + unit) \<times> 's"
  UpdateSubscriptionStatus :: "string \<Rightarrow> SubscriptionStatus \<Rightarrow> time \<Rightarrow> 's \<Rightarrow> (sub_error + unit) \<times> 's"
  MarkSubscriptionReleased :: "string \<Rightarrow> time \<Rightarrow> 's \<Rightarrow> (sub_error + unit) \<times> 's"
  ListSubscriptionsByHandle :: "string \<Rightarrow> 's \<Rightarrow> (sub_error + Subscription list) \<times> 's"
  ListLapsedSubscriptions :: "time \<Rightarrow> int \<Rightarrow> 's \<Rightarrow> (sub_error + Subscription list) \<times> 's"

section \<open>The collection\<close>

record subscriptionDoc =
  sd_ID :: string
  sd_Store :: string
  sd_StoreID :: string
  sd_Handle :: string
  sd_IdentityKey :: string
  sd_ProductID :: string
  sd_BasePlan :: string
  sd_Tier :: int
  sd_State :: string
  sd_ExpiresAt :: time
  sd_Environment :: string
  sd_CreatedAt :: time
  sd_UpdatedAt :: time
  sd_ReleasedAt :: "time option"

definition toSubscription :: "subscriptionDoc \<Rightarrow> Subscription" where
  "toSubscription d = \<lparr>su_Status = \<lparr>ss_ProductID = sd_ProductID d, ss_BasePlan = sd_BasePlan d, ss_Tier = sd_Tier d,
       ss_State = sd_State d, ss_ExpiresAt = sd_ExpiresAt d, ss_Environment = sd_Environment d\<rparr>,
     su_ID = sd_ID d, su_Store = sd_Store d, su_StoreID = sd_StoreID d, su_Handle = sd_Handle d,
     su_IdentityKey = sd_IdentityKey d, su_CreatedAt = sd_CreatedAt d, su_UpdatedAt = sd_UpdatedAt d,
     su_ReleasedAt = sd_ReleasedAt d\<rparr>"

definition statusFields :: "SubscriptionStatus \<Rightarrow> subscriptionDoc \<Rightarrow> subscriptionDoc" where
  "statusFields st d = d\<lparr>sd_ProductID := ss_ProductID st, sd_BasePlan := ss_BasePlan st, sd_Tier := ss_Tier st,
     sd_State := ss_State st, sd_ExpiresAt := truncMs (ss_ExpiresAt st), sd_Environment := ss_Environment st\<rparr>"

definition newSubscriptionDoc :: "Subscription \<Rightarrow> subscriptionDoc" where
  "newSubscriptionDoc sub = (let st = su_Status sub in
     \<lparr>sd_ID = su_ID sub, sd_Store = su_Store sub, sd_StoreID = su_StoreID sub, sd_Handle = su_Handle sub,
      sd_IdentityKey = su_IdentityKey sub, sd_ProductID = ss_ProductID st, sd_BasePlan = ss_BasePlan st,
      sd_Tier = ss_Tier st, sd_State = ss_State st, sd_ExpiresAt = truncMs (ss_ExpiresAt st),
      sd_Environment = ss_Environment st, sd_CreatedAt = truncMs (su_CreatedAt sub),
      sd_UpdatedAt = truncMs (su_UpdatedAt sub), sd_ReleasedAt = None\<rparr>)"

definition update_sub ::
  "(subscriptionDoc \<Rightarrow> bool) \<Rightarrow> (subscriptionDoc \<Rightarrow> subscriptionDoc) \<Rightarrow> subscriptionDoc list \<Rightarrow> bool reply \<times> subscriptionDoc list" where
  "update_sub P f docs =
     (case find P docs of
        None \<Rightarrow> (Reply False, docs)
      | Some d \<Rightarrow> (Reply True, map (\<lambda>x. if sd_ID x = sd_ID d then f x else x) docs))"

datatype sub_write = InsertSub Subscription | RebindSub Subscription Subscription
  | StatusSub string SubscriptionStatus time | ReleaseSub string time

fun apply_sub :: "sub_write \<Rightarrow> subscriptionDoc list \<Rightarrow> bool reply \<times> subscriptionDoc list" where
  "apply_sub (InsertSub sub) docs =
     (if \<exists>d \<in> set docs. sd_ID d = su_ID sub then (DuplicateKey, docs)
      else (Reply True, docs @ [newSubscriptionDoc sub]))"
| "apply_sub (RebindSub sub prev) docs =
     update_sub (\<lambda>d. sd_ID d = su_ID sub \<and> sd_Handle d = su_Handle prev \<and> sd_IdentityKey d = su_IdentityKey prev)
       (\<lambda>d. (statusFields (su_Status sub) d)\<lparr>sd_Handle := su_Handle sub, sd_IdentityKey := su_IdentityKey sub,
              sd_UpdatedAt := truncMs (su_UpdatedAt sub), sd_ReleasedAt := None\<rparr>) docs"
| "apply_sub (StatusSub i st now) docs =
     update_sub (\<lambda>d. sd_ID d = i) (\<lambda>d. (statusFields st d)\<lparr>sd_UpdatedAt := truncMs now\<rparr>) docs"
| "apply_sub (ReleaseSub i at) docs =
     update_sub (\<lambda>d. sd_ID d = i) (\<lambda>d. d\<lparr>sd_ReleasedAt := Some (truncMs at), sd_UpdatedAt := truncMs at\<rparr>) docs"

record sub_db =
  sb_docs :: "subscriptionDoc list"
  sb_others :: "sub_write list list"

type_synonym subscriptions = "sub_db conn"

definition run_subs :: "sub_write list \<Rightarrow> subscriptionDoc list \<Rightarrow> subscriptionDoc list" where
  "run_subs ws docs = fold (\<lambda>w ds. snd (apply_sub w ds)) ws docs"

definition others_sub :: "sub_db \<Rightarrow> sub_db" where
  "others_sub d =
     (case sb_others d of
        [] \<Rightarrow> d
      | ws # rest \<Rightarrow> d\<lparr>sb_docs := run_subs ws (sb_docs d), sb_others := rest\<rparr>)"

definition scall :: "(subscriptionDoc list \<Rightarrow> 'a \<times> subscriptionDoc list) \<Rightarrow> subscriptions \<Rightarrow> (sub_error + 'a) \<times> subscriptions" where
  "scall f s =
     (case call (\<lambda>d. let d1 = others_sub d; (a, docs) = f (sb_docs d1) in (a, d1\<lparr>sb_docs := docs\<rparr>)) s of
        (Inl _, s1) \<Rightarrow> (Inl ErrSubscriptionFault, s1)
      | (Inr a, s1) \<Rightarrow> (Inr a, s1))"

section \<open>Operations\<close>

definition mongo_GetSubscription :: "string \<Rightarrow> subscriptions \<Rightarrow> (sub_error + Subscription option) \<times> subscriptions" where
  "mongo_GetSubscription i = scall (\<lambda>docs. (map_option toSubscription (find (\<lambda>d. sd_ID d = i) docs), docs))"

definition mongo_BindSubscription :: "Subscription \<Rightarrow> Subscription option \<Rightarrow> subscriptions \<Rightarrow> (sub_error + unit) \<times> subscriptions" where
  "mongo_BindSubscription sub prev s =
     (case prev of
        None \<Rightarrow>
          (case scall (apply_sub (InsertSub sub)) s of
             (Inl e, s1) \<Rightarrow> (Inl e, s1)
           | (Inr DuplicateKey, s1) \<Rightarrow> (Inl ErrSubscriptionRaced, s1)
           | (Inr (Reply _), s1) \<Rightarrow> (Inr (), s1))
      | Some p \<Rightarrow>
          (case scall (apply_sub (RebindSub sub p)) s of
             (Inl e, s1) \<Rightarrow> (Inl e, s1)
           | (Inr (Reply True), s1) \<Rightarrow> (Inr (), s1)
           | (Inr _, s1) \<Rightarrow> (Inl ErrSubscriptionRaced, s1)))"

definition updateSubscription :: "sub_write \<Rightarrow> subscriptions \<Rightarrow> (sub_error + unit) \<times> subscriptions" where
  "updateSubscription w s =
     (case scall (apply_sub w) s of
        (Inl e, s1) \<Rightarrow> (Inl e, s1)
      | (Inr (Reply True), s1) \<Rightarrow> (Inr (), s1)
      | (Inr _, s1) \<Rightarrow> (Inl ErrSubscriptionNotFound, s1))"

definition mongo_UpdateSubscriptionStatus ::
  "string \<Rightarrow> SubscriptionStatus \<Rightarrow> time \<Rightarrow> subscriptions \<Rightarrow> (sub_error + unit) \<times> subscriptions" where
  "mongo_UpdateSubscriptionStatus i st now = updateSubscription (StatusSub i st now)"

definition mongo_MarkSubscriptionReleased :: "string \<Rightarrow> time \<Rightarrow> subscriptions \<Rightarrow> (sub_error + unit) \<times> subscriptions" where
  "mongo_MarkSubscriptionReleased i at = updateSubscription (ReleaseSub i at)"

definition mongo_ListSubscriptionsByHandle :: "string \<Rightarrow> subscriptions \<Rightarrow> (sub_error + Subscription list) \<times> subscriptions" where
  "mongo_ListSubscriptionsByHandle h = scall (\<lambda>docs. (map toSubscription (filter (\<lambda>d. sd_Handle d = h) docs), docs))"

definition mongo_ListLapsedSubscriptions :: "time \<Rightarrow> int \<Rightarrow> subscriptions \<Rightarrow> (sub_error + Subscription list) \<times> subscriptions" where
  "mongo_ListLapsedSubscriptions before limit s =
     (if limit \<le> 0 then (Inr [], s)
      else scall (\<lambda>docs. (map toSubscription (take (nat limit)
             (sort_key (\<lambda>d. (sd_ExpiresAt d, sd_ID d))
               (filter (\<lambda>d. sd_ExpiresAt d < truncMs before \<and> sd_ReleasedAt d = None) docs))), docs)) s)"

definition MongoSubscriptions :: "subscriptions SubscriptionStore" where
  "MongoSubscriptions = \<lparr>GetSubscription = mongo_GetSubscription, BindSubscription = mongo_BindSubscription,
     UpdateSubscriptionStatus = mongo_UpdateSubscriptionStatus, MarkSubscriptionReleased = mongo_MarkSubscriptionReleased,
     ListSubscriptionsByHandle = mongo_ListSubscriptionsByHandle, ListLapsedSubscriptions = mongo_ListLapsedSubscriptions\<rparr>"

section \<open>One row per subscription\<close>

text \<open>Ids are unique, and a row keeps the subscription it was made for.\<close>

definition subs_ok :: "subscriptionDoc list \<Rightarrow> bool" where
  "subs_ok docs \<longleftrightarrow> distinct (map sd_ID docs)"

definition subs_kept :: "subscriptionDoc list \<Rightarrow> subscriptionDoc list \<Rightarrow> bool" where
  "subs_kept docs docs' \<longleftrightarrow> (\<exists>new. map (\<lambda>d. (sd_ID d, sd_Store d, sd_StoreID d, sd_CreatedAt d)) docs' =
     map (\<lambda>d. (sd_ID d, sd_Store d, sd_StoreID d, sd_CreatedAt d)) docs @ new)"

lemma subs_kept_refl: "subs_kept docs docs"
  by (simp add: subs_kept_def)

lemma subs_kept_trans: "subs_kept a b \<Longrightarrow> subs_kept b c \<Longrightarrow> subs_kept a c"
  by (auto simp: subs_kept_def)

lemma update_sub_ok:
  assumes "subs_ok docs" and "update_sub P f docs = (rep, docs')"
    and f: "\<And>d. (sd_ID (f d), sd_Store (f d), sd_StoreID (f d), sd_CreatedAt (f d)) = (sd_ID d, sd_Store d, sd_StoreID d, sd_CreatedAt d)"
  shows "subs_ok docs' \<and> subs_kept docs docs'"
proof (cases "find P docs")
  case None
  with assms show ?thesis by (simp add: update_sub_def subs_kept_refl)
next
  case (Some d)
  with assms(2) have d: "docs' = map (\<lambda>x. if sd_ID x = sd_ID d then f x else x) docs" by (simp add: update_sub_def)
  have k: "map (\<lambda>d. (sd_ID d, sd_Store d, sd_StoreID d, sd_CreatedAt d)) docs' =
      map (\<lambda>d. (sd_ID d, sd_Store d, sd_StoreID d, sd_CreatedAt d)) docs" using f by (simp add: d)
  then have "map fst (map (\<lambda>d. (sd_ID d, sd_Store d, sd_StoreID d, sd_CreatedAt d)) docs') =
      map fst (map (\<lambda>d. (sd_ID d, sd_Store d, sd_StoreID d, sd_CreatedAt d)) docs)" by simp
  then have "map sd_ID docs' = map sd_ID docs" by (simp add: comp_def)
  with k assms(1) show ?thesis by (simp add: subs_ok_def subs_kept_def)
qed

lemma apply_sub_ok:
  assumes "subs_ok docs" and "apply_sub w docs = (rep, docs')"
  shows "subs_ok docs' \<and> subs_kept docs docs'"
proof (cases w)
  case (InsertSub sub)
  show ?thesis
  proof (cases "\<exists>d \<in> set docs. sd_ID d = su_ID sub")
    case True
    with assms InsertSub show ?thesis by (simp add: subs_kept_refl)
  next
    case False
    then have "su_ID sub \<notin> sd_ID ` set docs" by force
    moreover have "sd_ID (newSubscriptionDoc sub) = su_ID sub" by (simp add: newSubscriptionDoc_def Let_def)
    moreover have "docs' = docs @ [newSubscriptionDoc sub]" using False assms(2) InsertSub by simp
    ultimately show ?thesis using assms(1) by (simp add: subs_ok_def subs_kept_def)
  qed
next
  case (RebindSub sub prev)
  show ?thesis by (rule update_sub_ok [OF assms(1) assms(2) [unfolded RebindSub apply_sub.simps]]) (simp add: statusFields_def)
next
  case (StatusSub i st now)
  show ?thesis by (rule update_sub_ok [OF assms(1) assms(2) [unfolded StatusSub apply_sub.simps]]) (simp add: statusFields_def)
next
  case (ReleaseSub i at)
  show ?thesis by (rule update_sub_ok [OF assms(1) assms(2) [unfolded ReleaseSub apply_sub.simps]]) simp
qed

lemma run_subs_ok: "subs_ok docs \<Longrightarrow> subs_ok (run_subs ws docs) \<and> subs_kept docs (run_subs ws docs)"
proof (induction ws arbitrary: docs)
  case (Cons w ws)
  obtain rep docs' where e: "apply_sub w docs = (rep, docs')" by fastforce
  with apply_sub_ok [OF Cons.prems e] Cons.IH [of docs'] show ?case
    using subs_kept_trans by (auto simp: run_subs_def)
qed (simp add: run_subs_def subs_kept_refl)

end
