(* ===== verification/Verifiers.thy ===== *)
theory Verifiers
  imports Base64 Subscriptions
begin

text \<open>
  The stores' purchase verifiers (\<open>pkg/purchases\<close>). The Play client and the HTTP transport are
  parameters with a state of their own; so are the JSON decoders of the store's answers (\<open>wire\<close>), the
  signing key, \<open>time.Parse\<close> and \<open>strconv.Quote\<close>.
\<close>

section \<open>Products and entitlement\<close>

datatype purchase_error = PurchaseInvalid string | PurchaseUnavailable string | PurchaseNotFound

record Purchase =
  pu_Store :: string
  pu_ProductID :: string
  pu_TransactionID :: string
  pu_Token :: string

record Verified =
  ve_Status :: SubscriptionStatus
  ve_StoreID :: string
  ve_LinkedStoreID :: string

record 'f Verifier =
  Verify :: "Purchase \<Rightarrow> 'f \<Rightarrow> (purchase_error + Verified) \<times> 'f"
  Refresh :: "Subscription \<Rightarrow> 'f \<Rightarrow> (purchase_error + Verified) \<times> 'f"

definition ProductPrefix :: string where
  "ProductPrefix = ''org.bsvblockchain.wallet.handle.len''"

definition Monthly :: string where "Monthly = ''monthly''"
definition Yearly :: string where "Yearly = ''yearly''"

definition parseTier :: "string \<Rightarrow> int" where
  "parseTier s =
     (case atoi s of
        None \<Rightarrow> 0
      | Some n \<Rightarrow> if n < 1 \<or> n > 7 \<or> itoa n \<noteq> s then 0 else n)"

definition AppleProductTier :: "string \<Rightarrow> int" where
  "AppleProductTier productID =
     (case cutPrefix productID ProductPrefix of
        None \<Rightarrow> 0
      | Some rest \<Rightarrow>
          (case cut (CHR ''.'') rest of
             None \<Rightarrow> 0
           | Some (n, period) \<Rightarrow> if period \<noteq> Monthly \<and> period \<noteq> Yearly then 0 else parseTier n))"

definition GoogleProductTier :: "string \<Rightarrow> string \<Rightarrow> int" where
  "GoogleProductTier productID basePlan =
     (case cutPrefix productID ProductPrefix of
        None \<Rightarrow> 0
      | Some rest \<Rightarrow> if basePlan \<noteq> Monthly \<and> basePlan \<noteq> Yearly then 0 else parseTier rest)"

definition Entitled :: "SubscriptionStatus \<Rightarrow> time \<Rightarrow> bool" where
  "Entitled st now =
     (if ss_State st = SubActive \<or> ss_State st = SubCanceled then ss_ExpiresAt st > now
      else if ss_State st = SubGrace then True
      else False)"

section \<open>Google Play\<close>

definition GoogleProduction :: string where "GoogleProduction = ''Production''"
definition GoogleTest :: string where "GoogleTest = ''Test''"

record GoogleConfig =
  gc_PackageName :: string
  gc_CredentialsJSON :: string
  gc_AllowTest :: bool

record SubscriptionPurchaseLineItem =
  li_ProductId :: string
  li_OfferDetails :: "string option"
  li_ExpiryTime :: string

record SubscriptionPurchaseV2 =
  sp_LineItems :: "SubscriptionPurchaseLineItem option list"
  sp_SubscriptionState :: string
  sp_TestPurchase :: bool
  sp_LinkedPurchaseToken :: string

text \<open>An API error carries its code, its message and its whole text.\<close>

datatype play_error = ApiError int string string | PlayError string

type_synonym 'f play_client = "string \<Rightarrow> string \<Rightarrow> 'f \<Rightarrow> (play_error + SubscriptionPurchaseV2) \<times> 'f"

definition NewGoogle :: "(string \<Rightarrow> string + unit) \<Rightarrow> GoogleConfig \<Rightarrow> string + GoogleConfig" where
  "NewGoogle newService cfg =
     (if gc_PackageName cfg = [] then Inl ''google: package name is required''
      else if gc_CredentialsJSON cfg = [] then Inl ''google: service account JSON is required''
      else case newService (gc_CredentialsJSON cfg) of
        Inl err \<Rightarrow> Inl (''google: '' @ err)
      | Inr _ \<Rightarrow> Inr cfg)"

definition googleStates :: "(string \<times> string) list" where
  "googleStates = [(''SUBSCRIPTION_STATE_ACTIVE'', SubActive), (''SUBSCRIPTION_STATE_CANCELED'', SubCanceled),
     (''SUBSCRIPTION_STATE_IN_GRACE_PERIOD'', SubGrace), (''SUBSCRIPTION_STATE_ON_HOLD'', SubOnHold),
     (''SUBSCRIPTION_STATE_PAUSED'', SubOnHold), (''SUBSCRIPTION_STATE_EXPIRED'', SubExpired),
     (''SUBSCRIPTION_STATE_PENDING'', SubPending), (''SUBSCRIPTION_STATE_PENDING_PURCHASE_CANCELED'', SubPending)]"

text \<open>The zero \<open>time.Time\<close> of a line item without an expiry: the first of January of year 1.\<close>

definition zeroTime :: time where
  "zeroTime = - 62135596800 * 1000 * msec"

definition google_Lookup ::
  "(string \<Rightarrow> string + time) \<Rightarrow> (string \<Rightarrow> string) \<Rightarrow> GoogleConfig \<Rightarrow> 'f play_client \<Rightarrow> string \<Rightarrow> 'f \<Rightarrow> (purchase_error + Verified) \<times> 'f" where
  "google_Lookup parseTime quote cfg get tok f =
     (if tok = [] then (Inl (PurchaseInvalid ''google: purchase token is required''), f)
      else case get (gc_PackageName cfg) tok f of
        (Inl e, f1) \<Rightarrow>
          (case e of
             ApiError code m whole \<Rightarrow>
               if code = 400 \<or> code = 404 \<or> code = 410 then (Inl (PurchaseInvalid (''google: '' @ m)), f1)
               else (Inl (PurchaseUnavailable (''google: '' @ whole)), f1)
           | PlayError m \<Rightarrow> (Inl (PurchaseUnavailable (''google: '' @ m)), f1))
      | (Inr sp, f1) \<Rightarrow>
          (case find (\<lambda>li. case li of None \<Rightarrow> False | Some i \<Rightarrow> hasPrefix (li_ProductId i) ProductPrefix) (sp_LineItems sp) of
             Some (Some item) \<Rightarrow>
               (let basePlan = (case li_OfferDetails item of None \<Rightarrow> [] | Some b \<Rightarrow> b);
                    tier = GoogleProductTier (li_ProductId item) basePlan;
                    state = (case map_of googleStates (sp_SubscriptionState sp) of None \<Rightarrow> SubPending | Some st \<Rightarrow> st);
                    expires = (if li_ExpiryTime item = [] then Inr zeroTime else parseTime (li_ExpiryTime item));
                    env = (if sp_TestPurchase sp then GoogleTest else GoogleProduction)
                in if tier = 0 then
                     (Inl (PurchaseInvalid (''google: '' @ li_ProductId item @ ''/'' @ basePlan @ '' is not a handle subscription'')), f1)
                   else case expires of
                     Inl err \<Rightarrow> (Inl (PurchaseUnavailable (''google: expiryTime '' @ quote (li_ExpiryTime item) @ '': '' @ err)), f1)
                   | Inr t \<Rightarrow>
                       (Inr \<lparr>ve_Status = \<lparr>ss_ProductID = li_ProductId item, ss_BasePlan = basePlan, ss_Tier = tier,
                               ss_State = state, ss_ExpiresAt = t, ss_Environment = env\<rparr>,
                             ve_StoreID = tok, ve_LinkedStoreID = sp_LinkedPurchaseToken sp\<rparr>, f1))
           | _ \<Rightarrow> (Inl (PurchaseInvalid ''google: purchase is not a handle subscription''), f1)))"

definition google_Verify ::
  "(string \<Rightarrow> string + time) \<Rightarrow> (string \<Rightarrow> string) \<Rightarrow> GoogleConfig \<Rightarrow> 'f play_client \<Rightarrow> Purchase \<Rightarrow> 'f \<Rightarrow> (purchase_error + Verified) \<times> 'f" where
  "google_Verify parseTime quote cfg get p f =
     (case google_Lookup parseTime quote cfg get (pu_Token p) f of
        (Inl e, f1) \<Rightarrow> (Inl e, f1)
      | (Inr v, f1) \<Rightarrow>
          if pu_ProductID p \<noteq> [] \<and> ss_ProductID (ve_Status v) \<noteq> pu_ProductID p then
            (Inl (PurchaseInvalid (''google: purchase is for '' @ ss_ProductID (ve_Status v) @ '', not '' @ pu_ProductID p)), f1)
          else if ss_Environment (ve_Status v) = GoogleTest \<and> \<not> gc_AllowTest cfg then
            (Inl (PurchaseInvalid ''google: test purchases are not accepted''), f1)
          else (Inr v, f1))"

definition google_Refresh ::
  "(string \<Rightarrow> string + time) \<Rightarrow> (string \<Rightarrow> string) \<Rightarrow> GoogleConfig \<Rightarrow> 'f play_client \<Rightarrow> Subscription \<Rightarrow> 'f \<Rightarrow> (purchase_error + Verified) \<times> 'f" where
  "google_Refresh parseTime quote cfg get sub f = google_Lookup parseTime quote cfg get (su_StoreID sub) f"

definition GoogleVerifier ::
  "(string \<Rightarrow> string + time) \<Rightarrow> (string \<Rightarrow> string) \<Rightarrow> GoogleConfig \<Rightarrow> 'f play_client \<Rightarrow> 'f Verifier" where
  "GoogleVerifier parseTime quote cfg get =
     \<lparr>Verify = google_Verify parseTime quote cfg get, Refresh = google_Refresh parseTime quote cfg get\<rparr>"

section \<open>The App Store\<close>

definition AppleProduction :: string where "AppleProduction = ''Production''"
definition AppleSandbox :: string where "AppleSandbox = ''Sandbox''"

definition AppleBaseURLs :: "(string \<times> string) list" where
  "AppleBaseURLs = [(AppleProduction, ''https://api.storekit.itunes.apple.com''),
     (AppleSandbox, ''https://api.storekit-sandbox.itunes.apple.com'')]"

record AppleConfig =
  ac_IssuerID :: string
  ac_KeyID :: string
  ac_PrivateKey :: string
  ac_BundleID :: string
  ac_Environments :: "string list"
  ac_BaseURLs :: "(string \<times> string) list option"

record 'k Apple =
  ap_cfg :: AppleConfig
  ap_key :: 'k

text \<open>\<open>parseKey\<close> reads the PEM block and the EC key in it.\<close>

definition NewApple :: "(string \<Rightarrow> string) \<Rightarrow> (string \<Rightarrow> string + 'k) \<Rightarrow> AppleConfig \<Rightarrow> string + 'k Apple" where
  "NewApple quote parseKey cfg0 =
     (if ac_IssuerID cfg0 = [] \<or> ac_KeyID cfg0 = [] \<or> ac_BundleID cfg0 = [] then
        Inl ''apple: issuer id, key id and bundle id are required''
      else let cfg1 = (if ac_Environments cfg0 = [] then cfg0\<lparr>ac_Environments := [AppleProduction]\<rparr> else cfg0)
      in case find (\<lambda>env. map_of AppleBaseURLs env = None) (ac_Environments cfg1) of
        Some env \<Rightarrow> Inl (''apple: unknown environment '' @ quote env @ '' (want '' @ AppleProduction @ '' or '' @ AppleSandbox @ '')'')
      | None \<Rightarrow>
          (let cfg2 = (if ac_BaseURLs cfg1 = None then cfg1\<lparr>ac_BaseURLs := Some AppleBaseURLs\<rparr> else cfg1)
           in case parseKey (ac_PrivateKey cfg2) of
             Inl err \<Rightarrow> Inl err
           | Inr k \<Rightarrow> Inr \<lparr>ap_cfg = cfg2, ap_key = k\<rparr>))"

record appleTransaction =
  at_TransactionID :: string
  at_OriginalTransactionID :: string
  at_BundleID :: string
  at_ProductID :: string
  at_ExpiresDate :: int
  at_RevocationDate :: int
  at_Environment :: string

record appleRenewal =
  ar_AutoRenewStatus :: int

record lastTransaction =
  lt_OriginalTransactionID :: string
  lt_Status :: int
  lt_SignedTransactionInfo :: string
  lt_SignedRenewalInfo :: string

record statusResponse =
  sx_BundleID :: string
  sx_Data :: "lastTransaction list list"

text \<open>The JSON decoders: the transaction and the renewal inside a JWS, the two answers of the API, and
  the signed transaction inside a notification.\<close>

record apple_wire =
  aw_transaction :: "string \<Rightarrow> string + appleTransaction"
  aw_renewal :: "string \<Rightarrow> string + appleRenewal"
  aw_transactionInfo :: "string \<Rightarrow> string + string"
  aw_status :: "string \<Rightarrow> string + statusResponse"
  aw_notification :: "string \<Rightarrow> string + string"

text \<open>A request either fails to be signed or sent, or is answered with a status and a body.\<close>

type_synonym 'f http_client = "string \<Rightarrow> 'f \<Rightarrow> (string + int \<times> string) \<times> 'f"

definition pathEscape :: "string \<Rightarrow> string" where
  "pathEscape s = concat (map (\<lambda>c.
     if (97 \<le> byte c \<and> byte c \<le> 122) \<or> (65 \<le> byte c \<and> byte c \<le> 90) \<or> isDigit c \<or> c \<in> set ''-_.~$&+=:@'' then [c]
     else let up = (\<lambda>d. if d < 10 then char_of (48 + d) else char_of (55 + d))
          in [CHR ''%'', up (byte c div 16), up (byte c mod 16)]) s)"

definition apple_get ::
  "AppleConfig \<Rightarrow> 'f http_client \<Rightarrow> (string \<Rightarrow> string + 'a) \<Rightarrow> string \<Rightarrow> string \<Rightarrow> 'f \<Rightarrow> (purchase_error + 'a) \<times> 'f" where
  "apple_get cfg http decode env path f =
     (let base = (case map_of (case ac_BaseURLs cfg of None \<Rightarrow> [] | Some m \<Rightarrow> m) env of None \<Rightarrow> [] | Some u \<Rightarrow> u) in
      case http (base @ path) f of
        (Inl err, f1) \<Rightarrow> (Inl (PurchaseUnavailable (''apple: '' @ err)), f1)
      | (Inr (status, body), f1) \<Rightarrow>
          if status = 200 then
            (case decode body of
               Inl err \<Rightarrow> (Inl (PurchaseUnavailable (''apple: decode response: '' @ err)), f1)
             | Inr v \<Rightarrow> (Inr v, f1))
          else if status = 404 then (Inl PurchaseNotFound, f1)
          else if status = 400 then (Inl (PurchaseInvalid (''apple: '' @ trimSpace body)), f1)
          else (Inl (PurchaseUnavailable (''apple: HTTP '' @ itoa status @ '': '' @ trimSpace body)), f1))"

definition DecodeJWSPayload :: "(string \<Rightarrow> string + 'a) \<Rightarrow> string \<Rightarrow> string + 'a" where
  "DecodeJWSPayload decode jws =
     (let parts = splitOn (CHR ''.'') jws in
      if length parts \<noteq> 3 then Inl ''not a compact JWS''
      else case decodeRawURL (parts ! 1) of
        None \<Rightarrow> Inl ''JWS payload: illegal base64 data''
      | Some b \<Rightarrow> decode b)"

fun lookupEnvironments ::
  "AppleConfig \<Rightarrow> 'f http_client \<Rightarrow> apple_wire \<Rightarrow> string \<Rightarrow> string list \<Rightarrow> 'f \<Rightarrow> (purchase_error + appleTransaction \<times> string) \<times> 'f" where
  "lookupEnvironments cfg http wire transactionID [] f =
     (Inl (PurchaseInvalid (''apple: no transaction '' @ transactionID @ '' in '' @ joinWith '' or '' (ac_Environments cfg))), f)"
| "lookupEnvironments cfg http wire transactionID (env # envs) f =
     (case apple_get cfg http (aw_transactionInfo wire) env (''/inApps/v1/transactions/'' @ pathEscape transactionID) f of
        (Inl PurchaseNotFound, f1) \<Rightarrow> lookupEnvironments cfg http wire transactionID envs f1
      | (Inl e, f1) \<Rightarrow> (Inl e, f1)
      | (Inr info, f1) \<Rightarrow>
          (case DecodeJWSPayload (aw_transaction wire) info of
             Inl err \<Rightarrow> (Inl (PurchaseUnavailable (''apple: transaction info: '' @ err)), f1)
           | Inr tx \<Rightarrow> (Inr (tx, env), f1)))"

definition lookupTransaction ::
  "AppleConfig \<Rightarrow> 'f http_client \<Rightarrow> apple_wire \<Rightarrow> string \<Rightarrow> 'f \<Rightarrow> (purchase_error + appleTransaction \<times> string) \<times> 'f" where
  "lookupTransaction cfg http wire transactionID f = lookupEnvironments cfg http wire transactionID (ac_Environments cfg) f"

definition appleState :: "lastTransaction \<Rightarrow> appleRenewal \<Rightarrow> appleTransaction \<Rightarrow> (string \<times> time) option" where
  "appleState lt renewal tx =
     (let expires = at_ExpiresDate tx * msec in
      if lt_Status lt = 1 then
        Some (if lt_SignedRenewalInfo lt \<noteq> [] \<and> ar_AutoRenewStatus renewal = 0 then SubCanceled else SubActive, expires)
      else if lt_Status lt = 2 then Some (SubExpired, expires)
      else if lt_Status lt = 3 then Some (SubOnHold, expires)
      else if lt_Status lt = 4 then Some (SubGrace, expires)
      else if lt_Status lt = 5 then
        Some (SubRevoked, if at_RevocationDate tx \<noteq> 0 then at_RevocationDate tx * msec else expires)
      else None)"

definition statusOfTransaction ::
  "AppleConfig \<Rightarrow> apple_wire \<Rightarrow> string \<Rightarrow> lastTransaction \<Rightarrow> purchase_error + Verified" where
  "statusOfTransaction cfg wire env lt =
     (case DecodeJWSPayload (aw_transaction wire) (lt_SignedTransactionInfo lt) of
        Inl err \<Rightarrow> Inl (PurchaseUnavailable (''apple: transaction info: '' @ err))
      | Inr tx \<Rightarrow>
          (case (if lt_SignedRenewalInfo lt = [] then Inr \<lparr>ar_AutoRenewStatus = 0\<rparr>
                 else DecodeJWSPayload (aw_renewal wire) (lt_SignedRenewalInfo lt)) of
             Inl err \<Rightarrow> Inl (PurchaseUnavailable (''apple: renewal info: '' @ err))
           | Inr renewal \<Rightarrow>
               (let tier = AppleProductTier (at_ProductID tx) in
                if tier = 0 \<or> at_BundleID tx \<noteq> ac_BundleID cfg then
                  Inl (PurchaseInvalid (''apple: '' @ at_ProductID tx @ '' is not a handle subscription of '' @ ac_BundleID cfg))
                else case appleState lt renewal tx of
                  None \<Rightarrow> Inl (PurchaseUnavailable (''apple: unknown subscription status '' @ itoa (lt_Status lt)))
                | Some (state, expires) \<Rightarrow>
                    Inr \<lparr>ve_Status = \<lparr>ss_ProductID = at_ProductID tx, ss_BasePlan = [], ss_Tier = tier, ss_State = state,
                           ss_ExpiresAt = expires, ss_Environment = env\<rparr>,
                         ve_StoreID = lt_OriginalTransactionID lt, ve_LinkedStoreID = []\<rparr>)))"

definition apple_status ::
  "(string \<Rightarrow> string) \<Rightarrow> AppleConfig \<Rightarrow> 'f http_client \<Rightarrow> apple_wire \<Rightarrow> string \<Rightarrow> string \<Rightarrow> 'f \<Rightarrow> (purchase_error + Verified) \<times> 'f" where
  "apple_status quote cfg http wire env originalTransactionID f =
     (case apple_get cfg http (aw_status wire) env (''/inApps/v1/subscriptions/'' @ pathEscape originalTransactionID) f of
        (Inl PurchaseNotFound, f1) \<Rightarrow>
          (Inl (PurchaseInvalid (''apple: no subscription '' @ originalTransactionID @ '' in '' @ env)), f1)
      | (Inl e, f1) \<Rightarrow> (Inl e, f1)
      | (Inr resp, f1) \<Rightarrow>
          if sx_BundleID resp \<noteq> ac_BundleID cfg then
            (Inl (PurchaseInvalid (''apple: subscription is for '' @ quote (sx_BundleID resp) @ '', not '' @ quote (ac_BundleID cfg))), f1)
          else
            (case find (\<lambda>lt. lt_OriginalTransactionID lt = originalTransactionID) (concat (sx_Data resp)) of
               None \<Rightarrow> (Inl (PurchaseInvalid (''apple: subscription '' @ originalTransactionID @ '' not in the status response'')), f1)
             | Some lt \<Rightarrow> (statusOfTransaction cfg wire env lt, f1)))"

definition apple_Verify ::
  "(string \<Rightarrow> string) \<Rightarrow> AppleConfig \<Rightarrow> 'f http_client \<Rightarrow> apple_wire \<Rightarrow> Purchase \<Rightarrow> 'f \<Rightarrow> (purchase_error + Verified) \<times> 'f" where
  "apple_Verify quote cfg http wire p f =
     (let named = (if pu_Token p = [] then Inr (pu_TransactionID p)
            else case DecodeJWSPayload (aw_transaction wire) (pu_Token p) of
              Inl err \<Rightarrow> Inl (''apple: token is not a signed transaction: '' @ err)
            | Inr tx \<Rightarrow>
                (let i = (if pu_TransactionID p = [] then at_TransactionID tx else pu_TransactionID p) in
                 if at_TransactionID tx \<noteq> i
                 then Inl (''apple: token is for transaction '' @ at_TransactionID tx @ '', not '' @ i) else Inr i))
      in case named of
        Inl err \<Rightarrow> (Inl (PurchaseInvalid err), f)
      | Inr i \<Rightarrow>
          if i = [] then (Inl (PurchaseInvalid ''apple: transactionId is required''), f)
          else case lookupTransaction cfg http wire i f of
            (Inl e, f1) \<Rightarrow> (Inl e, f1)
          | (Inr (tx, env), f1) \<Rightarrow>
              if at_BundleID tx \<noteq> ac_BundleID cfg then
                (Inl (PurchaseInvalid (''apple: transaction is for '' @ quote (at_BundleID tx) @ '', not '' @ quote (ac_BundleID cfg))), f1)
              else if pu_ProductID p \<noteq> [] \<and> at_ProductID tx \<noteq> pu_ProductID p then
                (Inl (PurchaseInvalid (''apple: transaction is for '' @ at_ProductID tx @ '', not '' @ pu_ProductID p)), f1)
              else if AppleProductTier (at_ProductID tx) = 0 then
                (Inl (PurchaseInvalid (''apple: '' @ at_ProductID tx @ '' is not a handle subscription'')), f1)
              else apple_status quote cfg http wire env (at_OriginalTransactionID tx) f1)"

definition apple_Refresh ::
  "(string \<Rightarrow> string) \<Rightarrow> AppleConfig \<Rightarrow> 'f http_client \<Rightarrow> apple_wire \<Rightarrow> Subscription \<Rightarrow> 'f \<Rightarrow> (purchase_error + Verified) \<times> 'f" where
  "apple_Refresh quote cfg http wire sub f =
     (let env0 = ss_Environment (su_Status sub);
          env = (if map_of (case ac_BaseURLs cfg of None \<Rightarrow> [] | Some m \<Rightarrow> m) env0 = None then AppleProduction else env0)
      in apple_status quote cfg http wire env (su_StoreID sub) f)"

definition AppleVerifier :: "(string \<Rightarrow> string) \<Rightarrow> AppleConfig \<Rightarrow> 'f http_client \<Rightarrow> apple_wire \<Rightarrow> 'f Verifier" where
  "AppleVerifier quote cfg http wire = \<lparr>Verify = apple_Verify quote cfg http wire, Refresh = apple_Refresh quote cfg http wire\<rparr>"

definition OriginalTransactionID :: "apple_wire \<Rightarrow> string \<Rightarrow> string + string" where
  "OriginalTransactionID wire signedPayload =
     (case DecodeJWSPayload (aw_notification wire) signedPayload of
        Inl err \<Rightarrow> Inl err
      | Inr info \<Rightarrow>
          if info = [] then Inr []
          else case DecodeJWSPayload (aw_transaction wire) info of
            Inl err \<Rightarrow> Inl err
          | Inr tx \<Rightarrow> Inr (at_OriginalTransactionID tx))"

section \<open>What a verifier vouches for\<close>

text \<open>Product ids and tiers: a parser and its printer.\<close>

lemma parseTier_bounds: "0 \<le> parseTier s \<and> parseTier s \<le> 7"
  by (simp add: parseTier_def split: option.split)

lemma parseTier_itoa: "1 \<le> n \<Longrightarrow> n \<le> 7 \<Longrightarrow> parseTier (itoa n) = n"
  using atoi_itoa [of n] by (simp add: parseTier_def int64_range_def)

lemma parseTier_inv: "parseTier s \<noteq> 0 \<Longrightarrow> s = itoa (parseTier s)"
  by (auto simp: parseTier_def split: option.splits if_splits)

lemma itoa_no_dot: "1 \<le> n \<Longrightarrow> n \<le> 7 \<Longrightarrow> CHR ''.'' \<notin> set (itoa n)"
  using showNat_digits [of "nat n"] by (auto simp: itoa_def list_all_iff isDigit_def simp del: showNat_eval)

lemma cutPrefix_append: "cutPrefix (p @ r) p = Some r"
  by (simp add: cutPrefix_def hasPrefix_iff)

lemma cutPrefix_Some: "cutPrefix s p = Some r \<Longrightarrow> s = p @ r"
  by (auto simp: cutPrefix_def hasPrefix_iff split: if_splits)

lemma AppleProductTier_iff:
  "AppleProductTier s = n \<and> n \<noteq> 0 \<longleftrightarrow>
     1 \<le> n \<and> n \<le> 7 \<and> (\<exists>period \<in> {Monthly, Yearly}. s = ProductPrefix @ itoa n @ ''.'' @ period)"
proof
  assume a: "AppleProductTier s = n \<and> n \<noteq> 0"
  then obtain rest m period where r: "cutPrefix s ProductPrefix = Some rest" "cut (CHR ''.'') rest = Some (m, period)"
      "period = Monthly \<or> period = Yearly" "parseTier m = n"
    by (auto simp: AppleProductTier_def split: option.splits if_splits)
  have "s = ProductPrefix @ rest" "rest = m @ CHR ''.'' # period" using cutPrefix_Some [OF r(1)] cut_Some [OF r(2)] by auto
  then have "s = ProductPrefix @ itoa n @ ''.'' @ period" using parseTier_inv [of m] r(4) a by simp
  with r parseTier_bounds [of m] a
  show "1 \<le> n \<and> n \<le> 7 \<and> (\<exists>period \<in> {Monthly, Yearly}. s = ProductPrefix @ itoa n @ ''.'' @ period)" by auto
next
  assume "1 \<le> n \<and> n \<le> 7 \<and> (\<exists>period \<in> {Monthly, Yearly}. s = ProductPrefix @ itoa n @ ''.'' @ period)"
  then obtain period where p: "1 \<le> n" "n \<le> 7" "period \<in> {Monthly, Yearly}" "s = ProductPrefix @ itoa n @ CHR ''.'' # period" by auto
  have "cut (CHR ''.'') (itoa n @ CHR ''.'' # period) = Some (itoa n, period)" using cut_append [OF itoa_no_dot [OF p(1,2)]] .
  with p show "AppleProductTier s = n \<and> n \<noteq> 0" by (auto simp: AppleProductTier_def cutPrefix_append parseTier_itoa)
qed

lemma GoogleProductTier_iff:
  "GoogleProductTier s plan = n \<and> n \<noteq> 0 \<longleftrightarrow> 1 \<le> n \<and> n \<le> 7 \<and> plan \<in> {Monthly, Yearly} \<and> s = ProductPrefix @ itoa n"
proof
  assume a: "GoogleProductTier s plan = n \<and> n \<noteq> 0"
  then obtain rest where r: "cutPrefix s ProductPrefix = Some rest" "plan \<in> {Monthly, Yearly}" "parseTier rest = n"
    by (auto simp: GoogleProductTier_def split: option.splits if_splits)
  with cutPrefix_Some [OF r(1)] parseTier_inv [of rest] parseTier_bounds [of rest] a
  show "1 \<le> n \<and> n \<le> 7 \<and> plan \<in> {Monthly, Yearly} \<and> s = ProductPrefix @ itoa n" by auto
qed (auto simp: GoogleProductTier_def cutPrefix_append parseTier_itoa)

text \<open>An entitlement does not begin later: it only ends.\<close>

lemma Entitled_earlier: "Entitled st now \<Longrightarrow> now' \<le> now \<Longrightarrow> Entitled st now'"
  by (auto simp: Entitled_def split: if_splits)

text \<open>What both stores vouch for: a handle product of a real tier, under the id that was asked for.\<close>

definition vouched :: "Verified \<Rightarrow> bool" where
  "vouched v \<longleftrightarrow> 1 \<le> ss_Tier (ve_Status v) \<and> ss_Tier (ve_Status v) \<le> 7 \<and> ss_State (ve_Status v) \<noteq> SubWrongTier \<and>
     hasPrefix (ss_ProductID (ve_Status v)) ProductPrefix"

lemma googleStates_range: "map_of googleStates k = Some st \<Longrightarrow> st \<noteq> SubWrongTier"
  by (auto simp: googleStates_def sub_states split: if_splits)

lemma google_Lookup_vouched:
  assumes "google_Lookup parseTime quote cfg get tok f = (Inr v, f')"
  shows "vouched v \<and> ve_StoreID v = tok \<and> tok \<noteq> []"
proof -
  have l: "tok \<noteq> [] \<and> ve_StoreID v = tok \<and>
      GoogleProductTier (ss_ProductID (ve_Status v)) (ss_BasePlan (ve_Status v)) = ss_Tier (ve_Status v) \<and> ss_Tier (ve_Status v) \<noteq> 0 \<and>
      (ss_State (ve_Status v) = SubPending \<or> (\<exists>k. map_of googleStates k = Some (ss_State (ve_Status v))))"
    using assms unfolding google_Lookup_def Let_def
    by (auto split: if_splits prod.splits sum.splits play_error.splits option.splits)
  then have "ss_State (ve_Status v) \<noteq> SubWrongTier" using googleStates_range by (auto simp: sub_states)
  with l GoogleProductTier_iff show ?thesis unfolding vouched_def hasPrefix_iff by metis
qed

lemma google_Verify_vouched:
  assumes "google_Verify parseTime quote cfg get p f = (Inr v, f')"
  shows "vouched v \<and> ve_StoreID v = pu_Token p \<and> (pu_ProductID p = [] \<or> ss_ProductID (ve_Status v) = pu_ProductID p) \<and>
    (ss_Environment (ve_Status v) = GoogleTest \<longrightarrow> gc_AllowTest cfg)"
  using assms google_Lookup_vouched [of parseTime quote cfg get "pu_Token p" f v f']
  by (auto simp: google_Verify_def split: prod.splits sum.splits if_splits)

lemma statusOfTransaction_vouched:
  assumes "statusOfTransaction cfg wire env lt = Inr v"
  shows "vouched v \<and> ve_StoreID v = lt_OriginalTransactionID lt"
proof -
  obtain tx renewal state expires where tier: "AppleProductTier (at_ProductID tx) \<noteq> 0" and st: "appleState lt renewal tx = Some (state, expires)"
    and v: "v = \<lparr>ve_Status = \<lparr>ss_ProductID = at_ProductID tx, ss_BasePlan = [], ss_Tier = AppleProductTier (at_ProductID tx),
        ss_State = state, ss_ExpiresAt = expires, ss_Environment = env\<rparr>,
        ve_StoreID = lt_OriginalTransactionID lt, ve_LinkedStoreID = []\<rparr>"
    using assms by (auto simp: statusOfTransaction_def Let_def split: sum.splits if_splits option.splits)
  have "state \<noteq> SubWrongTier" using st by (auto simp: appleState_def Let_def sub_states split: if_splits)
  moreover have "\<exists>n period. 1 \<le> n \<and> n \<le> 7 \<and> at_ProductID tx = ProductPrefix @ itoa n @ ''.'' @ period \<and> AppleProductTier (at_ProductID tx) = n"
    using AppleProductTier_iff tier by blast
  ultimately show ?thesis using v by (auto simp: vouched_def hasPrefix_iff)
qed

lemma apple_status_vouched:
  assumes "apple_status quote cfg http wire env i f = (Inr v, f')"
  shows "vouched v \<and> ve_StoreID v = i"
proof -
  obtain lt where "lt_OriginalTransactionID lt = i" "statusOfTransaction cfg wire env lt = Inr v"
    using assms by (auto simp: apple_status_def split: prod.splits sum.splits purchase_error.splits if_splits option.splits dest: find_Some_mem)
  with statusOfTransaction_vouched show ?thesis by metis
qed

lemma apple_Verify_vouched: "apple_Verify quote cfg http wire p f = (Inr v, f') \<Longrightarrow> vouched v"
  by (auto simp: apple_Verify_def Let_def split: prod.splits sum.splits if_splits dest!: apple_status_vouched)

text \<open>The search through the environments ends, and passes over one only when it answers 404.\<close>

lemma lookupEnvironments_env:
  "lookupEnvironments cfg http wire i envs f = (Inr (tx, env), f') \<Longrightarrow> env \<in> set envs"
  by (induction envs arbitrary: f) (auto split: prod.splits sum.splits purchase_error.splits)

end
