(* ===== verification/Paid_Handles.thy ===== *)
theory Paid_Handles
  imports Lookup Profile_Cert Verifiers
begin

text \<open>
  Registering handles and paying for them (\<open>PutHandle\<close> of \<open>pkg/handlers/lookup.go\<close>,
  \<open>pkg/handlers/purchases.go\<close>). The handle registry, the subscription store and the stores' verifiers
  act on one state. Reading the body, the JSON decoding of the envelope and of the notifications and
  the push authentication are arguments; the ticker of the sweeper is outside.
\<close>

section \<open>Paying for a claim\<close>

record 's PurchaseConfig =
  pc_Verifiers :: "string \<Rightarrow> 's Verifier option"
  pc_Grace :: int
  pc_GooglePackage :: string

definition ReleasedBySubscription :: string where
  "ReleasedBySubscription = ''subscription-lapsed''"

definition sweepBatch :: int where "sweepBatch = 100"

text \<open>\<open>decode\<close> unmarshals the envelope: the raw certificate member and the purchase.\<close>

definition splitPutBody :: "(string \<Rightarrow> (string \<times> Purchase option) option) \<Rightarrow> string \<Rightarrow> string \<times> Purchase option" where
  "splitPutBody decode body =
     (case decode body of
        Some (cert, purchase) \<Rightarrow> if cert \<noteq> [] \<and> cert \<noteq> ''null'' then (cert, purchase) else (body, None)
      | None \<Rightarrow> (body, None))"

text \<open>An error of either store, or the purchase that already pays for another handle.\<close>

datatype bind_error = ErrPurchaseUsed | SubError sub_error | HandleError handle_error

text \<open>A subscription error is none of the conflicts \<open>writeStoreError\<close> maps.\<close>

definition writeBindError :: "bind_error \<Rightarrow> lookup_body response" where
  "writeBindError e =
     (case e of
        ErrPurchaseUsed \<Rightarrow> writeError 409 ''ERR_PURCHASE_USED'' ''That subscription already pays for another handle.''
      | HandleError h \<Rightarrow> writeStoreError h
      | SubError _ \<Rightarrow> writeError 500 ''ERR_INTERNAL'' ''Storage failure; safe to retry.'')"

definition heldBy :: "HandleRecord option \<Rightarrow> string \<Rightarrow> bool" where
  "heldBy rec k \<longleftrightarrow> Active rec \<and> hr_IdentityKey (the rec) = Some k"

fun bindLoop ::
  "nat \<Rightarrow> 's HandleStore \<Rightarrow> 's SubscriptionStore \<Rightarrow> Subscription \<Rightarrow> 's \<Rightarrow> (bind_error + unit) \<times> 's" where
  "bindLoop 0 H B sub s = (Inl (SubError ErrSubscriptionRaced), s)"
| "bindLoop (Suc n) H B sub s =
     (case GetSubscription B (su_ID sub) s of
        (Inl e, s1) \<Rightarrow> (Inl (SubError e), s1)
      | (Inr cur, s1) \<Rightarrow>
          (let moving = (case cur of None \<Rightarrow> False
                 | Some c \<Rightarrow> su_Handle c \<noteq> su_Handle sub \<or> su_IdentityKey c \<noteq> su_IdentityKey sub);
               bind = (\<lambda>s. case BindSubscription B sub cur s of
                   (Inl ErrSubscriptionRaced, s2) \<Rightarrow> bindLoop n H B sub s2
                 | (Inl e, s2) \<Rightarrow> (Inl (SubError e), s2)
                 | (Inr _, s2) \<Rightarrow> (Inr (), s2))
           in if moving then
                (case GetHandle H (su_Handle (the cur)) s1 of
                   (Inl e, s2) \<Rightarrow> (Inl (HandleError e), s2)
                 | (Inr rec, s2) \<Rightarrow>
                     if heldBy rec (su_IdentityKey (the cur)) then (Inl ErrPurchaseUsed, s2) else bind s2)
              else bind s1))"

definition bindSubscription ::
  "'s HandleStore \<Rightarrow> 's SubscriptionStore \<Rightarrow> string \<Rightarrow> Verified \<Rightarrow> string \<Rightarrow> string \<Rightarrow> time \<Rightarrow> 's \<Rightarrow> (bind_error + unit) \<times> 's" where
  "bindSubscription H B store v handle identityKey now s =
     bindLoop 3 H B \<lparr>su_Status = ve_Status v, su_ID = SubscriptionID store (ve_StoreID v), su_Store = store,
       su_StoreID = ve_StoreID v, su_Handle = handle, su_IdentityKey = identityKey, su_CreatedAt = now,
       su_UpdatedAt = now, su_ReleasedAt = None\<rparr> s"

text \<open>\<open>None\<close>: the claim may go ahead; otherwise the response that was written.\<close>

definition requirePurchase ::
  "(rune \<Rightarrow> rune) \<Rightarrow> 's PurchaseConfig option \<Rightarrow> 's HandleStore \<Rightarrow> 's SubscriptionStore \<Rightarrow> string \<Rightarrow> string \<Rightarrow>
   Purchase option \<Rightarrow> time \<Rightarrow> 's \<Rightarrow> lookup_body response option \<times> 's" where
  "requirePurchase ul cfg H B handle identityKey purchase now s =
     (case cfg of
        None \<Rightarrow> (None, s)
      | Some pc \<Rightarrow>
          if IsGenerated ul handle then (None, s)
          else case GetHandle H handle s of
            (Inl e, s1) \<Rightarrow> (Some (writeStoreError e), s1)
          | (Inr rec, s1) \<Rightarrow>
              if heldBy rec identityKey then (None, s1)
              else case purchase of
                None \<Rightarrow> (Some (writeError 402 ''ERR_PURCHASE_REQUIRED'' ''This handle needs a subscription; send it as {certificate, purchase}.''), s1)
              | Some p \<Rightarrow>
                  (case pc_Verifiers pc (pu_Store p) of
                     None \<Rightarrow> (Some (writeError 400 ''ERR_PURCHASE_INVALID'' (''Purchases from '' @ pu_Store p @ '' are not accepted here.'')), s1)
                   | Some verifier \<Rightarrow>
                       (case Verify verifier p s1 of
                          (Inl (PurchaseInvalid m), s2) \<Rightarrow>
                            (Some (writeError 400 ''ERR_PURCHASE_INVALID'' (''invalid purchase: '' @ m)), s2)
                        | (Inl _, s2) \<Rightarrow>
                            (Some (writeError 502 ''ERR_STORE_UNAVAILABLE'' ''The store could not confirm the purchase; safe to retry.''), s2)
                        | (Inr v, s2) \<Rightarrow>
                            if ss_Tier (ve_Status v) \<noteq> Tier handle then
                              (Some (writeError 409 ''ERR_PURCHASE_TIER_MISMATCH'' ''That subscription is for a different handle length.''), s2)
                            else if \<not> Entitled (ve_Status v) now then
                              (Some (writeError 402 ''ERR_PURCHASE_INACTIVE'' ''That subscription is not active.''), s2)
                            else case bindSubscription H B (pu_Store p) v handle identityKey now s2 of
                              (Inl e, s3) \<Rightarrow> (Some (writeBindError e), s3)
                            | (Inr _, s3) \<Rightarrow> (None, s3))))"

section \<open>PutHandle\<close>

datatype body_read = BodyTooLarge | BodyUnreadable | BodyRead string

definition certErrorText :: "string \<Rightarrow> string" where
  "certErrorText m = ''invalid profile certificate: '' @ m"

definition releaseProfile :: "LookupConfig \<Rightarrow> 's HandleStore \<Rightarrow> Profile \<Rightarrow> time \<Rightarrow> 's \<Rightarrow> lookup_body response \<times> 's" where
  "releaseProfile cfg H p now s =
     (case ReleaseHandle H \<lparr>rl_Handle = pf_Handle p, rl_Owner = Some (pf_IdentityKey p), rl_IssuedAt = Some (pf_IssuedAt p),
             rl_ReleasedBy = ReleasedByOwner, rl_CooldownUntil = Some (now + lc_Cooldown cfg), rl_Now = now\<rparr> s of
        (Inl ErrHandleTaken, s1) \<Rightarrow>
          (writeError 409 ''ERR_HANDLE_TAKEN'' ''That handle belongs to a different identity key; only its owner can release it.'', s1)
      | (Inl e, s1) \<Rightarrow> (writeStoreError e, s1)
      | (Inr _, s1) \<Rightarrow> (writeJSON 200 (RawMessage (pf_JSON p)), s1))"

definition profileClaim :: "(rune \<Rightarrow> rune) \<Rightarrow> Profile \<Rightarrow> time \<Rightarrow> HandleClaim" where
  "profileClaim ul p now = \<lparr>hc_Handle = pf_Handle p, hc_Skeleton = Skeleton ul (pf_Handle p), hc_IdentityKey = pf_IdentityKey p,
     hc_Certificate = pf_JSON p, hc_SerialNumber = pf_SerialNumber p, hc_IssuedAt = pf_IssuedAt p, hc_Now = now\<rparr>"

definition claimProfile ::
  "(rune \<Rightarrow> rune) \<Rightarrow> 's PurchaseConfig option \<Rightarrow> 's HandleStore \<Rightarrow> 's SubscriptionStore \<Rightarrow> Purchase option \<Rightarrow> Profile \<Rightarrow> time \<Rightarrow>
   's \<Rightarrow> lookup_body response \<times> 's" where
  "claimProfile ul pc H B purchase p now s =
     (case Handles.Validate ul (pf_Handle p) of
        Some ErrReservedHandle \<Rightarrow> (writeError 409 ''ERR_HANDLE_RESERVED'' ''That handle is reserved.'', s)
      | Some ErrInvalidHandle \<Rightarrow>
          (writeError 400 ''ERR_INVALID_HANDLE'' ''Handles are 1-32 characters of a-z 0-9 . _ - and start and end with a letter or digit.'', s)
      | None \<Rightarrow>
          (case requirePurchase ul pc H B (pf_Handle p) (pf_IdentityKey p) purchase now s of
             (Some reply, s1) \<Rightarrow> (reply, s1)
           | (None, s1) \<Rightarrow>
               (case ClaimHandle H (profileClaim ul p now) s1 of
                  (Inl e, s2) \<Rightarrow> (writeStoreError e, s2)
                | (Inr res, s2) \<Rightarrow> (writeJSON (if res = ClaimCreated then 201 else 200) (RawMessage (pf_JSON p)), s2))))"

definition PutHandle ::
  "(rune \<Rightarrow> rune) \<Rightarrow> 'k cert_sdk \<Rightarrow> (string \<Rightarrow> (string \<times> Purchase option) option) \<Rightarrow> LookupConfig \<Rightarrow> 's PurchaseConfig option \<Rightarrow>
   's HandleStore \<Rightarrow> 's SubscriptionStore \<Rightarrow> time \<Rightarrow> body_read \<Rightarrow> 's \<Rightarrow> lookup_body response \<times> 's" where
  "PutHandle ul sdk decode cfg pc H B t body s =
     (case body of
        BodyTooLarge \<Rightarrow> (writeError 413 ''ERR_BODY_TOO_LARGE'' ''Request larger than 64 KB.'', s)
      | BodyUnreadable \<Rightarrow> (writeError 400 ''ERR_INVALID_CERTIFICATE'' ''Could not read the request body.'', s)
      | BodyRead raw \<Rightarrow>
          (let (cert, purchase) = splitPutBody decode raw; now = clock t in
           if length cert > MaxBody then (writeError 413 ''ERR_BODY_TOO_LARGE'' ''Certificate larger than 16 KB.'', s)
           else case Parse ul sdk cert (lc_Domain cfg) now of
             Inl ErrWrongDomain \<Rightarrow> (writeError 400 ''ERR_WRONG_DOMAIN'' (''paymail field must end with @'' @ lc_Domain cfg), s)
           | Inl (ErrInvalidCert m) \<Rightarrow> (writeError 400 ''ERR_INVALID_CERTIFICATE'' (certErrorText m), s)
           | Inr p \<Rightarrow>
               if pf_Released p then releaseProfile cfg H p now s
               else claimProfile ul pc H B purchase p now s))"

section \<open>Keeping up with the stores\<close>

definition applyStatus ::
  "'s SubscriptionStore \<Rightarrow> Subscription \<Rightarrow> Verified \<Rightarrow> time \<Rightarrow> 's \<Rightarrow> (sub_error + Subscription) \<times> 's" where
  "applyStatus B sub v now s =
     (let st0 = ve_Status v;
          st = (if ss_Tier st0 \<noteq> Tier (su_Handle sub)
                then st0\<lparr>ss_State := SubWrongTier,
                       ss_ExpiresAt := (if ss_ExpiresAt st0 > ss_ExpiresAt (su_Status sub) then ss_ExpiresAt (su_Status sub) else ss_ExpiresAt st0)\<rparr>
                else st0)
      in case UpdateSubscriptionStatus B (su_ID sub) st now s of
           (Inl e, s1) \<Rightarrow> (Inl e, s1)
         | (Inr _, s1) \<Rightarrow> (Inr (sub\<lparr>su_Status := st, su_UpdatedAt := now\<rparr>), s1))"

datatype refresh_error = RefreshStore purchase_error | RefreshDB sub_error

definition refresh ::
  "'s PurchaseConfig \<Rightarrow> 's SubscriptionStore \<Rightarrow> time \<Rightarrow> Subscription \<Rightarrow> 's \<Rightarrow> (refresh_error + Subscription) \<times> 's" where
  "refresh pc B t sub s =
     (case pc_Verifiers pc (su_Store sub) of
        None \<Rightarrow> (Inl (RefreshStore (PurchaseUnavailable [])), s)
      | Some verifier \<Rightarrow>
          (case Refresh verifier sub s of
             (Inl e, s1) \<Rightarrow> (Inl (RefreshStore e), s1)
           | (Inr v, s1) \<Rightarrow>
               (case applyStatus B sub v (clock t) s1 of
                  (Inl e, s2) \<Rightarrow> (Inl (RefreshDB e), s2)
                | (Inr sub', s2) \<Rightarrow> (Inr sub', s2))))"

definition okEmpty :: "lookup_body response" where
  "okEmpty = JsonReply 200 EmptyBody"

definition writeRefreshError :: "refresh_error \<Rightarrow> lookup_body response" where
  "writeRefreshError e =
     (case e of
        RefreshStore (PurchaseInvalid _) \<Rightarrow> okEmpty
      | _ \<Rightarrow> writeError 503 ''ERR_STORE_UNAVAILABLE'' ''Could not refresh the subscription; retry.'')"

definition refreshByID ::
  "'s PurchaseConfig \<Rightarrow> 's SubscriptionStore \<Rightarrow> time \<Rightarrow> string \<Rightarrow> string \<Rightarrow> 's \<Rightarrow> lookup_body response \<times> 's" where
  "refreshByID pc B t store storeID s =
     (case GetSubscription B (SubscriptionID store storeID) s of
        (Inl _, s1) \<Rightarrow> (writeError 500 ''ERR_INTERNAL'' ''Storage failure; safe to retry.'', s1)
      | (Inr None, s1) \<Rightarrow> (okEmpty, s1)
      | (Inr (Some sub), s1) \<Rightarrow>
          (case refresh pc B t sub s1 of
             (Inl e, s2) \<Rightarrow> (writeRefreshError e, s2)
           | (Inr _, s2) \<Rightarrow> (okEmpty, s2)))"

definition AppleNotification ::
  "'s PurchaseConfig \<Rightarrow> 's SubscriptionStore \<Rightarrow> apple_wire \<Rightarrow> time \<Rightarrow> string decoded \<Rightarrow> 's \<Rightarrow> lookup_body response \<times> 's" where
  "AppleNotification pc B wire t body s =
     (case body of
        Decoded signedPayload \<Rightarrow>
          if signedPayload = [] then (writeError 400 ''ERR_INVALID_NOTIFICATION'' ''Expected {\"signedPayload\": \"...\"}.'', s)
          else case OriginalTransactionID wire signedPayload of
            Inl _ \<Rightarrow> (writeError 400 ''ERR_INVALID_NOTIFICATION'' ''signedPayload is not a notification.'', s)
          | Inr i \<Rightarrow> if i = [] then (okEmpty, s) else refreshByID pc B t StoreAppStore i s
      | _ \<Rightarrow> (writeError 400 ''ERR_INVALID_NOTIFICATION'' ''Expected {\"signedPayload\": \"...\"}.'', s))"

record developerNotification =
  dn_PackageName :: string
  dn_PurchaseToken :: "string option"

definition adoptLinkedToken ::
  "'s PurchaseConfig \<Rightarrow> 's SubscriptionStore \<Rightarrow> time \<Rightarrow> string \<Rightarrow> 's \<Rightarrow> refresh_error option \<times> 's" where
  "adoptLinkedToken pc B t tok s =
     (case pc_Verifiers pc StoreGooglePlay of
        None \<Rightarrow> (None, s)
      | Some verifier \<Rightarrow>
          (case Refresh verifier \<lparr>su_Status = \<lparr>ss_ProductID = [], ss_BasePlan = [], ss_Tier = 0, ss_State = [],
                  ss_ExpiresAt = zeroTime, ss_Environment = []\<rparr>, su_ID = [], su_Store = StoreGooglePlay, su_StoreID = tok,
                  su_Handle = [], su_IdentityKey = [], su_CreatedAt = zeroTime, su_UpdatedAt = zeroTime, su_ReleasedAt = None\<rparr> s of
             (Inl e, s1) \<Rightarrow> (Some (RefreshStore e), s1)
           | (Inr v, s1) \<Rightarrow>
               if ve_LinkedStoreID v = [] then (None, s1)
               else (case GetSubscription B (SubscriptionID StoreGooglePlay (ve_LinkedStoreID v)) s1 of
                  (Inl e, s2) \<Rightarrow> (Some (RefreshDB e), s2)
                | (Inr None, s2) \<Rightarrow> (None, s2)
                | (Inr (Some old), s2) \<Rightarrow>
                    (let now = clock t;
                         st0 = ve_Status v;
                         st = (if ss_Tier st0 \<noteq> Tier (su_Handle old)
                               then st0\<lparr>ss_State := SubWrongTier, ss_ExpiresAt := ss_ExpiresAt (su_Status old)\<rparr> else st0);
                         sub = \<lparr>su_Status = st, su_ID = SubscriptionID StoreGooglePlay tok, su_Store = StoreGooglePlay,
                                su_StoreID = tok, su_Handle = su_Handle old, su_IdentityKey = su_IdentityKey old,
                                su_CreatedAt = now, su_UpdatedAt = now, su_ReleasedAt = None\<rparr>
                     in case BindSubscription B sub None s2 of
                          (Inl ErrSubscriptionRaced, s3) \<Rightarrow> (None, s3)
                        | (Inl e, s3) \<Rightarrow> (Some (RefreshDB e), s3)
                        | (Inr _, s3) \<Rightarrow> (None, s3)))))"

text \<open>\<open>refused\<close>: the push authenticator rejected the request. \<open>decode\<close> reads the notification out of the
  message's data.\<close>

definition GoogleNotification ::
  "'s PurchaseConfig \<Rightarrow> 's SubscriptionStore \<Rightarrow> (string \<Rightarrow> developerNotification option) \<Rightarrow> time \<Rightarrow> bool \<Rightarrow> string decoded \<Rightarrow> 's \<Rightarrow>
   lookup_body response \<times> 's" where
  "GoogleNotification pc B decode t refused body s =
     (if refused then (writeError 401 ''ERR_UNAUTHORIZED'' ''Push token rejected.'', s)
      else case body of
        Decoded data \<Rightarrow>
          (case Option.bind (decodeStd data) decode of
             None \<Rightarrow> (writeError 400 ''ERR_INVALID_NOTIFICATION'' ''message.data is not a developer notification.'', s)
           | Some n \<Rightarrow>
               (case dn_PurchaseToken n of
                  None \<Rightarrow> (okEmpty, s)
                | Some tok \<Rightarrow>
                    if tok = [] \<or> dn_PackageName n \<noteq> pc_GooglePackage pc then (okEmpty, s)
                    else case GetSubscription B (SubscriptionID StoreGooglePlay tok) s of
                      (Inl _, s1) \<Rightarrow> (writeError 500 ''ERR_INTERNAL'' ''Storage failure; safe to retry.'', s1)
                    | (Inr (Some sub), s1) \<Rightarrow>
                        (case refresh pc B t sub s1 of
                           (Inl e, s2) \<Rightarrow> (writeRefreshError e, s2)
                         | (Inr _, s2) \<Rightarrow> (okEmpty, s2))
                    | (Inr None, s1) \<Rightarrow>
                        (case adoptLinkedToken pc B t tok s1 of
                           (Some e, s2) \<Rightarrow> (writeRefreshError e, s2)
                         | (None, s2) \<Rightarrow> (okEmpty, s2))))
      | _ \<Rightarrow> (writeError 400 ''ERR_INVALID_NOTIFICATION'' ''Expected a Pub/Sub push message.'', s))"

section \<open>The lapse sweep\<close>

definition releaseLapsed ::
  "'s HandleStore \<Rightarrow> 's SubscriptionStore \<Rightarrow> Subscription \<Rightarrow> time \<Rightarrow> 's \<Rightarrow> (bind_error + bool) \<times> 's" where
  "releaseLapsed H B sub now s =
     (case ListSubscriptionsByHandle B (su_Handle sub) s of
        (Inl e, s1) \<Rightarrow> (Inl (SubError e), s1)
      | (Inr others, s1) \<Rightarrow>
          (let paid = list_ex (\<lambda>o'. su_ID o' \<noteq> su_ID sub \<and> su_IdentityKey o' = su_IdentityKey sub \<and>
                 ss_Tier (su_Status o') = Tier (su_Handle o') \<and> Entitled (su_Status o') now) others;
               mark = (\<lambda>released s. case MarkSubscriptionReleased B (su_ID sub) now s of
                   (Inl e, s2) \<Rightarrow> (Inl (SubError e), s2) | (Inr _, s2) \<Rightarrow> (Inr released, s2))
           in case GetHandle H (su_Handle sub) s1 of
                (Inl e, s2) \<Rightarrow> (Inl (HandleError e), s2)
              | (Inr rec, s2) \<Rightarrow>
                  if \<not> paid \<and> heldBy rec (su_IdentityKey sub) then
                    (case ReleaseHandle H \<lparr>rl_Handle = su_Handle sub, rl_Owner = None, rl_IssuedAt = None,
                            rl_ReleasedBy = ReleasedBySubscription, rl_CooldownUntil = None, rl_Now = now\<rparr> s2 of
                       (Inl ErrHandleNotFound, s3) \<Rightarrow> mark False s3
                     | (Inl e, s3) \<Rightarrow> (Inl (HandleError e), s3)
                     | (Inr _, s3) \<Rightarrow> mark True s3)
                  else mark False s2))"

definition sweepOne ::
  "'s PurchaseConfig \<Rightarrow> 's HandleStore \<Rightarrow> 's SubscriptionStore \<Rightarrow> time \<Rightarrow> time \<Rightarrow> Subscription \<Rightarrow> nat \<times> 's \<Rightarrow> nat \<times> 's" where
  "sweepOne pc H B t cutoff sub acc =
     (let (released, s) = acc; now = clock t in
      case refresh pc B t sub s of
        (Inl (RefreshStore (PurchaseInvalid _)), s1) \<Rightarrow>
          if Entitled (su_Status sub) now \<or> \<not> ss_ExpiresAt (su_Status sub) < cutoff then (released, s1)
          else (case releaseLapsed H B sub now s1 of
                  (Inr True, s2) \<Rightarrow> (released + 1, s2) | (_, s2) \<Rightarrow> (released, s2))
      | (Inl _, s1) \<Rightarrow> (released, s1)
      | (Inr sub1, s1) \<Rightarrow>
          if Entitled (su_Status sub1) now \<or> \<not> ss_ExpiresAt (su_Status sub1) < cutoff then (released, s1)
          else (case releaseLapsed H B sub1 now s1 of
                  (Inr True, s2) \<Rightarrow> (released + 1, s2) | (_, s2) \<Rightarrow> (released, s2)))"

definition SweepLapsedSubscriptions ::
  "'s PurchaseConfig option \<Rightarrow> 's HandleStore \<Rightarrow> 's SubscriptionStore \<Rightarrow> time \<Rightarrow> 's \<Rightarrow> (sub_error + nat) \<times> 's" where
  "SweepLapsedSubscriptions cfg H B t s =
     (case cfg of
        None \<Rightarrow> (Inr 0, s)
      | Some pc \<Rightarrow>
          (let cutoff = clock t - pc_Grace pc in
           case ListLapsedSubscriptions B cutoff sweepBatch s of
             (Inl e, s1) \<Rightarrow> (Inl e, s1)
           | (Inr lapsed, s1) \<Rightarrow>
               (let (released, s2) = fold (sweepOne pc H B t cutoff) lapsed (0, s1) in (Inr released, s2))))"

text \<open>\<open>RunSubscriptionSweeper\<close>: a sweep at once and one at every tick until the context ends. The
  times are those of the sweeps that run; what a sweep reports is only logged.\<close>

fun RunSubscriptionSweeper ::
  "'s PurchaseConfig option \<Rightarrow> 's HandleStore \<Rightarrow> 's SubscriptionStore \<Rightarrow> time \<Rightarrow> time list \<Rightarrow> 's \<Rightarrow> 's" where
  "RunSubscriptionSweeper cfg H B t [] s = snd (SweepLapsedSubscriptions cfg H B t s)"
| "RunSubscriptionSweeper cfg H B t (u # us) s =
     RunSubscriptionSweeper cfg H B u us (snd (SweepLapsedSubscriptions cfg H B t s))"

end
