(* ===== verification/Paid_Safety.thy ===== *)
theory Paid_Safety
  imports Paid_Handles
begin

text \<open>
  What paying guarantees. The locale \<open>paid_registry\<close> states what the handlers rely on of the handle
  registry, the subscription store and the verifiers when nobody races with them; it is interpreted
  on the two MongoDB collections side by side with the stores' servers.
\<close>

section \<open>The contract\<close>

locale paid_registry = handle_registry H ok recs
  for H :: "'s HandleStore" and ok :: "'s \<Rightarrow> bool" and recs :: "'s \<Rightarrow> HandleRecord list" +
  fixes B :: "'s SubscriptionStore"
    and subs :: "'s \<Rightarrow> subscriptionDoc list"
    and V :: "string \<Rightarrow> 's Verifier option"
  assumes subs_unique: "ok s \<Longrightarrow> subs_ok (subs s)"
    and get_frame: "ok s \<Longrightarrow> GetHandle H h s = (x, s') \<Longrightarrow> subs s' = subs s"
    and claim_frame: "ok s \<Longrightarrow> ClaimHandle H c s = (w, s') \<Longrightarrow> subs s' = subs s"
    and release_frame: "ok s \<Longrightarrow> ReleaseHandle H r s = (y, s') \<Longrightarrow> subs s' = subs s"
    and get_sub: "ok s \<Longrightarrow>
          \<exists>s'. GetSubscription B i s = (Inr (map_option toSubscription (find (\<lambda>d. sd_ID d = i) (subs s))), s') \<and>
            ok s' \<and> recs s' = recs s \<and> subs s' = subs s"
    and bind_new: "ok s \<Longrightarrow> \<not> (\<exists>d \<in> set (subs s). sd_ID d = su_ID sub) \<Longrightarrow>
          \<exists>s'. BindSubscription B sub None s = (Inr (), s') \<and> ok s' \<and> recs s' = recs s \<and>
            subs s' = subs s @ [newSubscriptionDoc sub]"
    and rebind: "ok s \<Longrightarrow> d \<in> set (subs s) \<Longrightarrow> sd_ID d = su_ID sub \<Longrightarrow>
          \<exists>s'. BindSubscription B sub (Some (toSubscription d)) s = (Inr (), s') \<and> ok s' \<and> recs s' = recs s \<and>
            subs s' = snd (apply_sub (RebindSub sub (toSubscription d)) (subs s))"
    and set_status: "ok s \<Longrightarrow> UpdateSubscriptionStatus B i st now s = (u, s') \<Longrightarrow> ok s' \<and> recs s' = recs s \<and>
          subs s' = snd (apply_sub (StatusSub i st now) (subs s))"
    and mark_released: "ok s \<Longrightarrow> MarkSubscriptionReleased B i tm s = (u, s') \<Longrightarrow> ok s' \<and> recs s' = recs s \<and>
          subs s' = snd (apply_sub (ReleaseSub i tm) (subs s))"
    and by_handle: "ok s \<Longrightarrow>
          \<exists>s'. ListSubscriptionsByHandle B h s = (Inr (map toSubscription (filter (\<lambda>d. sd_Handle d = h) (subs s))), s') \<and>
            ok s' \<and> recs s' = recs s \<and> subs s' = subs s"
    and lapsed: "ok s \<Longrightarrow>
          \<exists>L s'. ListLapsedSubscriptions B before limit s = (Inr (map toSubscription L), s') \<and> ok s' \<and> recs s' = recs s \<and>
            subs s' = subs s \<and> set L \<subseteq> {d \<in> set (subs s). sd_ExpiresAt d < truncMs before \<and> sd_ReleasedAt d = None}"
    and verify_frame: "ok s \<Longrightarrow> V store = Some v \<Longrightarrow> Verify v p s = (z, s') \<Longrightarrow> ok s' \<and> recs s' = recs s \<and> subs s' = subs s"
    and refresh_frame: "ok s \<Longrightarrow> V store = Some v \<Longrightarrow> Refresh v sub s = (z, s') \<Longrightarrow> ok s' \<and> recs s' = recs s \<and> subs s' = subs s"

section \<open>Rows\<close>

lemma toSubscription_sel [simp]:
  "su_ID (toSubscription d) = sd_ID d" "su_Handle (toSubscription d) = sd_Handle d"
  "su_IdentityKey (toSubscription d) = sd_IdentityKey d" "su_Store (toSubscription d) = sd_Store d"
  "ss_Tier (su_Status (toSubscription d)) = sd_Tier d" "ss_State (su_Status (toSubscription d)) = sd_State d"
  "ss_ExpiresAt (su_Status (toSubscription d)) = sd_ExpiresAt d"
  by (simp_all add: toSubscription_def)

lemma newSubscriptionDoc_sel [simp]:
  "sd_ID (newSubscriptionDoc sub) = su_ID sub" "sd_Handle (newSubscriptionDoc sub) = su_Handle sub"
  "sd_IdentityKey (newSubscriptionDoc sub) = su_IdentityKey sub"
  by (simp_all add: newSubscriptionDoc_def Let_def)

text \<open>A write to one row leaves the others.\<close>

lemma update_sub_other:
  assumes "d \<in> set docs" and "\<And>e. P e \<Longrightarrow> sd_ID e \<noteq> sd_ID d"
  shows "d \<in> set (snd (update_sub P f docs))"
proof (cases "find P docs")
  case None
  with assms show ?thesis by (simp add: update_sub_def)
next
  case (Some e)
  then have "sd_ID d \<noteq> sd_ID e" using assms(2) find_Some_mem by metis
  with Some assms(1) show ?thesis by (force simp: update_sub_def)
qed

lemma apply_sub_other:
  "d \<in> set docs \<Longrightarrow> i \<noteq> sd_ID d \<Longrightarrow> d \<in> set (snd (apply_sub (StatusSub i st now) docs))"
  "d \<in> set docs \<Longrightarrow> i \<noteq> sd_ID d \<Longrightarrow> d \<in> set (snd (apply_sub (ReleaseSub i tm) docs))"
  "d \<in> set docs \<Longrightarrow> su_ID sub \<noteq> sd_ID d \<Longrightarrow> d \<in> set (snd (apply_sub (RebindSub sub prev) docs))"
  unfolding apply_sub.simps by (rule update_sub_other; auto)+

lemma rebind_row:
  assumes "subs_ok docs" and "d \<in> set docs" and "sd_ID d = su_ID sub"
  shows "\<exists>e \<in> set (snd (apply_sub (RebindSub sub (toSubscription d)) docs)).
    sd_ID e = su_ID sub \<and> sd_Handle e = su_Handle sub \<and> sd_IdentityKey e = su_IdentityKey sub"
proof -
  let ?P = "\<lambda>e. sd_ID e = su_ID sub \<and> sd_Handle e = sd_Handle d \<and> sd_IdentityKey e = sd_IdentityKey d"
  have "find ?P docs = Some d"
    using assms by (intro find_unique [where f = sd_ID]) (auto simp: subs_ok_def)
  then have "snd (apply_sub (RebindSub sub (toSubscription d)) docs) =
      map (\<lambda>x. if sd_ID x = sd_ID d then (statusFields (su_Status sub) x)\<lparr>sd_Handle := su_Handle sub,
        sd_IdentityKey := su_IdentityKey sub, sd_UpdatedAt := truncMs (su_UpdatedAt sub), sd_ReleasedAt := None\<rparr> else x) docs"
    by (simp add: update_sub_def)
  then show ?thesis using assms(2,3)
    by (intro bexI [of _ "(statusFields (su_Status sub) d)\<lparr>sd_Handle := su_Handle sub,
        sd_IdentityKey := su_IdentityKey sub, sd_UpdatedAt := truncMs (su_UpdatedAt sub), sd_ReleasedAt := None\<rparr>"])
      (auto simp: statusFields_def)
qed

text \<open>A release leaves the records of the other handles.\<close>

lemma find_map_other:
  assumes "g \<noteq> h" and "hr_Handle z = h"
  shows "find (\<lambda>x. hr_Handle x = g) (map (\<lambda>y. if hr_Handle y = h then z else y) docs) = find (\<lambda>x. hr_Handle x = g) docs"
  using assms by (induction docs) auto

lemma release_other:
  assumes ok: "registry_ok docs" and ne: "rl_Handle r \<noteq> h"
  shows "find (\<lambda>y. hr_Handle y = h) (snd (release_write r ts docs)) = find (\<lambda>y. hr_Handle y = h) docs"
proof (cases "find (\<lambda>x. hr_Handle x = rl_Handle r) docs")
  case (Some x)
  then have "hr_Handle x = rl_Handle r" by (auto dest: find_Some_mem)
  with Some ne show ?thesis by (simp add: release_write_def update_handle_find [OF ok] find_map_other)
qed (simp add: release_write_def update_handle_find [OF ok])

lemma applyStatus_update:
  assumes eq: "applyStatus B sub v now s = (w, s')"
  obtains st u where "UpdateSubscriptionStatus B (su_ID sub) st now s = (u, s')"
    "\<forall>sub'. w = Inr sub' \<longrightarrow> su_ID sub' = su_ID sub \<and> su_Handle sub' = su_Handle sub \<and> su_IdentityKey sub' = su_IdentityKey sub"
proof -
  define st where "st = (let st0 = ve_Status v in if ss_Tier st0 \<noteq> Tier (su_Handle sub)
      then st0\<lparr>ss_State := SubWrongTier,
             ss_ExpiresAt := (if ss_ExpiresAt st0 > ss_ExpiresAt (su_Status sub) then ss_ExpiresAt (su_Status sub) else ss_ExpiresAt st0)\<rparr>
      else st0)"
  obtain u t where u: "UpdateSubscriptionStatus B (su_ID sub) st now s = (u, t)" by fastforce
  have "(w, s') = (case (u, t) of (Inl e, s1) \<Rightarrow> (Inl e, s1) | (Inr _, s1) \<Rightarrow> (Inr (sub\<lparr>su_Status := st, su_UpdatedAt := now\<rparr>), s1))"
    unfolding eq [symmetric] applyStatus_def u [symmetric] unfolding st_def Let_def by simp
  then have t: "s' = t" and w: "w = (case u of Inl e \<Rightarrow> Inl e | Inr _ \<Rightarrow> Inr (sub\<lparr>su_Status := st, su_UpdatedAt := now\<rparr>))"
    by (cases u; simp)+
  show thesis by (rule that [OF u [folded t]]) (auto simp: w split: sum.splits)
qed

text \<open>What is left of the sweep after the refresh concerns the same subscription of the same owner.\<close>

lemma sweepOne_owner:
  assumes y: "refresh pc B t sub s = (y, s1)"
    and r: "\<And>sub'. y = Inr sub' \<Longrightarrow> su_ID sub' = su_ID sub \<and> su_Handle sub' = su_Handle sub \<and> su_IdentityKey sub' = su_IdentityKey sub"
  shows "snd (sweepOne pc H B t cutoff sub (n, s)) = s1 \<or>
    (\<exists>sub'. su_ID sub' = su_ID sub \<and> su_Handle sub' = su_Handle sub \<and> su_IdentityKey sub' = su_IdentityKey sub \<and>
       snd (sweepOne pc H B t cutoff sub (n, s)) = snd (releaseLapsed H B sub' (clock t) s1))"
proof -
  have tail: "snd (case z of (Inr True, s2) \<Rightarrow> (n + 1, s2) | (_, s2) \<Rightarrow> (n, s2)) = snd z" for z :: "(bind_error + bool) \<times> 'a"
    by (simp split: prod.split sum.split bool.split)
  show ?thesis
  proof (cases y)
    case (Inl e)
    consider (invalid) m where "e = RefreshStore (PurchaseInvalid m)" | (store) m where "e = RefreshStore (PurchaseUnavailable m)"
      | (none) "e = RefreshStore PurchaseNotFound" | (db) d where "e = RefreshDB d"
      by (metis refresh_error.exhaust purchase_error.exhaust)
    then show ?thesis using Inl by cases (auto simp: sweepOne_def Let_def y tail intro: exI [of _ sub])
  next
    case (Inr sub')
    then show ?thesis using r [OF Inr] by (auto simp: sweepOne_def Let_def y tail intro: exI [of _ sub'])
  qed
qed

text \<open>A row that pays for a handle of a key, by what is on file.\<close>

definition pays :: "subscriptionDoc \<Rightarrow> string \<Rightarrow> string \<Rightarrow> time \<Rightarrow> bool" where
  "pays d h k now \<longleftrightarrow> sd_Handle d = h \<and> sd_IdentityKey d = k \<and> sd_Tier d = Tier h \<and> Entitled (su_Status (toSubscription d)) now"

text \<open>Whenever the store is asked about the subscription of a row, it answers that it pays for a handle of
  that tier, or that it ended within the grace period of a sweep at \<open>u\<close>, or it does not answer. What it
  must not say is that it does not know the subscription.\<close>

definition renewed :: "(string \<Rightarrow> 's Verifier option) \<Rightarrow> int \<Rightarrow> time \<Rightarrow> subscriptionDoc \<Rightarrow> bool" where
  "renewed V grace u e \<longleftrightarrow>
     (\<forall>v sub s. V (sd_Store e) = Some v \<longrightarrow> su_ID sub = sd_ID e \<longrightarrow>
        (case fst (Refresh v sub s) of
           Inr ve \<Rightarrow> ss_Tier (ve_Status ve) = Tier (sd_Handle e) \<and>
             (Entitled (ve_Status ve) (clock u) \<or> clock u - grace \<le> ss_ExpiresAt (ve_Status ve))
         | Inl (PurchaseInvalid _) \<Rightarrow> False
         | Inl _ \<Rightarrow> True))"

lemma renewed_cong:
  "sd_ID e = sd_ID d \<Longrightarrow> sd_Store e = sd_Store d \<Longrightarrow> sd_Handle e = sd_Handle d \<Longrightarrow> renewed V grace u e = renewed V grace u d"
  by (simp only: renewed_def)

text \<open>A write to one row keeps what a row is about; only a release sets the time of release.\<close>

definition same_sub :: "subscriptionDoc \<Rightarrow> subscriptionDoc \<Rightarrow> bool" where
  "same_sub d e \<longleftrightarrow> sd_ID e = sd_ID d \<and> sd_Store e = sd_Store d \<and> sd_Handle e = sd_Handle d \<and>
     sd_IdentityKey e = sd_IdentityKey d \<and> (sd_ReleasedAt e = None \<longrightarrow> sd_ReleasedAt d = None)"

lemma same_sub_trans: "same_sub a b \<Longrightarrow> same_sub b c \<Longrightarrow> same_sub a c"
  by (simp add: same_sub_def)

lemma update_sub_same:
  "(\<And>d. same_sub d (f d)) \<Longrightarrow> e \<in> set (snd (update_sub P f docs)) \<Longrightarrow> \<exists>d \<in> set docs. same_sub d e"
  by (auto simp: update_sub_def same_sub_def split: option.splits if_splits)

lemma apply_sub_same:
  "e \<in> set (snd (apply_sub (StatusSub i st now) docs)) \<Longrightarrow> \<exists>d \<in> set docs. same_sub d e"
  "e \<in> set (snd (apply_sub (ReleaseSub i tm) docs)) \<Longrightarrow> \<exists>d \<in> set docs. same_sub d e"
  unfolding apply_sub.simps by (rule update_sub_same; simp add: same_sub_def statusFields_def)+

section \<open>Binding a subscription\<close>

definition bound_to :: "subscriptionDoc list \<Rightarrow> string \<Rightarrow> string \<Rightarrow> string \<Rightarrow> bool" where
  "bound_to docs i h k \<longleftrightarrow> (\<exists>d \<in> set docs. sd_ID d = i \<and> sd_Handle d = h \<and> sd_IdentityKey d = k)"

context paid_registry
begin

abbreviation handle_rec :: "string \<Rightarrow> 's \<Rightarrow> HandleRecord option" where
  "handle_rec h s \<equiv> find (\<lambda>x. hr_Handle x = h) (recs s)"

lemma get_handle': 
  assumes "ok s"
  obtains s' where "GetHandle H h s = (Inr (handle_rec h s), s')" "ok s'" "recs s' = recs s" "subs s' = subs s"
  using get_handle [OF assms, of h] get_frame [OF assms] by metis

text \<open>A subscription moves to another handle only when the one it was bound to is no longer held by
  the key it was bound for; otherwise nothing is written.\<close>

lemma bindLoop_ok:
  assumes up: "ok s" and eq: "bindLoop (Suc n) H B sub s = (x, s')"
  shows "ok s' \<and> recs s' = recs s \<and>
    (if \<exists>d \<in> set (subs s). sd_ID d = su_ID sub \<and> (sd_Handle d \<noteq> su_Handle sub \<or> sd_IdentityKey d \<noteq> su_IdentityKey sub) \<and>
          heldBy (handle_rec (sd_Handle d) s) (sd_IdentityKey d)
     then x = Inl ErrPurchaseUsed \<and> subs s' = subs s
     else x = Inr () \<and> bound_to (subs s') (su_ID sub) (su_Handle sub) (su_IdentityKey sub) \<and>
       (\<forall>d \<in> set (subs s). sd_ID d \<noteq> su_ID sub \<longrightarrow> d \<in> set (subs s')))"
proof (cases "find (\<lambda>d. sd_ID d = su_ID sub) (subs s)")
  case None
  obtain s1 where s1: "GetSubscription B (su_ID sub) s = (Inr None, s1)" "ok s1" "recs s1 = recs s" "subs s1 = subs s"
    using get_sub [OF up, of "su_ID sub"] None by auto
  have no: "\<not> (\<exists>d \<in> set (subs s). sd_ID d = su_ID sub)" using None by (auto simp: find_None_all)
  obtain s2 where s2: "BindSubscription B sub None s1 = (Inr (), s2)" "ok s2" "recs s2 = recs s" "subs s2 = subs s @ [newSubscriptionDoc sub]"
    using bind_new [OF s1(2), of sub] no s1 by auto
  have "x = Inr ()" "s' = s2" using eq s1(1) s2(1) by auto
  with s2 no show ?thesis by (auto simp: bound_to_def)
next
  case (Some d)
  then have d: "d \<in> set (subs s)" "sd_ID d = su_ID sub" by (auto dest: find_Some_mem)
  have uniq: "e = d" if "e \<in> set (subs s)" "sd_ID e = su_ID sub" for e
    using subs_unique [OF up] that d by (auto simp: subs_ok_def intro: map_of_distinct_eq)
  obtain s1 where s1: "GetSubscription B (su_ID sub) s = (Inr (Some (toSubscription d)), s1)" "ok s1" "recs s1 = recs s" "subs s1 = subs s"
    using get_sub [OF up, of "su_ID sub"] Some by auto
  obtain s2 where s2: "GetHandle H (sd_Handle d) s1 = (Inr (handle_rec (sd_Handle d) s), s2)" "ok s2" "recs s2 = recs s" "subs s2 = subs s"
    using get_handle' [OF s1(2)] s1 by metis
  let ?moving = "sd_Handle d \<noteq> su_Handle sub \<or> sd_IdentityKey d \<noteq> su_IdentityKey sub"
  let ?held = "heldBy (handle_rec (sd_Handle d) s) (sd_IdentityKey d)"
  show ?thesis
  proof (cases "?moving \<and> ?held")
    case True
    then have "x = Inl ErrPurchaseUsed" "s' = s2" using eq s1(1) s2(1) by auto
    with s2 d True show ?thesis by auto
  next
    case False
    define t where "t = (if ?moving then s2 else s1)"
    have t: "ok t" "recs t = recs s" "subs t = subs s" using s1 s2 by (simp_all add: t_def)
    obtain s3 where s3: "BindSubscription B sub (Some (toSubscription d)) t = (Inr (), s3)" "ok s3" "recs s3 = recs s"
        "subs s3 = snd (apply_sub (RebindSub sub (toSubscription d)) (subs s))"
      using rebind [OF t(1), of d sub] d t by auto
    have "x = Inr ()" "s' = s3" using eq s1(1) s2(1) s3(1) False by (auto simp: t_def split: if_splits)
    moreover have "\<not> (\<exists>d \<in> set (subs s). sd_ID d = su_ID sub \<and> (sd_Handle d \<noteq> su_Handle sub \<or> sd_IdentityKey d \<noteq> su_IdentityKey sub) \<and>
          heldBy (handle_rec (sd_Handle d) s) (sd_IdentityKey d))" using False uniq by blast
    moreover have "bound_to (subs s3) (su_ID sub) (su_Handle sub) (su_IdentityKey sub)"
      using rebind_row [OF subs_unique [OF up] d] s3(4) by (simp add: bound_to_def)
    moreover have "\<forall>e \<in> set (subs s). sd_ID e \<noteq> su_ID sub \<longrightarrow> e \<in> set (subs s3)" unfolding s3(4) using apply_sub_other(3) by metis
    ultimately show ?thesis using s3 by simp
  qed
qed

text \<open>A claim of a paid handle by a key that does not hold it goes ahead only on a purchase the store
  itself vouched for, of the handle's tier and paid up, which is then bound to the handle and the key.\<close>

lemma requirePurchase_paid:
  assumes up: "ok s" and V: "pc_Verifiers pc = V"
    and eq: "requirePurchase ul (Some pc) H B h k p now s = (None, s')"
    and paid: "\<not> IsGenerated ul h" "\<not> heldBy (handle_rec h s) k"
  shows "\<exists>pr verifier v s1 s2. p = Some pr \<and> V (pu_Store pr) = Some verifier \<and> Verify verifier pr s1 = (Inr v, s2) \<and>
    ss_Tier (ve_Status v) = Tier h \<and> Entitled (ve_Status v) now \<and> ok s' \<and> recs s' = recs s \<and>
    bound_to (subs s') (SubscriptionID (pu_Store pr) (ve_StoreID v)) h k"
proof -
  obtain s1 where s1: "GetHandle H h s = (Inr (handle_rec h s), s1)" "ok s1" "recs s1 = recs s" "subs s1 = subs s"
    by (rule get_handle' [OF up])
  obtain pr verifier where pr: "p = Some pr" "V (pu_Store pr) = Some verifier"
    using eq paid s1(1) V by (auto simp: requirePurchase_def split: option.splits)
  obtain y s2 where y: "Verify verifier pr s1 = (y, s2)" by fastforce
  note f = verify_frame [OF s1(2) pr(2) y]
  obtain v where v: "y = Inr v" "ss_Tier (ve_Status v) = Tier h" "Entitled (ve_Status v) now"
    and b: "bindSubscription H B (pu_Store pr) v h k now s2 = (Inr (), s')"
    using eq paid s1(1) V pr y
    by (auto simp: requirePurchase_def split: sum.splits purchase_error.splits if_splits prod.splits)
  let ?sub = "\<lparr>su_Status = ve_Status v, su_ID = SubscriptionID (pu_Store pr) (ve_StoreID v), su_Store = pu_Store pr,
       su_StoreID = ve_StoreID v, su_Handle = h, su_IdentityKey = k, su_CreatedAt = now, su_UpdatedAt = now, su_ReleasedAt = None\<rparr>"
  have "bindLoop (Suc 2) H B ?sub s2 = (Inr (), s')" using b by (simp add: bindSubscription_def numeral_3_eq_3 numeral_2_eq_2)
  from bindLoop_ok [OF _ this] f have "ok s' \<and> recs s' = recs s2 \<and> bound_to (subs s') (su_ID ?sub) (su_Handle ?sub) (su_IdentityKey ?sub)"
    by (auto split: if_splits)
  with pr y v f s1 show ?thesis by auto
qed

section \<open>The sweep\<close>

text \<open>What the sweep must not touch: a held handle, and a row that pays for it.\<close>

definition safe_state :: "HandleRecord \<Rightarrow> subscriptionDoc \<Rightarrow> 's \<Rightarrow> bool" where
  "safe_state x d s \<longleftrightarrow> ok s \<and> handle_rec (hr_Handle x) s = Some x \<and> d \<in> set (subs s)"

lemma refresh_ok:
  assumes V: "pc_Verifiers pc = V" and up: "ok s" and eq: "refresh pc B t sub s = (y, s')"
  shows "ok s' \<and> recs s' = recs s \<and> (\<forall>d \<in> set (subs s). sd_ID d \<noteq> su_ID sub \<longrightarrow> d \<in> set (subs s'))"
    and "y = Inr sub' \<Longrightarrow> su_ID sub' = su_ID sub \<and> su_Handle sub' = su_Handle sub \<and> su_IdentityKey sub' = su_IdentityKey sub"
proof -
  have "(ok s' \<and> recs s' = recs s \<and> (\<forall>d \<in> set (subs s). sd_ID d \<noteq> su_ID sub \<longrightarrow> d \<in> set (subs s'))) \<and>
    (\<forall>sub'. y = Inr sub' \<longrightarrow> su_ID sub' = su_ID sub \<and> su_Handle sub' = su_Handle sub \<and> su_IdentityKey sub' = su_IdentityKey sub)"
  proof (cases "V (su_Store sub)")
    case None
    with eq V up show ?thesis by (auto simp: refresh_def)
  next
    case (Some v)
    obtain z s1 where z: "Refresh v sub s = (z, s1)" by fastforce
    note f = refresh_frame [OF up Some z]
    show ?thesis
    proof (cases z)
      case (Inl e)
      with eq V Some z f show ?thesis by (auto simp: refresh_def)
    next
      case (Inr ve)
      obtain w s2 where w: "applyStatus B sub ve (clock t) s1 = (w, s2)" by fastforce
      obtain st u where u: "UpdateSubscriptionStatus B (su_ID sub) st (clock t) s1 = (u, s2)"
        and sub': "\<forall>sub'. w = Inr sub' \<longrightarrow> su_ID sub' = su_ID sub \<and> su_Handle sub' = su_Handle sub \<and> su_IdentityKey sub' = su_IdentityKey sub"
        by (rule applyStatus_update [OF w])
      have "s' = s2" "\<forall>sub'. y = Inr sub' \<longrightarrow> w = Inr sub'" using eq V Some z Inr w by (auto simp: refresh_def split: sum.splits)
      with set_status [OF _ u] f sub' apply_sub_other(1) show ?thesis by metis
    qed
  qed
  then show "ok s' \<and> recs s' = recs s \<and> (\<forall>d \<in> set (subs s). sd_ID d \<noteq> su_ID sub \<longrightarrow> d \<in> set (subs s'))"
    and "y = Inr sub' \<Longrightarrow> su_ID sub' = su_ID sub \<and> su_Handle sub' = su_Handle sub \<and> su_IdentityKey sub' = su_IdentityKey sub" by blast+
qed

lemma releaseLapsed_safe:
  assumes safe: "safe_state x d s" and k: "hr_IdentityKey x = Some k"
    and d: "sd_Handle d = hr_Handle x" "sd_IdentityKey d = k" "sd_Tier d = Tier (hr_Handle x)" "Entitled (su_Status (toSubscription d)) now"
    and other: "su_ID sub \<noteq> sd_ID d" and eq: "releaseLapsed H B sub now s = (y, s')"
  shows "safe_state x d s'"
proof -
  have up: "ok s" "handle_rec (hr_Handle x) s = Some x" "d \<in> set (subs s)" using safe by (auto simp: safe_state_def)
  let ?O = "map toSubscription (filter (\<lambda>d. sd_Handle d = su_Handle sub) (subs s))"
  obtain s1 where s1: "ListSubscriptionsByHandle B (su_Handle sub) s = (Inr ?O, s1)" "ok s1" "recs s1 = recs s" "subs s1 = subs s"
    using by_handle [OF up(1)] by blast
  obtain s2 where s2: "GetHandle H (su_Handle sub) s1 = (Inr (handle_rec (su_Handle sub) s), s2)" "ok s2" "recs s2 = recs s" "subs s2 = subs s"
    using get_handle' [OF s1(2)] s1(3,4) by metis
  have mark: "safe_state x d t'" if "safe_state x d t" "MarkSubscriptionReleased B (su_ID sub) now t = (u, t')" for t t' u
    using mark_released [OF _ that(2)] that(1) apply_sub_other(2) [OF _ other] by (auto simp: safe_state_def)
  let ?paid = "list_ex (\<lambda>o'. su_ID o' \<noteq> su_ID sub \<and> su_IdentityKey o' = su_IdentityKey sub \<and>
                 ss_Tier (su_Status o') = Tier (su_Handle o') \<and> Entitled (su_Status o') now) ?O"
  have safe2: "safe_state x d s2" using up s2 by (simp add: safe_state_def)
  show ?thesis
  proof (cases "\<not> ?paid \<and> heldBy (handle_rec (su_Handle sub) s) (su_IdentityKey sub)")
    case True
    have ne: "su_Handle sub \<noteq> hr_Handle x"
    proof
      assume h: "su_Handle sub = hr_Handle x"
      with True up(2) k have "su_IdentityKey sub = k" by (simp add: heldBy_def)
      with h d other up(3) have ?paid by (auto simp: list_ex_iff)
      with True show False by simp
    qed
    let ?r = "\<lparr>rl_Handle = su_Handle sub, rl_Owner = None, rl_IssuedAt = None,
                            rl_ReleasedBy = ReleasedBySubscription, rl_CooldownUntil = None, rl_Now = now\<rparr>"
    have "ValidateRelease ?r = None" by (simp add: ValidateRelease_def)
    from release [OF s2(2) this] obtain ts s3 where s3: "ReleaseHandle H ?r s2 = (release_spec (recs s2) (msRelease ?r), s3)" "ok s3"
        "recs s3 = snd (release_write (msRelease ?r) ts (recs s))" using s2(3) by auto
    have "handle_rec (hr_Handle x) s3 = Some x" unfolding s3(3)
      using release_other [of "recs s" "msRelease ?r" "hr_Handle x" ts] recs_inv [OF up(1)] up(2) ne
      by (simp add: registry_inv_def msRelease_def)
    moreover have "subs s3 = subs s" using release_frame [OF s2(2) s3(1)] s2(4) by simp
    ultimately have safe3: "safe_state x d s3" using s3(2) up(3) by (simp add: safe_state_def)
    have "s' = s3 \<or> (\<exists>u. MarkSubscriptionReleased B (su_ID sub) now s3 = (u, s'))"
      using eq s1(1) s2(1) s3(1) True unfolding releaseLapsed_def Let_def
      by (auto split: sum.splits prod.splits handle_error.splits)
    with safe3 mark show ?thesis by blast
  next
    case False
    then have "\<exists>u. MarkSubscriptionReleased B (su_ID sub) now s2 = (u, s')"
      using eq s1(1) s2(1) unfolding releaseLapsed_def Let_def by (auto split: sum.splits prod.splits if_splits)
    with safe2 mark show ?thesis by blast
  qed
qed

lemma sweepOne_safe:
  assumes V: "pc_Verifiers pc = V" and safe: "safe_state x d (snd acc)" and k: "hr_IdentityKey x = Some k"
    and d: "sd_Handle d = hr_Handle x" "sd_IdentityKey d = k" "sd_Tier d = Tier (hr_Handle x)" "Entitled (su_Status (toSubscription d)) (clock t)"
    and other: "su_ID sub \<noteq> sd_ID d"
  shows "safe_state x d (snd (sweepOne pc H B t cutoff sub acc))"
proof -
  obtain n s where acc: "acc = (n, s)" by fastforce
  obtain y s1 where y: "refresh pc B t sub s = (y, s1)" by fastforce
  have up: "ok s" using safe acc by (simp add: safe_state_def)
  note r = refresh_ok(1) [OF V up y] and r2 = refresh_ok(2) [OF V up y]
  have safe1: "safe_state x d s1" using safe r other acc by (auto simp: safe_state_def)
  have rel: "safe_state x d (snd (releaseLapsed H B sub' (clock t) s1))" if "su_ID sub' = su_ID sub" for sub'
    using releaseLapsed_safe [OF safe1 k d, of sub'] other that by (metis prod.collapse)
  have "snd (sweepOne pc H B t cutoff sub acc) = s1 \<or>
      (\<exists>sub'. su_ID sub' = su_ID sub \<and> snd (sweepOne pc H B t cutoff sub acc) = snd (releaseLapsed H B sub' (clock t) s1))"
    unfolding acc using sweepOne_owner [OF y] r2 by blast
  with safe1 rel show ?thesis by auto
qed

text \<open>A handle that one of its owner's subscriptions still pays for is left alone by the sweep, whatever
  the stores answer about the others.\<close>

lemma sweep_keeps_paid:
  assumes V: "pc_Verifiers pc = V" and up: "ok s" and x: "x \<in> set (recs s)" "hr_IdentityKey x = Some k"
    and d: "d \<in> set (subs s)" "pays d (hr_Handle x) k (clock t)" "clock t - pc_Grace pc \<le> sd_ExpiresAt d"
    and eq: "SweepLapsedSubscriptions (Some pc) H B t s = (y, s')"
  shows "ok s' \<and> x \<in> set (recs s') \<and> d \<in> set (subs s')"
proof -
  let ?cut = "clock t - pc_Grace pc"
  obtain L s1 where L: "ListLapsedSubscriptions B ?cut sweepBatch s = (Inr (map toSubscription L), s1)" "ok s1" "recs s1 = recs s"
      "subs s1 = subs s" "set L \<subseteq> {d \<in> set (subs s). sd_ExpiresAt d < truncMs ?cut \<and> sd_ReleasedAt d = None}"
    using lapsed [OF up] by blast
  have ent: "sd_Handle d = hr_Handle x" "sd_IdentityKey d = k" "sd_Tier d = Tier (hr_Handle x)" "Entitled (su_Status (toSubscription d)) (clock t)"
    using d(2) by (auto simp: pays_def)
  have xh: "handle_rec (hr_Handle x) s = Some x"
    using find_handle [OF _ x(1), of "\<lambda>_. True"] recs_inv [OF up] by (simp add: registry_inv_def)
  have ids: "sd_ID e \<noteq> sd_ID d" if "e \<in> set L" for e
  proof
    assume "sd_ID e = sd_ID d"
    then have "e = d" using subs_unique [OF up] L(5) that d(1) by (auto simp: subs_ok_def intro: map_of_distinct_eq)
    with L(5) that d(3) truncMs_le [of ?cut] show False by auto
  qed
  have "safe_state x d (snd (fold (sweepOne pc H B t ?cut) (map toSubscription M) acc))"
    if "safe_state x d (snd acc)" "set M \<subseteq> set L" for M acc
    using that
  proof (induction M arbitrary: acc)
    case (Cons e M)
    have "safe_state x d (snd (sweepOne pc H B t ?cut (toSubscription e) acc))"
      by (rule sweepOne_safe [OF V Cons.prems(1) x(2) ent]) (use ids Cons.prems(2) in auto)
    with Cons.IH Cons.prems(2) show ?case by simp
  qed simp
  from this [of "(0, s1)" L] have "safe_state x d (snd (fold (sweepOne pc H B t ?cut) (map toSubscription L) (0, s1)))"
    using L xh d(1) by (simp add: safe_state_def)
  moreover have "s' = snd (fold (sweepOne pc H B t ?cut) (map toSubscription L) (0, s1))"
    using eq L(1) by (auto simp: SweepLapsedSubscriptions_def Let_def split: prod.splits)
  ultimately show ?thesis by (auto simp: safe_state_def dest: find_Some_mem)
qed

text \<open>Any number of sweeps, as long as the subscription runs.\<close>

lemma sweeper_keeps_paid:
  assumes V: "pc_Verifiers pc = V" and x: "hr_IdentityKey x = Some k"
  shows "ok s \<Longrightarrow> x \<in> set (recs s) \<Longrightarrow> d \<in> set (subs s) \<Longrightarrow>
    \<forall>u \<in> set (t # ts). pays d (hr_Handle x) k (clock u) \<and> clock u - pc_Grace pc \<le> sd_ExpiresAt d \<Longrightarrow>
    x \<in> set (recs (RunSubscriptionSweeper (Some pc) H B t ts s)) \<and> d \<in> set (subs (RunSubscriptionSweeper (Some pc) H B t ts s))"
proof (induction ts arbitrary: t s)
  case Nil
  obtain y s' where eq: "SweepLapsedSubscriptions (Some pc) H B t s = (y, s')" by fastforce
  with sweep_keeps_paid [OF V Nil(1,2) x Nil(3) _ _ eq] Nil(4) show ?case by simp
next
  case (Cons u us)
  obtain y s' where eq: "SweepLapsedSubscriptions (Some pc) H B t s = (y, s')" by fastforce
  with sweep_keeps_paid [OF V Cons.prems(1,2) x Cons.prems(3) _ _ eq] Cons.prems(4) Cons.IH [of s' u] show ?case by simp
qed

text \<open>A handle whose owner's subscriptions the stores call renewed, or do not answer about, is left alone
  as well, whatever is on file: the sweep asks before it releases.\<close>

definition asked_state :: "HandleRecord \<Rightarrow> string \<Rightarrow> int \<Rightarrow> time set \<Rightarrow> 's \<Rightarrow> bool" where
  "asked_state x k grace U s \<longleftrightarrow> ok s \<and> handle_rec (hr_Handle x) s = Some x \<and>
     (\<forall>e \<in> set (subs s). sd_Handle e = hr_Handle x \<and> sd_IdentityKey e = k \<and> sd_ReleasedAt e = None \<longrightarrow> (\<forall>u \<in> U. renewed V grace u e))"

lemma asked_step:
  assumes "asked_state x k grace U s" and "ok s'" and "handle_rec (hr_Handle x) s' = Some x"
    and "\<And>e. e \<in> set (subs s') \<Longrightarrow> \<exists>d \<in> set (subs s). same_sub d e"
  shows "asked_state x k grace U s'"
  unfolding asked_state_def
proof (intro conjI ballI impI)
  fix e u
  assume e: "e \<in> set (subs s')" "sd_Handle e = hr_Handle x \<and> sd_IdentityKey e = k \<and> sd_ReleasedAt e = None" and u: "u \<in> U"
  from assms(4) [OF e(1)] obtain d where d: "d \<in> set (subs s)" "same_sub d e" by blast
  then have "renewed V grace u d" using assms(1) e(2) u by (auto simp: asked_state_def same_sub_def)
  with renewed_cong [of e d V grace u] d(2) show "renewed V grace u e" by (simp add: same_sub_def)
qed (use assms(2,3) in simp_all)

lemma refresh_rows:
  assumes V: "pc_Verifiers pc = V" and up: "ok s" and eq: "refresh pc B t sub s = (y, s')"
  shows "e \<in> set (subs s') \<Longrightarrow> \<exists>d \<in> set (subs s). same_sub d e"
proof -
  have refl: "\<exists>d \<in> set (subs s). same_sub d e" if "e \<in> set (subs s)" using that by (auto simp: same_sub_def)
  assume e: "e \<in> set (subs s')"
  show ?thesis
  proof (cases "V (su_Store sub)")
    case None
    with eq V e refl show ?thesis by (auto simp: refresh_def)
  next
    case (Some v)
    obtain z s1 where z: "Refresh v sub s = (z, s1)" by fastforce
    note f = refresh_frame [OF up Some z]
    show ?thesis
    proof (cases z)
      case (Inl er)
      with eq V Some z f e refl show ?thesis by (auto simp: refresh_def)
    next
      case (Inr ve)
      obtain w s2 where w: "applyStatus B sub ve (clock t) s1 = (w, s2)" by fastforce
      obtain st u where u: "UpdateSubscriptionStatus B (su_ID sub) st (clock t) s1 = (u, s2)"
        by (rule applyStatus_update [OF w])
      have "s' = s2" using eq V Some z Inr w by (auto simp: refresh_def split: sum.splits)
      with set_status [OF _ u] f e apply_sub_same(1) show ?thesis by metis
    qed
  qed
qed

text \<open>A row the store calls renewed is passed over.\<close>

lemma sweepOne_renewed:
  assumes V: "pc_Verifiers pc = V" and good: "renewed V (pc_Grace pc) t e"
    and y: "refresh pc B t (toSubscription e) s = (y, s1)"
  shows "snd (sweepOne pc H B t (clock t - pc_Grace pc) (toSubscription e) (n, s)) = s1"
proof (cases "V (sd_Store e)")
  case None
  with y V have "y = Inl (RefreshStore (PurchaseUnavailable []))" by (simp add: refresh_def)
  with y show ?thesis by (simp add: sweepOne_def Let_def)
next
  case (Some v)
  obtain z s2 where z: "Refresh v (toSubscription e) s = (z, s2)" by fastforce
  have g: "case z of Inr ve \<Rightarrow> ss_Tier (ve_Status ve) = Tier (sd_Handle e) \<and>
        (Entitled (ve_Status ve) (clock t) \<or> clock t - pc_Grace pc \<le> ss_ExpiresAt (ve_Status ve))
      | Inl (PurchaseInvalid _) \<Rightarrow> False | Inl _ \<Rightarrow> True"
    using good [unfolded renewed_def, rule_format, OF Some, of "toSubscription e" s] z by simp
  show ?thesis
  proof (cases z)
    case (Inl er)
    with y V Some z have "y = Inl (RefreshStore er)" "s1 = s2" by (auto simp: refresh_def)
    with g Inl y show ?thesis by (cases er) (simp_all add: sweepOne_def Let_def)
  next
    case (Inr ve)
    with y V Some z g have "(\<exists>er. y = Inl (RefreshDB er)) \<or> (\<exists>sub'. y = Inr sub' \<and> su_Status sub' = ve_Status ve)"
      by (auto simp: refresh_def applyStatus_def Let_def split: sum.splits prod.splits)
    with g Inr y show ?thesis by (auto simp: sweepOne_def Let_def not_less)
  qed
qed

lemma releaseLapsed_other_owner:
  assumes safe: "asked_state x k grace U s" and k: "hr_IdentityKey x = Some k"
    and other: "\<not> (su_Handle sub = hr_Handle x \<and> su_IdentityKey sub = k)" and eq: "releaseLapsed H B sub now s = (y, s')"
  shows "asked_state x k grace U s'"
proof -
  have up: "ok s" "handle_rec (hr_Handle x) s = Some x" using safe by (auto simp: asked_state_def)
  let ?O = "map toSubscription (filter (\<lambda>d. sd_Handle d = su_Handle sub) (subs s))"
  obtain s1 where s1: "ListSubscriptionsByHandle B (su_Handle sub) s = (Inr ?O, s1)" "ok s1" "recs s1 = recs s" "subs s1 = subs s"
    using by_handle [OF up(1)] by blast
  obtain s2 where s2: "GetHandle H (su_Handle sub) s1 = (Inr (handle_rec (su_Handle sub) s), s2)" "ok s2" "recs s2 = recs s" "subs s2 = subs s"
    using get_handle' [OF s1(2)] s1(3,4) by metis
  have mark: "asked_state x k grace U t'" if "asked_state x k grace U t" "MarkSubscriptionReleased B (su_ID sub) now t = (u, t')" for t t' u
  proof -
    have "ok t" using that(1) by (simp add: asked_state_def)
    from mark_released [OF this that(2)] show ?thesis
      using that(1) by (intro asked_step [OF that(1)]) (auto simp: asked_state_def simp del: apply_sub.simps dest: apply_sub_same(2))
  qed
  have safe2: "asked_state x k grace U s2" using safe s2 by (simp add: asked_state_def)
  let ?r = "\<lparr>rl_Handle = su_Handle sub, rl_Owner = None, rl_IssuedAt = None,
                          rl_ReleasedBy = ReleasedBySubscription, rl_CooldownUntil = None, rl_Now = now\<rparr>"
  have "(\<exists>u. MarkSubscriptionReleased B (su_ID sub) now s2 = (u, s')) \<or>
      heldBy (handle_rec (su_Handle sub) s) (su_IdentityKey sub) \<and>
      (\<exists>w s3. ReleaseHandle H ?r s2 = (w, s3) \<and> (s' = s3 \<or> (\<exists>u. MarkSubscriptionReleased B (su_ID sub) now s3 = (u, s'))))"
    using eq s1(1) s2(1) unfolding releaseLapsed_def Let_def
    by (auto split: sum.splits prod.splits handle_error.splits if_splits)
  then consider (marked) u where "MarkSubscriptionReleased B (su_ID sub) now s2 = (u, s')"
    | (gone) w s3 where "heldBy (handle_rec (su_Handle sub) s) (su_IdentityKey sub)" "ReleaseHandle H ?r s2 = (w, s3)"
        "s' = s3 \<or> (\<exists>u. MarkSubscriptionReleased B (su_ID sub) now s3 = (u, s'))" by blast
  then show ?thesis
  proof cases
    case marked
    with mark safe2 show ?thesis by blast
  next
    case (gone w s3)
    note held = gone(1) and r3 = gone(2) and s' = gone(3)
    have ne: "su_Handle sub \<noteq> hr_Handle x" using held other up(2) k by (auto simp: heldBy_def)
    have "ValidateRelease ?r = None" by (simp add: ValidateRelease_def)
    from release [OF s2(2) this] r3 obtain ts where s3: "ok s3" "recs s3 = snd (release_write (msRelease ?r) ts (recs s))"
      using s2(3) by auto
    have "handle_rec (hr_Handle x) s3 = Some x" unfolding s3(2)
      using release_other [of "recs s" "msRelease ?r" "hr_Handle x" ts] recs_inv [OF up(1)] up(2) ne
      by (simp add: registry_inv_def msRelease_def)
    moreover have "subs s3 = subs s" using release_frame [OF s2(2) r3] s2(4) by simp
    ultimately have "asked_state x k grace U s3" using s3(1) safe by (simp add: asked_state_def)
    with mark s' show ?thesis by blast
  qed
qed

lemma sweepOne_asked:
  assumes V: "pc_Verifiers pc = V" and safe: "asked_state x k (pc_Grace pc) U (snd acc)" and k: "hr_IdentityKey x = Some k" and t: "t \<in> U"
    and e: "sd_Handle e = hr_Handle x \<and> sd_IdentityKey e = k \<longrightarrow> renewed V (pc_Grace pc) t e"
  shows "asked_state x k (pc_Grace pc) U (snd (sweepOne pc H B t (clock t - pc_Grace pc) (toSubscription e) acc))"
proof -
  obtain n s where acc: "acc = (n, s)" by fastforce
  obtain y s1 where y: "refresh pc B t (toSubscription e) s = (y, s1)" by fastforce
  have up: "ok s" using safe acc by (simp add: asked_state_def)
  note r = refresh_ok(1) [OF V up y] and r2 = refresh_ok(2) [OF V up y]
  have safe1: "asked_state x k (pc_Grace pc) U s1"
  proof (rule asked_step)
    show "asked_state x k (pc_Grace pc) U s" using safe acc by simp
    show "ok s1" using r by blast
    show "handle_rec (hr_Handle x) s1 = Some x" using r safe acc by (simp add: asked_state_def)
  qed (rule refresh_rows [OF V up y])
  show ?thesis
  proof (cases "sd_Handle e = hr_Handle x \<and> sd_IdentityKey e = k")
    case True
    with e have "snd (sweepOne pc H B t (clock t - pc_Grace pc) (toSubscription e) (n, s)) = s1"
      by (intro sweepOne_renewed [OF V _ y]) simp
    with safe1 show ?thesis by (simp add: acc)
  next
    case False
    have rel: "asked_state x k (pc_Grace pc) U (snd (releaseLapsed H B sub' (clock t) s1))"
      if "su_Handle sub' = sd_Handle e" "su_IdentityKey sub' = sd_IdentityKey e" for sub'
      using releaseLapsed_other_owner [OF safe1 k, of sub'] False that by (metis prod.collapse)
    have "snd (sweepOne pc H B t (clock t - pc_Grace pc) (toSubscription e) (n, s)) = s1 \<or>
      (\<exists>sub'. su_Handle sub' = sd_Handle e \<and> su_IdentityKey sub' = sd_IdentityKey e \<and>
         snd (sweepOne pc H B t (clock t - pc_Grace pc) (toSubscription e) (n, s)) = snd (releaseLapsed H B sub' (clock t) s1))"
      using sweepOne_owner [OF y r2, where H = H and cutoff = "clock t - pc_Grace pc" and n = n] by simp blast
    with safe1 rel show ?thesis by (auto simp: acc)
  qed
qed

lemma sweep_asks:
  assumes V: "pc_Verifiers pc = V" and safe: "asked_state x k (pc_Grace pc) U s" and k: "hr_IdentityKey x = Some k" and t: "t \<in> U"
  shows "asked_state x k (pc_Grace pc) U (snd (SweepLapsedSubscriptions (Some pc) H B t s))"
proof -
  let ?cut = "clock t - pc_Grace pc"
  have up: "ok s" using safe by (simp add: asked_state_def)
  obtain L s1 where L: "ListLapsedSubscriptions B ?cut sweepBatch s = (Inr (map toSubscription L), s1)" "ok s1" "recs s1 = recs s"
      "subs s1 = subs s" "set L \<subseteq> {d \<in> set (subs s). sd_ExpiresAt d < truncMs ?cut \<and> sd_ReleasedAt d = None}"
    using lapsed [OF up] by blast
  have "asked_state x k (pc_Grace pc) U (snd (fold (sweepOne pc H B t ?cut) (map toSubscription M) acc))"
    if "asked_state x k (pc_Grace pc) U (snd acc)" "set M \<subseteq> set L" for M acc
    using that
  proof (induction M arbitrary: acc)
    case (Cons e M)
    have "sd_Handle e = hr_Handle x \<and> sd_IdentityKey e = k \<longrightarrow> renewed V (pc_Grace pc) t e"
      using Cons.prems(2) L(5) safe t by (auto simp: asked_state_def)
    from sweepOne_asked [OF V Cons.prems(1) k t this] Cons.IH Cons.prems(2) show ?case by simp
  qed simp
  from this [of "(0, s1)" L] have "asked_state x k (pc_Grace pc) U (snd (fold (sweepOne pc H B t ?cut) (map toSubscription L) (0, s1)))"
    using safe L by (simp add: asked_state_def)
  then show ?thesis using L(1) by (simp add: SweepLapsedSubscriptions_def Let_def split_beta)
qed

lemma sweeper_asks:
  assumes V: "pc_Verifiers pc = V" and k: "hr_IdentityKey x = Some k"
  shows "asked_state x k (pc_Grace pc) U s \<Longrightarrow> set (t # ts) \<subseteq> U \<Longrightarrow>
    asked_state x k (pc_Grace pc) U (RunSubscriptionSweeper (Some pc) H B t ts s)"
proof (induction ts arbitrary: t s)
  case Nil
  then show ?case using sweep_asks [OF V Nil.prems(1) k] by simp
next
  case (Cons u us)
  then show ?case using sweep_asks [OF V Cons.prems(1) k] by simp
qed

lemma sweeper_keeps_renewed:
  assumes V: "pc_Verifiers pc = V" and k: "hr_IdentityKey x = Some k" and up: "ok s" and x: "x \<in> set (recs s)"
    and good: "\<forall>e \<in> set (subs s). sd_Handle e = hr_Handle x \<and> sd_IdentityKey e = k \<and> sd_ReleasedAt e = None \<longrightarrow>
      (\<forall>u \<in> set (t # ts). renewed V (pc_Grace pc) u e)"
  shows "x \<in> set (recs (RunSubscriptionSweeper (Some pc) H B t ts s))"
proof -
  have "handle_rec (hr_Handle x) s = Some x"
    using find_handle [OF _ x, of "\<lambda>_. True"] recs_inv [OF up] by (simp add: registry_inv_def)
  then have "asked_state x k (pc_Grace pc) (set (t # ts)) s" using up good by (simp add: asked_state_def)
  from sweeper_asks [OF V k this order_refl] show ?thesis by (auto simp: asked_state_def dest: find_Some_mem)
qed

end

end
