(* ===== verification/Paid_Store.thy ===== *)
theory Paid_Store
  imports Paid_Safety
begin

text \<open>
  The stores the purchase handlers run on: the handle registry and the subscription collection of the
  MongoDB backend next to the state of the app stores' servers, each operation acting on its own part.
  On it the contract of \<open>paid_registry\<close> holds while nobody races with the handler.
\<close>

section \<open>Subscriptions nobody interferes with\<close>

abbreviation sub_docs :: "subscriptions \<Rightarrow> subscriptionDoc list" where
  "sub_docs s \<equiv> sb_docs (conn_data s)"

definition subs_quiet :: "subscriptions \<Rightarrow> bool" where
  "subs_quiet s \<longleftrightarrow> healthy s \<and> concat (sb_others (conn_data s)) = []"

definition subs_up :: "subscriptions \<Rightarrow> bool" where
  "subs_up s \<longleftrightarrow> subs_quiet s \<and> subs_ok (sub_docs s)"

lemma scall_quiet:
  assumes q: "subs_quiet s" and f: "f (sub_docs s) = (a, docs)"
  obtains s' where "scall f s = (Inr a, s')" "subs_quiet s'" "sub_docs s' = docs"
proof -
  let ?g = "\<lambda>d. let d1 = others_sub d; (a, docs) = f (sb_docs d1) in (a, d1\<lparr>sb_docs := docs\<rparr>)"
  have e: "concat (sb_others (conn_data s)) = []" using q by (simp add: subs_quiet_def)
  then have o: "sb_docs (others_sub (conn_data s)) = sub_docs s" "concat (sb_others (others_sub (conn_data s))) = []"
    by (cases "sb_others (conn_data s)"; simp add: others_sub_def run_subs_def)+
  then have g: "?g (conn_data s) = (a, (others_sub (conn_data s))\<lparr>sb_docs := docs\<rparr>)" using f by simp
  have h: "healthy s" using q by (simp add: subs_quiet_def)
  from call_healthy [OF h, of ?g] g obtain s' where s': "call ?g s = (Inr a, s')" "healthy s'"
      "conn_data s' = (others_sub (conn_data s))\<lparr>sb_docs := docs\<rparr>" by auto
  show thesis
  proof (rule that)
    show "scall f s = (Inr a, s')" using s'(1) by (simp add: scall_def)
    show "subs_quiet s'" using s' o by (simp add: subs_quiet_def)
  qed (use s' in simp_all)
qed

lemma scall_read:
  assumes "subs_up s"
  obtains s' where "scall (\<lambda>docs. (g docs, docs)) s = (Inr (g (sub_docs s)), s')" "subs_up s'" "sub_docs s' = sub_docs s"
  by (rule scall_quiet [of s "\<lambda>docs. (g docs, docs)", OF _ refl]) (use assms that in \<open>auto simp: subs_up_def\<close>)

lemma scall_write:
  assumes up: "subs_up s"
  obtains s' where "scall (apply_sub w) s = (Inr (fst (apply_sub w (sub_docs s))), s')" "subs_up s'"
    "sub_docs s' = snd (apply_sub w (sub_docs s))"
proof (rule scall_quiet [of s "apply_sub w" "fst (apply_sub w (sub_docs s))" "snd (apply_sub w (sub_docs s))"])
  fix s'
  assume s': "scall (apply_sub w) s = (Inr (fst (apply_sub w (sub_docs s))), s')" "subs_quiet s'"
    "sub_docs s' = snd (apply_sub w (sub_docs s))"
  have "subs_ok (snd (apply_sub w (sub_docs s)))"
    using apply_sub_ok [of "sub_docs s" w "fst (apply_sub w (sub_docs s))"] up by (simp add: subs_up_def)
  with s' show thesis by (intro that) (simp_all add: subs_up_def)
qed (use up in \<open>simp_all add: subs_up_def\<close>)

lemma updateSubscription_up:
  assumes "subs_up s" and eq: "updateSubscription w s = (u, s')"
  shows "subs_up s' \<and> sub_docs s' = snd (apply_sub w (sub_docs s))"
  by (rule scall_write [OF assms(1), of w]) (use eq in \<open>auto simp: updateSubscription_def split: reply.splits bool.splits\<close>)

section \<open>The combined state\<close>

record 'f paid_state =
  ps_reg :: registry
  ps_subs :: subscriptions
  ps_net :: 'f

definition on_reg :: "(registry \<Rightarrow> 'a \<times> registry) \<Rightarrow> 'f paid_state \<Rightarrow> 'a \<times> 'f paid_state" where
  "on_reg f s = (let (a, r) = f (ps_reg s) in (a, s\<lparr>ps_reg := r\<rparr>))"

definition on_subs :: "(subscriptions \<Rightarrow> 'a \<times> subscriptions) \<Rightarrow> 'f paid_state \<Rightarrow> 'a \<times> 'f paid_state" where
  "on_subs f s = (let (a, r) = f (ps_subs s) in (a, s\<lparr>ps_subs := r\<rparr>))"

definition on_net :: "('f \<Rightarrow> 'a \<times> 'f) \<Rightarrow> 'f paid_state \<Rightarrow> 'a \<times> 'f paid_state" where
  "on_net f s = (let (a, r) = f (ps_net s) in (a, s\<lparr>ps_net := r\<rparr>))"

definition PaidHandles :: "'f paid_state HandleStore" where
  "PaidHandles = \<lparr>GetHandle = \<lambda>h. on_reg (mongo_GetHandle h), GetHandleBySkeleton = \<lambda>sk. on_reg (mongo_GetHandleBySkeleton sk),
     GetHandleByIdentityKey = \<lambda>k. on_reg (mongo_GetHandleByIdentityKey k), ClaimHandle = \<lambda>c. on_reg (mongo_ClaimHandle c),
     ReleaseHandle = \<lambda>r. on_reg (mongo_ReleaseHandle r), FindHandles = \<lambda>m. on_reg (mongo_FindHandles m)\<rparr>"

definition PaidSubscriptions :: "'f paid_state SubscriptionStore" where
  "PaidSubscriptions = \<lparr>GetSubscription = \<lambda>i. on_subs (mongo_GetSubscription i),
     BindSubscription = \<lambda>sub prev. on_subs (mongo_BindSubscription sub prev),
     UpdateSubscriptionStatus = \<lambda>i st now. on_subs (mongo_UpdateSubscriptionStatus i st now),
     MarkSubscriptionReleased = \<lambda>i tm. on_subs (mongo_MarkSubscriptionReleased i tm),
     ListSubscriptionsByHandle = \<lambda>h. on_subs (mongo_ListSubscriptionsByHandle h),
     ListLapsedSubscriptions = \<lambda>before limit. on_subs (mongo_ListLapsedSubscriptions before limit)\<rparr>"

definition PaidVerifier :: "'f Verifier \<Rightarrow> 'f paid_state Verifier" where
  "PaidVerifier v = \<lparr>Verify = \<lambda>p. on_net (Verify v p), Refresh = \<lambda>sub. on_net (Refresh v sub)\<rparr>"

definition PaidVerifiers :: "(string \<Rightarrow> 'f Verifier option) \<Rightarrow> string \<Rightarrow> 'f paid_state Verifier option" where
  "PaidVerifiers W store = map_option PaidVerifier (W store)"

definition paid_up :: "'f paid_state \<Rightarrow> bool" where
  "paid_up s \<longleftrightarrow> registry_up (ps_reg s) \<and> subs_up (ps_subs s)"

abbreviation paid_recs :: "'f paid_state \<Rightarrow> HandleRecord list" where
  "paid_recs s \<equiv> reg_docs (ps_reg s)"

abbreviation paid_subs :: "'f paid_state \<Rightarrow> subscriptionDoc list" where
  "paid_subs s \<equiv> sub_docs (ps_subs s)"

lemma on_regI: "f (ps_reg s) = (a, r) \<Longrightarrow> on_reg f s = (a, s\<lparr>ps_reg := r\<rparr>)"
  and on_subsI: "g (ps_subs s) = (a, b) \<Longrightarrow> on_subs g s = (a, s\<lparr>ps_subs := b\<rparr>)"
  by (simp_all add: on_reg_def on_subs_def)

lemma on_reg_frame: "on_reg f s = (a, s') \<Longrightarrow> ps_subs s' = ps_subs s"
  and on_net_frame: "on_net g s = (a, s') \<Longrightarrow> ps_subs s' = ps_subs s \<and> ps_reg s' = ps_reg s"
  by (auto simp: on_reg_def on_net_def split: prod.splits)

lemma on_reg_up:
  assumes "paid_up s" and "\<exists>r. f (ps_reg s) = (x, r) \<and> registry_up r \<and> Q r"
  shows "\<exists>s'. on_reg f s = (x, s') \<and> paid_up s' \<and> Q (ps_reg s')"
  using assms on_regI [of f s x] by (fastforce simp: paid_up_def)

lemma on_subs_up:
  assumes "paid_up s" and "g (ps_subs s) = (x, b)" and "subs_up b" and "Q (sub_docs b)"
  shows "\<exists>s'. on_subs g s = (x, s') \<and> paid_up s' \<and> paid_recs s' = paid_recs s \<and> Q (paid_subs s')"
  using assms on_subsI [of g s x b] by (intro exI [of _ "s\<lparr>ps_subs := b\<rparr>"]) (simp add: paid_up_def)

lemma on_update_up:
  assumes "paid_up s" and "on_subs (updateSubscription w) s = (u, s')"
  shows "paid_up s' \<and> paid_recs s' = paid_recs s \<and> paid_subs s' = snd (apply_sub w (paid_subs s))"
proof -
  obtain u' b where b: "updateSubscription w (ps_subs s) = (u', b)" by fastforce
  have "subs_up (ps_subs s)" using assms(1) by (simp add: paid_up_def)
  from updateSubscription_up [OF this b] on_subsI [of "updateSubscription w" s, OF b] assms show ?thesis by (auto simp: paid_up_def)
qed

interpretation paidHandles: handle_registry PaidHandles paid_up paid_recs
proof
  fix s :: "'f paid_state" and h sk k m c r
  assume up: "paid_up s"
  then have u: "registry_up (ps_reg s)" by (simp add: paid_up_def)
  show "registry_inv (paid_recs s)" using u by simp
  show "\<exists>s'. GetHandle PaidHandles h s = (Inr (find (\<lambda>x. hr_Handle x = h) (paid_recs s)), s') \<and> paid_up s' \<and> paid_recs s' = paid_recs s"
    using on_reg_up [OF up, where Q = "\<lambda>r. reg_docs r = paid_recs s"] mongoHandles.get_handle [OF u, of h]
    by (simp add: PaidHandles_def MongoHandles_def)
  show "\<exists>s'. GetHandleBySkeleton PaidHandles sk s = (Inr (find (\<lambda>x. hr_Skeleton x = sk) (paid_recs s)), s') \<and> paid_up s' \<and> paid_recs s' = paid_recs s"
    using on_reg_up [OF up, where Q = "\<lambda>r. reg_docs r = paid_recs s"] mongoHandles.get_skeleton [OF u, of sk]
    by (simp add: PaidHandles_def MongoHandles_def)
  show "\<exists>s'. GetHandleByIdentityKey PaidHandles k s = (Inr (find (\<lambda>x. hr_IdentityKey x = Some k) (paid_recs s)), s') \<and> paid_up s' \<and> paid_recs s' = paid_recs s"
    using on_reg_up [OF up, where Q = "\<lambda>r. reg_docs r = paid_recs s"] mongoHandles.get_key [OF u, of k]
    by (simp add: PaidHandles_def MongoHandles_def)
  show "\<exists>s'. FindHandles PaidHandles m s = (Inr (take (nat (hm_Limit m)) (sort_key hr_Handle (filter (handle_matches m) (paid_recs s)))), s') \<and>
      paid_up s' \<and> paid_recs s' = paid_recs s" if "0 < hm_Limit m"
    using on_reg_up [OF up, where Q = "\<lambda>r. reg_docs r = paid_recs s"] mongoHandles.find_handles [OF u that]
    by (simp add: PaidHandles_def MongoHandles_def)
  show "\<exists>s'. ClaimHandle PaidHandles c s = (claim_spec (paid_recs s) (msClaim c), s') \<and> paid_up s' \<and>
      claim_effect (msClaim c) (claim_spec (paid_recs s) (msClaim c)) (paid_recs s) (paid_recs s')"
    using on_reg_up [OF up, where Q = "\<lambda>r. claim_effect (msClaim c) (claim_spec (paid_recs s) (msClaim c)) (paid_recs s) (reg_docs r)"]
      mongoHandles.claim [OF u, of c]
    by (simp add: PaidHandles_def MongoHandles_def)
  show "\<exists>ts s'. ReleaseHandle PaidHandles r s = (release_spec (paid_recs s) (msRelease r), s') \<and> paid_up s' \<and>
      paid_recs s' = snd (release_write (msRelease r) ts (paid_recs s))" if v: "ValidateRelease r = None"
  proof -
    obtain ts r' where r': "ReleaseHandle MongoHandles r (ps_reg s) = (release_spec (paid_recs s) (msRelease r), r')" "registry_up r'"
        "reg_docs r' = snd (release_write (msRelease r) ts (paid_recs s))"
      using mongoHandles.release [OF u v] by blast
    then have "on_reg (mongo_ReleaseHandle r) s = (release_spec (paid_recs s) (msRelease r), s\<lparr>ps_reg := r'\<rparr>)"
      by (simp add: MongoHandles_def on_reg_def)
    with r' up show ?thesis by (intro exI [of _ ts] exI [of _ "s\<lparr>ps_reg := r'\<rparr>"]) (simp add: PaidHandles_def paid_up_def)
  qed
qed

interpretation paidStore: paid_registry PaidHandles paid_up paid_recs PaidSubscriptions paid_subs "PaidVerifiers W"
  for W :: "string \<Rightarrow> 'f Verifier option"
proof
  fix s s' :: "'f paid_state" and h x r y i sub d st now u tm before limit store v p z
  assume up: "paid_up s"
  then have u: "subs_up (ps_subs s)" by (simp add: paid_up_def)
  show "subs_ok (paid_subs s)" using u by (simp add: subs_up_def)
  show "paid_subs s' = paid_subs s" if "GetHandle PaidHandles h s = (x, s')"
    using that on_reg_frame by (fastforce simp: PaidHandles_def)
  show "paid_subs s' = paid_subs s" if "ClaimHandle PaidHandles c s = (w, s')" for c w
    using that on_reg_frame by (fastforce simp: PaidHandles_def)
  show "paid_subs s' = paid_subs s" if "ReleaseHandle PaidHandles r s = (y, s')"
    using that on_reg_frame by (fastforce simp: PaidHandles_def)
  show "paid_up s' \<and> paid_recs s' = paid_recs s \<and> paid_subs s' = snd (apply_sub (StatusSub i st now) (paid_subs s))"
    if "UpdateSubscriptionStatus PaidSubscriptions i st now s = (u, s')" for u
    using that on_update_up [OF up] by (simp add: PaidSubscriptions_def mongo_UpdateSubscriptionStatus_def)
  show "paid_up s' \<and> paid_recs s' = paid_recs s \<and> paid_subs s' = snd (apply_sub (ReleaseSub i tm) (paid_subs s))"
    if "MarkSubscriptionReleased PaidSubscriptions i tm s = (u, s')" for u
    using that on_update_up [OF up] by (simp add: PaidSubscriptions_def mongo_MarkSubscriptionReleased_def)
  show "paid_up s' \<and> paid_recs s' = paid_recs s \<and> paid_subs s' = paid_subs s"
    if "PaidVerifiers W store = Some v" "Verify v p s = (z, s')"
    using that up on_net_frame by (fastforce simp: PaidVerifiers_def PaidVerifier_def paid_up_def)
  show "paid_up s' \<and> paid_recs s' = paid_recs s \<and> paid_subs s' = paid_subs s"
    if "PaidVerifiers W store = Some v" "Refresh v sub s = (z, s')"
    using that up on_net_frame by (fastforce simp: PaidVerifiers_def PaidVerifier_def paid_up_def)
  show "\<exists>s'. GetSubscription PaidSubscriptions i s = (Inr (map_option toSubscription (find (\<lambda>d. sd_ID d = i) (paid_subs s))), s') \<and>
      paid_up s' \<and> paid_recs s' = paid_recs s \<and> paid_subs s' = paid_subs s"
    by (rule scall_read [OF u, of "\<lambda>docs. map_option toSubscription (find (\<lambda>d. sd_ID d = i) docs)"])
      (use on_subs_up [OF up, where Q = "\<lambda>b. b = paid_subs s"] in \<open>simp add: PaidSubscriptions_def mongo_GetSubscription_def\<close>)
  show "\<exists>s'. ListSubscriptionsByHandle PaidSubscriptions h s = (Inr (map toSubscription (filter (\<lambda>d. sd_Handle d = h) (paid_subs s))), s') \<and>
      paid_up s' \<and> paid_recs s' = paid_recs s \<and> paid_subs s' = paid_subs s"
    by (rule scall_read [OF u, of "\<lambda>docs. map toSubscription (filter (\<lambda>d. sd_Handle d = h) docs)"])
      (use on_subs_up [OF up, where Q = "\<lambda>b. b = paid_subs s"] in \<open>simp add: PaidSubscriptions_def mongo_ListSubscriptionsByHandle_def\<close>)
  show "\<exists>s'. BindSubscription PaidSubscriptions sub None s = (Inr (), s') \<and> paid_up s' \<and> paid_recs s' = paid_recs s \<and>
      paid_subs s' = paid_subs s @ [newSubscriptionDoc sub]" if new: "\<not> (\<exists>d \<in> set (paid_subs s). sd_ID d = su_ID sub)"
    by (rule scall_write [OF u, of "InsertSub sub"])
      (use new on_subs_up [OF up, of "mongo_BindSubscription sub None" "Inr ()" _ "\<lambda>b. b = paid_subs s @ [newSubscriptionDoc sub]"]
        in \<open>simp add: PaidSubscriptions_def mongo_BindSubscription_def\<close>)
  show "\<exists>s'. BindSubscription PaidSubscriptions sub (Some (toSubscription d)) s = (Inr (), s') \<and> paid_up s' \<and> paid_recs s' = paid_recs s \<and>
      paid_subs s' = snd (apply_sub (RebindSub sub (toSubscription d)) (paid_subs s))"
    if d: "d \<in> set (paid_subs s)" "sd_ID d = su_ID sub"
  proof -
    have "fst (apply_sub (RebindSub sub (toSubscription d)) (paid_subs s)) = Reply True"
      using d by (auto simp: update_sub_def find_None_all split: option.split)
    note r = this
    show ?thesis
      by (rule scall_write [OF u, of "RebindSub sub (toSubscription d)"])
        (use r on_subs_up [OF up, of "mongo_BindSubscription sub (Some (toSubscription d))" "Inr ()" _
             "\<lambda>b. b = snd (apply_sub (RebindSub sub (toSubscription d)) (paid_subs s))"]
          in \<open>simp add: PaidSubscriptions_def mongo_BindSubscription_def del: apply_sub.simps\<close>)
  qed
  show "\<exists>L s'. ListLapsedSubscriptions PaidSubscriptions before limit s = (Inr (map toSubscription L), s') \<and> paid_up s' \<and>
      paid_recs s' = paid_recs s \<and> paid_subs s' = paid_subs s \<and>
      set L \<subseteq> {d \<in> set (paid_subs s). sd_ExpiresAt d < truncMs before \<and> sd_ReleasedAt d = None}"
  proof (cases "limit \<le> 0")
    case True
    then show ?thesis using up
      by (intro exI [of _ "[]"] exI [of _ s]) (simp add: PaidSubscriptions_def mongo_ListLapsedSubscriptions_def on_subs_def)
  next
    case False
    let ?L = "\<lambda>docs. take (nat limit) (sort_key (\<lambda>d. (sd_ExpiresAt d, sd_ID d))
        (filter (\<lambda>d. sd_ExpiresAt d < truncMs before \<and> sd_ReleasedAt d = None) docs))"
    have "\<exists>s'. ListLapsedSubscriptions PaidSubscriptions before limit s = (Inr (map toSubscription (?L (paid_subs s))), s') \<and>
        paid_up s' \<and> paid_recs s' = paid_recs s \<and> paid_subs s' = paid_subs s"
      by (rule scall_read [OF u, of "\<lambda>docs. map toSubscription (?L docs)"])
        (use False on_subs_up [OF up, of "mongo_ListLapsedSubscriptions before limit" "Inr (map toSubscription (?L (paid_subs s)))" _ "\<lambda>b. b = paid_subs s"] in \<open>simp add: PaidSubscriptions_def mongo_ListLapsedSubscriptions_def\<close>)
    moreover have "set (?L (paid_subs s)) \<subseteq> {d \<in> set (paid_subs s). sd_ExpiresAt d < truncMs before \<and> sd_ReleasedAt d = None}"
      by (rule order_trans [OF set_take_subset]) auto
    ultimately show ?thesis by blast
  qed
qed

end
