(* ===== verification/Put_Handle.thy ===== *)
theory Put_Handle
  imports Paid_Store
begin

text \<open>
  What a registration request does end to end: the record a success reply stands for, that an error
  reply changed no record, that a new paid handle is paid for, and that the certificate registered is
  the one the reverse lookup serves.
\<close>

section \<open>Records after a claim and a release\<close>

text \<open>Only the record of the one handle changes.\<close>

definition other_handles_kept :: "string \<Rightarrow> HandleRecord list \<Rightarrow> HandleRecord list \<Rightarrow> bool" where
  "other_handles_kept h docs docs' \<longleftrightarrow> (\<forall>g. g \<noteq> h \<longrightarrow> find (\<lambda>x. hr_Handle x = g) docs' = find (\<lambda>x. hr_Handle x = g) docs)"

lemma other_handles_kept_refl: "other_handles_kept h docs docs"
  by (simp add: other_handles_kept_def)

lemma update_others:
  assumes ok: "registry_ok docs" and f: "\<And>x. hr_Handle (f x) = hr_Handle x"
  shows "other_handles_kept h docs (snd (update_handle h P f docs))"
proof (cases "find (\<lambda>x. hr_Handle x = h) docs")
  case (Some x)
  then have "hr_Handle (f x) = h" using f by (auto dest: find_Some_mem)
  with Some show ?thesis by (simp add: other_handles_kept_def update_handle_find [OF ok] find_map_other)
qed (simp add: other_handles_kept_def update_handle_find [OF ok])

lemma find_snoc_other: "hr_Handle z \<noteq> g \<Longrightarrow> find (\<lambda>x. hr_Handle x = g) (docs @ [z]) = find (\<lambda>x. hr_Handle x = g) docs"
  by (induction docs) auto

lemma claim_write_others:
  assumes ok: "registry_ok docs" and w: "w \<in> {OwnerUpdate c ts, Reclaim c ts, InsertHandle c ts}"
  shows "other_handles_kept (hc_Handle c) docs (snd (apply_write w docs))"
proof -
  consider "w = OwnerUpdate c ts" | "w = Reclaim c ts" | "w = InsertHandle c ts" using w by blast
  then show ?thesis
  proof cases
    case 1
    then show ?thesis by (simp add: owner_update_def update_others [OF ok])
  next
    case 2
    then show ?thesis by (simp add: reclaim_def update_others [OF ok])
  next
    case 3
    then show ?thesis by (simp add: insert_handle_def other_handles_kept_def find_snoc_other new_handleDoc_def)
  qed
qed

lemma release_write_others: "registry_ok docs \<Longrightarrow> other_handles_kept (rl_Handle r) docs (snd (release_write r ts docs))"
  unfolding release_write_def by (rule update_others) simp_all

definition registered_as :: "HandleClaim \<Rightarrow> HandleRecord \<Rightarrow> bool" where
  "registered_as c x \<longleftrightarrow> hr_IdentityKey x = Some (hc_IdentityKey c) \<and> hr_Certificate x = Some (hc_Certificate c) \<and>
     hr_SerialNumber x = hc_SerialNumber c \<and> hr_IssuedAt x = hc_IssuedAt c"

lemma claim_outcome:
  assumes inv: "registry_ok docs" and eff: "claim_effect c (claim_spec docs c) docs docs'"
  shows "other_handles_kept (hc_Handle c) docs docs' \<and>
    (case claim_spec docs c of
       Inl _ \<Rightarrow> docs' = docs
     | Inr _ \<Rightarrow> \<exists>x. find (\<lambda>x. hr_Handle x = hc_Handle c) docs' = Some x \<and> registered_as c x)"
proof -
  have applied: ?thesis if res: "claim_spec docs c = Inr b"
    and w: "w \<in> {OwnerUpdate c ts, Reclaim c ts, InsertHandle c ts}" "apply_write w docs = (Reply True, docs')" for b w ts
  proof -
    obtain x where "find (\<lambda>x. hr_Handle x = hc_Handle c) docs' = Some x" "registered_as c x"
      by (rule claim_applied [OF inv w]) (use that in \<open>auto simp: registered_as_def\<close>)
    then show ?thesis using claim_write_others [OF inv w(1)] w(2) res by auto
  qed
  show ?thesis
  proof (cases "claim_spec docs c")
    case (Inl e)
    with eff show ?thesis by (simp add: claim_effect_def other_handles_kept_refl)
  next
    case (Inr b)
    show ?thesis
    proof (cases b)
      case ClaimCreated
      with eff Inr obtain ts w where "w \<in> {Reclaim c ts, InsertHandle c ts}" "apply_write w docs = (Reply True, docs')"
        by (simp add: claim_effect_def del: apply_write.simps) blast
      with applied [OF Inr, of w ts] show ?thesis by blast
    next
      case ClaimUpdated
      with eff Inr obtain ts where "apply_write (OwnerUpdate c ts) docs = (Reply True, docs')"
        by (auto simp: claim_effect_def)
      with applied [OF Inr, of "OwnerUpdate c ts" ts] show ?thesis by blast
    next
      case ClaimUnchanged
      with eff Inr have "docs' = docs" by (simp add: claim_effect_def)
      moreover obtain x where "find (\<lambda>x. hr_Handle x = hc_Handle c) docs = Some x" "registered_as c x"
        using Inr ClaimUnchanged by (auto simp: claim_spec_def registered_as_def split: option.splits if_splits)
      ultimately show ?thesis using Inr by (simp add: other_handles_kept_refl)
    qed
  qed
qed

lemma created_not_held:
  assumes "claim_spec docs c = Inr ClaimCreated"
  shows "\<not> heldBy (find (\<lambda>x. hr_Handle x = hc_Handle c) docs) (hc_IdentityKey c)"
  using assms by (auto simp: claim_spec_def heldBy_def Active_def split: option.splits if_splits)

lemma release_outcome:
  assumes inv: "registry_inv docs" and own: "rl_Owner r = Some k" "rl_ReleasedBy r = ReleasedByOwner"
    and d: "docs' = snd (release_write r ts docs)"
  shows "other_handles_kept (rl_Handle r) docs docs' \<and>
    (case release_spec docs r of
       Inl _ \<Rightarrow> docs' = docs
     | Inr _ \<Rightarrow> \<exists>x. find (\<lambda>x. hr_Handle x = rl_Handle r) docs' = Some x \<and> hr_IdentityKey x = None \<and> hr_LastIdentityKey x = k)"
proof -
  have ok: "registry_ok docs" using inv by (simp add: registry_inv_def)
  obtain rep where w: "release_write r ts docs = (rep, docs')" using d by (metis prod.collapse)
  have kept: "other_handles_kept (rl_Handle r) docs docs'" using release_write_others [OF ok, of r ts] d by simp
  have noop: "docs' = docs" if "rep \<noteq> Reply True" using apply_noop [of "ReleaseWrite r ts" docs] w that by simp
  note rep = release_reply [OF ok, of r ts, unfolded w fst_conv]
  have "case release_spec docs r of
       Inl _ \<Rightarrow> docs' = docs
     | Inr _ \<Rightarrow> \<exists>x. find (\<lambda>x. hr_Handle x = rl_Handle r) docs' = Some x \<and> hr_IdentityKey x = None \<and> hr_LastIdentityKey x = k"
  proof (cases "rep = Reply True")
    case True
    have "release_spec docs r = Inr ()"
      using rep True own by (auto simp: release_spec_def split: option.splits if_splits)
    moreover obtain x' where "find (\<lambda>x. hr_Handle x = rl_Handle r) docs' = Some x'" "hr_IdentityKey x' = None" "hr_LastIdentityKey x' = k"
      by (rule release_applied [OF inv w [unfolded True]]) (use own in auto)
    ultimately show ?thesis by simp
  next
    case False
    with noop rep own show ?thesis
      by (auto simp: release_spec_def releaseAlreadyApplied_def split: option.splits if_splits)
  qed
  with kept show ?thesis by blast
qed

section \<open>The purchase gate\<close>

definition is_error :: "'b response \<Rightarrow> bool" where
  "is_error r = (case r of ErrorReply _ _ _ \<Rightarrow> True | JsonReply _ _ \<Rightarrow> False)"

lemma is_error_simps [simp]: "is_error (ErrorReply a b c)" "\<not> is_error (JsonReply a v)"
  by (simp_all add: is_error_def)

lemma store_errors [simp]: "is_error (writeStoreError e)" "is_error (writeBindError b)"
  by (auto simp: writeStoreError_def writeBindError_def split: option.split bind_error.split)

text \<open>The record a success reply stands for.\<close>

definition put_done :: "(rune \<Rightarrow> rune) \<Rightarrow> Profile \<Rightarrow> time \<Rightarrow> HandleRecord list \<Rightarrow> bool" where
  "put_done ul p now docs \<longleftrightarrow> (\<exists>x. find (\<lambda>x. hr_Handle x = pf_Handle p) docs = Some x \<and>
     (if pf_Released p then hr_IdentityKey x = None \<and> hr_LastIdentityKey x = pf_IdentityKey p
      else registered_as (msClaim (profileClaim ul p now)) x))"

text \<open>A key in compressed hex is lower case already.\<close>

lemma toLower_pubkey:
  assumes "pubkeyRE k"
  shows "toLower ul k = k"
proof -
  let ?hex = "\<lambda>c. isDigit c \<or> (97 \<le> byte c \<and> byte c \<le> 102)"
  have "list_all ?hex (take 2 k @ drop 2 k)"
  proof -
    have "take 2 k = [k ! 0, k ! 1]" using assms by (auto simp: pubkeyRE_def numeral_2_eq_2 take_Suc_conv_app_nth)
    then show ?thesis using assms by (auto simp: pubkeyRE_def isDigit_def)
  qed
  then have "list_all ?hex k" by simp
  moreover have "byte c < 128 \<and> lowerAscii c = c" if "?hex c" for c
    using that by (auto simp: isDigit_def lowerAscii_def isUpperAscii_def)
  ultimately have "isAscii k" "map lowerAscii k = k" by (auto simp: isAscii_def list_all_iff intro: map_idI)
  then show ?thesis by (simp add: toLower_ascii)
qed

context paid_registry
begin

lemma bindSubscription_frame:
  assumes "ok s" and "bindSubscription H B store v h k now s = (x, s')"
  shows "ok s' \<and> recs s' = recs s"
proof -
  have "bindLoop (Suc 2) H B \<lparr>su_Status = ve_Status v, su_ID = SubscriptionID store (ve_StoreID v), su_Store = store,
       su_StoreID = ve_StoreID v, su_Handle = h, su_IdentityKey = k, su_CreatedAt = now,
       su_UpdatedAt = now, su_ReleasedAt = None\<rparr> s = (x, s')"
    using assms(2) by (simp add: bindSubscription_def numeral_3_eq_3 numeral_2_eq_2)
  from bindLoop_ok [OF assms(1) this] show ?thesis by blast
qed

lemma requirePurchase_frame:
  assumes up: "ok s" and V: "\<And>c. pc = Some c \<Longrightarrow> pc_Verifiers c = V"
    and eq: "requirePurchase ul pc H B h k p now s = (r, s')"
  shows "ok s' \<and> recs s' = recs s \<and> (\<forall>reply. r = Some reply \<longrightarrow> is_error reply)"
proof (cases "pc = None \<or> IsGenerated ul h")
  case True
  with eq up show ?thesis by (auto simp: requirePurchase_def split: option.splits)
next
  case False
  then obtain c where c: "pc = Some c" "\<not> IsGenerated ul h" by auto
  obtain s1 where s1: "GetHandle H h s = (Inr (handle_rec h s), s1)" "ok s1" "recs s1 = recs s" "subs s1 = subs s"
    by (rule get_handle' [OF up])
  show ?thesis
  proof (cases "heldBy (handle_rec h s) k \<or> p = None \<or> V (pu_Store (the p)) = None")
    case True
    with eq c V [OF c(1)] s1 up show ?thesis by (auto simp: requirePurchase_def split: option.splits if_splits)
  next
    case False
    then obtain pr verifier where pr: "p = Some pr" "V (pu_Store pr) = Some verifier" "\<not> heldBy (handle_rec h s) k" by auto
    obtain y s2 where y: "Verify verifier pr s1 = (y, s2)" by fastforce
    note f = verify_frame [OF s1(2) pr(2) y]
    show ?thesis
    proof (cases y)
      case (Inl e)
      with eq c V [OF c(1)] s1 pr y f show ?thesis
        by (cases e) (auto simp: requirePurchase_def)
    next
      case (Inr v)
      obtain b s3 where b: "bindSubscription H B (pu_Store pr) v h k now s2 = (b, s3)" by fastforce
      have "ok s3 \<and> recs s3 = recs s2" using bindSubscription_frame [OF _ b] f by blast
      with Inr eq c V [OF c(1)] s1 pr y f b show ?thesis
        by (auto simp: requirePurchase_def split: if_splits sum.splits)
    qed
  qed
qed

section \<open>Registering and releasing\<close>

lemma releaseProfile_ok:
  assumes up: "ok s" and rel: "pf_Released p" and eq: "releaseProfile cfg H p now s = (reply, s')"
  shows "ok s' \<and> other_handles_kept (pf_Handle p) (recs s) (recs s') \<and>
    (if is_error reply then recs s' = recs s
     else reply = JsonReply 200 (RawMessage (pf_JSON p)) \<and> put_done ul p now (recs s'))"
proof -
  let ?r = "\<lparr>rl_Handle = pf_Handle p, rl_Owner = Some (pf_IdentityKey p), rl_IssuedAt = Some (pf_IssuedAt p),
             rl_ReleasedBy = ReleasedByOwner, rl_CooldownUntil = Some (now + lc_Cooldown cfg), rl_Now = now\<rparr>"
  have "ValidateRelease ?r = None" by (simp add: ValidateRelease_def)
  from release [OF up this] obtain ts s1 where s1: "ReleaseHandle H ?r s = (release_spec (recs s) (msRelease ?r), s1)" "ok s1"
      "recs s1 = snd (release_write (msRelease ?r) ts (recs s))" by blast
  have s': "s' = s1" using eq s1(1) by (auto simp: releaseProfile_def split: sum.splits handle_error.splits)
  have "msRelease ?r = ?r\<lparr>rl_Now := truncMs now, rl_CooldownUntil := Some (truncMs (now + lc_Cooldown cfg)), rl_IssuedAt := Some (truncMs (pf_IssuedAt p))\<rparr>"
    by (simp add: msRelease_def)
  then have m: "rl_Handle (msRelease ?r) = pf_Handle p" "rl_Owner (msRelease ?r) = Some (pf_IdentityKey p)" "rl_ReleasedBy (msRelease ?r) = ReleasedByOwner"
    by simp_all
  note o = release_outcome [OF recs_inv [OF up] m(2,3) s1(3), unfolded m(1)]
  show ?thesis
  proof (cases "release_spec (recs s) (msRelease ?r)")
    case (Inl e)
    then have "is_error reply" using eq s1(1) by (auto simp: releaseProfile_def split: handle_error.splits)
    with o Inl s' s1(2) show ?thesis by (simp add: other_handles_kept_refl)
  next
    case (Inr u)
    then have "reply = JsonReply 200 (RawMessage (pf_JSON p))" using eq s1(1) by (simp add: releaseProfile_def)
    with o Inr s' s1(2) rel show ?thesis by (auto simp: put_done_def)
  qed
qed

lemma claimProfile_ok:
  assumes up: "ok s" and V: "\<And>c. pc = Some c \<Longrightarrow> pc_Verifiers c = V"
    and new: "\<not> pf_Released p" and eq: "claimProfile ul pc H B purchase p now s = (reply, s')"
  shows "ok s' \<and> other_handles_kept (pf_Handle p) (recs s) (recs s') \<and>
    (if is_error reply then recs s' = recs s
     else (\<exists>st. reply = JsonReply st (RawMessage (pf_JSON p)) \<and> st \<in> {200, 201}) \<and> put_done ul p now (recs s'))"
    and "reply = JsonReply 201 b \<Longrightarrow> \<exists>s1. requirePurchase ul pc H B (pf_Handle p) (pf_IdentityKey p) purchase now s = (None, s1) \<and>
      subs s' = subs s1 \<and> \<not> heldBy (handle_rec (pf_Handle p) s) (pf_IdentityKey p)"
proof -
  let ?c = "profileClaim ul p now"
  obtain r s1 where r: "requirePurchase ul pc H B (pf_Handle p) (pf_IdentityKey p) purchase now s = (r, s1)" by fastforce
  note f = requirePurchase_frame [OF up V r]
  obtain s2 where s2: "ClaimHandle H ?c s1 = (claim_spec (recs s) (msClaim ?c), s2)" "ok s2"
      "claim_effect (msClaim ?c) (claim_spec (recs s) (msClaim ?c)) (recs s) (recs s2)"
    using claim [of s1 ?c] f by metis
  have m: "hc_Handle (msClaim ?c) = pf_Handle p" "hc_IdentityKey (msClaim ?c) = pf_IdentityKey p"
    by (simp_all add: msClaim_def profileClaim_def)
  have inv: "registry_ok (recs s)" using recs_inv [OF up] by (simp add: registry_inv_def)
  note o = claim_outcome [OF inv s2(3), unfolded m(1)]
  have refused: "s' = s \<and> is_error reply \<or> s' = s1 \<and> is_error reply"
    if "Handles.Validate ul (pf_Handle p) \<noteq> None \<or> r \<noteq> None"
    using that eq r f by (auto simp: claimProfile_def split: option.splits handle_fault.splits)
  have went: "s' = s2 \<and> (case claim_spec (recs s) (msClaim ?c) of
        Inl e \<Rightarrow> is_error reply | Inr res \<Rightarrow> reply = JsonReply (if res = ClaimCreated then 201 else 200) (RawMessage (pf_JSON p)))"
    if "Handles.Validate ul (pf_Handle p) = None" "r = None"
    using that eq r s2(1) by (auto simp: claimProfile_def split: sum.splits)
  show "ok s' \<and> other_handles_kept (pf_Handle p) (recs s) (recs s') \<and>
    (if is_error reply then recs s' = recs s
     else (\<exists>st. reply = JsonReply st (RawMessage (pf_JSON p)) \<and> st \<in> {200, 201}) \<and> put_done ul p now (recs s'))"
  proof (cases "Handles.Validate ul (pf_Handle p) = None \<and> r = None")
    case True
    with went o s2(2) new show ?thesis by (auto simp: put_done_def split: sum.splits)
  next
    case False
    with refused up f show ?thesis by (auto simp: other_handles_kept_refl)
  qed
  show "\<exists>s1. requirePurchase ul pc H B (pf_Handle p) (pf_IdentityKey p) purchase now s = (None, s1) \<and>
      subs s' = subs s1 \<and> \<not> heldBy (handle_rec (pf_Handle p) s) (pf_IdentityKey p)"
    if created: "reply = JsonReply 201 b"
  proof -
    have "\<not> is_error reply" using created by simp
    then have v: "Handles.Validate ul (pf_Handle p) = None" "r = None" using refused by blast+
    with went created have "claim_spec (recs s) (msClaim ?c) = Inr ClaimCreated" "s' = s2" by (auto split: sum.splits if_splits)
    with created_not_held [of "recs s" "msClaim ?c"] claim_frame [OF _ s2(1)] f r v(2) m show ?thesis by auto
  qed
qed

lemma PutHandle_ok:
  assumes up: "ok s" and V: "\<And>c. pc = Some c \<Longrightarrow> pc_Verifiers c = V"
    and eq: "PutHandle ul sdk decode cfg pc H B t body s = (reply, s')"
  shows "ok s' \<and>
    (if is_error reply then recs s' = recs s
     else \<exists>raw cert purchase p. body = BodyRead raw \<and> splitPutBody decode raw = (cert, purchase) \<and>
       Parse ul sdk cert (lc_Domain cfg) (clock t) = Inr p \<and> ok_body reply = RawMessage (pf_JSON p) \<and>
       put_done ul p (clock t) (recs s') \<and> other_handles_kept (pf_Handle p) (recs s) (recs s'))"
proof (cases "is_error reply \<and> s' = s")
  case True
  with up show ?thesis by simp
next
  case False
  then obtain raw cert purchase p where b: "body = BodyRead raw" "splitPutBody decode raw = (cert, purchase)"
      "Parse ul sdk cert (lc_Domain cfg) (clock t) = Inr p"
    and e: "(if pf_Released p then releaseProfile cfg H p (clock t) s else claimProfile ul pc H B purchase p (clock t) s) = (reply, s')"
    using eq by (auto simp: PutHandle_def Let_def split: body_read.splits prod.splits sum.splits cert_error.splits if_splits)
  have "ok s' \<and> other_handles_kept (pf_Handle p) (recs s) (recs s') \<and>
    (if is_error reply then recs s' = recs s
     else (\<exists>st. reply = JsonReply st (RawMessage (pf_JSON p))) \<and> put_done ul p (clock t) (recs s'))"
  proof (cases "pf_Released p")
    case True
    with e releaseProfile_ok [OF up True, of cfg "clock t" reply s' ul] show ?thesis by (auto split: if_splits)
  next
    case False
    with e have "claimProfile ul pc H B purchase p (clock t) s = (reply, s')" by simp
    from claimProfile_ok(1) [OF up V False this] show ?thesis by (auto split: if_splits)
  qed
  with b show ?thesis by (auto split: if_splits)
qed

lemma PutHandle_paid:
  assumes up: "ok s" and V: "pc_Verifiers pc = V"
    and eq: "PutHandle ul sdk decode cfg (Some pc) H B t (BodyRead raw) s = (JsonReply 201 b, s')"
  shows "\<exists>cert purchase p. splitPutBody decode raw = (cert, purchase) \<and> Parse ul sdk cert (lc_Domain cfg) (clock t) = Inr p \<and>
    (IsGenerated ul (pf_Handle p) \<or>
     (\<exists>pr verifier v s1 s2. purchase = Some pr \<and> V (pu_Store pr) = Some verifier \<and> Verify verifier pr s1 = (Inr v, s2) \<and>
        ss_Tier (ve_Status v) = Tier (pf_Handle p) \<and> Entitled (ve_Status v) (clock t) \<and>
        bound_to (subs s') (SubscriptionID (pu_Store pr) (ve_StoreID v)) (pf_Handle p) (pf_IdentityKey p)))"
proof -
  obtain cert purchase p where p: "splitPutBody decode raw = (cert, purchase)" "Parse ul sdk cert (lc_Domain cfg) (clock t) = Inr p"
    and e: "(if pf_Released p then releaseProfile cfg H p (clock t) s else claimProfile ul (Some pc) H B purchase p (clock t) s) = (JsonReply 201 b, s')"
    using eq by (auto simp: PutHandle_def Let_def split: prod.splits sum.splits cert_error.splits if_splits)
  have nr: "\<not> pf_Released p"
  proof
    assume r: "pf_Released p"
    with e releaseProfile_ok [OF up r, of cfg "clock t" "JsonReply 201 b" s'] show False by simp
  qed
  obtain s1 where r: "requirePurchase ul (Some pc) H B (pf_Handle p) (pf_IdentityKey p) purchase (clock t) s = (None, s1)"
      "subs s' = subs s1" "\<not> heldBy (handle_rec (pf_Handle p) s) (pf_IdentityKey p)"
    using claimProfile_ok(2) [OF up _ nr, of "Some pc" ul purchase "clock t" "JsonReply 201 b" s' b] e V nr by auto
  from requirePurchase_paid [OF up V r(1) _ r(3)] have "IsGenerated ul (pf_Handle p) \<or>
     (\<exists>pr verifier v s1 s2. purchase = Some pr \<and> V (pu_Store pr) = Some verifier \<and> Verify verifier pr s1 = (Inr v, s2) \<and>
        ss_Tier (ve_Status v) = Tier (pf_Handle p) \<and> Entitled (ve_Status v) (clock t) \<and>
        bound_to (subs s') (SubscriptionID (pu_Store pr) (ve_StoreID v)) (pf_Handle p) (pf_IdentityKey p))"
    unfolding r(2) by blast
  with p show ?thesis by blast
qed

lemma register_then_lookup:
  assumes up: "ok s" and V: "\<And>c. pc = Some c \<Longrightarrow> pc_Verifiers c = V"
    and eq: "PutHandle ul sdk decode cfg pc H B t (BodyRead raw) s = (JsonReply st body, s')"
    and p: "splitPutBody decode raw = (cert, purchase)" "Parse ul sdk cert (lc_Domain cfg) (clock t) = Inr p"
      "\<not> pf_Released p" "pubkeyRE (pf_IdentityKey p)"
  shows "\<exists>s''. LookupIdentityKey ul H (pf_IdentityKey p) s' = (JsonReply 200 (RawMessage (pf_JSON p)), s'') \<and> body = RawMessage (pf_JSON p)"
proof -
  from PutHandle_ok [OF up V eq] p have ok': "ok s'" and b: "body = RawMessage (pf_JSON p)" and d: "put_done ul p (clock t) (recs s')" by auto
  obtain x where x: "find (\<lambda>x. hr_Handle x = pf_Handle p) (recs s') = Some x" "hr_IdentityKey x = Some (pf_IdentityKey p)" "hr_Certificate x = Some (pf_JSON p)"
    using d p(3) by (auto simp: put_done_def registered_as_def msClaim_def profileClaim_def)
  have inv: "registry_ok (recs s')" using recs_inv [OF ok'] by (simp add: registry_inv_def)
  have mem: "x \<in> set (recs s')" using find_Some_mem [OF x(1)] by simp
  have one: "y = x" if "y \<in> set (recs s')" "hr_IdentityKey y = Some (pf_IdentityKey p)" for y
  proof (rule same_handle [OF inv that(1) mem], rule ccontr)
    assume "hr_Handle y \<noteq> hr_Handle x"
    then have "\<not> clashes y x" using inv that(1) mem by (simp add: registry_ok_def)
    then show False using that(2) x(2) by (simp add: clashes_def)
  qed
  have f: "find (\<lambda>x. hr_IdentityKey x = Some (pf_IdentityKey p)) (recs s') = Some x"
  proof (rule find_unique [where f = hr_Handle])
    show "distinct (map hr_Handle (recs s'))" using inv by (simp add: registry_ok_def)
    show "hr_Handle y = hr_Handle x" if "y \<in> set (recs s')" "hr_IdentityKey y = Some (pf_IdentityKey p)" for y
      using one [OF that] by simp
  qed (fact mem x(2))+
  have l: "toLower ul (pf_IdentityKey p) = pf_IdentityKey p" using toLower_pubkey [OF p(4)] .
  have "pubkeyRE (toLower ul (pf_IdentityKey p))" using p(4) l by simp
  from LookupIdentityKey_ok [OF ok' this] show ?thesis unfolding l f using x(3) b by auto
qed

end

end
