(* ===== verification/Handle_Trips.thy ===== *)
theory Handle_Trips
  imports Handle_Decision
begin

text \<open>
  How long a registry operation can take: the number of round trips to the database, whatever the
  other clients and the faults do. The retry of a raced claim is one more pass, never a loop.
\<close>

definition round_trips :: "nat \<Rightarrow> registry \<Rightarrow> registry \<Rightarrow> bool" where
  "round_trips n s s' \<longleftrightarrow> (\<exists>m \<le> n. conn_faults s' = drop m (conn_faults s))"

lemma round_trips_refl [simp]: "round_trips n s s"
  by (auto simp: round_trips_def intro: exI [of _ 0])

lemma round_trips_trans:
  assumes "round_trips m s t" and "round_trips n t u" and "m + n \<le> k"
  shows "round_trips k s u"
proof -
  obtain a b where "a \<le> m" "b \<le> n" "conn_faults t = drop a (conn_faults s)" "conn_faults u = drop b (conn_faults t)"
    using assms by (auto simp: round_trips_def)
  then show ?thesis using assms(3) by (auto simp: round_trips_def intro!: exI [of _ "a + b"] simp: add.commute)
qed

lemma round_trips_mono: "round_trips m s t \<Longrightarrow> m \<le> n \<Longrightarrow> round_trips n s t"
  unfolding round_trips_def by (meson le_trans)

lemma hcall_trip: "hcall f s = (y, s') \<Longrightarrow> round_trips 1 s s'"
  by (cases "conn_faults s")
    (auto simp: hcall_def call_def Let_def round_trips_def split: prod.splits fault.splits sum.splits intro: exI [of _ 1])

lemma reader_trip:
  "mongo_GetHandle h s = (y, s') \<Longrightarrow> round_trips 1 s s'"
  "mongo_GetHandleBySkeleton h s = (y, s') \<Longrightarrow> round_trips 1 s s'"
  "mongo_GetHandleByIdentityKey h s = (y, s') \<Longrightarrow> round_trips 1 s s'"
  unfolding reader_defs getHandleWhere_def by (rule hcall_trip; assumption)+

lemma DiagnoseClaim_trips:
  assumes "DiagnoseClaim mongoReader c s = (x, s')"
  shows "round_trips 3 s s'"
proof -
  obtain y1 s1 where y1: "mongo_GetHandle (hc_Handle c) s = (y1, s1)" by fastforce
  obtain y2 s2 where y2: "mongo_GetHandleByIdentityKey (hc_IdentityKey c) s1 = (y2, s2)" by fastforce
  obtain y3 s3 where y3: "mongo_GetHandleBySkeleton (hc_Skeleton c) s2 = (y3, s3)" by fastforce
  obtain y4 s4 where y4: "mongo_GetHandleBySkeleton (hc_Skeleton c) s1 = (y4, s4)" by fastforce
  note t1 = reader_trip(1) [OF y1]
  have t2: "round_trips 2 s s2" using round_trips_trans [OF t1 reader_trip(3) [OF y2]] by simp
  have t3: "round_trips 3 s s3" using round_trips_trans [OF t2 reader_trip(2) [OF y3]] by simp
  have t4: "round_trips 2 s s4" using round_trips_trans [OF t1 reader_trip(2) [OF y4]] by simp
  have "s' \<in> {s1, s2, s3, s4}"
    using assms unfolding DiagnoseClaim_def mongoReader_sel y1 Let_def
    by (auto simp: y2 y3 y4 split: sum.splits option.splits if_splits)
  with t1 t2 t3 t4 show ?thesis by (auto intro: round_trips_mono)
qed

lemma claimOnce_trips:
  assumes eq: "claimOnce c s = (x, s')"
  shows "round_trips 6 s s'"
proof -
  let ?c = "msClaim c" and ?ts = "truncMs (conn_clock s)"
  obtain y1 s1 where y1: "hcall (owner_update ?c ?ts) s = (y1, s1)" by fastforce
  obtain y2 s2 where y2: "hcall (reclaim ?c ?ts) s1 = (y2, s2)" by fastforce
  obtain y3 s3 where y3: "hcall (insert_handle ?c ?ts) s2 = (y3, s3)" by fastforce
  note t1 = hcall_trip [OF y1]
  have t2: "round_trips 2 s s2" using round_trips_trans [OF t1 hcall_trip [OF y2]] by simp
  have t3: "round_trips 3 s s3" using round_trips_trans [OF t2 hcall_trip [OF y3]] by simp
  have t: "round_trips 3 s t" if "t \<in> {s1, s2, s3}" for t using that t1 t2 t3 by (auto intro: round_trips_mono)
  have "s' \<in> {s1, s2, s3} \<or> (\<exists>t \<in> {s1, s2, s3}. DiagnoseClaim mongoReader ?c t = (x, s'))"
    using eq unfolding claimOnce_def Let_def y1 y2 y3
    by (auto simp: y2 y3 split: sum.splits reply.splits bool.splits)
  then show ?thesis
  proof
    assume "s' \<in> {s1, s2, s3}"
    from round_trips_mono [OF t [OF this]] show ?thesis by simp
  next
    assume "\<exists>t \<in> {s1, s2, s3}. DiagnoseClaim mongoReader ?c t = (x, s')"
    then obtain u where u: "u \<in> {s1, s2, s3}" "DiagnoseClaim mongoReader ?c u = (x, s')" by blast
    show ?thesis by (rule round_trips_trans [OF t [OF u(1)] DiagnoseClaim_trips [OF u(2)]]) simp
  qed
qed

lemma ClaimHandle_trips:
  assumes eq: "mongo_ClaimHandle c s = (x, s')"
  shows "round_trips 12 s s'"
proof -
  obtain y s1 where y: "claimOnce c s = (y, s1)" by fastforce
  have "s' = s1 \<or> claimOnce c s1 = (x, s')"
    using eq y by (auto simp: mongo_ClaimHandle_def split: sum.splits handle_error.splits)
  then show ?thesis
  proof
    assume "claimOnce c s1 = (x, s')"
    from round_trips_trans [OF claimOnce_trips [OF y] claimOnce_trips [OF this]] show ?thesis by simp
  qed (use round_trips_mono [OF claimOnce_trips [OF y]] in simp)
qed

lemma ReleaseHandle_trips:
  assumes eq: "mongo_ReleaseHandle r s = (x, s')"
  shows "round_trips 2 s s'"
proof (cases "ValidateRelease r")
  case (Some e)
  with eq show ?thesis by (simp add: mongo_ReleaseHandle_def)
next
  case None
  obtain y s1 where y: "hcall (release_write (msRelease r) (truncMs (conn_clock s))) s = (y, s1)" by fastforce
  obtain z s2 where z: "mongo_GetHandle (rl_Handle (msRelease r)) s1 = (z, s2)" by fastforce
  note t1 = hcall_trip [OF y]
  have t2: "round_trips 2 s s2" using round_trips_trans [OF t1 reader_trip(1) [OF z]] by simp
  have "s' \<in> {s1, s2}"
    using eq None y z by (auto simp: mongo_ReleaseHandle_def DiagnoseRelease_def split: sum.splits reply.splits bool.splits option.splits if_splits)
  with t1 t2 show ?thesis by (auto intro: round_trips_mono)
qed

end
