(* ===== verification/Handle_Samples.thy ===== *)
theory Handle_Samples
  imports Put_Handle Handle_Trips
begin

text \<open>
  Concrete registries, subscriptions, certificates and purchases on which the properties of paid
  handles are evaluated.
\<close>

section \<open>The registry\<close>

definition same_rune :: "rune \<Rightarrow> rune" where
  "same_rune r = r"

definition claim_of :: "string \<Rightarrow> string \<Rightarrow> time \<Rightarrow> HandleClaim" where
  "claim_of h k t = \<lparr>hc_Handle = h, hc_Skeleton = Skeleton same_rune h, hc_IdentityKey = k, hc_Certificate = ''cert of '' @ k,
     hc_SerialNumber = ''serial of '' @ k, hc_IssuedAt = t, hc_Now = t\<rparr>"

definition held_rec :: "string \<Rightarrow> string \<Rightarrow> HandleRecord" where
  "held_rec h k = new_handleDoc (claim_of h k 1000000) 1000000"

definition registry_of :: "HandleRecord list \<Rightarrow> handle_write list list \<Rightarrow> registry" where
  "registry_of docs others = \<lparr>conn_data = \<lparr>h_docs = docs, h_others = others\<rparr>, conn_faults = [], conn_clock = 5000000\<rparr>"

definition owner_release :: "string \<Rightarrow> string \<Rightarrow> HandleRelease" where
  "owner_release h k = \<lparr>rl_Handle = h, rl_Owner = Some k, rl_IssuedAt = Some 3000000, rl_ReleasedBy = ReleasedByOwner,
     rl_CooldownUntil = Some 9000000, rl_Now = 4000000\<rparr>"

lemma registry_of_sel [simp]: "reg_docs (registry_of docs others) = docs"
  by (simp add: registry_of_def)

lemma registry_of_quiet [simp]: "quiet (registry_of docs [])"
  by (simp add: registry_of_def quiet_def healthy_def env_writes_def)

lemma sample_registry [simp]:
  "registry_inv []" "registry_inv [held_rec ''ann'' ''alice'']" "registry_inv [held_rec ''ann'' ''alice'', held_rec ''bob'' ''bea'']"
  by code_simp+

section \<open>Subscriptions and stores\<close>

definition active_until :: "int \<Rightarrow> time \<Rightarrow> SubscriptionStatus" where
  "active_until tier t = \<lparr>ss_ProductID = ProductPrefix @ itoa tier, ss_BasePlan = Yearly, ss_Tier = tier, ss_State = SubActive,
     ss_ExpiresAt = t, ss_Environment = GoogleProduction\<rparr>"

definition paid_row :: "string \<Rightarrow> string \<Rightarrow> string \<Rightarrow> time \<Rightarrow> subscriptionDoc" where
  "paid_row i h k t = newSubscriptionDoc \<lparr>su_Status = active_until (Tier h) t, su_ID = SubscriptionID StoreGooglePlay i,
     su_Store = StoreGooglePlay, su_StoreID = i, su_Handle = h, su_IdentityKey = k, su_CreatedAt = 0, su_UpdatedAt = 0, su_ReleasedAt = None\<rparr>"

definition subs_of :: "subscriptionDoc list \<Rightarrow> subscriptions" where
  "subs_of docs = \<lparr>conn_data = \<lparr>sb_docs = docs, sb_others = []\<rparr>, conn_faults = [], conn_clock = 5000000\<rparr>"

definition paid_world :: "HandleRecord list \<Rightarrow> subscriptionDoc list \<Rightarrow> nat paid_state" where
  "paid_world docs rows = \<lparr>ps_reg = registry_of docs [], ps_subs = subs_of rows, ps_net = 0\<rparr>"

text \<open>A Play that vouches for every token as a three-letter handle's subscription.\<close>

definition vouching :: "nat Verifier" where
  "vouching = \<lparr>Verify = \<lambda>p n. (Inr \<lparr>ve_Status = active_until 3 90000000, ve_StoreID = pu_Token p, ve_LinkedStoreID = []\<rparr>, n + 1),
     Refresh = \<lambda>sub n. (Inr \<lparr>ve_Status = su_Status sub, ve_StoreID = su_StoreID sub, ve_LinkedStoreID = []\<rparr>, n + 1)\<rparr>"

definition play_only :: "string \<Rightarrow> nat Verifier option" where
  "play_only store = (if store = StoreGooglePlay then Some vouching else None)"

definition play_cfg :: "nat paid_state PurchaseConfig" where
  "play_cfg = \<lparr>pc_Verifiers = PaidVerifiers play_only, pc_Grace = 1000000, pc_GooglePackage = ''org.wallet''\<rparr>"

text \<open>A Play on which the subscription of the first token ended and all others were renewed.\<close>

definition renewing :: "nat Verifier" where
  "renewing = vouching\<lparr>Refresh := \<lambda>sub n. (Inr \<lparr>ve_Status = (if su_ID sub = SubscriptionID StoreGooglePlay ''tok0'' then su_Status sub
       else active_until 3 90000000), ve_StoreID = su_StoreID sub, ve_LinkedStoreID = []\<rparr>, n + 1)\<rparr>"

definition renewing_cfg :: "nat paid_state PurchaseConfig" where
  "renewing_cfg = play_cfg\<lparr>pc_Verifiers := PaidVerifiers (\<lambda>store. if store = StoreGooglePlay then Some renewing else None)\<rparr>"

definition bought :: Purchase where
  "bought = \<lparr>pu_Store = StoreGooglePlay, pu_ProductID = [], pu_TransactionID = [], pu_Token = ''tok1''\<rparr>"

definition play_account :: GoogleConfig where
  "play_account = \<lparr>gc_PackageName = ''org.wallet'', gc_CredentialsJSON = ''{}'', gc_AllowTest = False\<rparr>"

definition play_answers :: "nat play_client" where
  "play_answers pkg tok n = (Inr \<lparr>sp_LineItems = [None, Some \<lparr>li_ProductId = ProductPrefix @ ''3'', li_OfferDetails = Some Yearly,
     li_ExpiryTime = ''soon''\<rparr>], sp_SubscriptionState = ''SUBSCRIPTION_STATE_ACTIVE'', sp_TestPurchase = False,
     sp_LinkedPurchaseToken = []\<rparr>, n + 1)"

lemma paid_world_up [simp]: "registry_inv docs \<Longrightarrow> subs_ok rows \<Longrightarrow> paid_up (paid_world docs rows)"
  by (simp add: paid_up_def paid_world_def subs_of_def subs_up_def subs_quiet_def healthy_def)

lemma paid_world_sel [simp]: "paid_recs (paid_world docs rows) = docs" "paid_subs (paid_world docs rows) = rows"
  by (simp_all add: paid_world_def subs_of_def)

text \<open>Between two round trips of a sweep, the handle is released and claimed by another key.\<close>

definition overtaken :: "nat paid_state" where
  "overtaken = (paid_world [] [paid_row ''tok0'' ''ann'' ''alice'' 1000000])\<lparr>ps_reg := registry_of [held_rec ''ann'' ''alice'']
     [[], [ReleaseWrite (owner_release ''ann'' ''alice'' \<lparr>rl_CooldownUntil := None\<rparr>) 4000000, Reclaim (claim_of ''ann'' ''eve'' 5000000) 5000000]]\<rparr>"

section \<open>Certificates\<close>

definition alice_key :: string where
  "alice_key = ''02'' @ replicate 64 (CHR ''a'')"

definition ann_cert :: "string Certificate" where
  "ann_cert = \<lparr>ce_Type = certType, ce_SerialNumber = replicate 43 (CHR ''A'') @ ''='', ce_Subject = Some alice_key,
     ce_Certifier = Some alice_key, ce_RevocationOutpoint = Some (zeroTxid, 0),
     ce_Fields = [(''paymail'', ''ann@wallet.org''), (''issuedAt'', ''now'')]\<rparr>"

definition test_sdk :: "string cert_sdk" where
  "test_sdk = \<lparr>sdk_unmarshal = \<lambda>b. if b = ''ann'' then Inr ann_cert else Inl ''syntax'', sdk_verify = \<lambda>c. None,
     sdk_encode = \<lambda>c. Inr ''canonical'', sdk_toDERHex = \<lambda>k. k, sdk_parseTime = \<lambda>s. Some 4000000\<rparr>"

text \<open>The body \<open>paid\<close> is the envelope with the purchase, any other a bare certificate.\<close>

definition test_decode :: "string \<Rightarrow> (string \<times> Purchase option) option" where
  "test_decode b = (if b = ''paid'' then Some (''ann'', Some bought) else None)"

definition test_cfg :: LookupConfig where
  "test_cfg = \<lparr>lc_Domain = ''wallet.org'', lc_Host = ''https://wallet.org'', lc_Cooldown = 1000000, lc_AdminKeys = []\<rparr>"

definition ann_profile :: Profile where
  "ann_profile = \<lparr>pf_Handle = ''ann'', pf_Paymail = ''ann@wallet.org'', pf_IdentityKey = alice_key,
     pf_SerialNumber = replicate 43 (CHR ''A'') @ ''='', pf_IssuedAt = 4000000, pf_Released = False, pf_JSON = ''canonical''\<rparr>"

lemma sample_parse: "Parse same_rune test_sdk ''ann'' ''wallet.org'' 5000000 = Inr ann_profile"
  by code_simp

lemma sample_put:
  "fst (PutHandle same_rune test_sdk test_decode test_cfg (Some play_cfg) PaidHandles PaidSubscriptions 5000000 (BodyRead ''paid'') (paid_world [] [])) =
     JsonReply 201 (RawMessage ''canonical'')"
  by code_simp

lemma sample_refused:
  "fst (PutHandle same_rune test_sdk test_decode test_cfg (Some play_cfg) PaidHandles PaidSubscriptions 5000000 (BodyRead ''ann'') (paid_world [] [])) =
     ErrorReply 402 ''ERR_PURCHASE_REQUIRED'' ''This handle needs a subscription; send it as {certificate, purchase}.''"
  by code_simp

end
