(* ===== verification/Handle_Properties.thy ===== *)
theory Handle_Properties
  imports Handle_Samples
begin

text \<open>
  The properties of the handle registry, of paying for handles and of looking them up, stated of the
  MongoDB registry and subscription store and evaluated on the samples.
\<close>

section \<open>The registry among other clients\<close>

text \<open>C20. Whatever a claim, a release or a search answers, whatever other clients write between its
  round trips and whichever of its round trips fail, the registry keeps its unique handles, skeletons
  and identity keys and its well-formed records, no record disappears or changes its creation time, and
  no certificate date goes back.\<close>

theorem registry_survives_interleaving:
  assumes "registry_inv (reg_docs s)"
    and "mongo_ClaimHandle c s = (x, s') \<or> mongo_ReleaseHandle r s = (y, s') \<or> mongo_FindHandles m s = (z, s')"
  shows "registry_inv (reg_docs s') \<and> write_ok (reg_docs s) (reg_docs s')"
proof -
  have "\<exists>ws. reg_docs s' = run_writes ws (reg_docs s)"
    using assms(2) claim_history_writes [OF ClaimHandle_history] ReleaseHandle_writes mongo_FindHandles_env env_def by metis
  then obtain ws where "reg_docs s' = run_writes ws (reg_docs s)" ..
  with run_writes_inv [OF assms(1)] run_writes_ok assms(1) show ?thesis by (simp add: registry_inv_def)
qed

theorem registry_survives_interleaving_witness:
  "registry_inv (reg_docs (snd (mongo_ClaimHandle (claim_of ''ann'' ''eve'' 7000000)
     (registry_of [held_rec ''ann'' ''alice''] [[], [ReleaseWrite (owner_release ''ann'' ''alice'') 4000000]]))))"
  by (rule registry_survives_interleaving [THEN conjunct1, OF _ disjI1 [OF prod.collapse [symmetric]]]) simp

text \<open>C21. Of any claims whose handle, look-alike skeleton or identity key collide, in whatever order
  their writes reach the registry, at most one is reported as created.\<close>

theorem colliding_claims_have_one_winner:
  assumes "registry_ok docs" and "\<forall>w \<in> set ws. claim_write skel w"
  shows "distinct (map hc_Handle (created_in ws docs)) \<and> distinct (map hc_Skeleton (created_in ws docs)) \<and>
    distinct (map hc_IdentityKey (created_in ws docs))"
  using assms by (rule created_distinct)

theorem colliding_claims_have_one_winner_witness:
  "created_in [InsertHandle (claim_of ''a-nn'' ''bea'' 2) 2, InsertHandle (claim_of ''ann'' ''alice'' 2) 2, InsertHandle (claim_of ''zoe'' ''bea'' 2) 2] [] =
     [claim_of ''a-nn'' ''bea'' 2] \<and>
   distinct (map hc_Handle (created_in [InsertHandle (claim_of ''a-nn'' ''bea'' 2) 2, InsertHandle (claim_of ''ann'' ''alice'' 2) 2,
     InsertHandle (claim_of ''zoe'' ''bea'' 2) 2] []))"
proof
  show "created_in [InsertHandle (claim_of ''a-nn'' ''bea'' 2) 2, InsertHandle (claim_of ''ann'' ''alice'' 2) 2, InsertHandle (claim_of ''zoe'' ''bea'' 2) 2] [] =
     [claim_of ''a-nn'' ''bea'' 2]" by code_simp
  show "distinct (map hc_Handle (created_in [InsertHandle (claim_of ''a-nn'' ''bea'' 2) 2, InsertHandle (claim_of ''ann'' ''alice'' 2) 2,
     InsertHandle (claim_of ''zoe'' ''bea'' 2) 2] []))"
    by (rule colliding_claims_have_one_winner [THEN conjunct1, of _ _ "Skeleton same_rune"]) (simp_all add: registry_ok_def claim_of_def)
qed

text \<open>C22. A claim is one write among the other clients' writes: reported as created or updated it
  applied exactly one of its own writes, after some of the others'; refused or unchanged it wrote
  nothing; and when the database did not answer it wrote at most once.\<close>

theorem claim_is_one_write:
  "claim_history (msClaim c) (truncMs (conn_clock s)) (env_writes s) (reg_docs s)
     (fst (mongo_ClaimHandle c s)) (reg_docs (snd (mongo_ClaimHandle c s)))"
  using ClaimHandle_history by (metis prod.collapse)

text \<open>C23. When nobody interferes, the claim's conditional writes and diagnosing reads decide exactly
  as the contract documents, never report a race, and leave the records the decision calls for.\<close>

theorem claim_decides_as_documented:
  assumes "quiet s" and "registry_inv (reg_docs s)" and "mongo_ClaimHandle c s = (x, s')"
  shows "x = claim_spec (reg_docs s) (msClaim c) \<and> x \<noteq> Inl ErrClaimRaced \<and> claim_effect (msClaim c) x (reg_docs s) (reg_docs s') \<and>
    registry_inv (reg_docs s')"
  using ClaimHandle_up [OF _ assms(3)] assms(1,2) claim_spec_not_raced by metis

theorem claim_decides_as_documented_witness:
  "fst (mongo_ClaimHandle (claim_of ''a.nn'' ''eve'' 7000000) (registry_of [held_rec ''ann'' ''alice''] [])) = Inl ErrHandleTooSimilar"
proof -
  have "fst (mongo_ClaimHandle (claim_of ''a.nn'' ''eve'' 7000000) (registry_of [held_rec ''ann'' ''alice''] [])) =
      claim_spec [held_rec ''ann'' ''alice''] (msClaim (claim_of ''a.nn'' ''eve'' 7000000))"
    using claim_decides_as_documented [of "registry_of [held_rec ''ann'' ''alice''] []" "claim_of ''a.nn'' ''eve'' 7000000"]
    by (simp add: prod_eq_iff)
  also have "\<dots> = Inl ErrHandleTooSimilar" by code_simp
  finally show ?thesis .
qed

text \<open>C24. When nobody interferes, a release decides as the contract documents and changes only the
  record of its handle; and an owner's release that succeeded succeeds again when it is replayed.\<close>

theorem release_decides_as_documented:
  assumes "quiet s" and "registry_inv (reg_docs s)" and "ValidateRelease r = None" and "mongo_ReleaseHandle r s = (x, s')"
  shows "x = release_spec (reg_docs s) (msRelease r) \<and> other_handles_kept (rl_Handle r) (reg_docs s) (reg_docs s') \<and>
    (rl_Owner r \<noteq> None \<and> x = Inr () \<longrightarrow> fst (mongo_ReleaseHandle r s') = Inr ())"
proof -
  note u = ReleaseHandle_up [OF _ assms(3,4)]
  have x: "x = release_spec (reg_docs s) (msRelease r)" and q': "quiet s'" "registry_inv (reg_docs s')"
    and d: "reg_docs s' = snd (release_write (msRelease r) (truncMs (conn_clock s)) (reg_docs s))" using u assms(1,2) by auto
  have ok: "registry_ok (reg_docs s)" "registry_ok (reg_docs s')" using assms(2) q'(2) by (simp_all add: registry_inv_def)
  have h: "rl_Handle (msRelease r) = rl_Handle r" by (simp add: msRelease_def)
  have "fst (mongo_ReleaseHandle r s') = Inr ()" if own: "rl_Owner r \<noteq> None" "x = Inr ()"
  proof -
    have "rl_ReleasedBy r = ReleasedByOwner" using assms(3) own(1) by (auto simp: ValidateRelease_def split: if_splits option.splits)
    then have o: "rl_Owner (msRelease r) \<noteq> None" "rl_ReleasedBy (msRelease r) = ReleasedByOwner" using own(1) by (simp_all add: msRelease_def)
    have "release_spec (reg_docs s') (msRelease r) = Inr ()"
    proof (cases "fst (release_write (msRelease r) (truncMs (conn_clock s)) (reg_docs s)) = Reply True")
      case True
      with d have "release_write (msRelease r) (truncMs (conn_clock s)) (reg_docs s) = (Reply True, reg_docs s')" by (simp add: prod_eq_iff)
      from release_again [OF assms(2) o this] show ?thesis .
    next
      case False
      then have "reg_docs s' = reg_docs s"
        using apply_noop [of "ReleaseWrite (msRelease r) (truncMs (conn_clock s))" "reg_docs s"] d by (metis apply_write.simps(4) prod.collapse)
      with x own(2) show ?thesis by simp
    qed
    with ReleaseHandle_quiet [OF q'(1) ok(2) assms(3)] show ?thesis by simp
  qed
  with x release_write_others [OF ok(1), of "msRelease r", unfolded h] d show ?thesis by auto
qed

theorem release_decides_as_documented_witness:
  "fst (mongo_ReleaseHandle (owner_release ''ann'' ''alice'')
     (snd (mongo_ReleaseHandle (owner_release ''ann'' ''alice'') (registry_of [held_rec ''ann'' ''alice''] [])))) = Inr ()"
proof -
  have "fst (mongo_ReleaseHandle (owner_release ''ann'' ''alice'') (registry_of [held_rec ''ann'' ''alice''] [])) = Inr ()" by code_simp
  then show ?thesis
    using release_decides_as_documented [of "registry_of [held_rec ''ann'' ''alice''] []" "owner_release ''ann'' ''alice''"]
    by (simp add: prod_eq_iff owner_release_def ValidateRelease_def)
qed

text \<open>C25. A claim ends after at most twelve round trips to the database and a release after at most
  two, whatever the other clients and the faults do: the retry of a raced claim is one more pass.\<close>

theorem registry_writes_end:
  "round_trips 12 s (snd (mongo_ClaimHandle c s)) \<and> round_trips 2 s (snd (mongo_ReleaseHandle r s))"
  using ClaimHandle_trips ReleaseHandle_trips by (metis prod.collapse)

section \<open>Registering a handle\<close>

text \<open>C26. While the registry and the subscriptions answer and no other client writes, a registration request
  answered with an error changed no record, and one answered with success stands for a valid certificate
  of its body, whose canonical form is the reply: afterwards the handle is registered to that
  certificate, or released by its key, and no other handle changed. Where the database's answer to a
  write is lost, the reply is an error and the write may have been applied.\<close>

theorem put_changes_only_what_it_reports:
  assumes "paid_up s" and "\<forall>c. pc = Some c \<longrightarrow> pc_Verifiers c = PaidVerifiers W"
    and "PutHandle ul sdk decode cfg pc PaidHandles PaidSubscriptions t body s = (reply, s')"
  shows "paid_up s' \<and>
    (if is_error reply then paid_recs s' = paid_recs s
     else \<exists>raw cert purchase p. body = BodyRead raw \<and> splitPutBody decode raw = (cert, purchase) \<and>
       Parse ul sdk cert (lc_Domain cfg) (clock t) = Inr p \<and> ok_body reply = RawMessage (pf_JSON p) \<and>
       put_done ul p (clock t) (paid_recs s') \<and> other_handles_kept (pf_Handle p) (paid_recs s) (paid_recs s'))"
  using paidStore.PutHandle_ok [OF assms(1) _ assms(3)] assms(2) by blast

theorem put_changes_only_what_it_reports_witness:
  "paid_recs (snd (PutHandle same_rune test_sdk test_decode test_cfg (Some play_cfg) PaidHandles PaidSubscriptions 5000000 (BodyRead ''ann'') (paid_world [] []))) = []"
  using put_changes_only_what_it_reports [of "paid_world [] []" "Some play_cfg" play_only same_rune test_sdk test_decode test_cfg 5000000 "BodyRead ''ann''"]
    sample_refused
  by (simp add: prod_eq_iff subs_ok_def play_cfg_def)

text \<open>C27. The certificate a successful registration reports is the one the reverse lookup of its
  identity key serves next, byte for byte.\<close>

theorem registered_handle_is_found:
  assumes "paid_up s" and "\<forall>c. pc = Some c \<longrightarrow> pc_Verifiers c = PaidVerifiers W"
    and "PutHandle ul sdk decode cfg pc PaidHandles PaidSubscriptions t (BodyRead raw) s = (JsonReply st body, s')"
    and "splitPutBody decode raw = (cert, purchase)" and "Parse ul sdk cert (lc_Domain cfg) (clock t) = Inr p"
    and "\<not> pf_Released p" and "pubkeyRE (pf_IdentityKey p)"
  shows "\<exists>s''. LookupIdentityKey ul PaidHandles (pf_IdentityKey p) s' = (JsonReply 200 (RawMessage (pf_JSON p)), s'') \<and> body = RawMessage (pf_JSON p)"
  using paidStore.register_then_lookup [OF assms(1) _ assms(3-7)] assms(2) by blast

theorem registered_handle_is_found_witness:
  "fst (LookupIdentityKey same_rune PaidHandles alice_key (snd (PutHandle same_rune test_sdk test_decode test_cfg (Some play_cfg)
     PaidHandles PaidSubscriptions 5000000 (BodyRead ''paid'') (paid_world [] [])))) = JsonReply 200 (RawMessage ''canonical'')"
proof -
  have p: "Parse same_rune test_sdk ''ann'' (lc_Domain test_cfg) (clock 5000000) = Inr ann_profile"
    using sample_parse by (simp add: test_cfg_def clock_def truncMs_def msec_def)
  have k: "pubkeyRE alice_key" "pf_IdentityKey ann_profile = alice_key" "\<not> pf_Released ann_profile" "pf_JSON ann_profile = ''canonical''"
    by code_simp+
  have "PutHandle same_rune test_sdk test_decode test_cfg (Some play_cfg) PaidHandles PaidSubscriptions 5000000 (BodyRead ''paid'') (paid_world [] []) =
      (JsonReply 201 (RawMessage ''canonical''), snd (PutHandle same_rune test_sdk test_decode test_cfg (Some play_cfg) PaidHandles PaidSubscriptions 5000000 (BodyRead ''paid'') (paid_world [] [])))"
    using sample_put by (simp add: prod_eq_iff)
  from registered_handle_is_found [OF _ _ this _ p] k show ?thesis
    by (force simp: splitPutBody_def test_decode_def play_cfg_def subs_ok_def)
qed





text \<open>The second case needs the answer about every subscription of the owner, because a lapsed one that is
  looked at first is not weighed against what the store says of the others, only against what is on
  file. Here the subscription of the second token was renewed and the notification was missed. The
  store would say so, but the lapsed subscription of the first token comes first and costs Alice the
  handle.\<close>

lemma missed_renewal_can_cost_the_handle:
  "map hr_IdentityKey (paid_recs (snd (SweepLapsedSubscriptions (Some renewing_cfg) PaidHandles PaidSubscriptions 5000000
     (paid_world [held_rec ''ann'' ''alice''] [paid_row ''tok0'' ''ann'' ''alice'' 1000000, paid_row ''tok1'' ''ann'' ''alice'' 2000000])))) = [None] \<and>
   map (\<lambda>d. Entitled (su_Status (toSubscription d)) 5000000)
     (paid_subs (snd (SweepLapsedSubscriptions (Some renewing_cfg) PaidHandles PaidSubscriptions 5000000
       (paid_world [held_rec ''ann'' ''alice''] [paid_row ''tok0'' ''ann'' ''alice'' 1000000, paid_row ''tok1'' ''ann'' ''alice'' 2000000])))) = [False, True]"
  by code_simp

text \<open>The sweep decides on one read of the handle and then releases by handle alone. When the handle is
  released and claimed by somebody else between the two round trips, the sweep releases the new
  owner's handle: here Ann's lapsed subscription costs Eve the handle she just claimed.\<close>

lemma lapse_release_can_hit_a_new_owner:
  "map hr_IdentityKey (run_writes (concat (h_others (conn_data (ps_reg overtaken)))) (paid_recs overtaken)) = [Some ''eve''] \<and>
   fst (releaseLapsed PaidHandles PaidSubscriptions (toSubscription (paid_row ''tok0'' ''ann'' ''alice'' 1000000)) 5000000 overtaken) = Inr True \<and>
   map hr_IdentityKey (paid_recs (snd (releaseLapsed PaidHandles PaidSubscriptions
     (toSubscription (paid_row ''tok0'' ''ann'' ''alice'' 1000000)) 5000000 overtaken))) = [None]"
  by code_simp

section \<open>Looking handles up\<close>

text \<open>C31. A search shows at most ten certificates, of active handles that are the query or match one
  of its tiers, no handle twice and the exact handle first; when it shows fewer than ten, it shows
  every match.\<close>

theorem search_shows_the_matches:
  assumes "quiet s" and "registry_inv (reg_docs s)"
  shows "\<exists>rs s'. search ul MongoHandles q s = (Inr (map (\<lambda>r. the (hr_Certificate r)) rs), s') \<and> reg_docs s' = reg_docs s \<and>
    distinct (map hr_Handle rs) \<and> length rs \<le> searchLimit \<and>
    (\<forall>r \<in> set rs. r \<in> set (reg_docs s) \<and> hr_IdentityKey r \<noteq> None \<and> (hr_Handle r = q \<or> (\<exists>m \<in> set (searchTiers ul q). handle_matches m r))) \<and>
    (\<forall>r \<in> set (reg_docs s). hr_Handle r = q \<and> hr_IdentityKey r \<noteq> None \<longrightarrow> rs \<noteq> [] \<and> hd rs = r) \<and>
    (length rs < searchLimit \<longrightarrow> (\<forall>r \<in> set (reg_docs s). (\<exists>m \<in> set (searchTiers ul q). handle_matches m r) \<longrightarrow> r \<in> set rs))"
  using mongoHandles.search_ok [of s ul q] assms by blast

theorem search_shows_the_matches_witness:
  "\<exists>rs s'. search same_rune MongoHandles ''bob'' (registry_of [held_rec ''ann'' ''alice'', held_rec ''bob'' ''bea''] []) =
     (Inr (map (\<lambda>r. the (hr_Certificate r)) rs), s') \<and> hd rs = held_rec ''bob'' ''bea''"
proof -
  have "held_rec ''bob'' ''bea'' \<in> set [held_rec ''ann'' ''alice'', held_rec ''bob'' ''bea'']"
    "hr_Handle (held_rec ''bob'' ''bea'') = ''bob''" "hr_IdentityKey (held_rec ''bob'' ''bea'') \<noteq> None" by code_simp+
  with search_shows_the_matches [of "registry_of [held_rec ''ann'' ''alice'', held_rec ''bob'' ''bea''] []" same_rune "''bob''"]
  show ?thesis by (simp del: list.set) blast
qed

text \<open>C32. The availability check agrees with the registry's claim: while the registry answers and nobody else
  writes, a valid handle is called available exactly when a claim of it that follows, with a certificate
  dated now and of a key that never held a handle, is answered as created. This is for a registry whose
  stored skeletons are those of the fold the server runs with: records written under an older fold
  table are outside it.\<close>

theorem available_means_claimable:
  assumes "quiet s" and "registry_inv (reg_docs s)" and "\<forall>x \<in> set (reg_docs s). hr_Skeleton x = Skeleton ul (hr_Handle x)"
    and "Handles.Validate ul (hc_Handle c) = None"
    and "hc_Skeleton c = Skeleton ul (hc_Handle c)" and "hc_IssuedAt c = clock now" and "hc_Now c = clock now"
    and "\<forall>x \<in> set (reg_docs s). hr_IdentityKey x \<noteq> Some (hc_IdentityKey c) \<and> hr_LastIdentityKey x \<noteq> hc_IdentityKey c"
    and "unavailableReason ul MongoHandles now (hc_Handle c) s = (Inr reason, s')"
  shows "reason = [] \<longleftrightarrow> fst (mongo_ClaimHandle c s') = Inr ClaimCreated"
  using mongoHandles.available_then_claim [OF _ assms(3-9)] assms(1,2) by (simp add: MongoHandles_def)

theorem available_means_claimable_witness:
  "fst (unavailableReason same_rune MongoHandles 9000000 ''zoe'' (registry_of [held_rec ''ann'' ''alice''] [])) = Inr [] \<and>
   fst (mongo_ClaimHandle (claim_of ''zoe'' ''zed'' 9000000)
     (snd (unavailableReason same_rune MongoHandles 9000000 ''zoe'' (registry_of [held_rec ''ann'' ''alice''] [])))) = Inr ClaimCreated"
proof -
  let ?s = "registry_of [held_rec ''ann'' ''alice''] []" and ?c = "claim_of ''zoe'' ''zed'' 9000000"
  have r: "fst (unavailableReason same_rune MongoHandles 9000000 ''zoe'' ?s) = Inr []" by code_simp
  have c: "hc_Handle ?c = ''zoe''" "Handles.Validate same_rune (hc_Handle ?c) = None" "hc_Skeleton ?c = Skeleton same_rune (hc_Handle ?c)" "hc_IssuedAt ?c = clock 9000000"
      "hc_Now ?c = clock 9000000" "\<forall>x \<in> set [held_rec ''ann'' ''alice'']. hr_IdentityKey x \<noteq> Some (hc_IdentityKey ?c) \<and> hr_LastIdentityKey x \<noteq> hc_IdentityKey ?c"
      "\<forall>x \<in> set [held_rec ''ann'' ''alice'']. hr_Skeleton x = Skeleton same_rune (hr_Handle x)" by code_simp+
  obtain s' where e: "unavailableReason same_rune MongoHandles 9000000 (hc_Handle ?c) ?s = (Inr [], s')" using r c(1) by (metis prod.collapse)
  have "fst (mongo_ClaimHandle ?c s') = Inr ClaimCreated"
    using available_means_claimable [OF _ _ _ c(2-5) _ e] c(6,7) by (simp del: list.set)
  with r e c(1) show ?thesis by simp
qed

section \<open>Certificates, handles and products\<close>

text \<open>C33. A body is accepted as a profile certificate exactly when it is well formed, and the profile is the
  one it describes: at most 16384 bytes that the SDK reads as a certificate; of the profile type, with
  a serial of 32 bytes in canonical base64, the zero revocation outpoint and at most 32 fields, each
  name under 50 bytes and each value at most 1024; subject and certifier one key, whose signature
  verifies; a lower-case paymail of this server's domain; dated at most five minutes ahead; with a
  canonical form of at most 16384 bytes.\<close>

theorem accepted_certificate_is_wellformed:
  "Parse ul sdk body domain now = Inr p \<longleftrightarrow>
     domain \<noteq> [] \<and> length body \<le> 16384 \<and> (\<exists>c. sdk_unmarshal sdk body = Inr c \<and> profile_of ul sdk domain now c p)"
  using Parse_profile profile_Parse by metis

theorem accepted_certificate_is_wellformed_witness:
  "\<exists>c. sdk_unmarshal test_sdk ''ann'' = Inr c \<and> profile_of same_rune test_sdk ''wallet.org'' 5000000 c ann_profile"
  using iffD1 [OF accepted_certificate_is_wellformed sample_parse] by blast

text \<open>C34. The look-alike fold is canonical: on every valid handle it is idempotent, never empty, free
  of adjacent repeats, and unchanged by leaving out the separators.\<close>

theorem skeleton_is_canonical:
  assumes "handleRE h"
  shows "Skeleton ul (Skeleton ul h) = Skeleton ul h \<and> Skeleton ul h \<noteq> [] \<and> distinct_adj (Skeleton ul h) \<and>
    Skeleton ul (filter (\<lambda>c. \<not> isSeparator c) h) = Skeleton ul h"
  using Skeleton_idem Skeleton_nonempty Skeleton_no_repeats Skeleton_separators handleRE_ascii [OF assms] assms by metis

theorem skeleton_is_canonical_witness:
  "Skeleton same_rune (Skeleton same_rune ''a.n-n1'') = Skeleton same_rune ''a.n-n1'' \<and> Skeleton same_rune ''a.n-n1'' = ''anl''"
proof
  have "handleRE ''a.n-n1''" by code_simp
  then show "Skeleton same_rune (Skeleton same_rune ''a.n-n1'') = Skeleton same_rune ''a.n-n1''" using skeleton_is_canonical by blast
  show "Skeleton same_rune ''a.n-n1'' = ''anl''" by code_simp
qed

text \<open>C37. A purchase either store vouches for has a tier from 1 to 7, a handle product and none of
  this server's own states; Play's is under the token presented, for the product presented when one
  is named, and a test purchase only where those are allowed.\<close>

theorem vouched_purchase_is_bounded:
  "(\<forall>p f v f'. google_Verify parseTime quote gcfg get p f = (Inr v, f') \<longrightarrow>
      vouched v \<and> ve_StoreID v = pu_Token p \<and> (pu_ProductID p = [] \<or> ss_ProductID (ve_Status v) = pu_ProductID p) \<and>
      (ss_Environment (ve_Status v) = GoogleTest \<longrightarrow> gc_AllowTest gcfg)) \<and>
   (\<forall>q g w g'. apple_Verify quote acfg http wire q g = (Inr w, g') \<longrightarrow> vouched w)"
  by (intro conjI allI impI) (auto dest!: google_Verify_vouched apple_Verify_vouched)

theorem vouched_purchase_is_bounded_witness:
  "vouched (projr (fst (google_Verify (\<lambda>_. Inr 9000000) (\<lambda>q. q) play_account play_answers bought 0)))"
proof -
  have e: "isl (fst (google_Verify (\<lambda>_. Inr 9000000) (\<lambda>q. q) play_account play_answers bought 0)) = False" by code_simp
  then obtain v f' where v: "google_Verify (\<lambda>_. Inr 9000000) (\<lambda>q. q) play_account play_answers bought 0 = (Inr v, f')"
    by (metis isl_def prod.collapse sum.collapse(2) sum.disc(1))
  have "vouched v" using vouched_purchase_is_bounded [of "\<lambda>_. Inr 9000000" "\<lambda>q. q" play_account play_answers] v by blast
  with v show ?thesis by simp
qed

end
