(* ===== verification/Config.thy ===== *)
theory Config
  imports List_Messages
begin

text \<open>
  The configuration (\<open>pkg/config/config.go\<close>). \<open>env\<close> is \<open>os.Getenv\<close>: the value of a variable, empty
  when it is not set. \<open>quote\<close> is the verb \<open>%q\<close> and \<open>ul\<close> the lower case beyond ASCII. A duration is a
  number of nanoseconds in 64 bits.
\<close>

section \<open>Definitions\<close>

record AppleStoreConfig =
  as_IssuerID :: string
  as_KeyID :: string
  as_PrivateKey :: string
  as_PrivateKeyPath :: string
  as_BundleID :: string
  as_Environments :: "string list"

definition AppleConfigured :: "AppleStoreConfig \<Rightarrow> bool" where
  "AppleConfigured a \<longleftrightarrow> as_BundleID a \<noteq> []"

record GooglePlayConfig =
  gp_PackageName :: string
  gp_ServiceAccountJSON :: string
  gp_ServiceAccountPath :: string
  gp_AllowTestPurchases :: bool
  gp_PubSubAudience :: string
  gp_PubSubServiceAccount :: string

definition GoogleConfigured :: "GooglePlayConfig \<Rightarrow> bool" where
  "GoogleConfigured g \<longleftrightarrow> gp_PackageName g \<noteq> []"

record Config =
  cf_NodeEnv :: string
  cf_Port :: int
  cf_RoutingPrefix :: string
  cf_ServerPrivateKey :: string
  cf_EnableWebsockets :: bool
  cf_StorageBackend :: string
  cf_DBDriver :: string
  cf_DBSource :: string
  cf_MongoURI :: string
  cf_MongoDatabase :: string
  cf_FirebaseProjectID :: string
  cf_FirebaseServiceAccountJSON :: string
  cf_FirebaseServiceAccountPath :: string
  cf_WalletStorageURL :: string
  cf_BSVNetwork :: string
  cf_PaymailDomain :: string
  cf_PaymailHost :: string
  cf_HandleCooldown :: int
  cf_AdminIdentityKeys :: "string list"
  cf_LookupRatePerMin :: int
  cf_TrustProxy :: bool
  cf_TrustedProxyHops :: int
  cf_ClientIPHeader :: string
  cf_HandlePurchasesRequired :: bool
  cf_HandleGrace :: int
  cf_Apple :: AppleStoreConfig
  cf_Google :: GooglePlayConfig
  cf_ListDefaultLimit :: int
  cf_ListMaxLimit :: int
  cf_ListMaxOffset :: int
  cf_ListMaxResponseBytes :: int

type_synonym environment = "string \<Rightarrow> string"

definition getEnv :: "environment \<Rightarrow> string \<Rightarrow> string \<Rightarrow> string" where
  "getEnv env key fallback = (if env key \<noteq> [] then env key else fallback)"

definition getEnvInt :: "environment \<Rightarrow> string \<Rightarrow> int \<Rightarrow> int" where
  "getEnvInt env key fallback =
     (case atoi (env key) of Some v \<Rightarrow> if v \<ge> 0 then v else fallback | None \<Rightarrow> fallback)"

definition getEnvListBound :: "(string \<Rightarrow> string) \<Rightarrow> environment \<Rightarrow> string \<Rightarrow> int \<Rightarrow> string + int" where
  "getEnvListBound quote env key fallback =
     (let raw = trimSpace (env key); bad = Inl (key @ '' must be -1 or a positive integer, got '' @ quote raw) in
      if raw = [] then Inr fallback
      else case atoi raw of
        None \<Rightarrow> bad
      | Some v \<Rightarrow> if v \<noteq> - 1 \<and> v \<le> 0 then bad else Inr v)"

text \<open>\<open>hex.DecodeString\<close> succeeds on pairs of digits of either case.\<close>

definition isHexDigit :: "char \<Rightarrow> bool" where
  "isHexDigit c \<longleftrightarrow> isDigit c \<or> (97 \<le> byte c \<and> byte c \<le> 102) \<or> (65 \<le> byte c \<and> byte c \<le> 70)"

definition hexDecodes :: "string \<Rightarrow> bool" where
  "hexDecodes s \<longleftrightarrow> even (length s) \<and> list_all isHexDigit s"

definition isCompressedPubKeyHex :: "string \<Rightarrow> bool" where
  "isCompressedPubKeyHex s \<longleftrightarrow>
     \<not> (length s \<noteq> 66 \<or> \<not> hasPrefix s ''02'' \<and> \<not> hasPrefix s ''03'') \<and> hexDecodes s"

definition isTokenChar :: "char \<Rightarrow> bool" where
  "isTokenChar b \<longleftrightarrow> (97 \<le> byte b \<and> byte b \<le> 122) \<or> (65 \<le> byte b \<and> byte b \<le> 90) \<or> isDigit b
     \<or> b \<in> set ''!#$%&*+-.^_`|~'' \<or> byte b = 39"

definition isValidHTTPHeaderName :: "string \<Rightarrow> bool" where
  "isValidHTTPHeaderName s \<longleftrightarrow> s \<noteq> [] \<and> list_all isTokenChar s"

text \<open>\<open>strings.EqualFold\<close> with an ASCII word none of whose letters has a fold beyond ASCII.\<close>

definition equalFoldTrue :: "string \<Rightarrow> bool" where
  "equalFoldTrue s \<longleftrightarrow> map lowerAscii s = ''true''"

text \<open>\<open>time.Duration(days) * 24 * time.Hour\<close>.\<close>

definition hourNs :: int where
  "hourNs = 3600000000000"

definition daysDuration :: "int \<Rightarrow> int" where
  "daysDuration d = wrap64 (wrap64 (d * 24) * hourNs)"

definition maxCooldownDays :: int where "maxCooldownDays = 3650"
definition maxGraceDays :: int where "maxGraceDays = 3650"

fun appleEnvironments :: "(string \<Rightarrow> string) \<Rightarrow> string list \<Rightarrow> string list \<Rightarrow> string + string list" where
  "appleEnvironments quote [] acc = Inr acc"
| "appleEnvironments quote (x # xs) acc =
     (let e = trimSpace x in
      if e = [] then appleEnvironments quote xs acc
      else if e = ''Production'' \<or> e = ''Sandbox'' then appleEnvironments quote xs (acc @ [e])
      else Inl (''APPLE_ENVIRONMENTS entry '' @ quote e @ '' is not Production or Sandbox''))"

definition loadApple :: "(string \<Rightarrow> string) \<Rightarrow> environment \<Rightarrow> string + AppleStoreConfig" where
  "loadApple quote env =
     (case appleEnvironments quote (splitOn (CHR '','') (getEnv env ''APPLE_ENVIRONMENTS'' ''Production'')) [] of
        Inl e \<Rightarrow> Inl e
      | Inr envs \<Rightarrow>
          (let a = \<lparr>as_IssuerID = trimSpace (env ''APPLE_ISSUER_ID''), as_KeyID = trimSpace (env ''APPLE_KEY_ID''),
                 as_PrivateKey = env ''APPLE_PRIVATE_KEY'', as_PrivateKeyPath = trimSpace (env ''APPLE_PRIVATE_KEY_PATH''),
                 as_BundleID = trimSpace (env ''APPLE_BUNDLE_ID''), as_Environments = envs\<rparr>
           in if AppleConfigured a \<and> (as_IssuerID a = [] \<or> as_KeyID a = [] \<or> as_PrivateKey a = [] \<and> as_PrivateKeyPath a = []) then
                Inl ''APPLE_BUNDLE_ID needs APPLE_ISSUER_ID, APPLE_KEY_ID and APPLE_PRIVATE_KEY or APPLE_PRIVATE_KEY_PATH''
              else Inr a))"

definition loadGoogle :: "environment \<Rightarrow> string + GooglePlayConfig" where
  "loadGoogle env =
     (let g = \<lparr>gp_PackageName = trimSpace (env ''GOOGLE_PLAY_PACKAGE_NAME''),
            gp_ServiceAccountJSON = env ''GOOGLE_PLAY_SERVICE_ACCOUNT_JSON'',
            gp_ServiceAccountPath = trimSpace (env ''GOOGLE_PLAY_SERVICE_ACCOUNT_PATH''),
            gp_AllowTestPurchases = equalFoldTrue (trimSpace (env ''GOOGLE_PLAY_ALLOW_TEST_PURCHASES'')),
            gp_PubSubAudience = trimSpace (env ''GOOGLE_PUBSUB_AUDIENCE''),
            gp_PubSubServiceAccount = trimSpace (env ''GOOGLE_PUBSUB_SERVICE_ACCOUNT'')\<rparr>
      in if GoogleConfigured g \<and> gp_ServiceAccountJSON g = [] \<and> gp_ServiceAccountPath g = [] then
           Inl ''GOOGLE_PLAY_PACKAGE_NAME needs GOOGLE_PLAY_SERVICE_ACCOUNT_JSON or GOOGLE_PLAY_SERVICE_ACCOUNT_PATH''
         else Inr g)"

definition loadPurchases :: "(string \<Rightarrow> string) \<Rightarrow> environment \<Rightarrow> Config \<Rightarrow> string + Config" where
  "loadPurchases quote env cfg =
     (let required = equalFoldTrue (trimSpace (env ''HANDLE_PURCHASES_REQUIRED''));
          graceDays = min (max (getEnvInt env ''HANDLE_GRACE_DAYS'' 14) 0) maxGraceDays
      in case loadApple quote env of
           Inl e \<Rightarrow> Inl e
         | Inr a \<Rightarrow>
             (case loadGoogle env of
                Inl e \<Rightarrow> Inl e
              | Inr g \<Rightarrow>
                  if required \<and> cf_PaymailDomain cfg = [] then
                    Inl ''HANDLE_PURCHASES_REQUIRED needs the handle registry (PAYMAIL_DOMAIN)''
                  else if required \<and> \<not> AppleConfigured a \<and> \<not> GoogleConfigured g then
                    Inl ''HANDLE_PURCHASES_REQUIRED needs APPLE_BUNDLE_ID or GOOGLE_PLAY_PACKAGE_NAME: with neither store configured no paid handle could ever be registered''
                  else Inr (cfg\<lparr>cf_HandlePurchasesRequired := required, cf_HandleGrace := daysDuration graceDays,
                         cf_Apple := a, cf_Google := g\<rparr>)))"

definition noApple :: AppleStoreConfig where
  "noApple = \<lparr>as_IssuerID = [], as_KeyID = [], as_PrivateKey = [], as_PrivateKeyPath = [], as_BundleID = [], as_Environments = []\<rparr>"

definition noGoogle :: GooglePlayConfig where
  "noGoogle = \<lparr>gp_PackageName = [], gp_ServiceAccountJSON = [], gp_ServiceAccountPath = [], gp_AllowTestPurchases = False,
     gp_PubSubAudience = [], gp_PubSubServiceAccount = []\<rparr>"

text \<open>The literal \<open>Load\<close> starts from; the fields it does not name have their zero values.\<close>

definition startConfig :: "environment \<Rightarrow> Config" where
  "startConfig env = \<lparr>cf_NodeEnv = getEnv env ''NODE_ENV'' ''development'', cf_Port = 0,
     cf_RoutingPrefix = getEnv env ''ROUTING_PREFIX'' [], cf_ServerPrivateKey = env ''SERVER_PRIVATE_KEY'',
     cf_EnableWebsockets = (getEnv env ''ENABLE_WEBSOCKETS'' ''true'' = ''true''),
     cf_StorageBackend = getEnv env ''STORAGE_BACKEND'' ''sql'',
     cf_DBDriver = getEnv env ''DB_DRIVER'' ''sqlite3'', cf_DBSource = getEnv env ''DB_SOURCE'' ''messagebox.db'',
     cf_MongoURI = getEnv env ''MONGO_URI'' ''mongodb://localhost:27017'',
     cf_MongoDatabase = getEnv env ''MONGO_DATABASE'' ''messagebox'',
     cf_FirebaseProjectID = env ''FIREBASE_PROJECT_ID'',
     cf_FirebaseServiceAccountJSON = env ''FIREBASE_SERVICE_ACCOUNT_JSON'',
     cf_FirebaseServiceAccountPath = env ''FIREBASE_SERVICE_ACCOUNT_PATH'',
     cf_WalletStorageURL = env ''WALLET_STORAGE_URL'', cf_BSVNetwork = getEnv env ''BSV_NETWORK'' ''mainnet'',
     cf_PaymailDomain = [], cf_PaymailHost = [], cf_HandleCooldown = 0, cf_AdminIdentityKeys = [],
     cf_LookupRatePerMin = 0, cf_TrustProxy = False, cf_TrustedProxyHops = 0, cf_ClientIPHeader = [],
     cf_HandlePurchasesRequired = False, cf_HandleGrace = 0, cf_Apple = noApple, cf_Google = noGoogle,
     cf_ListDefaultLimit = 0, cf_ListMaxLimit = 0, cf_ListMaxOffset = 0, cf_ListMaxResponseBytes = 0\<rparr>"

text \<open>\<open>strings.TrimRight(s, "/")\<close> and \<open>strings.ContainsAny(s, "/:@ \t")\<close>.\<close>

definition trimSlashes :: "string \<Rightarrow> string" where
  "trimSlashes s = rev (dropWhile (\<lambda>c. c = CHR ''/'') (rev s))"

definition bareDomain :: "string \<Rightarrow> bool" where
  "bareDomain s \<longleftrightarrow> \<not> list_ex (\<lambda>c. c \<in> set ''/:@ '' \<or> byte c = 9) s"

definition loadPaymail :: "(rune \<Rightarrow> rune) \<Rightarrow> (string \<Rightarrow> string) \<Rightarrow> environment \<Rightarrow> Config \<Rightarrow> string + Config" where
  "loadPaymail ul quote env cfg =
     (let domain = toLower ul (trimSpace (env ''PAYMAIL_DOMAIN''));
          host = trimSlashes (trimSpace (env ''PAYMAIL_HOST''))
      in if domain \<noteq> [] \<and> \<not> bareDomain domain then
           Inl (''PAYMAIL_DOMAIN must be a bare domain such as example.com, got '' @ quote domain)
         else if domain \<noteq> [] \<and> host = [] then Inl ''PAYMAIL_HOST is required when PAYMAIL_DOMAIN is set''
         else Inr (cfg\<lparr>cf_PaymailDomain := domain, cf_PaymailHost := host\<rparr>))"

definition loadClients :: "(string \<Rightarrow> string) \<Rightarrow> environment \<Rightarrow> Config \<Rightarrow> string + Config" where
  "loadClients quote env cfg =
     (let days = getEnvInt env ''HANDLE_COOLDOWN_DAYS'' 30;
          cooldownDays = (if days > maxCooldownDays then maxCooldownDays else days);
          hops = getEnvInt env ''TRUSTED_PROXY_HOPS'' 1;
          header = trimSpace (env ''CLIENT_IP_HEADER'')
      in if header \<noteq> [] \<and> \<not> isValidHTTPHeaderName header then
           Inl (''CLIENT_IP_HEADER '' @ quote header @ '' is not a valid HTTP header field name'')
         else Inr (cfg\<lparr>cf_HandleCooldown := daysDuration cooldownDays,
                cf_LookupRatePerMin := getEnvInt env ''LOOKUP_RATE_PER_MIN'' 60,
                cf_TrustProxy := equalFoldTrue (trimSpace (env ''TRUST_PROXY'')),
                cf_TrustedProxyHops := (if hops < 1 then 1 else hops), cf_ClientIPHeader := header\<rparr>))"

fun loadAdmins ::
  "(rune \<Rightarrow> rune) \<Rightarrow> (string \<Rightarrow> string) \<Rightarrow> string list \<Rightarrow> (string \<Rightarrow> bool) \<Rightarrow> string list \<Rightarrow> string + string list" where
  "loadAdmins ul quote [] seen acc = Inr acc"
| "loadAdmins ul quote (x # xs) seen acc =
     (let k = toLower ul (trimSpace x) in
      if k = [] then loadAdmins ul quote xs seen acc
      else if \<not> isCompressedPubKeyHex k then
        Inl (''ADMIN_IDENTITY_KEYS entry '' @ quote k @ '' is not a compressed public key in hex'')
      else if seen k then loadAdmins ul quote xs seen acc
      else loadAdmins ul quote xs (seen(k := True)) (acc @ [k]))"

definition loadListBounds :: "(string \<Rightarrow> string) \<Rightarrow> environment \<Rightarrow> Config \<Rightarrow> string + Config" where
  "loadListBounds quote env cfg =
     (case getEnvListBound quote env ''LIST_DEFAULT_LIMIT'' 1000 of
        Inl e \<Rightarrow> Inl e
      | Inr defaultLimit \<Rightarrow>
     (case getEnvListBound quote env ''LIST_MAX_LIMIT'' 1000 of
        Inl e \<Rightarrow> Inl e
      | Inr maxLimit \<Rightarrow>
     (case getEnvListBound quote env ''LIST_MAX_OFFSET'' 100000 of
        Inl e \<Rightarrow> Inl e
      | Inr maxOffset \<Rightarrow>
     (case getEnvListBound quote env ''LIST_MAX_RESPONSE_BYTES'' (8 * 1024 * 1024) of
        Inl e \<Rightarrow> Inl e
      | Inr maxResponseBytes \<Rightarrow>
          if maxLimit \<noteq> - 1 \<and> defaultLimit > maxLimit then
            Inl (''LIST_DEFAULT_LIMIT ('' @ itoa defaultLimit @ '') must not exceed LIST_MAX_LIMIT ('' @ itoa maxLimit @ '')'')
          else Inr (cfg\<lparr>cf_ListDefaultLimit := defaultLimit, cf_ListMaxLimit := maxLimit,
                 cf_ListMaxOffset := maxOffset, cf_ListMaxResponseBytes := maxResponseBytes\<rparr>)))))"

definition loadPort :: "environment \<Rightarrow> Config \<Rightarrow> Config" where
  "loadPort env cfg =
     (let port = (if getEnv env ''PORT'' [] = [] then getEnv env ''HTTP_PORT'' [] else getEnv env ''PORT'' []) in
      cfg\<lparr>cf_Port :=
        (if port = [] then (if cf_NodeEnv cfg \<noteq> ''development'' then 3000 else 8080)
         else case atoi port of None \<Rightarrow> 8080 | Some p \<Rightarrow> if p \<le> 0 then 8080 else p)\<rparr>)"

definition Load :: "(rune \<Rightarrow> rune) \<Rightarrow> (string \<Rightarrow> string) \<Rightarrow> environment \<Rightarrow> string + Config" where
  "Load ul quote env =
     (let cfg = startConfig env in
      if cf_ServerPrivateKey cfg = [] then Inl ''SERVER_PRIVATE_KEY is not defined in environment variables''
      else case loadPaymail ul quote env cfg of
        Inl e \<Rightarrow> Inl e
      | Inr cfg1 \<Rightarrow>
     (case loadClients quote env cfg1 of
        Inl e \<Rightarrow> Inl e
      | Inr cfg2 \<Rightarrow>
     (case loadAdmins ul quote (splitOn (CHR '','') (env ''ADMIN_IDENTITY_KEYS'')) (\<lambda>_. False) [] of
        Inl e \<Rightarrow> Inl e
      | Inr admins \<Rightarrow>
     (case loadPurchases quote env (cfg2\<lparr>cf_AdminIdentityKeys := admins\<rparr>) of
        Inl e \<Rightarrow> Inl e
      | Inr cfg3 \<Rightarrow>
     (case loadListBounds quote env cfg3 of
        Inl e \<Rightarrow> Inl e
      | Inr cfg4 \<Rightarrow> Inr (loadPort env cfg4))))))"

section \<open>Soundness of a loaded configuration\<close>

definition lowerHexKey :: "string \<Rightarrow> bool" where
  "lowerHexKey k \<longleftrightarrow> length k = 66 \<and> (hasPrefix k ''02'' \<or> hasPrefix k ''03'') \<and>
     list_all (\<lambda>c. isDigit c \<or> (97 \<le> byte c \<and> byte c \<le> 102)) k"

definition listBound :: "int \<Rightarrow> bool" where
  "listBound n \<longleftrightarrow> n = - 1 \<or> 0 < n"

definition duration_sound :: "int \<Rightarrow> bool" where
  "duration_sound d \<longleftrightarrow> 0 \<le> d \<and> d \<le> 3650 * 24 * hourNs"

definition apple_sound :: "AppleStoreConfig \<Rightarrow> bool" where
  "apple_sound a \<longleftrightarrow> set (as_Environments a) \<subseteq> {''Production'', ''Sandbox''} \<and>
     (AppleConfigured a \<longrightarrow> as_IssuerID a \<noteq> [] \<and> as_KeyID a \<noteq> [] \<and> (as_PrivateKey a \<noteq> [] \<or> as_PrivateKeyPath a \<noteq> []))"

definition google_sound :: "GooglePlayConfig \<Rightarrow> bool" where
  "google_sound g \<longleftrightarrow> (GoogleConfigured g \<longrightarrow> gp_ServiceAccountJSON g \<noteq> [] \<or> gp_ServiceAccountPath g \<noteq> [])"

definition paymail_sound :: "Config \<Rightarrow> bool" where
  "paymail_sound cfg \<longleftrightarrow> (cf_PaymailDomain cfg \<noteq> [] \<longrightarrow> bareDomain (cf_PaymailDomain cfg) \<and>
     cf_PaymailHost cfg \<noteq> [] \<and> last (cf_PaymailHost cfg) \<noteq> CHR ''/'')"

definition clients_sound :: "Config \<Rightarrow> bool" where
  "clients_sound cfg \<longleftrightarrow> duration_sound (cf_HandleCooldown cfg) \<and> 0 \<le> cf_LookupRatePerMin cfg \<and>
     1 \<le> cf_TrustedProxyHops cfg \<and> (cf_ClientIPHeader cfg = [] \<or> isValidHTTPHeaderName (cf_ClientIPHeader cfg))"

definition purchases_sound :: "Config \<Rightarrow> bool" where
  "purchases_sound cfg \<longleftrightarrow> duration_sound (cf_HandleGrace cfg) \<and> apple_sound (cf_Apple cfg) \<and> google_sound (cf_Google cfg) \<and>
     (cf_HandlePurchasesRequired cfg \<longrightarrow> cf_PaymailDomain cfg \<noteq> [] \<and> (AppleConfigured (cf_Apple cfg) \<or> GoogleConfigured (cf_Google cfg)))"

definition lists_sound :: "Config \<Rightarrow> bool" where
  "lists_sound cfg \<longleftrightarrow> listBound (cf_ListDefaultLimit cfg) \<and> listBound (cf_ListMaxLimit cfg) \<and> listBound (cf_ListMaxOffset cfg) \<and>
     listBound (cf_ListMaxResponseBytes cfg) \<and> (cf_ListMaxLimit cfg = - 1 \<or> cf_ListDefaultLimit cfg \<le> cf_ListMaxLimit cfg)"

definition admins_sound :: "string list \<Rightarrow> bool" where
  "admins_sound ks \<longleftrightarrow> distinct ks \<and> list_all lowerHexKey ks"

lemmas sound_defs = paymail_sound_def clients_sound_def purchases_sound_def lists_sound_def

text \<open>The numbers: every fallback the code passes is within the bounds it enforces.\<close>

lemma getEnvInt_nonneg: "0 \<le> fallback \<Longrightarrow> 0 \<le> getEnvInt env key fallback"
  by (simp add: getEnvInt_def split: option.split)

lemma getEnvListBound_bound: "getEnvListBound quote env key fallback = Inr v \<Longrightarrow> 0 < fallback \<Longrightarrow> listBound v"
  by (auto simp: getEnvListBound_def listBound_def Let_def split: if_splits option.splits)

lemma daysDuration_sound:
  assumes "0 \<le> d" and "d \<le> 3650"
  shows "duration_sound (daysDuration d)"
proof -
  have "wrap64 (d * 24) = d * 24" using assms by (intro wrap64_id) (simp add: int64_range_def)
  moreover have "wrap64 (d * 24 * hourNs) = d * 24 * hourNs"
    using assms by (intro wrap64_id) (simp add: int64_range_def hourNs_def)
  ultimately show ?thesis using assms by (simp add: daysDuration_def duration_sound_def hourNs_def)
qed

text \<open>Lower case leaves no upper-case letter, when the table beyond ASCII has none.\<close>

lemma encodeRune_upper:
  assumes "c \<in> set (encodeRune r)" and "isUpperAscii c"
  shows "65 \<le> r \<and> r \<le> 90"
proof (cases "r < 128")
  case True
  with assms show ?thesis by (auto simp: encodeRune_def isUpperAscii_def)
next
  case False
  then have "128 \<le> byte c"
    using assms(1) by (auto simp: encodeRune_def split: if_splits)
  with assms(2) show ?thesis by (simp add: isUpperAscii_def)
qed

lemma toLower_no_upper:
  assumes "\<forall>r \<ge> 128. \<not> (65 \<le> ul r \<and> ul r \<le> 90)" and "c \<in> set (toLower ul s)"
  shows "\<not> isUpperAscii c"
proof (cases "isAscii s")
  case True
  with assms(2) show ?thesis by (auto simp: toLower_def lowerAscii_def isUpperAscii_def)
next
  case False
  show ?thesis
  proof
    assume "isUpperAscii c"
    with False assms(2) obtain r where "65 \<le> (if 65 \<le> r \<and> r \<le> 90 then r + 32 else if r < 128 then r else ul r) \<and>
        (if 65 \<le> r \<and> r \<le> 90 then r + 32 else if r < 128 then r else ul r) \<le> 90"
      by (auto simp: toLower_def dest: encodeRune_upper)
    with assms(1) show False by (auto split: if_splits)
  qed
qed

lemma compressed_lower:
  "isCompressedPubKeyHex k \<Longrightarrow> (\<And>c. c \<in> set k \<Longrightarrow> \<not> isUpperAscii c) \<Longrightarrow> lowerHexKey k"
  by (fastforce simp: isCompressedPubKeyHex_def hexDecodes_def isHexDigit_def lowerHexKey_def list_all_iff isUpperAscii_def)

text \<open>Each stage establishes its part and leaves the parts of the others alone.\<close>

lemma loadAdmins_sound:
  assumes ul: "\<forall>r \<ge> 128. \<not> (65 \<le> ul r \<and> ul r \<le> 90)"
  shows "loadAdmins ul quote xs seen acc = Inr ks \<Longrightarrow> admins_sound acc \<Longrightarrow> (\<And>k. seen k \<longleftrightarrow> k \<in> set acc) \<Longrightarrow> admins_sound ks"
proof (induction xs arbitrary: seen acc)
  case (Cons x xs)
  let ?k = "toLower ul (trimSpace x)"
  consider "?k = [] \<or> seen ?k" | "?k \<noteq> []" "isCompressedPubKeyHex ?k" "\<not> seen ?k"
    using Cons.prems(1) by (auto simp: Let_def split: if_splits)
  then show ?case
  proof cases
    case 1
    with Cons.prems(1) have "loadAdmins ul quote xs seen acc = Inr ks" by (auto simp: Let_def split: if_splits)
    from Cons.IH [OF this Cons.prems(2,3)] show ?thesis .
  next
    case 2
    from 2(2) have "lowerHexKey ?k" by (rule compressed_lower) (rule toLower_no_upper [OF ul])
    with 2(3) Cons.prems(2,3) have sound: "admins_sound (acc @ [?k])" by (simp add: admins_sound_def)
    from 2 Cons.prems(1) have run: "loadAdmins ul quote xs (seen(?k := True)) (acc @ [?k]) = Inr ks" by (simp add: Let_def)
    have "(seen(?k := True)) j \<longleftrightarrow> j \<in> set (acc @ [?k])" for j using Cons.prems(3) by auto
    from Cons.IH [OF run sound this] show ?thesis .
  qed
qed simp

lemma appleEnvironments_known:
  "appleEnvironments quote xs acc = Inr envs \<Longrightarrow> set acc \<subseteq> {''Production'', ''Sandbox''} \<Longrightarrow> set envs \<subseteq> {''Production'', ''Sandbox''}"
proof (induction xs arbitrary: acc)
  case (Cons x xs)
  let ?e = "trimSpace x"
  consider "appleEnvironments quote xs acc = Inr envs"
    | "appleEnvironments quote xs (acc @ [?e]) = Inr envs" "?e \<in> {''Production'', ''Sandbox''}"
    using Cons.prems(1) unfolding appleEnvironments.simps Let_def by (cases "?e = []"; cases "?e = ''Production'' \<or> ?e = ''Sandbox''") simp_all
  then show ?case
  proof cases
    case 1
    from Cons.IH [OF 1 Cons.prems(2)] show ?thesis .
  next
    case 2
    from Cons.prems(2) 2(2) have "set (acc @ [?e]) \<subseteq> {''Production'', ''Sandbox''}" unfolding set_append list.set by blast
    from Cons.IH [OF 2(1) this] show ?thesis .
  qed
qed simp

lemma loadApple_sound: "loadApple quote env = Inr a \<Longrightarrow> apple_sound a"
  by (auto simp: loadApple_def apple_sound_def Let_def split: sum.splits if_splits dest!: appleEnvironments_known)

lemma loadGoogle_sound: "loadGoogle env = Inr g \<Longrightarrow> google_sound g"
  by (auto simp: loadGoogle_def google_sound_def Let_def split: if_splits)

lemma trimSlashes_last: "trimSlashes s \<noteq> [] \<Longrightarrow> last (trimSlashes s) \<noteq> CHR ''/''"
  using hd_dropWhile [of "\<lambda>c. c = CHR ''/''" "rev s"] by (auto simp: trimSlashes_def last_rev)

lemma loadPaymail_sound:
  "loadPaymail ul quote env cfg = Inr cfg' \<Longrightarrow> paymail_sound cfg' \<and> cf_ServerPrivateKey cfg' = cf_ServerPrivateKey cfg"
  by (auto simp: loadPaymail_def paymail_sound_def Let_def trimSlashes_last split: if_splits)

lemma loadClients_sound:
  assumes "loadClients quote env cfg = Inr cfg'"
  shows "clients_sound cfg' \<and> paymail_sound cfg' = paymail_sound cfg \<and> cf_ServerPrivateKey cfg' = cf_ServerPrivateKey cfg"
proof -
  let ?d = "getEnvInt env ''HANDLE_COOLDOWN_DAYS'' 30"
  have "duration_sound (daysDuration (if ?d > maxCooldownDays then maxCooldownDays else ?d))"
    by (rule daysDuration_sound) (auto simp: maxCooldownDays_def getEnvInt_nonneg)
  then show ?thesis
    using assms by (auto simp: loadClients_def sound_defs Let_def getEnvInt_nonneg split: if_splits)
qed

lemma loadPurchases_sound:
  assumes "loadPurchases quote env cfg = Inr cfg'"
  shows "purchases_sound cfg' \<and> paymail_sound cfg' = paymail_sound cfg \<and> clients_sound cfg' = clients_sound cfg \<and>
    cf_AdminIdentityKeys cfg' = cf_AdminIdentityKeys cfg \<and> cf_ServerPrivateKey cfg' = cf_ServerPrivateKey cfg"
proof -
  let ?r = "equalFoldTrue (trimSpace (env ''HANDLE_PURCHASES_REQUIRED''))"
  let ?d = "daysDuration (min (max (getEnvInt env ''HANDLE_GRACE_DAYS'' 14) 0) maxGraceDays)"
  have d: "duration_sound ?d" by (rule daysDuration_sound) (auto simp: maxGraceDays_def)
  from assms obtain a g where a: "loadApple quote env = Inr a" and g: "loadGoogle env = Inr g"
    by (auto simp: loadPurchases_def Let_def split: sum.splits)
  from assms have c: "\<not> (?r \<and> cf_PaymailDomain cfg = [])" "\<not> (?r \<and> \<not> AppleConfigured a \<and> \<not> GoogleConfigured g)"
    and e: "cfg' = cfg\<lparr>cf_HandlePurchasesRequired := ?r, cf_HandleGrace := ?d, cf_Apple := a, cf_Google := g\<rparr>"
    unfolding loadPurchases_def Let_def a g sum.case by (simp_all only: sum.inject sum.distinct simp_thms split: if_splits)
  show ?thesis
    using c d loadApple_sound [OF a] loadGoogle_sound [OF g] unfolding e by (simp add: sound_defs)
qed

lemma loadListBounds_sound:
  assumes "loadListBounds quote env cfg = Inr cfg'"
  shows "lists_sound cfg' \<and> paymail_sound cfg' = paymail_sound cfg \<and> clients_sound cfg' = clients_sound cfg \<and>
    purchases_sound cfg' = purchases_sound cfg \<and> cf_AdminIdentityKeys cfg' = cf_AdminIdentityKeys cfg \<and>
    cf_ServerPrivateKey cfg' = cf_ServerPrivateKey cfg"
  using assms by (auto simp: loadListBounds_def sound_defs split: if_splits sum.splits dest: getEnvListBound_bound)

lemma loadPort_sound:
  "0 < cf_Port (loadPort env cfg)" "paymail_sound (loadPort env cfg) = paymail_sound cfg"
  "clients_sound (loadPort env cfg) = clients_sound cfg" "purchases_sound (loadPort env cfg) = purchases_sound cfg"
  "lists_sound (loadPort env cfg) = lists_sound cfg" "cf_AdminIdentityKeys (loadPort env cfg) = cf_AdminIdentityKeys cfg"
  "cf_ServerPrivateKey (loadPort env cfg) = cf_ServerPrivateKey cfg"
  by (simp_all add: loadPort_def sound_defs Let_def split: option.split)

definition config_sound :: "Config \<Rightarrow> bool" where
  "config_sound cfg \<longleftrightarrow> cf_ServerPrivateKey cfg \<noteq> [] \<and> 0 < cf_Port cfg \<and> paymail_sound cfg \<and> clients_sound cfg \<and>
     admins_sound (cf_AdminIdentityKeys cfg) \<and> purchases_sound cfg \<and> lists_sound cfg"

lemma Load_sound:
  assumes "Load ul quote env = Inr cfg" and "\<forall>r \<ge> 128. \<not> (65 \<le> ul r \<and> ul r \<le> 90)"
  shows "config_sound cfg"
proof -
  from assms(1) obtain cfg1 cfg2 admins cfg3 cfg4 where
    0: "cf_ServerPrivateKey (startConfig env) \<noteq> []" and 1: "loadPaymail ul quote env (startConfig env) = Inr cfg1"
    and 2: "loadClients quote env cfg1 = Inr cfg2"
    and 3: "loadAdmins ul quote (splitOn (CHR '','') (env ''ADMIN_IDENTITY_KEYS'')) (\<lambda>_. False) [] = Inr admins"
    and 4: "loadPurchases quote env (cfg2\<lparr>cf_AdminIdentityKeys := admins\<rparr>) = Inr cfg3"
    and 5: "loadListBounds quote env cfg3 = Inr cfg4" and 6: "cfg = loadPort env cfg4"
    by (auto simp: Load_def Let_def split: if_splits sum.splits)
  have "admins_sound admins" using loadAdmins_sound [OF assms(2) 3] by (simp add: admins_sound_def)
  with 0 loadPaymail_sound [OF 1] loadClients_sound [OF 2] loadPurchases_sound [OF 4] loadListBounds_sound [OF 5]
  show ?thesis unfolding config_sound_def 6 by (simp add: loadPort_sound) (simp add: paymail_sound_def clients_sound_def)
qed

section \<open>Listing under a loaded configuration\<close>

definition listConfig :: "Config \<Rightarrow> ListMessagesConfig" where
  "listConfig cfg = \<lparr>lc_DefaultLimit = cf_ListDefaultLimit cfg, lc_MaxLimit = cf_ListMaxLimit cfg,
     lc_MaxOffset = cf_ListMaxOffset cfg, lc_MaxResponseBytes = cf_ListMaxResponseBytes cfg\<rparr>"

lemma listConfig_bounds:
  assumes "parseListPagination l off sk (listConfig cfg) = Inr pag"
  shows "1 \<le> lp_Limit pag \<and> (cf_ListMaxLimit cfg = - 1 \<or> lp_Limit pag \<le> cf_ListMaxLimit cfg) \<and> lp_Limit pag \<le> safeIntegerLimit \<and>
    0 \<le> lp_Offset pag \<and> (cf_ListMaxOffset cfg = - 1 \<or> lp_Offset pag \<le> cf_ListMaxOffset cfg) \<and> lp_Offset pag \<le> safeIntegerLimit"
  using parseListPagination_bounds [OF assms] by (simp add: listConfig_def)

lemma Load_lists_sound:
  assumes "Load ul quote env = Inr cfg"
  shows "lists_sound cfg"
proof -
  from assms obtain cfg3 cfg4 where "loadListBounds quote env cfg3 = Inr cfg4" "cfg = loadPort env cfg4"
    by (auto simp: Load_def Let_def split: if_splits sum.splits)
  with loadListBounds_sound show ?thesis by (simp add: loadPort_sound)
qed

lemma default_pagination_accepted:
  assumes "lists_sound cfg" and "cf_ListDefaultLimit cfg \<noteq> - 1" and "cf_ListDefaultLimit cfg \<le> safeIntegerLimit"
  shows "parseListPagination [] [] [] (listConfig cfg) = Inr \<lparr>lp_Limit = cf_ListDefaultLimit cfg, lp_Offset = 0\<rparr>"
  using assms parseListPagination_default [of "listConfig cfg"] by (auto simp: lists_sound_def listConfig_def listBound_def)

text \<open>A default without a cap passes the check against the maximum, and then every request that gives
  no limit is refused.\<close>

lemma uncapped_default_refused:
  assumes "cf_ListDefaultLimit cfg = - 1" and "cf_ListMaxLimit cfg \<noteq> - 1" and "cf_ListMaxLimit cfg < safeIntegerLimit"
  shows "\<exists>rf. parseListPagination [] off sk (listConfig cfg) = Inl rf"
proof -
  have "asFloat safeIntegerLimit = GNum (of_int safeIntegerLimit)" by (rule asFloat_int) (simp add: safeIntegerLimit_def)
  with assms have "boundedInteger (asFloat safeIntegerLimit) 1 (cf_ListMaxLimit cfg) = None" by (simp add: boundedInteger_def Let_def)
  with assms(1) show ?thesis by (simp add: parseListPagination_def decodeJSONValue_def jsonRawPresent_def listConfig_def Let_def split: prod.split)
qed

end
