(* ===== verification/Routing.thy ===== *)
theory Routing
  imports Go_Strings
begin

text \<open>
  The routes: Go's \<open>http.ServeMux\<close> as far as the server uses it, and the tables of
  \<open>cmd/server/main.go\<close>, \<open>LookupRoutes\<close> and \<open>PurchaseRoutes\<close>. A pattern is a method, or none for all
  of them, and a list of segments: a literal, a wildcard for one segment, or the rest of the path that
  a trailing slash stands for. The segment \<open>{$}\<close> is the literal slash. \<open>unesc\<close> is \<open>url.PathUnescape\<close>,
  which the multiplexer applies to each segment. Patterns with a host and \<open>CONNECT\<close> requests, whose
  path is not cleaned, are outside.
\<close>

section \<open>The multiplexer\<close>

datatype seg = Lit string | Wild | Multi

record 'h pattern =
  pt_method :: string
  pt_segs :: "seg list"
  pt_handler :: 'h

text \<open>\<open>cleanPath\<close> of \<open>net/http\<close>.\<close>

definition cleanStep :: "string list \<Rightarrow> string \<Rightarrow> string list" where
  "cleanStep acc x = (if x = [] \<or> x = ''.'' then acc else if x = ''..'' then butlast acc else acc @ [x])"

definition cleanPath :: "string \<Rightarrow> string" where
  "cleanPath p =
     (if p = [] then ''/''
      else let p1 = (if hd p = CHR ''/'' then p else CHR ''/'' # p);
               np = ''/'' @ joinWith ''/'' (foldl cleanStep [] (splitOn (CHR ''/'') (tl p1)))
           in if last p1 = CHR ''/'' \<and> np \<noteq> ''/'' then np @ ''/'' else np)"

definition pathSegs :: "(string \<Rightarrow> string) \<Rightarrow> string \<Rightarrow> string list" where
  "pathSegs unesc p =
     (let parts = splitOn (CHR ''/'') (tl p)
      in map unesc (butlast parts) @ [if last parts = [] then ''/'' else unesc (last parts)])"

text \<open>The routing tree: literals first, then the wildcard, then the rest of the path.\<close>

definition children :: "seg \<Rightarrow> (seg list \<times> 'h) list \<Rightarrow> (seg list \<times> 'h) list" where
  "children x ps = map (\<lambda>(q, h). (tl q, h)) (filter (\<lambda>(q, h). q \<noteq> [] \<and> hd q = x) ps)"

fun matchPath :: "string list \<Rightarrow> (seg list \<times> 'h) list \<Rightarrow> 'h option" where
  "matchPath [] ps = map_option snd (find (\<lambda>(q, h). q = []) ps)"
| "matchPath (s # rest) ps =
     (case matchPath rest (children (Lit s) ps) of
        Some h \<Rightarrow> Some h
      | None \<Rightarrow>
          (case (if s \<noteq> ''/'' then matchPath rest (children Wild ps) else None) of
             Some h \<Rightarrow> Some h
           | None \<Rightarrow> map_option snd (find (\<lambda>(q, h). q = [Multi]) ps)))"

definition methodPatterns :: "string \<Rightarrow> 'h pattern list \<Rightarrow> (seg list \<times> 'h pattern) list" where
  "methodPatterns m pats = map (\<lambda>p. (pt_segs p, p)) (filter (\<lambda>p. pt_method p = m) pats)"

definition muxMatch :: "(string \<Rightarrow> string) \<Rightarrow> 'h pattern list \<Rightarrow> string \<Rightarrow> string \<Rightarrow> 'h pattern option" where
  "muxMatch unesc pats m path =
     (let segs = pathSegs unesc path in
      case matchPath segs (methodPatterns m pats) of
        Some p \<Rightarrow> Some p
      | None \<Rightarrow>
          (case (if m = ''HEAD'' then matchPath segs (methodPatterns ''GET'' pats) else None) of
             Some p \<Rightarrow> Some p
           | None \<Rightarrow> matchPath segs (methodPatterns [] pats)))"

definition exactMatch :: "'h pattern option \<Rightarrow> string \<Rightarrow> bool" where
  "exactMatch n path =
     (case n of
        None \<Rightarrow> False
      | Some p \<Rightarrow> last (pt_segs p) \<noteq> Multi \<or>
          (path = [] \<or> last path = CHR ''/'') \<and> length (pt_segs p) = length (filter (\<lambda>c. c = CHR ''/'') path))"

datatype 'h route = Handler 'h | Redirect string | MethodNotAllowed | NoRoute

definition otherMethod :: "(string \<Rightarrow> string) \<Rightarrow> 'h pattern list \<Rightarrow> string \<Rightarrow> bool" where
  "otherMethod unesc pats path \<longleftrightarrow>
     list_ex (\<lambda>p. matchPath (pathSegs unesc path) (methodPatterns (pt_method p) pats) \<noteq> None) pats"

definition dispatch :: "(string \<Rightarrow> string) \<Rightarrow> 'h pattern list \<Rightarrow> string \<Rightarrow> string \<Rightarrow> 'h route" where
  "dispatch unesc pats m escapedPath =
     (let path = cleanPath escapedPath; n = muxMatch unesc pats m path in
      if \<not> exactMatch n path \<and> last path \<noteq> CHR ''/'' \<and> exactMatch (muxMatch unesc pats m (path @ ''/'')) (path @ ''/'') then
        Redirect (path @ ''/'')
      else if path \<noteq> escapedPath then Redirect path
      else case n of
        Some p \<Rightarrow> Handler (pt_handler p)
      | None \<Rightarrow>
          if otherMethod unesc pats path \<or> last path \<noteq> CHR ''/'' \<and> otherMethod unesc pats (path @ ''/'') then MethodNotAllowed
          else NoRoute)"

section \<open>The tables\<close>

datatype endpoint =
    E_SendMessage | E_ListMessages | E_AcknowledgeMessage | E_RegisterDevice | E_UnregisterDevice | E_ListDevices
  | E_SetPermission | E_GetPermission | E_ListPermissions | E_GetQuote | E_AdminReleaseHandle
  | E_WellKnown | E_PutHandle | E_HandleAvailable | E_AvailableWithoutHandle | E_SearchHandles | E_LookupIdentityKey
  | E_AppleNotification | E_GoogleNotification | E_Swagger

definition pat :: "string \<Rightarrow> seg list \<Rightarrow> 'h \<Rightarrow> 'h pattern" where
  "pat m ss h = \<lparr>pt_method = m, pt_segs = ss, pt_handler = h\<rparr>"

definition LookupRoutes :: "endpoint pattern list" where
  "LookupRoutes =
     [pat ''GET'' [Lit ''.well-known'', Lit ''bsvalias''] E_WellKnown,
      pat ''PUT'' [Lit ''api'', Lit ''handle''] E_PutHandle,
      pat ''GET'' [Lit ''api'', Lit ''handle'', Lit ''available'', Wild] E_HandleAvailable,
      pat ''GET'' [Lit ''api'', Lit ''handle'', Lit ''available''] E_AvailableWithoutHandle,
      pat ''GET'' [Lit ''api'', Lit ''handle'', Lit ''available'', Lit ''/''] E_AvailableWithoutHandle,
      pat ''GET'' [Lit ''api'', Lit ''handle'', Wild] E_SearchHandles,
      pat ''GET'' [Lit ''api'', Lit ''identityKey'', Wild] E_LookupIdentityKey]"

definition PurchaseRoutes :: "endpoint pattern list" where
  "PurchaseRoutes =
     [pat ''POST'' [Lit ''api'', Lit ''store'', Lit ''apple'', Lit ''notifications''] E_AppleNotification,
      pat ''POST'' [Lit ''api'', Lit ''store'', Lit ''google'', Lit ''notifications''] E_GoogleNotification]"

definition apiTable :: "(string \<times> string list \<times> endpoint) list" where
  "apiTable =
     [(''POST'', [''sendMessage''], E_SendMessage), (''POST'', [''listMessages''], E_ListMessages),
      (''POST'', [''acknowledgeMessage''], E_AcknowledgeMessage), (''POST'', [''registerDevice''], E_RegisterDevice),
      (''POST'', [''unregisterDevice''], E_UnregisterDevice), (''GET'', [''devices''], E_ListDevices),
      (''POST'', [''permissions'', ''set''], E_SetPermission), (''GET'', [''permissions'', ''get''], E_GetPermission),
      (''GET'', [''permissions'', ''list''], E_ListPermissions), (''GET'', [''permissions'', ''quote''], E_GetQuote)]"

definition adminTable :: "(string \<times> string list \<times> endpoint) list" where
  "adminTable = [(''POST'', [''admin'', ''handle'', ''release''], E_AdminReleaseHandle)]"

text \<open>The routes behind authentication, under the literal segments of \<open>ROUTING_PREFIX\<close>.\<close>

definition apiRoutes :: "string list \<Rightarrow> bool \<Rightarrow> endpoint pattern list" where
  "apiRoutes prefix lookup =
     map (\<lambda>(m, ss, e). pat m (map Lit (prefix @ ss)) e) (apiTable @ (if lookup then adminTable else []))"

datatype root_target = R_Swagger | R_Public | R_Store | R_Authenticated

definition rootRoutes :: "bool \<Rightarrow> bool \<Rightarrow> root_target pattern list" where
  "rootRoutes lookup store =
     pat ''GET'' [Lit ''swagger'', Multi] R_Swagger #
     (if lookup then
        [pat [] [Lit ''.well-known'', Lit ''bsvalias''] R_Public, pat [] [Lit ''api'', Lit ''handle''] R_Public,
         pat [] [Lit ''api'', Lit ''handle'', Multi] R_Public, pat [] [Lit ''api'', Lit ''identityKey'', Multi] R_Public] @
        (if store then [pat [] [Lit ''api'', Lit ''store'', Multi] R_Store] else [])
      else []) @
     [pat [] [Multi] R_Authenticated]"

text \<open>What becomes of a request: the CORS handler answers preflights itself; the Swagger UI and the public
  routes, these behind the rate limiter, run without authentication, the routes of the API behind
  authentication and payment. A request that no endpoint runs for, because the multiplexer redirects it
  or knows no route for its path or method, ends elsewhere.\<close>

datatype outcome = Preflight | Open endpoint | Protected endpoint | Elsewhere

definition finish :: "(endpoint \<Rightarrow> outcome) \<Rightarrow> endpoint route \<Rightarrow> outcome" where
  "finish f r = (case r of Handler e \<Rightarrow> f e | _ \<Rightarrow> Elsewhere)"

definition serveRoute :: "(string \<Rightarrow> string) \<Rightarrow> string list \<Rightarrow> bool \<Rightarrow> bool \<Rightarrow> string \<Rightarrow> string \<Rightarrow> outcome" where
  "serveRoute unesc prefix lookup store m path =
     (if m = ''OPTIONS'' then Preflight
      else case dispatch unesc (rootRoutes lookup store) m path of
        Handler R_Swagger \<Rightarrow> Open E_Swagger
      | Handler R_Public \<Rightarrow> finish Open (dispatch unesc LookupRoutes m path)
      | Handler R_Store \<Rightarrow> finish Open (dispatch unesc PurchaseRoutes m path)
      | Handler R_Authenticated \<Rightarrow> finish Protected (dispatch unesc (apiRoutes prefix lookup) m path)
      | _ \<Rightarrow> Elsewhere)"

section \<open>What a route matches\<close>

fun fits :: "seg list \<Rightarrow> string list \<Rightarrow> bool" where
  "fits [] ss \<longleftrightarrow> ss = []"
| "fits (Multi # q) ss \<longleftrightarrow> q = [] \<and> ss \<noteq> []"
| "fits (Lit x # q) ss \<longleftrightarrow> ss \<noteq> [] \<and> hd ss = x \<and> fits q (tl ss)"
| "fits (Wild # q) ss \<longleftrightarrow> ss \<noteq> [] \<and> hd ss \<noteq> ''/'' \<and> fits q (tl ss)"

lemma children_iff: "(q, h) \<in> set (children x ps) \<longleftrightarrow> (x # q, h) \<in> set ps"
  by (force simp: children_def image_iff neq_Nil_conv)

lemma children_simps [simp]:
  "children x [] = []"
  "children x ((q, h) # ps) = (if q \<noteq> [] \<and> hd q = x then (tl q, h) # children x ps else children x ps)"
  by (simp_all add: children_def)

lemma matchPath_Nil [simp]: "matchPath ss [] = None"
  by (induction ss) simp_all

lemma matchPath_fits: "matchPath ss ps = Some h \<Longrightarrow> \<exists>q. (q, h) \<in> set ps \<and> fits q ss"
proof (induction ss ps rule: matchPath.induct)
  case (1 ps)
  then show ?case by (auto dest!: find_Some_mem)
next
  case (2 s rest ps)
  consider (lit) "matchPath rest (children (Lit s) ps) = Some h"
    | (wild) "matchPath rest (children (Lit s) ps) = None" "s \<noteq> ''/''" "matchPath rest (children Wild ps) = Some h"
    | (multi) "map_option snd (find (\<lambda>(q, h). q = [Multi]) ps) = Some h"
    using 2(3) by (auto split: option.splits if_splits)
  then show ?case
  proof cases
    case lit
    from 2(1) [OF this] obtain q where "(q, h) \<in> set (children (Lit s) ps)" "fits q rest" by blast
    then show ?thesis by (intro exI [of _ "Lit s # q"]) (simp add: children_iff)
  next
    case wild
    from 2(2) [OF wild] obtain q where "(q, h) \<in> set (children Wild ps)" "fits q rest" by blast
    with wild show ?thesis by (intro exI [of _ "Wild # q"]) (simp add: children_iff)
  next
    case multi
    then show ?thesis by (auto dest!: find_Some_mem)
  qed
qed

definition accepts :: "'h pattern \<Rightarrow> string \<Rightarrow> bool" where
  "accepts p m \<longleftrightarrow> pt_method p = m \<or> pt_method p = [] \<or> m = ''HEAD'' \<and> pt_method p = ''GET''"

lemma methodPatterns_iff: "(q, p) \<in> set (methodPatterns m pats) \<longleftrightarrow> p \<in> set pats \<and> pt_method p = m \<and> q = pt_segs p"
  by (auto simp: methodPatterns_def)

lemma muxMatch_sound:
  assumes "muxMatch unesc pats m path = Some p"
  shows "p \<in> set pats \<and> accepts p m \<and> fits (pt_segs p) (pathSegs unesc path)"
proof -
  from assms obtain m' where "matchPath (pathSegs unesc path) (methodPatterns m' pats) = Some p"
      "m' = m \<or> m' = [] \<or> m = ''HEAD'' \<and> m' = ''GET''"
    by (auto simp: muxMatch_def Let_def split: option.splits if_splits)
  with matchPath_fits [OF this(1)] show ?thesis by (auto simp: methodPatterns_iff accepts_def)
qed

lemma dispatch_sound:
  assumes "dispatch unesc pats m path = Handler h"
  shows "cleanPath path = path \<and> (\<exists>p \<in> set pats. pt_handler p = h \<and> accepts p m \<and> fits (pt_segs p) (pathSegs unesc path))"
proof -
  from assms obtain p where "cleanPath path = path" "muxMatch unesc pats m path = Some p" "pt_handler p = h"
    by (auto simp: dispatch_def Let_def split: if_splits option.splits)
  with muxMatch_sound [OF this(2)] show ?thesis by blast
qed

lemma finish_eq [simp]:
  "finish Open r = Open e \<longleftrightarrow> r = Handler e" "finish Protected r = Protected e \<longleftrightarrow> r = Handler e"
  "finish Open r \<noteq> Protected e" "finish Protected r \<noteq> Open e"
  by (auto simp: finish_def split: route.splits)

section \<open>The public surface\<close>

text \<open>The method under which an endpoint is served; \<open>HEAD\<close> counts as \<open>GET\<close>.\<close>

definition methodOf :: "endpoint \<Rightarrow> string" where
  "methodOf e =
     (case e of
        E_ListDevices \<Rightarrow> ''GET'' | E_GetPermission \<Rightarrow> ''GET'' | E_ListPermissions \<Rightarrow> ''GET'' | E_GetQuote \<Rightarrow> ''GET''
      | E_WellKnown \<Rightarrow> ''GET'' | E_HandleAvailable \<Rightarrow> ''GET'' | E_AvailableWithoutHandle \<Rightarrow> ''GET''
      | E_SearchHandles \<Rightarrow> ''GET'' | E_LookupIdentityKey \<Rightarrow> ''GET'' | E_Swagger \<Rightarrow> ''GET'' | E_PutHandle \<Rightarrow> ''PUT'' | _ \<Rightarrow> ''POST'')"

definition served_under :: "string \<Rightarrow> endpoint \<Rightarrow> bool" where
  "served_under m e \<longleftrightarrow> m = methodOf e \<or> m = ''HEAD'' \<and> methodOf e = ''GET''"

lemma methodOf_nonempty: "methodOf e \<noteq> []"
  by (cases e) (simp_all add: methodOf_def)

lemma accepts_served: "accepts p m \<Longrightarrow> pt_method p = methodOf (pt_handler p) \<Longrightarrow> served_under m (pt_handler p)"
  using methodOf_nonempty [of "pt_handler p"] by (auto simp: accepts_def served_under_def)

text \<open>The endpoints a configuration opens, beside the Swagger UI, which is always open.\<close>

definition publicEndpoints :: "bool \<Rightarrow> bool \<Rightarrow> endpoint set" where
  "publicEndpoints lookup store =
     (if lookup then {E_WellKnown, E_PutHandle, E_HandleAvailable, E_AvailableWithoutHandle, E_SearchHandles, E_LookupIdentityKey}
        \<union> (if store then {E_AppleNotification, E_GoogleNotification} else {}) else {})"

definition protectedEndpoints :: "bool \<Rightarrow> endpoint set" where
  "protectedEndpoints lookup =
     {E_SendMessage, E_ListMessages, E_AcknowledgeMessage, E_RegisterDevice, E_UnregisterDevice, E_ListDevices,
      E_SetPermission, E_GetPermission, E_ListPermissions, E_GetQuote} \<union> (if lookup then {E_AdminReleaseHandle} else {})"

lemma rootRoutes_targets:
  assumes "p \<in> set (rootRoutes lookup store)"
  shows "(pt_handler p = R_Public \<longrightarrow> lookup) \<and> (pt_handler p = R_Store \<longrightarrow> lookup \<and> store) \<and>
    (pt_handler p = R_Swagger \<longrightarrow> p = pat ''GET'' [Lit ''swagger'', Multi] R_Swagger)"
  using assms by (auto simp: rootRoutes_def pat_def split: if_splits)

text \<open>Every table lists its own endpoints under their methods.\<close>

definition table_ok :: "endpoint pattern list \<Rightarrow> endpoint set \<Rightarrow> bool" where
  "table_ok pats es \<longleftrightarrow> (\<forall>p \<in> set pats. pt_handler p \<in> es \<and> pt_method p = methodOf (pt_handler p))"

lemma table_ok_dispatch:
  assumes "table_ok pats es" and "dispatch unesc pats m path = Handler e"
  shows "e \<in> es \<and> served_under m e"
  using dispatch_sound [OF assms(2)] assms(1) accepts_served unfolding table_ok_def by blast

lemma LookupRoutes_ok: "table_ok LookupRoutes (publicEndpoints True store)"
  by (simp add: table_ok_def LookupRoutes_def pat_def publicEndpoints_def methodOf_def)

lemma PurchaseRoutes_ok: "table_ok PurchaseRoutes (publicEndpoints True True)"
  by (simp add: table_ok_def PurchaseRoutes_def pat_def publicEndpoints_def methodOf_def)

lemma apiRoutes_ok: "table_ok (apiRoutes prefix lookup) (protectedEndpoints lookup)"
  by (simp add: table_ok_def apiRoutes_def apiTable_def adminTable_def pat_def protectedEndpoints_def methodOf_def)

lemma open_endpoints:
  assumes "serveRoute unesc prefix lookup store m path = Open e"
  shows "(e = E_Swagger \<and> hd (pathSegs unesc path) = ''swagger'' \<or> e \<in> publicEndpoints lookup store) \<and> served_under m e"
proof -
  from assms consider (swagger) "dispatch unesc (rootRoutes lookup store) m path = Handler R_Swagger" "e = E_Swagger"
    | (public) "dispatch unesc (rootRoutes lookup store) m path = Handler R_Public" "dispatch unesc LookupRoutes m path = Handler e"
    | (store) "dispatch unesc (rootRoutes lookup store) m path = Handler R_Store" "dispatch unesc PurchaseRoutes m path = Handler e"
    by (auto simp: serveRoute_def split: if_splits route.splits root_target.splits)
  then show ?thesis
  proof cases
    case swagger
    from dispatch_sound [OF swagger(1)] have "accepts (pat ''GET'' [Lit ''swagger'', Multi] R_Swagger) m"
        "fits [Lit ''swagger'', Multi] (pathSegs unesc path)"
      by (auto dest: rootRoutes_targets simp: pat_def)
    with swagger(2) show ?thesis by (auto simp: accepts_def pat_def served_under_def methodOf_def)
  next
    case public
    from dispatch_sound [OF public(1)] have "lookup" by (auto dest: rootRoutes_targets)
    with table_ok_dispatch [OF LookupRoutes_ok public(2)] show ?thesis by simp
  next
    case store
    from dispatch_sound [OF store(1)] have "lookup" "store" by (auto dest: rootRoutes_targets)
    with table_ok_dispatch [OF PurchaseRoutes_ok store(2)] show ?thesis by simp
  qed
qed

lemma protected_endpoints:
  assumes "serveRoute unesc prefix lookup store m path = Protected e"
  shows "e \<in> protectedEndpoints lookup \<and> served_under m e"
proof -
  from assms have "dispatch unesc (apiRoutes prefix lookup) m path = Handler e"
    by (auto simp: serveRoute_def split: if_splits route.splits root_target.splits)
  from table_ok_dispatch [OF apiRoutes_ok this] show ?thesis .
qed

section \<open>Every endpoint is reached\<close>

text \<open>Segments that neither cleaning nor unescaping changes, and the path they make.\<close>

definition plainSeg :: "(string \<Rightarrow> string) \<Rightarrow> string \<Rightarrow> bool" where
  "plainSeg unesc x \<longleftrightarrow> x \<noteq> [] \<and> x \<noteq> ''.'' \<and> x \<noteq> ''..'' \<and> CHR ''/'' \<notin> set x \<and> unesc x = x"

fun slashed :: "string list \<Rightarrow> string" where
  "slashed [] = []"
| "slashed (x # xs) = CHR ''/'' # x @ slashed xs"

lemma slashed_append: "slashed (xs @ ys) = slashed xs @ slashed ys"
  by (induction xs) simp_all

lemma splitOn_slashed:
  "CHR ''/'' \<notin> set x \<Longrightarrow> list_all (plainSeg unesc) xs \<Longrightarrow> splitOn (CHR ''/'') (x @ slashed xs) = x # xs"
proof (induction xs arbitrary: x)
  case Nil
  then show ?case by (simp add: splitOn_fresh)
next
  case (Cons y ys)
  then show ?case by (simp add: splitOn_append plainSeg_def)
qed

lemma splitOn_slashed_end:
  "CHR ''/'' \<notin> set x \<Longrightarrow> list_all (plainSeg unesc) xs \<Longrightarrow> splitOn (CHR ''/'') (x @ slashed xs @ ''/'') = x # xs @ [[]]"
proof (induction xs arbitrary: x)
  case Nil
  then show ?case by (simp add: splitOn_append)
next
  case (Cons y ys)
  then show ?case by (simp add: splitOn_append plainSeg_def)
qed

lemma foldl_cleanStep: "list_all (plainSeg unesc) xs \<Longrightarrow> foldl cleanStep acc xs = acc @ xs"
  by (induction xs arbitrary: acc) (simp_all add: cleanStep_def plainSeg_def)

lemma joinWith_slashed: "''/'' @ joinWith ''/'' (x # xs) = slashed (x # xs)"
  by (induction xs arbitrary: x) simp_all

lemma slashed_last: "xs \<noteq> [] \<Longrightarrow> list_all (plainSeg unesc) xs \<Longrightarrow> last (slashed xs) \<noteq> CHR ''/''"
proof (induction xs)
  case (Cons x xs)
  then show ?case by (cases xs) (auto simp: plainSeg_def dest: last_in_set)
qed simp

lemma slashed_count: "list_all (plainSeg unesc) xs \<Longrightarrow> length (filter (\<lambda>c. c = CHR ''/'') (slashed xs)) = length xs"
proof (induction xs)
  case (Cons x xs)
  then have "filter (\<lambda>c. c = CHR ''/'') x = []" by (auto simp: plainSeg_def filter_empty_conv)
  with Cons show ?case by simp
qed simp

lemma cleanPath_slashed:
  assumes "xs \<noteq> []" and "list_all (plainSeg unesc) xs"
  shows "cleanPath (slashed xs) = slashed xs"
proof -
  obtain x ys where xs: "xs = x # ys" using assms(1) by (cases xs) auto
  have "splitOn (CHR ''/'') (tl (slashed xs)) = xs"
    using assms(2) splitOn_slashed [of x unesc ys] by (simp add: xs plainSeg_def)
  moreover have "slashed xs \<noteq> []" "hd (slashed xs) = CHR ''/''" "''/'' @ joinWith ''/'' xs = slashed xs"
    using joinWith_slashed [of x ys] by (simp_all add: xs)
  moreover have "foldl cleanStep [] xs = xs" using foldl_cleanStep [OF assms(2), of "[]"] by simp
  ultimately show ?thesis using slashed_last [OF assms] by (simp add: cleanPath_def)
qed

lemma pathSegs_slashed:
  assumes "xs \<noteq> []" and "list_all (plainSeg unesc) xs"
  shows "pathSegs unesc (slashed xs) = xs" "pathSegs unesc (slashed xs @ ''/'') = xs @ [''/'']"
proof -
  obtain x ys where xs: "xs = x # ys" using assms(1) by (cases xs) auto
  have m: "map unesc xs = xs" using assms(2) by (auto simp: plainSeg_def list_all_iff intro: map_idI)
  have "splitOn (CHR ''/'') (tl (slashed xs)) = xs" "splitOn (CHR ''/'') (tl (slashed xs @ ''/'')) = xs @ [[]]"
    using assms(2) splitOn_slashed [of x unesc ys] splitOn_slashed_end [of x unesc ys] by (simp_all add: xs plainSeg_def)
  moreover have "last xs \<noteq> []" using assms by (auto simp: plainSeg_def list_all_iff dest: last_in_set)
  moreover have "map unesc (butlast xs) @ [unesc (last xs)] = xs"
    using assms(1) m by (metis append_butlast_last_id list.simps(8,9) map_append)
  ultimately show "pathSegs unesc (slashed xs) = xs" "pathSegs unesc (slashed xs @ ''/'') = xs @ [''/'']"
    using m by (simp_all add: pathSegs_def Let_def)
qed

text \<open>A table of literal patterns is a map from paths to handlers.\<close>

definition literal :: "(seg list \<times> 'h) list \<Rightarrow> bool" where
  "literal ps \<longleftrightarrow> (\<forall>(q, h) \<in> set ps. \<exists>xs. q = map Lit xs)"

lemma literal_children: "literal ps \<Longrightarrow> literal (children (Lit s) ps)" "literal ps \<Longrightarrow> children Wild ps = []"
proof -
  assume l: "literal ps"
  show "literal (children (Lit s) ps)"
    using l by (auto simp: literal_def children_iff Cons_eq_map_conv dest!: bspec)
  have "(q, h) \<notin> set (children Wild ps)" for q h
    using l by (auto simp: literal_def children_iff Cons_eq_map_conv dest!: bspec)
  then show "children Wild ps = []" by (cases "children Wild ps") auto
qed

lemma map_of_children: "map_of (children x ps) q = map_of ps (x # q)"
  by (induction ps) (auto simp: neq_Nil_conv)

lemma matchPath_literal: "literal ps \<Longrightarrow> matchPath ss ps = map_of ps (map Lit ss)"
proof (induction ss ps rule: matchPath.induct)
  case (1 ps)
  have "map_option snd (find (\<lambda>(q, h). q = []) ps) = map_of ps []" by (induction ps) auto
  then show ?case by simp
next
  case (2 s rest ps)
  have "find (\<lambda>(q, h). q = [Multi]) ps = None"
    using 2(3) by (auto simp: literal_def find_None_iff dest!: bspec)
  with 2(1) [OF literal_children(1) [OF 2(3)]] show ?case
    by (simp add: literal_children(2) [OF 2(3)] map_of_children split: option.split)
qed

lemma dispatch_exact:
  assumes "xs \<noteq> []" and "list_all (plainSeg unesc) xs" and "muxMatch unesc pats m (slashed xs) = Some p" and "last (pt_segs p) \<noteq> Multi"
  shows "dispatch unesc pats m (slashed xs) = Handler (pt_handler p)"
  using assms by (simp add: dispatch_def cleanPath_slashed exactMatch_def)

lemma apiRoutes_distinct: "distinct (map pt_segs (apiRoutes prefix lookup))"
proof -
  have "distinct (map (\<lambda>(m, ss, e). ss) (apiTable @ (if lookup then adminTable else [])))" by (simp add: apiTable_def adminTable_def)
  then have "distinct (map (\<lambda>ss. map Lit (prefix @ ss)) (map (\<lambda>(m, ss, e). ss) (apiTable @ (if lookup then adminTable else []))))"
    by (subst distinct_map) (auto simp: inj_on_def)
  then show ?thesis by (simp add: apiRoutes_def pat_def comp_def case_prod_beta)
qed

lemma apiRoutes_match:
  assumes "(m, ss, e) \<in> set (apiTable @ (if lookup then adminTable else []))" and "list_all (plainSeg unesc) (prefix @ ss)"
  shows "dispatch unesc (apiRoutes prefix lookup) m (slashed (prefix @ ss)) = Handler e"
proof -
  let ?ps = "methodPatterns m (apiRoutes prefix lookup)"
  have "literal ?ps" by (auto simp: literal_def methodPatterns_def apiRoutes_def pat_def simp flip: map_append)
  then have "matchPath (prefix @ ss) ?ps = map_of ?ps (map Lit (prefix @ ss))" by (rule matchPath_literal)
  also have "\<dots> = Some (pat m (map Lit (prefix @ ss)) e)"
  proof (rule map_of_is_SomeI)
    show "distinct (map fst ?ps)"
      using distinct_map_filter' [OF apiRoutes_distinct] by (simp add: methodPatterns_def comp_def)
    show "(map Lit (prefix @ ss), pat m (map Lit (prefix @ ss)) e) \<in> set ?ps"
      using assms(1) unfolding methodPatterns_iff by (simp add: apiRoutes_def pat_def) force
  qed
  finally have "matchPath (prefix @ ss) ?ps = Some (pat m (map Lit (prefix @ ss)) e)" .
  moreover have ne: "ss \<noteq> []" using assms(1) by (auto simp: apiTable_def adminTable_def split: if_splits)
  ultimately have "muxMatch unesc (apiRoutes prefix lookup) m (slashed (prefix @ ss)) = Some (pat m (map Lit (prefix @ ss)) e)"
    using assms(2) by (simp add: muxMatch_def pathSegs_slashed)
  from dispatch_exact [OF _ assms(2) this] ne show ?thesis by (simp add: pat_def last_map)
qed

text \<open>A path that starts with none of the public words goes to the authenticated routes.\<close>

definition publicWord :: "bool \<Rightarrow> string \<Rightarrow> bool" where
  "publicWord lookup x \<longleftrightarrow> x = ''swagger'' \<or> lookup \<and> x \<in> {''.well-known'', ''api''}"

lemma rootRoutes_default:
  assumes "\<not> publicWord lookup x"
  shows "matchPath (x # xs) (methodPatterns m (rootRoutes lookup store)) = (if m = [] then Some (pat [] [Multi] R_Authenticated) else None)"
proof -
  let ?ps = "methodPatterns m (rootRoutes lookup store)"
  have "(q, p) \<notin> set (children (Lit x) ?ps)" "(q, p) \<notin> set (children Wild ?ps)" for q p
    using assms unfolding children_iff methodPatterns_iff rootRoutes_def publicWord_def
    by (cases lookup; cases store; fastforce simp: pat_def)+
  then have "children (Lit x) ?ps = []" "children Wild ?ps = []"
    by (metis list.set_intros(1) neq_Nil_conv surj_pair)+
  moreover have "map_option snd (find (\<lambda>(q, h). q = [Multi]) ?ps) = (if m = [] then Some (pat [] [Multi] R_Authenticated) else None)"
    by (cases lookup; cases store; cases "m = []"; cases "m = ''GET''") (simp_all add: methodPatterns_def rootRoutes_def pat_def)
  ultimately show ?thesis by (cases "x = ''/''") simp_all
qed

lemma rootRoutes_authenticated:
  assumes "xs \<noteq> []" and "list_all (plainSeg unesc) xs" and "\<not> publicWord lookup (hd xs)" and "m \<noteq> []"
  shows "dispatch unesc (rootRoutes lookup store) m (slashed xs) = Handler R_Authenticated"
proof -
  obtain x ys where xs: "xs = x # ys" using assms(1) by (cases xs) auto
  have m: "muxMatch unesc (rootRoutes lookup store) m (slashed xs) = Some (pat [] [Multi] R_Authenticated)"
      "muxMatch unesc (rootRoutes lookup store) m (slashed xs @ ''/'') = Some (pat [] [Multi] R_Authenticated)"
    unfolding muxMatch_def Let_def pathSegs_slashed [OF assms(1,2)]
    using assms(3,4) by (simp_all add: xs rootRoutes_default del: matchPath.simps)
  have "\<not> exactMatch (Some (pat [] [Multi] R_Authenticated)) (slashed xs @ ''/'')"
    using slashed_count [OF assms(2)] assms(1) by (simp add: exactMatch_def pat_def)
  then show ?thesis unfolding dispatch_def Let_def cleanPath_slashed [OF assms(1,2)] m by (simp add: pat_def)
qed

lemma api_endpoint_reached:
  assumes "(m, ss, e) \<in> set (apiTable @ (if lookup then adminTable else []))" and "list_all (plainSeg unesc) (prefix @ ss)"
    and "\<not> publicWord lookup (hd (prefix @ ss))"
  shows "serveRoute unesc prefix lookup store m (slashed (prefix @ ss)) = Protected e"
proof -
  have "m \<noteq> [] \<and> m \<noteq> ''OPTIONS'' \<and> ss \<noteq> []"
    using assms(1) by (auto simp: apiTable_def adminTable_def split: if_splits)
  with rootRoutes_authenticated [OF _ assms(2,3), of m store] apiRoutes_match [OF assms(1,2)]
  show ?thesis by (simp add: serveRoute_def finish_def)
qed

text \<open>The public routes: a query is a search unless it is the word that asks for availability.\<close>

lemma rootRoutes_public:
  assumes "list_all (plainSeg unesc) (''api'' # ''handle'' # x # xs)"
  shows "dispatch unesc (rootRoutes True store) ''GET'' (slashed (''api'' # ''handle'' # x # xs)) = Handler R_Public"
proof -
  let ?xs = "''api'' # ''handle'' # x # xs" and ?p = "pat [] [Lit ''api'', Lit ''handle'', Multi] R_Public"
  have m: "muxMatch unesc (rootRoutes True store) ''GET'' (slashed ?xs) = Some ?p"
      "muxMatch unesc (rootRoutes True store) ''GET'' (slashed ?xs @ ''/'') = Some ?p"
    unfolding muxMatch_def Let_def pathSegs_slashed [OF list.distinct(2) assms]
    by (cases store; cases xs; simp add: methodPatterns_def rootRoutes_def pat_def)+
  have "\<not> exactMatch (Some ?p) (slashed ?xs @ ''/'')"
    using slashed_count [OF assms] by (simp add: exactMatch_def pat_def)
  then show ?thesis unfolding dispatch_def Let_def cleanPath_slashed [OF list.distinct(2) assms] m by (simp add: pat_def)
qed

lemma search_reached:
  assumes "list_all (plainSeg unesc) [''api'', ''handle'', x]"
  shows "serveRoute unesc prefix True store ''GET'' (slashed [''api'', ''handle'', x]) =
    Open (if x = ''available'' then E_AvailableWithoutHandle else E_SearchHandles)"
proof -
  let ?p = "if x = ''available'' then pat ''GET'' [Lit ''api'', Lit ''handle'', Lit ''available''] E_AvailableWithoutHandle
     else pat ''GET'' [Lit ''api'', Lit ''handle'', Wild] E_SearchHandles"
  have "x \<noteq> ''/''" using assms by (auto simp: plainSeg_def)
  then have "muxMatch unesc LookupRoutes ''GET'' (slashed [''api'', ''handle'', x]) = Some ?p"
    unfolding muxMatch_def Let_def pathSegs_slashed [OF list.distinct(2) assms]
    by (simp add: methodPatterns_def LookupRoutes_def pat_def)
  from dispatch_exact [OF _ assms this] rootRoutes_public [OF assms] show ?thesis
    by (simp add: serveRoute_def finish_def pat_def split: if_splits)
qed

lemma available_reached:
  assumes "list_all (plainSeg unesc) [''api'', ''handle'', ''available'', x]"
  shows "serveRoute unesc prefix True store ''GET'' (slashed [''api'', ''handle'', ''available'', x]) = Open E_HandleAvailable"
proof -
  have "x \<noteq> ''/''" using assms by (auto simp: plainSeg_def)
  then have "muxMatch unesc LookupRoutes ''GET'' (slashed [''api'', ''handle'', ''available'', x]) =
      Some (pat ''GET'' [Lit ''api'', Lit ''handle'', Lit ''available'', Wild] E_HandleAvailable)"
    unfolding muxMatch_def Let_def pathSegs_slashed [OF list.distinct(2) assms]
    by (simp add: methodPatterns_def LookupRoutes_def pat_def)
  from dispatch_exact [OF _ assms this] rootRoutes_public [OF assms] show ?thesis
    by (simp add: serveRoute_def finish_def pat_def)
qed

end
