(* ===== verification/Apple_Token.thy ===== *)
theory Apple_Token
  imports Verifiers
begin

text \<open>
  The bearer of the App Store Server API (\<open>Apple.token\<close> and the head of \<open>Apple.get\<close>,
  \<open>pkg/purchases/apple.go\<close>): a compact JWS over the header and the claims. \<open>sha256\<close> and the signing with
  the in-app purchase key (\<open>ecdsa.Sign\<close>) are parameters, as is the transport.
\<close>

section \<open>Definitions\<close>

text \<open>\<open>base64.RawURLEncoding.EncodeToString\<close>.\<close>

definition urlDigit :: "nat \<Rightarrow> char" where
  "urlDigit d = (if d = 62 then CHR ''-'' else if d = 63 then CHR ''_'' else stdDigit d)"

fun encodeRawURL :: "string \<Rightarrow> string" where
  "encodeRawURL [] = []"
| "encodeRawURL [x] = [urlDigit (byte x div 4), urlDigit (byte x mod 4 * 16)]"
| "encodeRawURL [x, y] = [urlDigit (byte x div 4), urlDigit (byte x mod 4 * 16 + byte y div 16), urlDigit (byte y mod 16 * 4)]"
| "encodeRawURL (x # y # z # s) = [urlDigit (byte x div 4), urlDigit (byte x mod 4 * 16 + byte y div 16),
     urlDigit (byte y mod 16 * 4 + byte z div 64), urlDigit (byte z mod 64)] @ encodeRawURL s"

text \<open>\<open>big.Int.FillBytes\<close> for a value that fits: big endian, padded with zeros.\<close>

fun fillBytes :: "nat \<Rightarrow> nat \<Rightarrow> string" where
  "fillBytes 0 v = []"
| "fillBytes (Suc n) v = fillBytes n (v div 256) @ [char_of (v mod 256)]"

text \<open>\<open>json.Marshal\<close> of a map: the keys in order.\<close>

definition tokenHeader :: "AppleConfig \<Rightarrow> string" where
  "tokenHeader cfg =
     (let q = jsonQuote True in
      ''{'' @ q ''alg'' @ '':'' @ q ''ES256'' @ '','' @ q ''kid'' @ '':'' @ q (ac_KeyID cfg) @ '','' @ q ''typ'' @ '':'' @ q ''JWT'' @ ''}'')"

definition unixSeconds :: "time \<Rightarrow> int" where
  "unixSeconds t = t div 1000000000"

definition tenMinutes :: int where
  "tenMinutes = 600000000000"

definition tokenClaims :: "AppleConfig \<Rightarrow> time \<Rightarrow> string" where
  "tokenClaims cfg now =
     (let q = jsonQuote True in
      ''{'' @ q ''aud'' @ '':'' @ q ''appstoreconnect-v1'' @ '','' @ q ''bid'' @ '':'' @ q (ac_BundleID cfg) @ '',''
      @ q ''exp'' @ '':'' @ itoa (unixSeconds (now + tenMinutes)) @ '','' @ q ''iat'' @ '':'' @ itoa (unixSeconds now) @ '',''
      @ q ''iss'' @ '':'' @ q (ac_IssuerID cfg) @ ''}'')"

definition apple_token ::
  "(string \<Rightarrow> string) \<Rightarrow> ('k \<Rightarrow> string \<Rightarrow> string + nat \<times> nat) \<Rightarrow> 'k Apple \<Rightarrow> time \<Rightarrow> string + string" where
  "apple_token sha256 sign a now =
     (let signing = encodeRawURL (tokenHeader (ap_cfg a)) @ ''.'' @ encodeRawURL (tokenClaims (ap_cfg a) now) in
      case sign (ap_key a) (sha256 signing) of
        Inl err \<Rightarrow> Inl err
      | Inr (r, s) \<Rightarrow> Inr (signing @ ''.'' @ encodeRawURL (fillBytes 32 r @ fillBytes 32 s)))"

text \<open>The client \<open>Apple.get\<close> sends its request through: signed, and with the token in the
  \<open>Authorization\<close> header, which \<open>send\<close> gets next to the address.\<close>

definition signedClient ::
  "(string \<Rightarrow> string) \<Rightarrow> ('k \<Rightarrow> string \<Rightarrow> string + nat \<times> nat) \<Rightarrow> 'k Apple \<Rightarrow> ('f \<Rightarrow> time) \<Rightarrow>
   (string \<Rightarrow> string \<Rightarrow> 'f \<Rightarrow> (string + int \<times> string) \<times> 'f) \<Rightarrow> 'f http_client" where
  "signedClient sha256 sign a now send url f =
     (case apple_token sha256 sign a (now f) of
        Inl err \<Rightarrow> (Inl (''sign request: '' @ err), f)
      | Inr tok \<Rightarrow> send url (''Bearer '' @ tok) f)"

section \<open>What a token says\<close>

lemma urlValue_digit: "d < 64 \<Longrightarrow> urlValue (urlDigit d) = Some d"
proof -
  assume "d < 64"
  then have "d \<in> set [0..<64]" by simp
  moreover have "list_all (\<lambda>d. urlValue (urlDigit d) = Some d) [0..<64]" by code_simp
  ultimately show ?thesis by (simp add: list_all_iff)
qed

lemma urlDigit_plain: "d < 64 \<Longrightarrow> urlDigit d \<noteq> CHR ''.'' \<and> byte (urlDigit d) \<noteq> 10 \<and> byte (urlDigit d) \<noteq> 13"
proof -
  assume "d < 64"
  then have "d \<in> set [0..<64]" by simp
  moreover have "list_all (\<lambda>d. urlDigit d \<noteq> CHR ''.'' \<and> byte (urlDigit d) \<noteq> 10 \<and> byte (urlDigit d) \<noteq> 13) [0..<64]" by code_simp
  ultimately show ?thesis by (simp add: list_all_iff)
qed

lemma encodeRawURL_plain: "CHR ''.'' \<notin> set (encodeRawURL s)" "noBreaks (encodeRawURL s) = encodeRawURL s"
  by (induction s rule: encodeRawURL.induct)
    (simp_all add: noBreaks_def urlDigit_plain group_digits not_sym [OF urlDigit_plain [THEN conjunct1]])

lemma decodeRawURL_encode: "decodeRawURL (encodeRawURL s) = Some s"
proof -
  have "decodeRaw (encodeRawURL s) = Some s"
    by (induction s rule: encodeRawURL.induct) (simp_all add: urlValue_digit group_digits group_bytes)
  then show ?thesis by (simp add: decodeRawURL_def encodeRawURL_plain)
qed

lemma fillBytes_length [simp]: "length (fillBytes n v) = n"
  by (induction n arbitrary: v) simp_all

text \<open>A token is a compact JWS whose payload, read the way the server reads Apple's own, is the claims:
  the configured issuer and bundle, issued now and valid for ten minutes, under a signature of 64 bytes.\<close>

lemma apple_token_decodes:
  assumes "apple_token sha256 sign a now = Inr tok"
  shows "DecodeJWSPayload decode tok = decode (tokenClaims (ap_cfg a) now)"
    and "\<exists>sig. length sig = 64 \<and> decodeRawURL (splitOn (CHR ''.'') tok ! 2) = Some sig"
proof -
  from assms obtain r s where "tok = encodeRawURL (tokenHeader (ap_cfg a)) @ CHR ''.'' # encodeRawURL (tokenClaims (ap_cfg a) now)
      @ CHR ''.'' # encodeRawURL (fillBytes 32 r @ fillBytes 32 s)"
    by (auto simp: apple_token_def Let_def split: sum.splits)
  then have split: "splitOn (CHR ''.'') tok = [encodeRawURL (tokenHeader (ap_cfg a)), encodeRawURL (tokenClaims (ap_cfg a) now),
      encodeRawURL (fillBytes 32 r @ fillBytes 32 s)]" by (simp add: splitOn_append splitOn_fresh encodeRawURL_plain)
  then show "DecodeJWSPayload decode tok = decode (tokenClaims (ap_cfg a) now)"
    by (simp add: DecodeJWSPayload_def decodeRawURL_encode)
  from split show "\<exists>sig. length sig = 64 \<and> decodeRawURL (splitOn (CHR ''.'') tok ! 2) = Some sig"
    by (simp add: decodeRawURL_encode del: fillBytes.simps)
qed

lemma token_lifetime: "unixSeconds (now + tenMinutes) = unixSeconds now + 600"
  by (simp add: unixSeconds_def tenMinutes_def)

end
