(* ===== verification/Startup.thy ===== *)
theory Startup
  imports Config Routing Put_Handle Apple_Token Push Rate_Limiter
begin

text \<open>
  Putting the server together (\<open>cmd/server\<close>). What \<open>main\<close> opens on the way (the database, the wallet,
  the messaging client, the key files, the Play client, the token validator) are parameters; opening
  acts on the state of the world \<open>'w\<close>, so that what a refused start leaves behind is part of the
  result. The listener, signals, logging and the time limits are outside.
\<close>

section \<open>Stores\<close>

definition isLocalHost :: "string \<Rightarrow> bool" where
  "isLocalHost host \<longleftrightarrow> containsStr host ''localhost'' \<or> containsStr host ''127.0.0.1'' \<or> containsStr host ''[::1]''"

text \<open>The value of type \<open>storage.Store\<close> that was opened. Only the MongoDB backend has the methods of
  \<open>storage.HandleStore\<close> and \<open>storage.SubscriptionStore\<close>.\<close>

datatype ('q, 'm) opened = SqlOpened 'q | MongoOpened 'm

fun asHandleStore :: "('q, 'm) opened \<Rightarrow> 'm option" where
  "asHandleStore (MongoOpened m) = Some m"
| "asHandleStore (SqlOpened q) = None"

type_synonym ('w, 'x) opener = "string \<Rightarrow> string \<Rightarrow> 'w \<Rightarrow> (string + 'x) \<times> 'w"

definition openStore ::
  "(string \<Rightarrow> string) \<Rightarrow> ('w, 'q) opener \<Rightarrow> ('w, 'm) opener \<Rightarrow> Config \<Rightarrow> 'w \<Rightarrow> (string + ('q, 'm) opened) \<times> 'w" where
  "openStore quote openSql openMongo cfg w =
     (if cf_StorageBackend cfg = ''sql'' \<or> cf_StorageBackend cfg = [] then
        (case openSql (cf_DBDriver cfg) (cf_DBSource cfg) w of (Inl e, w1) \<Rightarrow> (Inl e, w1) | (Inr q, w1) \<Rightarrow> (Inr (SqlOpened q), w1))
      else if cf_StorageBackend cfg = ''mongo'' then
        (case openMongo (cf_MongoURI cfg) (cf_MongoDatabase cfg) w of (Inl e, w1) \<Rightarrow> (Inl e, w1) | (Inr m, w1) \<Rightarrow> (Inr (MongoOpened m), w1))
      else (Inl (''unknown STORAGE_BACKEND '' @ quote (cf_StorageBackend cfg) @ '' (want \"sql\" or \"mongo\")''), w))"

section \<open>The wallet\<close>

text \<open>What the wallet is made with: the toolbox's network names, keys (\<open>'k\<close>), storage clients and providers
  (\<open>'s\<close>) and wallets (\<open>'a\<close>).\<close>

record ('w, 'n, 'k, 's, 'a) wallet_libs =
  wl_mainnet :: 'n
  wl_testnet :: 'n
  wl_parseNetwork :: "string \<Rightarrow> string + 'n"
  wl_keyFromHex :: "string \<Rightarrow> string + 'k"
  wl_protoWallet :: "'k \<Rightarrow> string + 'k"
  wl_newClient :: "string \<Rightarrow> 'k \<Rightarrow> 'w \<Rightarrow> (string + 's) \<times> 'w"
  wl_newRemote :: "'n \<Rightarrow> 'k \<Rightarrow> 's \<Rightarrow> 'w \<Rightarrow> (string + 'a) \<times> 'w"
  wl_makeAvailable :: "'s \<Rightarrow> 'w \<Rightarrow> (string + unit) \<times> 'w"
  wl_cleanup :: "'s \<Rightarrow> 'w \<Rightarrow> 'w"
  wl_newProvider :: "'n \<Rightarrow> 'w \<Rightarrow> (string + 's) \<times> 'w"
  wl_identityKey :: "string \<Rightarrow> string + string"
  wl_migrate :: "'s \<Rightarrow> string \<Rightarrow> string \<Rightarrow> 'w \<Rightarrow> (string + unit) \<times> 'w"
  wl_newLocal :: "'n \<Rightarrow> string \<Rightarrow> 's \<Rightarrow> 'w \<Rightarrow> (string + 'a) \<times> 'w"

definition parseNetwork ::
  "(rune \<Rightarrow> rune) \<Rightarrow> (string \<Rightarrow> string) \<Rightarrow> ('w, 'n, 'k, 's, 'a) wallet_libs \<Rightarrow> string \<Rightarrow> string + 'n" where
  "parseNetwork ul quote wl s =
     (if toLower ul s = ''mainnet'' then Inr (wl_mainnet wl)
      else if toLower ul s = ''testnet'' then Inr (wl_testnet wl)
      else case wl_parseNetwork wl s of
        Inl _ \<Rightarrow> Inl (''invalid BSV_NETWORK '' @ quote s @ '': want mainnet, testnet, ttn or tstn'')
      | Inr n \<Rightarrow> Inr n)"

definition createWalletWithRemoteStorage ::
  "('w, 'n, 'k, 's, 'a) wallet_libs \<Rightarrow> Config \<Rightarrow> 'n \<Rightarrow> 'w \<Rightarrow> (string + 'a) \<times> 'w" where
  "createWalletWithRemoteStorage wl cfg network w =
     (case wl_keyFromHex wl (cf_ServerPrivateKey cfg) of
        Inl e \<Rightarrow> (Inl (''failed to parse server private key: '' @ e), w)
      | Inr key \<Rightarrow>
     (case wl_protoWallet wl key of
        Inl e \<Rightarrow> (Inl (''failed to create proto wallet: '' @ e), w)
      | Inr proto \<Rightarrow>
     (case wl_newClient wl (cf_WalletStorageURL cfg) proto w of
        (Inl e, w1) \<Rightarrow> (Inl (''failed to create remote storage client: '' @ e), w1)
      | (Inr client, w1) \<Rightarrow>
     (case wl_newRemote wl network key client w1 of
        (Inl e, w2) \<Rightarrow> (Inl (''failed to create wallet with remote storage: '' @ e), w2)
      | (Inr a, w2) \<Rightarrow>
     (case wl_makeAvailable wl client w2 of
        (Inl e, w3) \<Rightarrow> (Inl (''failed to connect to remote storage: '' @ e), wl_cleanup wl client w3)
      | (Inr _, w3) \<Rightarrow> (Inr a, w3))))))"

definition createWalletWithLocalStorage ::
  "('w, 'n, 'k, 's, 'a) wallet_libs \<Rightarrow> Config \<Rightarrow> 'n \<Rightarrow> 'w \<Rightarrow> (string + 'a) \<times> 'w" where
  "createWalletWithLocalStorage wl cfg network w =
     (case wl_newProvider wl network w of
        (Inl e, w1) \<Rightarrow> (Inl (''failed to create local storage: '' @ e), w1)
      | (Inr provider, w1) \<Rightarrow>
     (case wl_identityKey wl (cf_ServerPrivateKey cfg) of
        Inl e \<Rightarrow> (Inl (''failed to derive storage identity key: '' @ e), w1)
      | Inr identityKey \<Rightarrow>
     (case wl_migrate wl provider ''messagebox-storage'' identityKey w1 of
        (Inl e, w2) \<Rightarrow> (Inl (''failed to migrate storage: '' @ e), w2)
      | (Inr _, w2) \<Rightarrow>
     (case wl_newLocal wl network (cf_ServerPrivateKey cfg) provider w2 of
        (Inl e, w3) \<Rightarrow> (Inl (''failed to create wallet: '' @ e), w3)
      | (Inr a, w3) \<Rightarrow> (Inr a, w3)))))"

definition createWallet ::
  "(rune \<Rightarrow> rune) \<Rightarrow> (string \<Rightarrow> string) \<Rightarrow> ('w, 'n, 'k, 's, 'a) wallet_libs \<Rightarrow> Config \<Rightarrow> 'w \<Rightarrow> (string + 'a) \<times> 'w" where
  "createWallet ul quote wl cfg w =
     (case parseNetwork ul quote wl (cf_BSVNetwork cfg) of
        Inl e \<Rightarrow> (Inl e, w)
      | Inr network \<Rightarrow>
          if cf_WalletStorageURL cfg \<noteq> [] then createWalletWithRemoteStorage wl cfg network w
          else createWalletWithLocalStorage wl cfg network w)"

section \<open>The lookup\<close>

definition lookupEnabled :: "Config \<Rightarrow> bool" where
  "lookupEnabled cfg \<longleftrightarrow> cf_PaymailDomain cfg \<noteq> []"

definition checkLookupBackend :: "(string \<Rightarrow> string) \<Rightarrow> Config \<Rightarrow> string option" where
  "checkLookupBackend quote cfg =
     (if lookupEnabled cfg \<and> cf_StorageBackend cfg \<noteq> ''mongo'' then
        Some (''PAYMAIL_DOMAIN requires STORAGE_BACKEND=mongo, got '' @ quote (cf_StorageBackend cfg))
      else None)"

definition lookupRegistry :: "(string \<Rightarrow> string) \<Rightarrow> Config \<Rightarrow> ('q, 'm) opened \<Rightarrow> string + 'm option" where
  "lookupRegistry quote cfg store =
     (if \<not> lookupEnabled cfg then Inr None
      else case asHandleStore store of
        None \<Rightarrow> Inl (''PAYMAIL_DOMAIN requires a storage backend with a handle registry, '' @ quote (cf_StorageBackend cfg) @ '' has none'')
      | Some registry \<Rightarrow> Inr (Some registry))"

record 'm lookup_service =
  ls_config :: LookupConfig
  ls_registry :: 'm
  ls_limiter :: RateLimiter

definition mountLookup :: "Config \<Rightarrow> 'm option \<Rightarrow> 'm lookup_service option" where
  "mountLookup cfg registry =
     (if \<not> lookupEnabled cfg then None
      else case registry of
        None \<Rightarrow> None
      | Some r \<Rightarrow> Some \<lparr>ls_config = \<lparr>lc_Domain = cf_PaymailDomain cfg, lc_Host = cf_PaymailHost cfg,
            lc_Cooldown = cf_HandleCooldown cfg, lc_AdminKeys = cf_AdminIdentityKeys cfg\<rparr>,
          ls_registry = r,
          ls_limiter = NewRateLimiter (cf_LookupRatePerMin cfg) (cf_TrustProxy cfg) (cf_TrustedProxyHops cfg) (cf_ClientIPHeader cfg)\<rparr>)"

section \<open>Paid handles\<close>

definition readSecret :: "(string \<Rightarrow> string + string) \<Rightarrow> string \<Rightarrow> string \<Rightarrow> string \<Rightarrow> string + string" where
  "readSecret readFile value path name =
     (if value \<noteq> [] then Inr value
      else case readFile path of Inl err \<Rightarrow> Inl (name @ '': '' @ err) | Inr b \<Rightarrow> Inr b)"

text \<open>The libraries the verifiers are built on: files, keys, the Play client, hashing and signing, the
  clock, the HTTP transport with its decoders, and \<open>time.Parse\<close>.\<close>

record ('k, 'f) verifier_libs =
  vl_readFile :: "string \<Rightarrow> string + string"
  vl_parseKey :: "string \<Rightarrow> string + 'k"
  vl_newService :: "string \<Rightarrow> string + unit"
  vl_play :: "'f play_client"
  vl_sha256 :: "string \<Rightarrow> string"
  vl_sign :: "'k \<Rightarrow> string \<Rightarrow> string + nat \<times> nat"
  vl_now :: "'f \<Rightarrow> time"
  vl_send :: "string \<Rightarrow> string \<Rightarrow> 'f \<Rightarrow> (string + int \<times> string) \<times> 'f"
  vl_wire :: apple_wire
  vl_parseTime :: "string \<Rightarrow> string + time"

definition appleVerifierOf :: "(string \<Rightarrow> string) \<Rightarrow> ('k, 'f) verifier_libs \<Rightarrow> AppleStoreConfig \<Rightarrow> string + 'f Verifier option" where
  "appleVerifierOf quote libs a =
     (if \<not> AppleConfigured a then Inr None
      else case readSecret (vl_readFile libs) (as_PrivateKey a) (as_PrivateKeyPath a) ''APPLE_PRIVATE_KEY_PATH'' of
        Inl e \<Rightarrow> Inl e
      | Inr key \<Rightarrow>
          (case NewApple quote (vl_parseKey libs) \<lparr>ac_IssuerID = as_IssuerID a, ac_KeyID = as_KeyID a, ac_PrivateKey = key,
                  ac_BundleID = as_BundleID a, ac_Environments = as_Environments a, ac_BaseURLs = None\<rparr> of
             Inl e \<Rightarrow> Inl e
           | Inr apple \<Rightarrow> Inr (Some (AppleVerifier quote (ap_cfg apple)
               (signedClient (vl_sha256 libs) (vl_sign libs) apple (vl_now libs) (vl_send libs)) (vl_wire libs)))))"

definition googleVerifierOf :: "(string \<Rightarrow> string) \<Rightarrow> ('k, 'f) verifier_libs \<Rightarrow> GooglePlayConfig \<Rightarrow> string + 'f Verifier option" where
  "googleVerifierOf quote libs g =
     (if \<not> GoogleConfigured g then Inr None
      else case readSecret (vl_readFile libs) (gp_ServiceAccountJSON g) (gp_ServiceAccountPath g) ''GOOGLE_PLAY_SERVICE_ACCOUNT_PATH'' of
        Inl e \<Rightarrow> Inl e
      | Inr creds \<Rightarrow>
          (case NewGoogle (vl_newService libs) \<lparr>gc_PackageName = gp_PackageName g, gc_CredentialsJSON = creds,
                  gc_AllowTest = gp_AllowTestPurchases g\<rparr> of
             Inl e \<Rightarrow> Inl e
           | Inr google \<Rightarrow> Inr (Some (GoogleVerifier (vl_parseTime libs) quote google (vl_play libs)))))"

definition purchaseVerifiers ::
  "(string \<Rightarrow> string) \<Rightarrow> ('k, 'f) verifier_libs \<Rightarrow> Config \<Rightarrow> string + (string \<Rightarrow> 'f Verifier option)" where
  "purchaseVerifiers quote libs cfg =
     (case appleVerifierOf quote libs (cf_Apple cfg) of
        Inl e \<Rightarrow> Inl e
      | Inr apple \<Rightarrow>
          (case googleVerifierOf quote libs (cf_Google cfg) of
             Inl e \<Rightarrow> Inl e
           | Inr google \<Rightarrow> Inr ((\<lambda>_. None)(StoreAppStore := apple, StoreGooglePlay := google))))"

record pubsubAuth =
  pa_audience :: string
  pa_email :: string

text \<open>\<open>validate\<close> checks a token for an audience and gives its claims; a missing claim is \<open>GNil\<close>. \<open>show\<close> is
  the verb \<open>%v\<close>. The result is the error, or none.\<close>

definition Authenticate ::
  "(string \<Rightarrow> string \<Rightarrow> string + (string \<Rightarrow> gval)) \<Rightarrow> (gval \<Rightarrow> string) \<Rightarrow> pubsubAuth \<Rightarrow> string \<Rightarrow> string option" where
  "Authenticate validate showVal a authorization =
     (case cutPrefix authorization ''Bearer '' of
        None \<Rightarrow> Some ''no bearer token''
      | Some tok \<Rightarrow>
          if tok = [] then Some ''no bearer token''
          else case validate tok (pa_audience a) of
            Inl err \<Rightarrow> Some err
          | Inr claims \<Rightarrow>
              if pa_email a \<noteq> [] \<and> (claims ''email'' \<noteq> GStr (pa_email a) \<or> claims ''email_verified'' \<noteq> GBool True) then
                Some (''token is for '' @ showVal (claims ''email'') @ '', not '' @ pa_email a)
              else None)"

record 'f purchase_service =
  pv_verifiers :: "string \<Rightarrow> 'f Verifier option"
  pv_grace :: int
  pv_package :: string
  pv_auth :: "pubsubAuth option"

definition enablePurchases ::
  "(string \<Rightarrow> string) \<Rightarrow> ('k, 'f) verifier_libs \<Rightarrow> (unit \<Rightarrow> string + unit) \<Rightarrow> Config \<Rightarrow> ('q, 'm) opened \<Rightarrow>
   string + ('m \<times> 'f purchase_service) option" where
  "enablePurchases quote libs newValidator cfg store =
     (if \<not> cf_HandlePurchasesRequired cfg then Inr None
      else case asHandleStore store of
        None \<Rightarrow> Inl (''HANDLE_PURCHASES_REQUIRED needs a storage backend that keeps subscriptions, '' @ quote (cf_StorageBackend cfg) @ '' does not'')
      | Some subs \<Rightarrow>
          (case purchaseVerifiers quote libs cfg of
             Inl e \<Rightarrow> Inl e
           | Inr verifiers \<Rightarrow>
               (let pc = \<lparr>pv_verifiers = verifiers, pv_grace = cf_HandleGrace cfg, pv_package = gp_PackageName (cf_Google cfg), pv_auth = None\<rparr>
                in if gp_PubSubAudience (cf_Google cfg) = [] then Inr (Some (subs, pc))
                   else case newValidator () of
                     Inl err \<Rightarrow> Inl (''pub/sub token validator: '' @ err)
                   | Inr _ \<Rightarrow> Inr (Some (subs, pc\<lparr>pv_auth := Some \<lparr>pa_audience = gp_PubSubAudience (cf_Google cfg),
                       pa_email = gp_PubSubServiceAccount (cf_Google cfg)\<rparr>\<rparr>)))))"

section \<open>Starting\<close>

text \<open>What \<open>main\<close> calls to reach the world: libraries, and the functions of the repository that open a
  database (\<open>sqlstore.NewContext\<close>, \<open>mongostore.New\<close>), bring its schema up to date (\<open>EnsureSchema\<close>) and make
  the push client (\<open>firebase.Initialize\<close>). The last two are modelled with their backends and with the
  push notifications; the start-up is stated for whatever they answer.\<close>

record ('w, 'q, 'm, 'n, 'c, 's, 'a, 'k, 'f) outside =
  os_openSql :: "('w, 'q) opener"
  os_openMongo :: "('w, 'm) opener"
  os_ensureSchema :: "('q, 'm) opened \<Rightarrow> 'w \<Rightarrow> (string + unit) \<times> 'w"
  os_firebase :: "firebase_Config \<Rightarrow> 'w \<Rightarrow> string option \<times> 'w"
  os_wallet :: "('w, 'n, 'c, 's, 'a) wallet_libs"
  os_libs :: "('k, 'f) verifier_libs"
  os_newValidator :: "unit \<Rightarrow> string + unit"

record ('q, 'm, 'a, 'f) server =
  sv_store :: "('q, 'm) opened"
  sv_wallet :: 'a
  sv_listing :: ListMessagesConfig
  sv_lookup :: "'m lookup_service option"
  sv_purchases :: "('m \<times> 'f purchase_service) option"
  sv_port :: int

text \<open>\<open>main\<close> up to the listener: the message it exits with, or the server it runs, and the world.\<close>

definition boot ::
  "(rune \<Rightarrow> rune) \<Rightarrow> (string \<Rightarrow> string) \<Rightarrow> ('w, 'q, 'm, 'n, 'c, 's, 'a, 'k, 'f) outside \<Rightarrow> environment \<Rightarrow> 'w \<Rightarrow>
   (string + ('q, 'm, 'a, 'f) server) \<times> 'w" where
  "boot ul quote os vars w =
     (case Load ul quote vars of
        Inl e \<Rightarrow> (Inl e, w)
      | Inr cfg \<Rightarrow>
     (case checkLookupBackend quote cfg of
        Some e \<Rightarrow> (Inl e, w)
      | None \<Rightarrow>
     (case openStore quote (os_openSql os) (os_openMongo os) cfg w of
        (Inl e, w1) \<Rightarrow> (Inl e, w1)
      | (Inr store, w1) \<Rightarrow>
     (case os_ensureSchema os store w1 of
        (Inl e, w2) \<Rightarrow> (Inl e, w2)
      | (Inr _, w2) \<Rightarrow>
     (case lookupRegistry quote cfg store of
        Inl e \<Rightarrow> (Inl e, w2)
      | Inr registry \<Rightarrow>
     (let (_, w3) = os_firebase os \<lparr>fc_ProjectID = cf_FirebaseProjectID cfg, fc_ServiceAccountJSON = cf_FirebaseServiceAccountJSON cfg,
             fc_ServiceAccountPath = cf_FirebaseServiceAccountPath cfg\<rparr> w2
      in case createWallet ul quote (os_wallet os) cfg w3 of
        (Inl e, w4) \<Rightarrow> (Inl e, w4)
      | (Inr wallet, w4) \<Rightarrow>
     (case enablePurchases quote (os_libs os) (os_newValidator os) cfg store of
        Inl e \<Rightarrow> (Inl e, w4)
      | Inr purchases \<Rightarrow>
          (Inr \<lparr>sv_store = store, sv_wallet = wallet, sv_listing = listConfig cfg, sv_lookup = mountLookup cfg registry,
             sv_purchases = purchases, sv_port = cf_Port cfg\<rparr>, w4))))))))"

text \<open>How a running server routes a request: the routes of the lookup and of the stores are mounted
  with their services.\<close>

definition serverRoute :: "(string \<Rightarrow> string) \<Rightarrow> string list \<Rightarrow> ('q, 'm, 'a, 'f) server \<Rightarrow> string \<Rightarrow> string \<Rightarrow> outcome" where
  "serverRoute unesc prefix srv m path =
     serveRoute unesc prefix (sv_lookup srv \<noteq> None) (sv_purchases srv \<noteq> None) m path"

text \<open>The purchase configuration the handlers get, and \<open>PUT /api/handle\<close> on a running server: the state of
  the requests is that of the two collections and of the stores' servers.\<close>

definition purchaseConfigOf :: "'f purchase_service \<Rightarrow> 'f paid_state PurchaseConfig" where
  "purchaseConfigOf p = \<lparr>pc_Verifiers = PaidVerifiers (pv_verifiers p), pc_Grace = pv_grace p, pc_GooglePackage = pv_package p\<rparr>"

definition serverPutHandle ::
  "(rune \<Rightarrow> rune) \<Rightarrow> 'c cert_sdk \<Rightarrow> (string \<Rightarrow> (string \<times> Purchase option) option) \<Rightarrow> ('q, 'm, 'a, 'f) server \<Rightarrow> time \<Rightarrow>
   body_read \<Rightarrow> 'f paid_state \<Rightarrow> lookup_body response option \<times> 'f paid_state" where
  "serverPutHandle ul sdk decode srv t body s =
     (case sv_lookup srv of
        None \<Rightarrow> (None, s)
      | Some l \<Rightarrow>
          (let (reply, s') = PutHandle ul sdk decode (ls_config l) (map_option (\<lambda>mp. purchaseConfigOf (snd mp)) (sv_purchases srv))
                 PaidHandles PaidSubscriptions t body s
           in (Some reply, s')))"

section \<open>What a running server guarantees\<close>

lemma openStore_kind:
  assumes "openStore quote openSql openMongo cfg w = (Inr store, w')"
  shows "(\<exists>m. store = MongoOpened m) \<longleftrightarrow> cf_StorageBackend cfg = ''mongo''"
  using assms by (auto simp: openStore_def split: if_splits prod.splits sum.splits)

text \<open>The check before anything is opened makes the later one redundant.\<close>

lemma lookupRegistry_succeeds:
  assumes "checkLookupBackend quote cfg = None" and "openStore quote openSql openMongo cfg w = (Inr store, w')"
  shows "\<exists>r. lookupRegistry quote cfg store = Inr r"
  using assms(1) openStore_kind [OF assms(2)]
  by (cases store) (auto simp: checkLookupBackend_def lookupRegistry_def split: if_splits)

text \<open>An unknown network makes no wallet. A remote wallet whose storage does not answer is cleaned up.\<close>

lemma createWallet_unknown_network:
  "parseNetwork ul quote wl (cf_BSVNetwork cfg) = Inl e \<Longrightarrow> createWallet ul quote wl cfg w = (Inl e, w)"
  by (simp add: createWallet_def)

lemma remote_wallet_available:
  assumes "createWalletWithRemoteStorage wl cfg n w = (Inr a, w')"
  shows "\<exists>client w1. wl_makeAvailable wl client w1 = (Inr (), w')"
  using assms by (auto simp: createWalletWithRemoteStorage_def split: sum.splits prod.splits)

text \<open>The services a server runs are the ones its configuration asks for, on the store it names.\<close>

definition lookup_as :: "Config \<Rightarrow> ('q, 'm) opened \<Rightarrow> 'm lookup_service \<Rightarrow> bool" where
  "lookup_as cfg store l \<longleftrightarrow> store = MongoOpened (ls_registry l) \<and>
     ls_config l = \<lparr>lc_Domain = cf_PaymailDomain cfg, lc_Host = cf_PaymailHost cfg, lc_Cooldown = cf_HandleCooldown cfg,
       lc_AdminKeys = cf_AdminIdentityKeys cfg\<rparr> \<and>
     rl_perMinute (ls_limiter l) = cf_LookupRatePerMin cfg \<and> rl_counts (ls_limiter l) = []"

definition purchases_as :: "Config \<Rightarrow> ('q, 'm) opened \<Rightarrow> 'm \<times> 'f purchase_service \<Rightarrow> bool" where
  "purchases_as cfg store mp \<longleftrightarrow> store = MongoOpened (fst mp) \<and> pv_grace (snd mp) = cf_HandleGrace cfg \<and>
     (\<forall>st. pv_verifiers (snd mp) st \<noteq> None \<longleftrightarrow>
        st = StoreAppStore \<and> AppleConfigured (cf_Apple cfg) \<or> st = StoreGooglePlay \<and> GoogleConfigured (cf_Google cfg)) \<and>
     (pv_auth (snd mp) = None \<longleftrightarrow> gp_PubSubAudience (cf_Google cfg) = [])"

definition runs_as :: "Config \<Rightarrow> ('q, 'm, 'a, 'f) server \<Rightarrow> bool" where
  "runs_as cfg srv \<longleftrightarrow> sv_listing srv = listConfig cfg \<and> sv_port srv = cf_Port cfg \<and>
     (sv_lookup srv = None \<longleftrightarrow> cf_PaymailDomain cfg = []) \<and> (\<forall>l. sv_lookup srv = Some l \<longrightarrow> lookup_as cfg (sv_store srv) l) \<and>
     (sv_purchases srv = None \<longleftrightarrow> \<not> cf_HandlePurchasesRequired cfg) \<and>
     (\<forall>mp. sv_purchases srv = Some mp \<longrightarrow> purchases_as cfg (sv_store srv) mp)"

lemma asHandleStore_Some: "asHandleStore store = Some m \<longleftrightarrow> store = MongoOpened m"
  by (cases store) auto

lemma mountLookup_as:
  assumes "lookupRegistry quote cfg store = Inr registry"
  shows "(mountLookup cfg registry = None \<longleftrightarrow> cf_PaymailDomain cfg = []) \<and>
    (\<forall>l. mountLookup cfg registry = Some l \<longrightarrow> lookup_as cfg store l)"
  using assms
  by (auto simp: lookupRegistry_def mountLookup_def lookupEnabled_def lookup_as_def NewRateLimiter_def asHandleStore_Some
      split: if_splits option.splits)

lemma verifierOf_configured:
  "appleVerifierOf quote libs a = Inr v \<Longrightarrow> v \<noteq> None \<longleftrightarrow> AppleConfigured a"
  "googleVerifierOf quote libs g = Inr v \<Longrightarrow> v \<noteq> None \<longleftrightarrow> GoogleConfigured g"
  by (auto simp: appleVerifierOf_def googleVerifierOf_def split: if_splits sum.splits)

lemma purchaseVerifiers_configured:
  assumes "purchaseVerifiers quote libs cfg = Inr V"
  shows "V st \<noteq> None \<longleftrightarrow>
    st = StoreAppStore \<and> AppleConfigured (cf_Apple cfg) \<or> st = StoreGooglePlay \<and> GoogleConfigured (cf_Google cfg)"
proof -
  from assms obtain a g where a: "appleVerifierOf quote libs (cf_Apple cfg) = Inr a" and g: "googleVerifierOf quote libs (cf_Google cfg) = Inr g"
    and V: "V = (\<lambda>_. None)(StoreAppStore := a, StoreGooglePlay := g)"
    by (auto simp: purchaseVerifiers_def split: sum.splits)
  have "StoreAppStore \<noteq> StoreGooglePlay" by (simp add: StoreAppStore_def StoreGooglePlay_def)
  with verifierOf_configured(1) [OF a] verifierOf_configured(2) [OF g] show ?thesis by (auto simp: V)
qed

lemma enablePurchases_as:
  assumes "enablePurchases quote libs newValidator cfg store = Inr r"
  shows "(r = None \<longleftrightarrow> \<not> cf_HandlePurchasesRequired cfg) \<and> (\<forall>mp. r = Some mp \<longrightarrow> purchases_as cfg store mp)"
proof (cases "cf_HandlePurchasesRequired cfg")
  case True
  with assms obtain m V where m: "store = MongoOpened m" and V: "purchaseVerifiers quote libs cfg = Inr V"
    by (auto simp: enablePurchases_def asHandleStore_Some split: option.splits sum.splits)
  from assms True have "\<exists>p. r = Some (m, p) \<and> pv_verifiers p = V \<and> pv_grace p = cf_HandleGrace cfg \<and>
      (pv_auth p = None \<longleftrightarrow> gp_PubSubAudience (cf_Google cfg) = [])"
    unfolding enablePurchases_def m asHandleStore.simps V by (auto simp: Let_def split: if_splits sum.splits)
  then obtain p where r: "r = Some (m, p)" and p: "pv_verifiers p = V" "pv_grace p = cf_HandleGrace cfg"
      "pv_auth p = None \<longleftrightarrow> gp_PubSubAudience (cf_Google cfg) = []" by (elim exE conjE) (rule that)
  have "purchases_as cfg store (m, p)"
    unfolding purchases_as_def fst_conv snd_conv p(1) using p(2,3) m purchaseVerifiers_configured [OF V] by blast
  with True r show ?thesis by blast
next
  case False
  with assms show ?thesis by (simp add: enablePurchases_def)
qed

lemma boot_running:
  assumes "boot ul quote os vars w = (Inr srv, w')"
  shows "\<exists>cfg. Load ul quote vars = Inr cfg \<and> runs_as cfg srv"
proof -
  from assms obtain cfg store registry purchases where "Load ul quote vars = Inr cfg"
    and r: "lookupRegistry quote cfg store = Inr registry"
    and p: "enablePurchases quote (os_libs os) (os_newValidator os) cfg store = Inr purchases"
    and "sv_store srv = store" "sv_listing srv = listConfig cfg" "sv_port srv = cf_Port cfg"
      "sv_lookup srv = mountLookup cfg registry" "sv_purchases srv = purchases"
    by (auto simp: boot_def Let_def split: sum.splits option.splits prod.splits)
  with mountLookup_as [OF r] enablePurchases_as [OF p] show ?thesis by (auto simp: runs_as_def)
qed

lemma paid_server_has_lookup:
  assumes "purchases_sound cfg" and "runs_as cfg srv" and "sv_purchases srv = Some (m, p)"
  shows "(\<exists>l. sv_lookup srv = Some l \<and> ls_registry l = m) \<and> (\<exists>st. pv_verifiers p st \<noteq> None)"
proof -
  from assms(2,3) have "cf_HandlePurchasesRequired cfg" and p: "purchases_as cfg (sv_store srv) (m, p)" by (auto simp: runs_as_def)
  with assms(1) have d: "cf_PaymailDomain cfg \<noteq> []" "AppleConfigured (cf_Apple cfg) \<or> GoogleConfigured (cf_Google cfg)"
    by (auto simp: purchases_sound_def)
  with assms(2) obtain l where "sv_lookup srv = Some l" "lookup_as cfg (sv_store srv) l" by (auto simp: runs_as_def)
  with p d show ?thesis by (auto simp: purchases_as_def lookup_as_def)
qed

lemma runs_as_mounted:
  assumes "runs_as cfg srv"
  shows "(sv_lookup srv \<noteq> None) = (cf_PaymailDomain cfg \<noteq> [])" "(sv_purchases srv \<noteq> None) = cf_HandlePurchasesRequired cfg"
  using assms by (simp_all add: runs_as_def del: not_None_eq)

lemma serverRoute_open:
  assumes "runs_as cfg srv" and "serverRoute unesc prefix srv m path = Open e"
  shows "(e = E_Swagger \<and> hd (pathSegs unesc path) = ''swagger'' \<or>
    e \<in> publicEndpoints (cf_PaymailDomain cfg \<noteq> []) (cf_HandlePurchasesRequired cfg)) \<and> served_under m e"
  using open_endpoints [OF assms(2) [unfolded serverRoute_def]] runs_as_mounted [OF assms(1)] by (simp del: not_None_eq)

lemma serverRoute_protected:
  assumes "runs_as cfg srv" and "serverRoute unesc prefix srv m path = Protected e"
  shows "e \<in> protectedEndpoints (cf_PaymailDomain cfg \<noteq> []) \<and> served_under m e"
  using protected_endpoints [OF assms(2) [unfolded serverRoute_def]] runs_as_mounted [OF assms(1)] by (simp del: not_None_eq)

text \<open>A push is taken only with a token the validator accepts for the configured audience and, when an
  account is configured, for that account.\<close>

lemma Authenticate_sound:
  assumes "Authenticate validate showVal a header = None"
  shows "\<exists>tok claims. header = ''Bearer '' @ tok \<and> tok \<noteq> [] \<and> validate tok (pa_audience a) = Inr claims \<and>
    (pa_email a \<noteq> [] \<longrightarrow> claims ''email'' = GStr (pa_email a) \<and> claims ''email_verified'' = GBool True)"
proof -
  from assms obtain tok claims where t: "cutPrefix header ''Bearer '' = Some tok" and v: "tok \<noteq> []" "validate tok (pa_audience a) = Inr claims"
      "pa_email a \<noteq> [] \<longrightarrow> claims ''email'' = GStr (pa_email a) \<and> claims ''email_verified'' = GBool True"
    by (auto simp: Authenticate_def split: option.splits if_splits sum.splits)
  from t have "header = ''Bearer '' @ tok" unfolding cutPrefix_def hasPrefix_iff by (auto split: if_splits)
  with v show ?thesis by blast
qed

text \<open>The endpoints of the API answer under the configured prefix.\<close>

lemma serverRoute_reached:
  assumes "runs_as cfg srv" and "cf_RoutingPrefix cfg = slashed prefix"
    and "(m, ss, e) \<in> set (apiTable @ (if cf_PaymailDomain cfg \<noteq> [] then adminTable else []))"
    and "list_all (plainSeg unesc) (prefix @ ss)" and "\<not> publicWord (cf_PaymailDomain cfg \<noteq> []) (hd (prefix @ ss))"
  shows "serverRoute unesc prefix srv m (cf_RoutingPrefix cfg @ slashed ss) = Protected e"
  using api_endpoint_reached [OF assms(3,4,5)] runs_as_mounted [OF assms(1)]
  by (simp add: serverRoute_def assms(2) slashed_append del: not_None_eq)

lemma enablePurchases_verifiers:
  assumes "enablePurchases quote libs newValidator cfg store = Inr (Some (m, p))"
  shows "purchaseVerifiers quote libs cfg = Inr (pv_verifiers p)"
  using assms by (auto simp: enablePurchases_def Let_def split: if_splits option.splits sum.splits)

lemma boot_verifiers:
  assumes "boot ul quote os vars w = (Inr srv, w')" and "Load ul quote vars = Inr cfg" and "sv_purchases srv = Some (m, p)"
  shows "purchaseVerifiers quote (os_libs os) cfg = Inr (pv_verifiers p)"
proof -
  from assms have "enablePurchases quote (os_libs os) (os_newValidator os) cfg (sv_store srv) = Inr (Some (m, p))"
    by (auto simp: boot_def Let_def split: sum.splits option.splits prod.splits)
  then show ?thesis by (rule enablePurchases_verifiers)
qed

text \<open>The verifier of a store, as the configuration gives it.\<close>

definition verifies_for :: "(string \<Rightarrow> string) \<Rightarrow> ('k, 'f) verifier_libs \<Rightarrow> Config \<Rightarrow> string \<Rightarrow> 'f Verifier \<Rightarrow> bool" where
  "verifies_for quote libs cfg store v \<longleftrightarrow>
     store = StoreAppStore \<and> appleVerifierOf quote libs (cf_Apple cfg) = Inr (Some v) \<or>
     store = StoreGooglePlay \<and> googleVerifierOf quote libs (cf_Google cfg) = Inr (Some v)"

lemma purchaseVerifiers_for:
  assumes "purchaseVerifiers quote libs cfg = Inr V" and "V store = Some v"
  shows "verifies_for quote libs cfg store v"
  using assms by (auto simp: purchaseVerifiers_def verifies_for_def split: sum.splits if_splits)

lemma paid_server_put:
  assumes b: "boot ul quote os vars w = (Inr srv, w')" and l: "Load ul quote vars = Inr cfg" and c: "cf_HandlePurchasesRequired cfg"
    and up: "paid_up s" and eq: "serverPutHandle ul sdk decode srv t (BodyRead raw) s = (Some (JsonReply 201 body), s')"
  shows "\<exists>cert purchase p. splitPutBody decode raw = (cert, purchase) \<and> Parse ul sdk cert (cf_PaymailDomain cfg) (clock t) = Inr p \<and>
    (IsGenerated ul (pf_Handle p) \<or>
     (\<exists>pr verifier v f1 f2. purchase = Some pr \<and> verifies_for quote (os_libs os) cfg (pu_Store pr) verifier \<and>
        Verify verifier pr f1 = (Inr v, f2) \<and> ss_Tier (ve_Status v) = Tier (pf_Handle p) \<and> Entitled (ve_Status v) (clock t) \<and>
        bound_to (paid_subs s') (SubscriptionID (pu_Store pr) (ve_StoreID v)) (pf_Handle p) (pf_IdentityKey p)))"
proof -
  from boot_running [OF b] l have run: "runs_as cfg srv" by simp
  with c obtain m p where mp: "sv_purchases srv = Some (m, p)" by (cases "sv_purchases srv") (auto simp: runs_as_def)
  from eq obtain ls where ls: "sv_lookup srv = Some ls" by (auto simp: serverPutHandle_def split: option.splits)
  with run have dom: "lc_Domain (ls_config ls) = cf_PaymailDomain cfg" by (simp add: runs_as_def lookup_as_def)
  let ?pc = "purchaseConfigOf p" and ?W = "pv_verifiers p"
  have put: "PutHandle ul sdk decode (ls_config ls) (Some ?pc) PaidHandles PaidSubscriptions t (BodyRead raw) s = (JsonReply 201 body, s')"
    using eq by (simp add: serverPutHandle_def ls mp split: prod.splits)
  have V: "pc_Verifiers ?pc = PaidVerifiers ?W" by (simp add: purchaseConfigOf_def)
  have net: "\<exists>u f1 f2. verifies_for quote (os_libs os) cfg store u \<and> Verify u pr f1 = (Inr v, f2)"
    if "PaidVerifiers ?W store = Some pv" "Verify pv pr s1 = (Inr v, s2)" for store pv pr v s1 s2
  proof -
    from that(1) obtain u where u: "?W store = Some u" "pv = PaidVerifier u" by (auto simp: PaidVerifiers_def)
    with that(2) have "\<exists>f1 f2. Verify u pr f1 = (Inr v, f2)" by (auto simp: PaidVerifier_def on_net_def split: prod.splits)
    with u(1) purchaseVerifiers_for [OF boot_verifiers [OF b l mp]] show ?thesis by blast
  qed
  from paidStore.PutHandle_paid [OF up V put] obtain cert purchase q where
      q: "splitPutBody decode raw = (cert, purchase)" "Parse ul sdk cert (cf_PaymailDomain cfg) (clock t) = Inr q"
    and paid: "IsGenerated ul (pf_Handle q) \<or>
      (\<exists>pr verifier v s1 s2. purchase = Some pr \<and> PaidVerifiers ?W (pu_Store pr) = Some verifier \<and> Verify verifier pr s1 = (Inr v, s2) \<and>
        ss_Tier (ve_Status v) = Tier (pf_Handle q) \<and> Entitled (ve_Status v) (clock t) \<and>
        bound_to (paid_subs s') (SubscriptionID (pu_Store pr) (ve_StoreID v)) (pf_Handle q) (pf_IdentityKey q))"
    unfolding dom by (elim exE conjE) (rule that)
  from paid show ?thesis
  proof (elim disjE exE conjE)
    assume "IsGenerated ul (pf_Handle q)"
    with q show ?thesis by blast
  next
    fix pr pv v s1 s2
    assume pr: "purchase = Some pr" "PaidVerifiers ?W (pu_Store pr) = Some pv" "Verify pv pr s1 = (Inr v, s2)"
      and rest: "ss_Tier (ve_Status v) = Tier (pf_Handle q)" "Entitled (ve_Status v) (clock t)"
        "bound_to (paid_subs s') (SubscriptionID (pu_Store pr) (ve_StoreID v)) (pf_Handle q) (pf_IdentityKey q)"
    from net [OF pr(2,3)] obtain u f1 f2 where "verifies_for quote (os_libs os) cfg (pu_Store pr) u" "Verify u pr f1 = (Inr v, f2)"
      by (elim exE conjE) (rule that)
    with q pr(1) rest show ?thesis
      by (intro exI [of _ cert] exI [of _ purchase] exI [of _ q] conjI disjI2 exI [of _ pr] exI [of _ u] exI [of _ v] exI [of _ f1] exI [of _ f2])
  qed
qed

lemma boot_outcome:
  assumes ul: "\<forall>r \<ge> 128. \<not> (65 \<le> ul r \<and> ul r \<le> 90)" and b: "boot ul quote os vars w = (r, w')"
  shows "(\<forall>e. Load ul quote vars = Inl e \<longrightarrow> r = Inl e \<and> w' = w) \<and>
    (\<forall>cfg. Load ul quote vars = Inr cfg \<longrightarrow> cf_PaymailDomain cfg \<noteq> [] \<longrightarrow> cf_StorageBackend cfg \<noteq> ''mongo'' \<longrightarrow>
       (\<exists>e. r = Inl e) \<and> w' = w) \<and>
    (\<forall>srv. r = Inr srv \<longrightarrow> (\<exists>cfg. Load ul quote vars = Inr cfg \<and> config_sound cfg \<and> runs_as cfg srv \<and>
       (\<forall>m p. sv_purchases srv = Some (m, p) \<longrightarrow>
          (\<exists>l. sv_lookup srv = Some l \<and> ls_registry l = m) \<and> (\<exists>st. pv_verifiers p st \<noteq> None))))"
proof (intro conjI allI impI)
  show "r = Inl e" "w' = w" if "Load ul quote vars = Inl e" for e using b that by (simp_all add: boot_def)
next
  fix cfg assume "Load ul quote vars = Inr cfg" "cf_PaymailDomain cfg \<noteq> []" "cf_StorageBackend cfg \<noteq> ''mongo''"
  with b show "\<exists>e. r = Inl e" "w' = w" by (auto simp: boot_def checkLookupBackend_def lookupEnabled_def)
next
  fix srv assume "r = Inr srv"
  from boot_running [OF b [unfolded this]] obtain cfg where cfg: "Load ul quote vars = Inr cfg" "runs_as cfg srv" by blast
  have sound: "config_sound cfg" by (rule Load_sound [OF cfg(1) ul])
  then have "purchases_sound cfg" by (simp add: config_sound_def)
  with cfg sound paid_server_has_lookup [of cfg srv] show "\<exists>cfg. Load ul quote vars = Inr cfg \<and> config_sound cfg \<and> runs_as cfg srv \<and>
       (\<forall>m p. sv_purchases srv = Some (m, p) \<longrightarrow>
          (\<exists>l. sv_lookup srv = Some l \<and> ls_registry l = m) \<and> (\<exists>st. pv_verifiers p st \<noteq> None))" by blast
qed

end
