(* ===== verification/Startup_Samples.thy ===== *)
theory Startup_Samples
  imports Startup Handle_Samples
begin

text \<open>
  Concrete environments and a world to start in: it counts the stores and wallets that were opened.
\<close>

definition sample_vars :: environment where
  "sample_vars k =
     (case map_of [(''SERVER_PRIVATE_KEY'', ''1''), (''STORAGE_BACKEND'', ''mongo''), (''PAYMAIL_DOMAIN'', '' Wallet.ORG ''),
        (''PAYMAIL_HOST'', ''https://wallet.org//''), (''HANDLE_COOLDOWN_DAYS'', ''99999999''), (''HANDLE_PURCHASES_REQUIRED'', ''True''),
        (''GOOGLE_PLAY_PACKAGE_NAME'', ''org.wallet''), (''GOOGLE_PLAY_SERVICE_ACCOUNT_JSON'', ''{}''), (''ROUTING_PREFIX'', ''/v1''),
        (''TRUSTED_PROXY_HOPS'', ''0'')] k of
        None \<Rightarrow> [] | Some v \<Rightarrow> v)"

definition sample_libs :: "(unit, nat) verifier_libs" where
  "sample_libs = \<lparr>vl_readFile = \<lambda>p. Inl ''no file'', vl_parseKey = \<lambda>k. Inr (), vl_newService = \<lambda>c. Inr (), vl_play = play_answers,
     vl_sha256 = \<lambda>s. s, vl_sign = \<lambda>k d. Inr (1, 2), vl_now = \<lambda>f. 0, vl_send = \<lambda>u a f. (Inl ''no network'', f),
     vl_wire = \<lparr>aw_transaction = \<lambda>b. Inl [], aw_renewal = \<lambda>b. Inl [], aw_transactionInfo = \<lambda>b. Inl [], aw_status = \<lambda>b. Inl [],
       aw_notification = \<lambda>b. Inl []\<rparr>, vl_parseTime = \<lambda>s. Inr 9000000\<rparr>"

definition sample_wallet :: "(nat, bool, string, unit, unit) wallet_libs" where
  "sample_wallet = \<lparr>wl_mainnet = True, wl_testnet = False, wl_parseNetwork = \<lambda>s. Inl ''unknown'', wl_keyFromHex = \<lambda>s. Inr s,
     wl_protoWallet = \<lambda>k. Inr k, wl_newClient = \<lambda>u k w. (Inr (), w + 1), wl_newRemote = \<lambda>n k c w. (Inr (), w),
     wl_makeAvailable = \<lambda>c w. (Inr (), w), wl_cleanup = \<lambda>c w. w, wl_newProvider = \<lambda>n w. (Inr (), w + 1),
     wl_identityKey = \<lambda>s. Inr s, wl_migrate = \<lambda>g n k w. (Inr (), w), wl_newLocal = \<lambda>n k g w. (Inr (), w)\<rparr>"

definition sample_outside :: "(nat, unit, string, bool, string, unit, unit, unit, nat) outside" where
  "sample_outside = \<lparr>os_openSql = \<lambda>d s w. (Inr (), w + 1), os_openMongo = \<lambda>u d w. (Inr d, w + 1), os_ensureSchema = \<lambda>st w. (Inr (), w),
     os_firebase = \<lambda>c w. (None, w), os_wallet = sample_wallet, os_libs = sample_libs, os_newValidator = \<lambda>u. Inr ()\<rparr>"

definition sample_boot :: "(string + (unit, string, unit, nat) server) \<times> nat" where
  "sample_boot = boot same_rune (\<lambda>s. s) sample_outside sample_vars 0"

text \<open>The sample starts: with the lookup on the MongoDB store, the cooldown capped and paid handles on.\<close>

lemma sample_boot_runs: "isl (fst sample_boot) = False"
  by code_simp

text \<open>On the sample server Ann buys her handle.\<close>

lemma sample_server_put:
  "fst (serverPutHandle same_rune test_sdk test_decode (projr (fst sample_boot)) 5000000 (BodyRead ''paid'') (paid_world [] [])) =
     Some (JsonReply 201 (RawMessage ''canonical''))"
  by code_simp

lemma sample_loads:
  "\<exists>cfg. Load same_rune (\<lambda>s. s) sample_vars = Inr cfg \<and> cf_HandlePurchasesRequired cfg \<and> cf_PaymailDomain cfg = ''wallet.org''"
proof -
  have "isl (Load same_rune (\<lambda>s. s) sample_vars) = False \<and> cf_HandlePurchasesRequired (projr (Load same_rune (\<lambda>s. s) sample_vars)) \<and>
      cf_PaymailDomain (projr (Load same_rune (\<lambda>s. s) sample_vars)) = ''wallet.org''" by code_simp
  then show ?thesis by (metis sum.collapse(2))
qed

lemma sample_boot_eq: "boot same_rune (\<lambda>s. s) sample_outside sample_vars 0 = (Inr (projr (fst sample_boot)), snd sample_boot)"
  using sample_boot_runs by (simp add: sample_boot_def [symmetric] prod_eq_iff)

text \<open>A default limit without a cap, under the default maximum of 1000.\<close>

definition uncapped_vars :: environment where
  "uncapped_vars k = (if k = ''SERVER_PRIVATE_KEY'' then ''1'' else if k = ''LIST_DEFAULT_LIMIT'' then ''-1'' else [])"

lemma uncapped_loads:
  "\<exists>cfg. Load same_rune (\<lambda>s. s) uncapped_vars = Inr cfg \<and> cf_ListDefaultLimit cfg = - 1 \<and> cf_ListMaxLimit cfg = 1000"
proof -
  have "isl (Load same_rune (\<lambda>s. s) uncapped_vars) = False \<and> cf_ListDefaultLimit (projr (Load same_rune (\<lambda>s. s) uncapped_vars)) = - 1 \<and>
      cf_ListMaxLimit (projr (Load same_rune (\<lambda>s. s) uncapped_vars)) = 1000" by code_simp
  then show ?thesis by (metis sum.collapse(2))
qed

end
