(* ===== verification/Logger.thy ===== *)
theory Logger
  imports Prelude
begin

text \<open>
  The log switch (\<open>internal/logger\<close>): what reaches which writer. A writer is named by a value of \<open>'o\<close>; the
  format of a line belongs to \<open>slog\<close>.
\<close>

datatype level = LevelInfo | LevelWarn | LevelError

record 'o logger =
  lg_enabled :: bool
  lg_std :: 'o
  lg_written :: "('o \<times> level \<times> string) list"

definition newLoggerState :: "'o \<Rightarrow> 'o logger" where
  "newLoggerState stdout = \<lparr>lg_enabled = False, lg_std = stdout, lg_written = []\<rparr>"

definition logger_Enable :: "'o logger \<Rightarrow> 'o logger" where
  "logger_Enable l = l\<lparr>lg_enabled := True\<rparr>"

definition logger_Disable :: "'o logger \<Rightarrow> 'o logger" where
  "logger_Disable l = l\<lparr>lg_enabled := False\<rparr>"

definition logger_IsEnabled :: "'o logger \<Rightarrow> bool" where
  "logger_IsEnabled l = lg_enabled l"

definition writeLine :: "level \<Rightarrow> string \<Rightarrow> 'o logger \<Rightarrow> 'o logger" where
  "writeLine lv msg l = l\<lparr>lg_written := lg_written l @ [(lg_std l, lv, msg)]\<rparr>"

text \<open>\<open>SetOutput\<close> returns the function that puts back the writer that was there.\<close>

definition SetOutput :: "'o \<Rightarrow> 'o logger \<Rightarrow> ('o logger \<Rightarrow> 'o logger) \<times> 'o logger" where
  "SetOutput w l = (let prev = lg_std l in (\<lambda>l'. l'\<lparr>lg_std := prev\<rparr>, l\<lparr>lg_std := w\<rparr>))"

definition logger_Log :: "string \<Rightarrow> 'o logger \<Rightarrow> 'o logger" where
  "logger_Log msg l = (if lg_enabled l then writeLine LevelInfo msg l else l)"

definition logger_Warn :: "string \<Rightarrow> 'o logger \<Rightarrow> 'o logger" where
  "logger_Warn msg l = (if lg_enabled l then writeLine LevelWarn msg l else l)"

definition logger_Error :: "string \<Rightarrow> 'o logger \<Rightarrow> 'o logger" where
  "logger_Error msg l = writeLine LevelError msg l"

lemmas logger_defs = newLoggerState_def logger_Enable_def logger_Disable_def logger_IsEnabled_def writeLine_def SetOutput_def
  logger_Log_def logger_Warn_def logger_Error_def

text \<open>While the switch is off only errors are written, by whatever sequence of calls.\<close>

datatype log_call = CallLog string | CallWarn string | CallError string

fun runCall :: "log_call \<Rightarrow> 'o logger \<Rightarrow> 'o logger" where
  "runCall (CallLog m) l = logger_Log m l"
| "runCall (CallWarn m) l = logger_Warn m l"
| "runCall (CallError m) l = logger_Error m l"

fun errorLines :: "'o \<Rightarrow> log_call list \<Rightarrow> ('o \<times> level \<times> string) list" where
  "errorLines w [] = []"
| "errorLines w (CallError m # cs) = (w, LevelError, m) # errorLines w cs"
| "errorLines w (c # cs) = errorLines w cs"

lemma disabled_writes_errors:
  "\<not> lg_enabled l \<Longrightarrow> lg_written (fold runCall cs l) = lg_written l @ errorLines (lg_std l) cs"
proof (induction cs arbitrary: l)
  case (Cons c cs)
  then show ?case by (cases c) (simp_all add: logger_defs)
qed simp

text \<open>Between \<open>SetOutput\<close> and its restore every line goes to the new writer, and the old one is back
  afterwards.\<close>

lemma redirected_lines:
  assumes "SetOutput w l = (restore, l1)" and "l2 = fold runCall cs l1"
  shows "lg_std (restore l2) = lg_std l \<and> (\<exists>ls. lg_written l2 = lg_written l @ ls \<and> (\<forall>x \<in> set ls. fst x = w))"
proof -
  have "lg_std (fold runCall cs k) = lg_std k \<and> (\<exists>ls. lg_written (fold runCall cs k) = lg_written k @ ls \<and> (\<forall>x \<in> set ls. fst x = lg_std k))"
    for k :: "'a logger"
  proof (induction cs arbitrary: k)
    case (Cons c cs)
    have "lg_std (runCall c k) = lg_std k \<and> (\<exists>ls. lg_written (runCall c k) = lg_written k @ ls \<and> (\<forall>x \<in> set ls. fst x = lg_std k))"
      by (cases c) (simp_all add: logger_defs)
    with Cons.IH [of "runCall c k"] show ?case by (auto simp del: runCall.simps)
  qed simp
  from this [of l1] assms show ?thesis by (auto simp: SetOutput_def Let_def)
qed

end
