(* ===== verification/Spec2Isabelle.thy ===== *)
theory Spec2Isabelle
  imports Samples Handle_Properties Startup_Samples Logger
begin

text \<open>
  A verification of the message box server: the storage contract and its two backends, the HTTP
  handlers over it, the handle registry with its paid handles, and the start of the process.

  \<^bold>\<open>The program.\<close> A client, identified by the key it authenticates with, sends messages to boxes of
  other identities, lists and acknowledges its own, sets a fee or a block for each sender and box, and
  registers devices for pushes. Where a paymail domain is configured, a client also registers a handle
  with a self-signed certificate, paid for through an app store where that is required; anyone may look
  handles up. The handlers (\<open>pkg/handlers\<close>) act on a storage backend (\<open>pkg/storage\<close>), a wallet that
  takes payments and Firebase. A process is put together in \<open>cmd/server\<close> from the environment.

  \<^bold>\<open>Shared.\<close> \<open>Prelude\<close> has the basic types and the facts on lists; \<open>Go_Strings\<close>, \<open>Json\<close> and \<open>Base64\<close> model
  what the code uses of Go's \<open>strings\<close>, \<open>strconv\<close>, \<open>utf8\<close>, \<open>encoding/json\<close> and \<open>encoding/base64\<close>; \<open>Http\<close> the
  reply of a handler. A Go string is a byte string, an instant an integer of nanoseconds, an \<open>int\<close> an
  integer with the wrap-around written out where an operation can overflow, an error a value of a sum; the
  run-time panic of a slice out of range is the error \<open>ErrPanic\<close>.
  A handler maps the caller's key and the decoded request to a reply and the next state.

  \<^bold>\<open>Storage.\<close> \<open>Storage_Types\<close> has the records of \<open>types.go\<close> and the connection: every round trip asks a
  script of faults whether the statement runs, is lost, or runs and loses its reply. \<open>Store_Contract\<close>
  is the interface \<open>storage.Store\<close> as a record of operations and its documented promises as the locales
  \<open>message_store\<close>, \<open>permission_store\<close>, \<open>fee_store\<close>, \<open>device_store\<close> and \<open>full_store\<close> over an abstract state;
  \<open>stamped_store\<close> adds which time a backend stamps a device with.
  \<open>Sql_Store\<close> (\<open>sqlstore\<close>) models the tables with each statement of \<open>queries.go\<close> as a function on them,
  \<open>Mongo_Store\<close> (\<open>mongostore.go\<close>) the collections with each driver call. \<open>Sql_Refinement\<close> and
  \<open>Mongo_Refinement\<close> give invariant and abstraction and interpret the locales (\<open>sqlStore\<close>, \<open>mongoStore\<close>, \<open>sqlStamped\<close>,
  \<open>mongoStamped\<close>). \<open>Schema\<close> proves what \<open>EnsureSchema\<close> does to the database of an earlier release. On SQLite that
  is a rebuild of the device table: each statement is a function that creates, fills, drops or renames a
  table, rows included, and their transaction is what keeps an interruption from losing rows.

  \<^bold>\<open>Handlers.\<close> \<open>Policy\<close>, \<open>Permissions\<close>, \<open>Send_Message\<close>, \<open>List_Messages\<close> (with acknowledging) and \<open>Devices\<close>
  follow the files of the same names; \<open>Push\<close> is \<open>internal/firebase\<close>, \<open>Rate_Limiter\<close> is \<open>ratelimit.go\<close>.
  Their lemmas are proved inside the locales of the contract, so they hold for both backends.
  \<open>Delivery\<close> composes them: what is sent is listed, who is blocked delivers nothing, paging returns
  everything.

  \<^bold>\<open>Handles.\<close> \<open>Handles\<close> and \<open>Handle_Words\<close> are the rules of \<open>pkg/handles\<close>; \<open>Profile_Cert\<close> is
  \<open>pkg/profilecert\<close>. \<open>Handle_Registry\<close> models \<open>mongostore/handles.go\<close> as conditional writes, each atomic,
  between which other clients write: the state carries the writes that arrive before each round trip.
  \<open>Handle_Safety\<close> proves what holds under every such interleaving, \<open>Handle_Decision\<close> that an undisturbed
  claim or release decides as documented, \<open>Handle_Trips\<close> how many round trips they take.
  \<open>Handle_Interface\<close> has the locale \<open>handle_registry\<close> the handlers rely on. \<open>Lookup\<close> is \<open>lookup.go\<close> and
  \<open>admin_handle.go\<close>.

  \<^bold>\<open>Paying.\<close> \<open>Subscriptions\<close> is the collection of store subscriptions, \<open>Verifiers\<close> and \<open>Apple_Token\<close> are
  \<open>pkg/purchases\<close>, \<open>Paid_Handles\<close> is \<open>PutHandle\<close> and \<open>purchases.go\<close> with the sweep of lapsed
  subscriptions. \<open>Paid_Safety\<close> extends the registry's locale to \<open>paid_registry\<close> and proves what paying
  guarantees in it; \<open>Paid_Store\<close> interprets it (\<open>paidStore\<close>) on the two collections and the stores'
  servers; \<open>Put_Handle\<close> states a registration end to end.

  \<^bold>\<open>Starting.\<close> \<open>Config\<close> is \<open>pkg/config\<close>: \<open>Load\<close> from the environment, stage by stage. \<open>Routing\<close> models
  \<open>http.ServeMux\<close> (cleaned paths, literals before wildcards before subtrees, methods, redirects) and the
  four tables of routes, the Swagger UI among the open ones. \<open>Startup\<close> is \<open>cmd/server\<close> up to the listener: opening the store, the wallet, the
  lookup and the paid handles. \<open>Logger\<close> is \<open>internal/logger\<close>; that the handlers log is not part of their
  models.

  \<^bold>\<open>What is shown.\<close> C1 to C6: delivery, blocking, payment outputs. C7 to C12: listing, paging and
  acknowledging, and that both backends answer alike. C13 and C14: fees and quotes. C15 to C19: storing,
  devices and migrations refine the contract. C20 to C25: the registry under interference. C26 to C30
  and C37: registering, paying and lapsing, C28 on a server as it was started. C31 to C34: searching,
  availability, certificates and the look-alike fold. C35 and C36: configuration, start and routes. C38 to C40: devices, pushes, the rate
  limit. The properties are in this theory and in \<open>Handle_Properties\<close>; \<open>Samples\<close>, \<open>Handle_Samples\<close> and
  \<open>Startup_Samples\<close> hold the inputs they are evaluated on. C24, C26, C27, C30 and C32 speak of a registry that
  answers and that no other client writes to in between. What the sweep of lapsed subscriptions does
  outside that, and outside the cases of C30, is shown by two runs in \<open>Handle_Properties\<close>: a release can hit
  an owner who claimed the handle in between, and a lapsed subscription that is looked at before a
  renewed one of the same owner costs the handle.

  \<^bold>\<open>Bounds.\<close> The JSON parser carries twice the length of its text plus two as fuel; every second call
  consumes a byte. The three passes of \<open>bindLoop\<close> and the one retry of a raced claim are the code's own
  loops. Every other function terminates by its own recursion. A claim takes at most twelve round
  trips, a release two (C25). The numbers of a page stay within 64 bits: the endpoint bounds limit and
  offset by the largest integer of JavaScript, so the \<open>Limit+1\<close> of \<open>readMessagePage\<close> and the sum the in-memory
  pager takes do not overflow in a request (C11).

  \<^bold>\<open>Parameters.\<close> What the code calls outside the repository is an argument: the test for a public key, the
  wallet, FCM, the certificate SDK, the app stores' clients and transports, hashing and signing,
  \<open>net.ParseIP\<close>, \<open>url.PathUnescape\<close>, \<open>time.Parse\<close>, the \<open>%q\<close> verb and lower case beyond ASCII.
  The start of the process is stated for any result of opening a database (\<open>sqlstore.NewContext\<close>,
  \<open>mongostore.New\<close>), of \<open>EnsureSchema\<close> and of \<open>firebase.Initialize\<close>: these are arguments of \<open>boot\<close>, the last two
  with models of their own in \<open>Schema\<close>, the stores and \<open>Push\<close>.

  \<^bold>\<open>Not modelled.\<close> The listener, signals, shutdown and time limits, connecting to a database are
  input and output. \<open>docs\<close> is generated; \<open>storagetest\<close> and \<open>purchasestest\<close> are test suites.
  Authentication and the payment middleware belong to a library, and stand as the border between open
  and protected routes. The column widths of the SQL schema, patterns with a host, \<open>CONNECT\<close> requests and
  a routing prefix that is not a list of literal segments are left out. Operations of the two message
  backends run one at a time between the faults of their connection; interleaving is modelled for the
  handle registry and the subscriptions.
\<close>

abbreviation sqlOk :: "sql \<Rightarrow> bool" where
  "sqlOk s \<equiv> sql_ok (conn_data s)"

abbreviation sqlView :: "sql \<Rightarrow> abs_store" where
  "sqlView s \<equiv> sql_view (conn_data s)"

abbreviation mongoOk :: "mongo \<Rightarrow> bool" where
  "mongoOk s \<equiv> mongo_ok (conn_data s)"

abbreviation mongoView :: "mongo \<Rightarrow> abs_store" where
  "mongoView s \<equiv> mongo_view (conn_data s)"

section \<open>Sending\<close>

text \<open>C1. When one recipient's fee in force for the sender is the blocking fee, a valid request
  delivers to nobody: no message is stored, the wallet is not asked and no push is spawned, and the
  reply of a server whose database answers is 403 with exactly the blocked recipients.\<close>

theorem blocked_recipient_stops_delivery:
  assumes "sqlOk (w_db st)" and "validateSend valid req = Inr (msg, recs, ids, b)"
    and "r \<in> set recs" and "fee_in_force (sqlView (w_db st)) (trimSpace r) sk b = FeeBlocked"
    and "sendMessage (SqlStore driver) valid internalize sk (Decoded req) st = (reply, st')"
  shows "a_msgs (sqlView (w_db st')) = a_msgs (sqlView (w_db st)) \<and> w_wallet st' = w_wallet st \<and> w_pushes st' = w_pushes st \<and>
    (healthy (w_db st) \<longrightarrow> (\<exists>desc. reply = JsonReply 403 (DeliveryBlockedError desc
       (map trimSpace (filter (\<lambda>r. fee_in_force (sqlView (w_db st)) (trimSpace r) sk b = FeeBlocked) recs)))))"
  using assms by (rule sqlStore.send_blocked)

theorem blocked_recipient_stops_delivery_witness:
  "w_wallet (snd (sendMessage (SqlStore ''sqlite3'') any_key accepting ''bob'' (Decoded send_req) (sql_world blocking_sql))) = 0"
proof -
  let ?st = "sql_world blocking_sql"
  obtain reply st' where eq: "sendMessage (SqlStore ''sqlite3'') any_key accepting ''bob'' (Decoded send_req) ?st = (reply, st')"
    by fastforce
  have 1: "sqlOk (w_db ?st)" by (simp add: samples)
  have 3: "fee_in_force (sqlView (w_db ?st)) (trimSpace ''alice'') ''bob'' ''inbox'' = FeeBlocked" by code_simp
  show ?thesis using blocked_recipient_stops_delivery [OF 1 sample_send _ 3 eq] eq by (simp add: sql_world_def)
qed

text \<open>C2. A success reply means that one message per recipient was stored, with the trimmed recipient,
  the id given for it, the sender and the box; that every id was new and given once; that nothing
  stored before was lost; that the results list the recipients and ids in order; and that a push
  was spawned for each message when the box pushes.\<close>

theorem reported_send_is_stored:
  assumes "sqlOk (w_db st)" and "validateSend valid req = Inr (msg, recs, ids, b)"
    and "sendMessage (SqlStore driver) valid internalize sk (Decoded req) st = (JsonReply 200 (SendMessageResponse txt results), st')"
  shows "\<exists>ms. map nm_Recipient ms = map trimSpace recs \<and> map nm_MessageID ms = ids \<and>
     (\<forall>m \<in> set ms. nm_Sender m = sk \<and> nm_MessageBox m = b) \<and>
     fst ` a_msgs (sqlView (w_db st')) = fst ` a_msgs (sqlView (w_db st)) \<union> set ms \<and>
     a_msgs (sqlView (w_db st)) \<subseteq> a_msgs (sqlView (w_db st')) \<and>
     distinct ids \<and> set ids \<inter> msg_ids (sqlView (w_db st)) = {} \<and>
     map res_Recipient results = map trimSpace recs \<and> map res_MessageID results = ids \<and>
     w_pushes st' = w_pushes st @ pushesFor b (zip (map trimSpace recs) ids)"
  using assms by (rule sqlStore.send_stored)

theorem reported_send_is_stored_witness:
  "\<exists>m. m \<in> fst ` a_msgs (sqlView (w_db sent_sql)) \<and> nm_MessageID m = ''m9'' \<and> nm_Recipient m = ''alice'' \<and> nm_Sender m = ''bob''"
proof -
  obtain desc where eq: "sendMessage (SqlStore ''sqlite3'') any_key accepting ''bob'' (Decoded send_req) (sql_world inbox_sql) =
    (JsonReply 200 (SendMessageResponse desc [\<lparr>res_Recipient = ''alice'', res_MessageID = ''m9''\<rparr>]), sent_sql)"
    using sent_sql_reply by blast
  have 1: "sqlOk (w_db (sql_world inbox_sql))" by (simp add: samples)
  have trim: "trimSpace ''alice'' = ''alice''" by code_simp
  obtain ms where ms: "map nm_Recipient ms = map trimSpace [''alice'']" "map nm_MessageID ms = [''m9'']"
      "\<forall>m \<in> set ms. nm_Sender m = ''bob'' \<and> nm_MessageBox m = ''inbox''"
      "fst ` a_msgs (sqlView (w_db sent_sql)) = fst ` a_msgs (sqlView (w_db (sql_world inbox_sql))) \<union> set ms"
    using reported_send_is_stored [OF 1 sample_send eq] by (elim exE conjE) (rule that)
  then obtain m where "ms = [m]" by auto
  with ms trim show ?thesis by (intro exI [of _ m]) auto
qed

text \<open>C3. Whatever the reply, and whatever faults the database has, a valid request leaves the store
  with what it held, default permission rows, and a prefix of the messages planned for the
  recipients: nothing else is written, and never a message for a later recipient without the
  earlier ones.\<close>

theorem send_stores_a_prefix:
  assumes "mongoOk (w_db st)" and "validateSend valid req = Inr (msg, recs, ids, b)"
    and "sendMessage (MongoStore colls) valid internalize sk (Decoded req) st = (reply, st')"
  shows "\<exists>B per ms k. defaults_added b (mongoView (w_db st)) B \<and> stored_all ms B (mongoView (w_db st')) \<and>
     map Some ms = map (\<lambda>(r, i). messageFor sk b (sm_Body msg) (sr_Payment req) per r i) (take k (zip (map trimSpace recs) ids)) \<and>
     mongoOk (w_db st')"
  using assms by (rule mongoStore.send_prefix)

theorem send_stores_a_prefix_witness:
  "mongoOk (w_db (snd (sendMessage (MongoStore mongo_colls) any_key accepting ''bob'' (Decoded send_req) (mongo_world empty_mongo))))"
proof -
  obtain reply st' where eq: "sendMessage (MongoStore mongo_colls) any_key accepting ''bob'' (Decoded send_req) (mongo_world empty_mongo) = (reply, st')"
    by fastforce
  have 1: "mongoOk (w_db (mongo_world empty_mongo))" by (simp add: samples)
  show ?thesis using send_stores_a_prefix [OF 1 sample_send eq] eq by auto
qed

text \<open>C4. Blocking works end to end: after a recipient's request to block a sender (or, box-wide, every
  sender without a permission of their own) was accepted, a send by that sender that names the
  recipient stores nothing, takes no payment, spawns no push and is not reported as sent.\<close>

theorem blocked_sender_delivers_nothing:
  assumes "sqlOk (w_db st)"
    and "handleSetPermission (SqlStore driver) valid r (Decoded preq) (w_db st) = (JsonReply code txt, s1)"
    and "spr_RecipientFee preq = Some FeeBlocked" and "spr_MessageBox preq = b"
    and "spr_Sender preq = Some sk \<and> sk \<noteq> [] \<or>
      spr_Sender preq = None \<and> (sk = [] \<or> a_perms (sqlView (w_db st)) (r, Some sk, b) = None)"
    and "validateSend valid req = Inr (msg, recs, ids, b)" and "r \<in> trimSpace ` set recs"
    and "sendMessage (SqlStore driver) valid internalize sk (Decoded req) (st\<lparr>w_db := s1\<rparr>) = (reply, st')"
  shows "a_msgs (sqlView (w_db st')) = a_msgs (sqlView (w_db st)) \<and> w_wallet st' = w_wallet st \<and> w_pushes st' = w_pushes st \<and>
    (\<forall>code' txt'. reply \<noteq> JsonReply 200 (SendMessageResponse code' txt'))"
  using assms by (rule sqlStore.block_then_send)

theorem blocked_sender_delivers_nothing_witness:
  "w_wallet (snd (sendMessage (SqlStore ''sqlite3'') any_key accepting ''bob'' (Decoded send_req)
     ((sql_world inbox_sql)\<lparr>w_db := snd (handleSetPermission (SqlStore ''sqlite3'') any_key ''alice'' (Decoded block_req) (on_sql inbox_sql))\<rparr>))) = 0"
proof -
  let ?set = "handleSetPermission (SqlStore ''sqlite3'') any_key ''alice'' (Decoded block_req) (on_sql inbox_sql)"
  let ?st = "(sql_world inbox_sql)\<lparr>w_db := snd ?set\<rparr>"
  obtain reply st' where eq: "sendMessage (SqlStore ''sqlite3'') any_key accepting ''bob'' (Decoded send_req) ?st = (reply, st')"
    by fastforce
  have f: "fst ?set = JsonReply 200 ''Messages from bob to inbox are now blocked.''" by code_simp
  have 1: "sqlOk (w_db (sql_world inbox_sql))" by (simp add: samples)
  have 2: "handleSetPermission (SqlStore ''sqlite3'') any_key ''alice'' (Decoded block_req) (w_db (sql_world inbox_sql)) =
      (JsonReply 200 ''Messages from bob to inbox are now blocked.'', snd ?set)"
    using f by (metis prod.collapse sample_world(1))
  have 3: "''alice'' \<in> trimSpace ` set [''alice'']" by code_simp
  show ?thesis
    using blocked_sender_delivers_nothing [OF 1 2 _ _ _ sample_send 3 eq] eq by (simp add: block_req_def sql_world_def)
qed

text \<open>C5. A message that was reported as sent is returned by the recipient's listing of the box, under
  its id, with the sender and the body stored for that recipient.\<close>

theorem sent_message_is_listed:
  assumes "mongoOk (w_db st)" and "validateSend valid req = Inr (msg, recs, ids, b)"
    and "sendMessage (MongoStore colls) valid internalize sk (Decoded req) st = (JsonReply 200 (SendMessageResponse txt results), st')"
    and "\<lparr>res_Recipient = r, res_MessageID = i\<rparr> \<in> set results"
    and "ListMessages (MongoStore colls) r b (w_db st') = (Inr xs, s2)"
  shows "\<exists>per m nm. m \<in> set xs \<and> m_MessageID m = i \<and> m_Sender m = sk \<and>
     messageFor sk b (sm_Body msg) (sr_Payment req) per r i = Some nm \<and> m_Body m = nm_Body nm"
  using assms by (rule mongoStore.send_then_list)

theorem sent_message_is_listed_witness:
  "\<exists>xs m. fst (mongo_ListMessages ''alice'' ''inbox'' (w_db sent_mongo)) = Inr xs \<and> m \<in> set xs \<and> m_MessageID m = ''m9'' \<and> m_Sender m = ''bob''"
proof -
  let ?r = "sendMessage (MongoStore mongo_colls) any_key accepting ''bob'' (Decoded send_req) (mongo_world inbox_mongo)"
  have "fst ?r = JsonReply 200 (SendMessageResponse ''Your message has been sent to 1 recipient(s).'' [\<lparr>res_Recipient = ''alice'', res_MessageID = ''m9''\<rparr>])"
    by code_simp
  then have eq: "?r = (JsonReply 200 (SendMessageResponse ''Your message has been sent to 1 recipient(s).''
      [\<lparr>res_Recipient = ''alice'', res_MessageID = ''m9''\<rparr>]), sent_mongo)" unfolding sent_mongo_def by (metis prod.collapse)
  have 1: "mongoOk (w_db (mongo_world inbox_mongo))" by (simp add: samples)
  have "\<not> isl (fst (mongo_ListMessages ''alice'' ''inbox'' (w_db sent_mongo)))" by code_simp
  then obtain xs s2 where l: "mongo_ListMessages ''alice'' ''inbox'' (w_db sent_mongo) = (Inr xs, s2)"
    by (metis prod.collapse sum.collapse(2))
  have l': "ListMessages (MongoStore mongo_colls) ''alice'' ''inbox'' (w_db sent_mongo) = (Inr xs, s2)"
    using l by (simp add: MongoStore_def)
  show ?thesis using sent_message_is_listed [OF 1 sample_send eq _ l'] l by auto
qed


text \<open>C6. The payment of a delivery is split so that every recipient who is owed a fee gets at least one
  output, nobody else gets any, all of them come from the part of the payment that is not the
  server's own output, and the outputs tagged with a recipient's key go to that recipient, in
  order.\<close>

theorem payment_outputs_reach_their_recipients:
  assumes "buildPerRecipientOutputs outputs df rows = Inr per"
  shows "(per r \<noteq> None \<longleftrightarrow> r \<in> set (feeRecipients rows)) \<and>
    (\<forall>outs. per r = Some outs \<longrightarrow> outs \<noteq> [] \<and> set outs \<subseteq> set (recipientSide df outputs)) \<and>
    (\<forall>out \<in> set (recipientSide df outputs). r \<in> set (feeRecipients rows) \<and> r \<noteq> [] \<and> extractRecipientKey out = r \<longrightarrow>
       per r = Some (filter (\<lambda>out. extractRecipientKey out = r) (recipientSide df outputs)))"
  using build_ok [OF assms] by blast

theorem payment_outputs_reach_their_recipients_witness:
  "buildPerRecipientOutputs (map (\<lambda>i. fee_output i []) [0, 1, 2]) 10
     (map (\<lambda>r. \<lparr>fr_recipient = r, fr_recipientFee = 5, fr_allowed = True\<rparr>) [''alice'', ''bob'']) \<noteq> Inr Map.empty"
proof
  assume "buildPerRecipientOutputs (map (\<lambda>i. fee_output i []) [0, 1, 2]) 10
     (map (\<lambda>r. \<lparr>fr_recipient = r, fr_recipientFee = 5, fr_allowed = True\<rparr>) [''alice'', ''bob'']) = Inr Map.empty"
  from payment_outputs_reach_their_recipients [OF this, of "''alice''"] show False by (simp add: feeRecipients_def)
qed

section \<open>Listing\<close>

text \<open>C7. A client of the listing endpoint that asks for pages and follows the offset it is given for as long
  as the server says there is more gets, after finitely many requests, every matching message from its
  offset on, each once and in order: as long as its limit is within LIST_MAX_LIMIT, no message to be
  returned lies past LIST_MAX_OFFSET, no single message exceeds the response budget, and the database
  answers. As many requests as there are messages left, and one, are enough. A request for an offset
  above LIST_MAX_OFFSET is refused with status 400, so a box that reaches past it cannot be paged to its
  end.\<close>

theorem paging_returns_everything:
  assumes "normalizeMessageBoxName (lr_MessageBox req) = Inr b" and "parseOptionalMessageID (lr_MessageID req) = Inr mid"
    and "k \<noteq> []" and "1 \<le> limit" and "limit \<le> limit_cap cfg" and "mongoOk s" and "healthy s" and "0 \<le> off"
    and "matching (mongoView s) k b mid all" and "all_fit (lc_MaxResponseBytes cfg) all" and "length all - nat off < n"
  shows "(off \<le> offset_cap cfg \<and> int (length all) \<le> offset_cap cfg + 1 \<longrightarrow>
      collect (MongoStore colls) cfg k req limit n off s = Some (map formatMessage (drop (nat off) all))) \<and>
    (offset_cap cfg < off \<and> off \<le> safeIntegerLimit \<longrightarrow>
      (\<exists>d. handleListMessages (MongoStore colls) cfg k (Decoded (page_request req limit off)) s = (ErrorReply 400 ''ERR_INVALID_OFFSET'' d, s)))"
proof (intro conjI impI)
  assume "off \<le> offset_cap cfg \<and> int (length all) \<le> offset_cap cfg + 1"
  then show "collect (MongoStore colls) cfg k req limit n off s = Some (map formatMessage (drop (nat off) all))"
    using assms by (intro mongoStore.collect_all) auto
next
  assume "offset_cap cfg < off \<and> off \<le> safeIntegerLimit"
  then show "\<exists>d. handleListMessages (MongoStore colls) cfg k (Decoded (page_request req limit off)) s = (ErrorReply 400 ''ERR_INVALID_OFFSET'' d, s)"
    using assms parse_page_request(2) [OF assms(4,5,8)] by (auto intro!: page_request_refused)
qed

theorem paging_returns_everything_witness:
  "\<exists>all. length all = 3 \<and> collect (MongoStore mongo_colls) (defaultListMessagesConfig\<lparr>lc_MaxResponseBytes := - 1\<rparr>) ''alice'' list_req 2 4 0 (on_mongo inbox_mongo) =
     Some (map formatMessage all)"
proof -
  let ?all = "map messageDoc_message (find_messages ''alice'' ''inbox'' None inbox_mongo)" and ?cfg = "defaultListMessagesConfig\<lparr>lc_MaxResponseBytes := - 1\<rparr>"
  have "distinct (map md_MessageID (c_messages inbox_mongo))" by code_simp
  then have "listing (mongoView (on_mongo inbox_mongo)) ''alice'' ''inbox'' ?all" by (simp add: samples find_listing)
  then have m: "matching (mongoView (on_mongo inbox_mongo)) ''alice'' ''inbox'' None ?all" by (simp add: matching_def id_filter_def)
  have 1: "mongoOk (on_mongo inbox_mongo)" by (simp add: samples)
  have f: "all_fit (lc_MaxResponseBytes ?cfg) ?all" by (simp add: all_fit_def)
  have l: "length ?all = 3" by code_simp
  have r: "normalizeMessageBoxName (lr_MessageBox list_req) = Inr ''inbox''" "parseOptionalMessageID (lr_MessageID list_req) = Inr None" by code_simp+
  have c: "(2 :: int) \<le> limit_cap ?cfg" "3 \<le> offset_cap ?cfg" by code_simp+
  have "length ?all - nat 0 < 4" using l by simp
  from paging_returns_everything [OF r _ _ c(1) 1 sample_healthy(2) _ m f this, of mongo_colls] l c(2) show ?thesis
    by (intro exI [of _ ?all]) simp
qed

text \<open>C8. A page is a run of the matching messages that starts at the requested offset, is at most as
  long as the limit and within the byte budget, is not empty unless nothing is left, gives the
  offset of the first message it does not hold, and says there is more exactly when there is.\<close>

theorem page_is_a_window:
  assumes "sqlOk s" and "1 \<le> lp_Limit pag" and "0 \<le> lp_Offset pag"
    and "readMessagePage (SqlStore driver) r b pag mid maxB s = (Inr (Inr resp), s')"
  shows "\<exists>all k. matching (sqlView s) r b mid all \<and>
      lm_Messages resp = map formatMessage (take k (drop (nat (lp_Offset pag)) all)) \<and>
      k \<le> length all - nat (lp_Offset pag) \<and>
      int k \<le> lp_Limit pag \<and> lm_NextOffset resp = lp_Offset pag + int k \<and>
      (lm_HasMore resp \<longleftrightarrow> nat (lp_Offset pag) + k < length all) \<and>
      (nat (lp_Offset pag) < length all \<longrightarrow> 0 < k) \<and>
      (maxB \<noteq> - 1 \<longrightarrow> listMessagesResponseByteOverhead \<le> maxB \<longrightarrow>
         listMessagesResponseByteOverhead + (\<Sum>m \<leftarrow> lm_Messages resp. itemBytes m) \<le> maxB)"
  by (rule sqlStore.page_ok(1) [OF assms(1-3) _ assms(4)]) (simp add: SqlStore_def)

theorem page_is_a_window_witness:
  "lm_NextOffset sql_page = 2 \<and> lm_HasMore sql_page \<and> int (length (lm_Messages sql_page)) \<le> 2"
proof -
  let ?r = "readMessagePage (SqlStore ''sqlite3'') ''alice'' ''inbox'' \<lparr>lp_Limit = 2, lp_Offset = 0\<rparr> None 2000 (on_sql inbox_sql)"
  have "\<not> isl (fst ?r)" "\<not> isl (projr (fst ?r))" by code_simp+
  then have eq: "?r = (Inr (Inr sql_page), snd ?r)" unfolding sql_page_def by (metis prod.collapse sum.collapse(2))
  have 1: "sqlOk (on_sql inbox_sql)" by (simp add: samples)
  have "int (length (lm_Messages sql_page)) \<le> 2" using page_is_a_window [OF 1 _ _ eq] by auto
  moreover have "lm_NextOffset sql_page = 2 \<and> lm_HasMore sql_page" by code_simp
  ultimately show ?thesis by simp
qed

text \<open>C9. Under every configuration that loads, an accepted pagination has a limit of at least 1 and an
  offset of at least 0, neither above the configured maximum nor above the largest integer a
  JavaScript client can represent, whatever the request holds. A request without pagination gets the
  configured default from the start of the box when that default is a number such a client can
  represent; when the default has no cap and the maximum has one, every request that gives no limit
  is refused.\<close>

theorem pagination_is_bounded:
  assumes "Load ul quote vars = Inr cfg"
  shows "(\<forall>l off sk pag. parseListPagination l off sk (listConfig cfg) = Inr pag \<longrightarrow>
      1 \<le> lp_Limit pag \<and> (cf_ListMaxLimit cfg = - 1 \<or> lp_Limit pag \<le> cf_ListMaxLimit cfg) \<and> lp_Limit pag \<le> safeIntegerLimit \<and>
      0 \<le> lp_Offset pag \<and> (cf_ListMaxOffset cfg = - 1 \<or> lp_Offset pag \<le> cf_ListMaxOffset cfg) \<and> lp_Offset pag \<le> safeIntegerLimit) \<and>
    (cf_ListDefaultLimit cfg \<noteq> - 1 \<and> cf_ListDefaultLimit cfg \<le> safeIntegerLimit \<longrightarrow>
      parseListPagination [] [] [] (listConfig cfg) = Inr \<lparr>lp_Limit = cf_ListDefaultLimit cfg, lp_Offset = 0\<rparr>) \<and>
    (cf_ListDefaultLimit cfg = - 1 \<and> cf_ListMaxLimit cfg \<noteq> - 1 \<and> cf_ListMaxLimit cfg < safeIntegerLimit \<longrightarrow>
      (\<forall>off sk. \<exists>rf. parseListPagination [] off sk (listConfig cfg) = Inl rf))"
  using listConfig_bounds default_pagination_accepted [OF Load_lists_sound [OF assms]] uncapped_default_refused by blast

theorem pagination_is_bounded_witness:
  "\<exists>cfg. Load same_rune (\<lambda>s. s) uncapped_vars = Inr cfg \<and> (\<exists>rf. parseListPagination [] [] [] (listConfig cfg) = Inl rf)"
proof -
  obtain cfg where cfg: "Load same_rune (\<lambda>s. s) uncapped_vars = Inr cfg" "cf_ListDefaultLimit cfg = - 1" "cf_ListMaxLimit cfg = 1000"
    using uncapped_loads by blast
  with pagination_is_bounded [OF cfg(1)] show ?thesis by (auto simp: safeIntegerLimit_def)
qed

text \<open>C10. The two backends cannot be told apart by listing: when the stores hold the same messages, whatever
  else they hold, and both databases answer, a listing request gets the same reply from either, errors
  included.\<close>

theorem backends_list_alike:
  assumes "sqlOk s" and "healthy s" and "mongoOk t" and "healthy t" and "a_msgs (sqlView s) = a_msgs (mongoView t)"
  shows "fst (handleListMessages (SqlStore driver) cfg k body s) = fst (handleListMessages (MongoStore colls) cfg k body t)"
proof (rule list_alike)
  fix r b mid maxB and pag :: listPagination
  assume pag: "1 \<le> lp_Limit pag" "0 \<le> lp_Offset pag" "int64_range (lp_Offset pag + (lp_Limit pag + 1))"
  obtain xs where xs: "matching (sqlView s) r b mid xs" "fst (readMessagePage (SqlStore driver) r b pag mid maxB s) = Inr (pageOf pag maxB xs)"
    using sqlStore.page_reply [OF assms(1,2) pag(1,2) disjI2 [OF pag(3)]] by blast
  obtain ys where ys: "matching (mongoView t) r b mid ys" "fst (readMessagePage (MongoStore colls) r b pag mid maxB t) = Inr (pageOf pag maxB ys)"
    using mongoStore.page_reply [OF assms(3,4) pag(1,2) disjI2 [OF pag(3)]] by blast
  have "xs = ys" using sqlStore.matching_unique [OF assms(1) xs(1)] ys(1) matching_cong [OF assms(5)] by simp
  with xs ys show "fst (readMessagePage (SqlStore driver) r b pag mid maxB s) = fst (readMessagePage (MongoStore colls) r b pag mid maxB t)"
    by simp
qed

theorem backends_list_alike_witness:
  "fst (handleListMessages (SqlStore ''sqlite3'') defaultListMessagesConfig ''alice'' (Decoded list_req) (on_sql inbox_sql)) =
   fst (handleListMessages (MongoStore mongo_colls) defaultListMessagesConfig ''alice'' (Decoded list_req) (on_mongo inbox_mongo))"
proof (rule backends_list_alike)
  show "a_msgs (sqlView (on_sql inbox_sql)) = a_msgs (mongoView (on_mongo inbox_mongo))"
    unfolding sample_healthy(3,4) sql_view_def mongo_view_def
    by (simp add: inbox_sql_def inbox_mongo_def empty_sql_def empty_mongo_def row_message_def box_type_def doc_message_def insert_commute)
qed (simp_all add: samples)

text \<open>C11. The in-memory pager a backend without one of its own falls back on returns exactly the rows
  that a backend's pager returns, for every offset and fetch limit whose sum is a 64-bit integer or whose
  offset is past the end of the box. Where the sum overflows inside the box the slice it takes panics;
  the bounds the endpoint puts on both numbers keep every request clear of that.\<close>

theorem fallback_pager_equals_pager:
  assumes "sqlOk s" and "healthy s" and "1 \<le> n" and "0 \<le> off" and "int64_range n" and "int64_range off"
    and "matching (sqlView s) r b mid all"
  shows "fst (fallbackPageMessages (SqlStore driver) r b off n mid s) =
    (if int64_range (off + n) \<or> int (length all) \<le> off
     then fst (sql_PageMessages driver \<lparr>mq_Recipient = r, mq_MessageBox = b, mq_Offset = off, mq_FetchLimit = n, mq_MessageID = mid\<rparr> s)
     else Inl ErrPanic) \<and>
    (parseListPagination l o' sk cfg = Inr pag \<longrightarrow> int64_range (lp_Offset pag + (lp_Limit pag + 1)))"
proof (intro conjI impI)
  have f: "fetchMessagePageRows (SqlStore driver) r b off n mid s =
      sql_PageMessages driver \<lparr>mq_Recipient = r, mq_MessageBox = b, mq_Offset = off, mq_FetchLimit = n, mq_MessageID = mid\<rparr> s"
    by (simp add: fetchMessagePageRows_def SqlStore_def)
  show "fst (fallbackPageMessages (SqlStore driver) r b off n mid s) =
    (if int64_range (off + n) \<or> int (length all) \<le> off
     then fst (sql_PageMessages driver \<lparr>mq_Recipient = r, mq_MessageBox = b, mq_Offset = off, mq_FetchLimit = n, mq_MessageID = mid\<rparr> s)
     else Inl ErrPanic)"
  proof (cases "int64_range (off + n)")
    case True
    with sqlStore.pager_alike [OF assms(1-4) True, of driver r b mid] f show ?thesis by simp
  next
    case False
    have "fst (fetchMessagePageRows (SqlStore driver) r b off n mid s) = Inr []" if "int (length all) \<le> off"
      using sqlStore.past_the_end [OF assms(1-4) _ assms(7) that, of driver] by (simp add: SqlStore_def)
    with False sqlStore.pager_overflow [OF assms(1-6) False assms(7), of driver] f show ?thesis by auto
  qed
next
  assume "parseListPagination l o' sk cfg = Inr pag"
  from parseListPagination_bounds [OF this] show "int64_range (lp_Offset pag + (lp_Limit pag + 1))"
    by (simp add: int64_range_def safeIntegerLimit_def)
qed

theorem fallback_pager_equals_pager_witness:
  "fst (fallbackPageMessages (SqlStore ''postgres'') ''alice'' ''inbox'' 1 2 None (on_sql inbox_sql)) =
   fst (sql_PageMessages ''postgres'' \<lparr>mq_Recipient = ''alice'', mq_MessageBox = ''inbox'', mq_Offset = 1, mq_FetchLimit = 2, mq_MessageID = None\<rparr> (on_sql inbox_sql))"
proof -
  have 1: "sqlOk (on_sql inbox_sql)" by (simp add: samples)
  obtain all where "matching (sqlView (on_sql inbox_sql)) ''alice'' ''inbox'' None all"
    using sqlStore.page_reply [OF 1 sample_healthy(1), where pag = "\<lparr>lp_Limit = 2, lp_Offset = 1\<rparr>" and r = "''alice''" and b = "''inbox''" and mid = None]
    by (auto simp: int64_range_def)
  from fallback_pager_equals_pager [OF 1 sample_healthy(1) _ _ _ _ this, of 2 1 "''postgres''"] show ?thesis
    by (simp add: int64_range_def)
qed

text \<open>C12. Acknowledging never removes a message that is not addressed to the caller or not named in the
  request, and when the reply is a success it has removed exactly the caller's messages with those
  ids, of which there was at least one.\<close>

theorem acknowledge_removes_only_own:
  assumes "sqlOk s" and "handleAcknowledgeMessage (SqlStore driver) k body s = (reply, s')"
  shows "a_msgs (sqlView s') \<subseteq> a_msgs (sqlView s) \<and>
    (\<forall>v \<in> a_msgs (sqlView s) - a_msgs (sqlView s'). \<exists>ids. body = Decoded ids \<and> msg_id v \<in> set ids \<and> nm_Recipient (fst v) = k) \<and>
    (\<forall>st. reply = JsonReply st () \<longrightarrow> (\<exists>ids. body = Decoded ids \<and> acked k ids (sqlView s) \<noteq> {} \<and>
       a_msgs (sqlView s') = a_msgs (sqlView s) - acked k ids (sqlView s)))"
  using sqlStore.ack_ok [OF assms] by simp

theorem acknowledge_removes_only_own_witness:
  "a_msgs (sqlView (snd (handleAcknowledgeMessage (SqlStore ''sqlite3'') ''mallory'' (Decoded [''m1'']) (on_sql inbox_sql)))) =
   a_msgs (sqlView (on_sql inbox_sql))"
proof -
  obtain reply s' where eq: "handleAcknowledgeMessage (SqlStore ''sqlite3'') ''mallory'' (Decoded [''m1'']) (on_sql inbox_sql) = (reply, s')"
    by fastforce
  have 1: "sqlOk (on_sql inbox_sql)" by (simp add: samples)
  have "\<forall>v \<in> a_msgs (sqlView (on_sql inbox_sql)). nm_Recipient (fst v) = ''alice''"
    by (simp add: samples inbox_sql_def)
  moreover have "\<forall>v \<in> a_msgs (sqlView (on_sql inbox_sql)) - a_msgs (sqlView s'). nm_Recipient (fst v) = ''mallory''"
    using acknowledge_removes_only_own [OF 1 eq] by (elim conjE) blast
  ultimately have "a_msgs (sqlView (on_sql inbox_sql)) - a_msgs (sqlView s') = {}" by force
  moreover have "a_msgs (sqlView s') \<subseteq> a_msgs (sqlView (on_sql inbox_sql))"
    using acknowledge_removes_only_own [OF 1 eq] by (rule conjunct1)
  ultimately show ?thesis unfolding eq snd_conv by (rule_tac subset_antisym) (simp_all only: Diff_eq_empty_iff)
qed


section \<open>Permissions\<close>

text \<open>C13. The fee a lookup returns is the one in force: the sender's own permission, else the
  recipient's box-wide one, else the default of the box. The lookup changes nothing but adding
  default rows where there was none, so that no fee in force changes, and it succeeds whenever the
  database answers.\<close>

theorem fee_lookup_is_the_fee_in_force:
  assumes "sqlOk s" and "recipientFee (SqlStore driver) r sd b s = (x, s')"
  shows "(\<forall>fee. x = Inr fee \<longrightarrow> fee = fee_in_force (sqlView s) r sd b) \<and>
    defaults_added b (sqlView s) (sqlView s') \<and>
    (\<forall>r' sd'. fee_in_force (sqlView s') r' sd' b = fee_in_force (sqlView s) r' sd' b) \<and>
    sqlOk s' \<and> (healthy s \<longrightarrow> (\<exists>fee. x = Inr fee))"
  using sqlStore.recipientFee_ok [OF assms] defaults_added_fee by simp

theorem fee_lookup_is_the_fee_in_force_witness:
  "fst (recipientFee (SqlStore ''postgres'') ''alice'' ''bob'' ''notifications'' (on_sql blocking_sql)) = Inr 10"
proof -
  obtain x s' where eq: "recipientFee (SqlStore ''postgres'') ''alice'' ''bob'' ''notifications'' (on_sql blocking_sql) = (x, s')"
    by fastforce
  have 1: "sqlOk (on_sql blocking_sql)" by (simp add: samples)
  have f: "fee_in_force (sqlView (on_sql blocking_sql)) ''alice'' ''bob'' ''notifications'' = 10" by code_simp
  have h: "healthy (on_sql blocking_sql)" by (simp add: samples)
  show ?thesis using fee_lookup_is_the_fee_in_force [OF 1 eq] f h eq by auto
qed

text \<open>C14. A quote for several recipients lists each of them in order with the server's delivery fee, the
  fee in force for the caller and its status, lists as blocked exactly those whose fee blocks, and
  its totals are the sums, in 64-bit arithmetic, of the delivery fees and of the fees to pay.\<close>

theorem quote_reports_fees_in_force:
  assumes "mongoOk s"
    and "handleGetQuote (MongoStore colls) valid sk query s = (JsonReply st (QuoteMultiResponse d qs tot bl), s')"
    and "b = queryGet query ''messageBox''" and "recs = query ''recipient''"
  shows "qs = map (quoteOf (mongoView s) sk b (a_fees (mongoView s) b)) recs \<and>
    bl = filter (\<lambda>r. fee_in_force (mongoView s) r sk b = FeeBlocked) recs \<and>
    qt_DeliveryFees tot = wrap64 (int (length recs) * a_fees (mongoView s) b) \<and>
    qt_RecipientFees tot = wrap64 (quote_sum (mongoView s) sk b recs) \<and>
    qt_TotalForPayableRecipients tot = wrap64 (int (length recs) * a_fees (mongoView s) b + quote_sum (mongoView s) sk b recs)"
  using mongoStore.quote_multi [OF assms] by simp

theorem quote_reports_fees_in_force_witness:
  "\<exists>d qs tot bl. fst (handleGetQuote (MongoStore mongo_colls) any_key ''bob'' two_recipients (on_mongo empty_mongo)) =
     JsonReply 200 (QuoteMultiResponse d qs tot bl) \<and> qt_TotalForPayableRecipients tot = 40"
proof -
  let ?r = "handleGetQuote (MongoStore mongo_colls) any_key ''bob'' two_recipients (on_mongo empty_mongo)"
  have "(case fst ?r of JsonReply st (QuoteMultiResponse d qs tot bl) \<Rightarrow> st = 200 | _ \<Rightarrow> False)" by code_simp
  then obtain d qs tot bl where f: "fst ?r = JsonReply 200 (QuoteMultiResponse d qs tot bl)"
    by (auto split: response.splits QuoteResponse.splits)
  then have eq: "?r = (JsonReply 200 (QuoteMultiResponse d qs tot bl), snd ?r)" by (metis prod.collapse)
  have 1: "mongoOk (on_mongo empty_mongo)" by (simp add: samples)
  have w: "wrap64 (int (length (two_recipients ''recipient'')) * a_fees (mongoView (on_mongo empty_mongo)) (queryGet two_recipients ''messageBox'') +
      quote_sum (mongoView (on_mongo empty_mongo)) ''bob'' (queryGet two_recipients ''messageBox'') (two_recipients ''recipient'')) = 40"
    by code_simp
  show ?thesis using quote_reports_fees_in_force [OF 1 eq refl refl] f w by auto
qed

section \<open>Storage\<close>

text \<open>C15. The first message under an id wins on both backends: storing reports a duplicate exactly when
  the id is taken, and then changes nothing; otherwise it adds that one message, and only a driver
  fault makes it fail in any other way.\<close>

theorem first_message_wins:
  assumes "sqlOk s" and "healthy s" and "sql_InsertMessage m s = (x, s')"
    and "mongoOk t" and "healthy t" and "mongo_InsertMessage m t = (y, t')"
  shows "(if nm_MessageID m \<in> msg_ids (sqlView s) then x = Inl ErrDuplicateMessage \<and> sqlView s' = sqlView s
          else x = Inr () \<and> inserted m (sqlView s) (sqlView s')) \<and>
    (if nm_MessageID m \<in> msg_ids (mongoView t) then y = Inl ErrDuplicateMessage \<and> mongoView t' = mongoView t
     else y = Inr () \<and> inserted m (mongoView t) (mongoView t'))"
proof -
  note i = sql_InsertMessage_ok [OF assms(1,3)] and j = mongo_InsertMessage_ok [OF assms(4,6)]
  have e: "e = ErrDuplicateMessage \<or> e = ErrBackend" if "x = Inl e \<or> y = Inl e" for e
    using that sqlStore.insert_err [OF assms(1), of _ m e s'] mongoStore.insert_err [OF assms(4), of _ m e t'] assms(3,6)
    by (auto simp: SqlStore_def MongoStore_def)
  have "x = Inr () \<or> x = Inl ErrDuplicateMessage" using e i(2) assms(2) by (cases x) auto
  moreover have "y = Inr () \<or> y = Inl ErrDuplicateMessage" using e j(2) assms(5) by (cases y) auto
  ultimately show ?thesis using i(3,4) j(3,4) by (auto simp: inserted_def)
qed

theorem first_message_wins_witness:
  "fst (sql_InsertMessage dup_msg (on_sql inbox_sql)) = Inl ErrDuplicateMessage \<and>
   fst (mongo_InsertMessage dup_msg (on_mongo empty_mongo)) = Inr ()"
proof -
  obtain x s' y t' where eq: "sql_InsertMessage dup_msg (on_sql inbox_sql) = (x, s')"
    "mongo_InsertMessage dup_msg (on_mongo empty_mongo) = (y, t')" by fastforce
  have "nm_MessageID dup_msg \<in> msg_ids (sqlView (on_sql inbox_sql))" "nm_MessageID dup_msg \<notin> msg_ids (mongoView (on_mongo empty_mongo))"
    by (simp_all add: samples msg_ids_def msg_id_def dup_msg_def inbox_sql_def empty_mongo_def row_message_def)
  then show ?thesis using first_message_wins [OF _ _ eq(1) _ _ eq(2)] eq by (simp add: samples)
qed

text \<open>C16. Registering a device on the SQL backend gives the pair of identity and token one active
  registration with a positive id of its own, keeps the id and the creation time the pair had, and
  touches no other registration, not even one of the same token.\<close>

theorem device_registration_sql:
  assumes "sqlOk s" and "sql_RegisterDevice nd s = (x, s')"
  shows "(case x of Inr i \<Rightarrow> registered nd i (sqlView s) (sqlView s') | Inl e \<Rightarrow> e = ErrBackend) \<and>
    others_kept nd (sqlView s) (sqlView s') \<and> sqlOk s' \<and> (healthy s \<longrightarrow> (\<exists>i. x = Inr i))"
proof -
  have r: "RegisterDevice (SqlStore []) nd s = (x, s')" using assms(2) by (simp add: SqlStore_def)
  note inv = sqlStore.register_inv [OF assms(1) r]
  show ?thesis
  proof (cases x)
    case (Inl e)
    with sqlStore.register_err [OF assms(1)] r inv show ?thesis by auto
  next
    case (Inr i)
    with sqlStore.register_ok [OF assms(1)] r have "registered nd i (sqlView s) (sqlView s')" by blast
    with Inr inv registered_others show ?thesis by auto
  qed
qed

theorem device_registration_sql_witness:
  "registered (phone ''bob'' ''t1'') 10 (sql_view (old_sql\<lparr>legacy_token_key := False, pair_index := True\<rparr>))
     (sqlView (snd (sql_RegisterDevice (phone ''bob'' ''t1'') (on_sql (old_sql\<lparr>legacy_token_key := False, pair_index := True\<rparr>)))))"
proof -
  let ?s = "on_sql (old_sql\<lparr>legacy_token_key := False, pair_index := True\<rparr>)"
  have 1: "sqlOk ?s" by code_simp
  have "fst (sql_RegisterDevice (phone ''bob'' ''t1'') ?s) = Inr 10" by code_simp
  then have eq: "sql_RegisterDevice (phone ''bob'' ''t1'') ?s = (Inr 10, snd (sql_RegisterDevice (phone ''bob'' ''t1'') ?s))"
    by (metis prod.collapse)
  from device_registration_sql [OF 1 eq] show ?thesis by (simp add: samples)
qed

text \<open>C17. The same holds on MongoDB, where the id is drawn from a counter in a statement of its own: a
  document of the previous release gets its id on the next registration, a pair that has one keeps
  it, no two pairs share one, and a registration that a fault interrupts has touched no other
  pair.\<close>

theorem device_registration_mongo:
  assumes "mongoOk s" and "mongo_RegisterDevice nd s = (x, s')"
  shows "(case x of Inr i \<Rightarrow> registered nd i (mongoView s) (mongoView s') | Inl e \<Rightarrow> e = ErrBackend) \<and>
    others_kept nd (mongoView s) (mongoView s') \<and> mongoOk s' \<and> (healthy s \<longrightarrow> (\<exists>i. x = Inr i))"
  using mongo_RegisterDevice_ok [OF assms] registered_others by (cases x) auto

theorem device_registration_mongo_witness:
  "\<exists>i. fst (mongo_RegisterDevice (phone ''alice'' ''t1'') (on_mongo empty_mongo)) = Inr i \<and>
     registered (phone ''alice'' ''t1'') i (mongoView (on_mongo empty_mongo))
       (mongoView (snd (mongo_RegisterDevice (phone ''alice'' ''t1'') (on_mongo empty_mongo))))"
proof -
  obtain x s' where eq: "mongo_RegisterDevice (phone ''alice'' ''t1'') (on_mongo empty_mongo) = (x, s')" by fastforce
  have 1: "mongoOk (on_mongo empty_mongo)" by (simp add: samples)
  have h: "healthy (on_mongo empty_mongo)" by (simp add: samples)
  show ?thesis using device_registration_mongo [OF 1 eq] h eq by auto
qed

text \<open>C18. Booting on an existing SQL database keeps every row of every table, device ids included, and every
  configured fee, whatever faults occur, also in the middle of the rebuild that drops the old device
  table, and leaves a database that can be booted again. All it asks of the old database is what the
  keys of its device table guarantee, in the old shape, the current one or one an interrupted boot left.
  When the boot reports success the device table has its invariant and the keys the operations rely on,
  and every default fee is present; where the messages and permissions of the old database had their
  invariants too, the whole invariant of the backend holds. It does succeed when the database
  answers.\<close>

theorem sql_boot_migrates:
  assumes "migratable (conn_data s)" and "sql_EnsureSchema driver s = (x, s')"
  shows "kept (conn_data s) (conn_data s') \<and> migratable (conn_data s') \<and>
    (x = Inr () \<longrightarrow> devices_inv (conn_data s') \<and> schema_current (conn_data s') \<and> seeded (conn_data s') \<and>
      (messages_inv (conn_data s) \<and> permissions_inv (conn_data s) \<longrightarrow> sqlOk s')) \<and>
    (healthy s \<longrightarrow> x = Inr ())"
  using sql_EnsureSchema_ok [OF assms] migratable_inv kept_ok unfolding booting_def by blast

theorem sql_boot_migrates_witness:
  "sqlOk (snd (sql_EnsureSchema ''sqlite3'' (on_sql old_sql))) \<and> \<not> sql_ok old_sql \<and>
   t_devices (conn_data (snd (sql_EnsureSchema ''sqlite3'' interrupted_sql))) = t_devices old_sql \<and>
   isl (fst (sql_EnsureSchema ''sqlite3'' interrupted_sql))"
proof -
  obtain x s' where eq: "sql_EnsureSchema ''sqlite3'' (on_sql old_sql) = (x, s')" by fastforce
  have 1: "migratable (conn_data (on_sql old_sql))" by code_simp
  have h: "healthy (on_sql old_sql)" by (simp add: samples)
  have i: "messages_inv (conn_data (on_sql old_sql))" "permissions_inv (conn_data (on_sql old_sql))" by code_simp+
  obtain y t' where eq2: "sql_EnsureSchema ''sqlite3'' interrupted_sql = (y, t')" by fastforce
  have 2: "migratable (conn_data interrupted_sql)" by code_simp
  have "t_devices (conn_data t') = t_devices old_sql" using sql_boot_migrates [OF 2 eq2] by (simp add: kept_def interrupted_sql_def samples)
  moreover have "isl (fst (sql_EnsureSchema ''sqlite3'' interrupted_sql))" by code_simp
  ultimately show ?thesis using sql_boot_migrates [OF 1 eq] h i eq eq2
    by (auto simp: old_sql_def sql_ok_def schema_current_def)
qed

text \<open>C19. Booting on a MongoDB of the previous release fills in the missing tokens and removes the
  documents that a newer registration of the same identity and token supersedes: no registration
  is lost, messages, permissions and configured fees are untouched, and when the boot succeeds the
  devices satisfy the invariant the operations rely on. It does succeed when the database
  answers and the unique index on the pairs was there already.\<close>

theorem mongo_boot_backfills:
  assumes "boot_inv (conn_data s)" and "distinct (map md_MessageID (c_messages (conn_data s)))"
    and "perms_distinct (conn_data s)" and "devicesColl \<in> set colls" and "mongo_EnsureSchema colls s = (x, s')"
  shows "(x = Inr () \<longrightarrow> mongoOk s' \<and> fst ` set DefaultDeliveryFees \<subseteq> fst ` set (c_fees (conn_data s'))) \<and>
    tok_pairs (c_devices (conn_data s')) = tok_pairs (c_devices (conn_data s)) \<and>
    c_messages (conn_data s') = c_messages (conn_data s) \<and> c_permissions (conn_data s') = c_permissions (conn_data s) \<and>
    map_of (c_fees (conn_data s)) \<subseteq>\<^sub>m map_of (c_fees (conn_data s')) \<and>
    (healthy s \<longrightarrow> pair_unique (conn_data s) \<longrightarrow> x = Inr ())"
  using mongo_EnsureSchema_ok [OF assms] by blast

theorem mongo_boot_backfills_witness:
  "mongoOk (snd (mongo_EnsureSchema mongo_colls (on_mongo old_mongo))) \<and> \<not> mongo_ok old_mongo"
proof -
  obtain x s' where eq: "mongo_EnsureSchema mongo_colls (on_mongo old_mongo) = (x, s')" by fastforce
  have 1: "boot_inv (conn_data (on_mongo old_mongo))" by code_simp
  have 2: "distinct (map md_MessageID (c_messages (conn_data (on_mongo old_mongo))))" "perms_distinct (conn_data (on_mongo old_mongo))" by code_simp+
  have 3: "devicesColl \<in> set mongo_colls" by code_simp
  have h: "healthy (on_mongo old_mongo)" "pair_unique (conn_data (on_mongo old_mongo))" by (simp_all add: samples old_mongo_def empty_mongo_def)
  have "\<not> mongo_ok old_mongo" by code_simp
  with mongo_boot_backfills [OF 1 2 3 eq] h eq show ?thesis by simp
qed

section \<open>Devices and pushes\<close>

text \<open>C38. After a device registration that was reported, and while the database answers, the caller's
  listing has exactly one entry with the id that was reported: it is active, has the platform and the
  device id of the request and shows the token. The listing has one entry for each registration of the
  caller and no other, and each shows its registration as stored, except that of a token longer than ten
  characters it shows only the last ten, after three dots.\<close>

theorem registered_device_is_listed:
  assumes "mongoOk s" and "healthy s" and "handleRegisterDevice (MongoStore colls) k (Decoded req) s = (JsonReply 200 out, s')"
    and "handleListDevices (MongoStore colls) k s' = (reply, s'')"
  shows "\<exists>ds xs shown ys. reply = JsonReply 200 \<lparr>ldr_Status = statusSuccess, ldr_Devices = xs @ shown # ys\<rparr> \<and>
    do_ID shown = rdr_DeviceID out \<and> do_Active shown \<and> do_Platform shown = rd_Platform req \<and>
    do_DeviceID shown = rd_DeviceID req \<and> token_shown (rd_FCMToken req) (do_FCMToken shown) \<and>
    (\<forall>other \<in> set (xs @ ys). do_ID other \<noteq> rdr_DeviceID out) \<and>
    distinct ds \<and> set ds = {dv \<in> a_devs (mongoView s'). dv_IdentityKey dv = k} \<and> list_all2 device_shown ds (xs @ shown # ys)"
  using assms by (rule mongoStore.register_then_list)

theorem registered_device_is_listed_witness:
  "\<exists>xs shown ys. fst (handleListDevices (MongoStore mongo_colls) ''alice''
       (snd (handleRegisterDevice (MongoStore mongo_colls) ''alice'' (Decoded register_req) (on_mongo empty_mongo)))) =
     JsonReply 200 \<lparr>ldr_Status = statusSuccess, ldr_Devices = xs @ shown # ys\<rparr> \<and> do_Active shown \<and> do_ID shown = 1 \<and>
     do_FCMToken shown = ''...-the-phone''"
proof -
  let ?r = "handleRegisterDevice (MongoStore mongo_colls) ''alice'' (Decoded register_req) (on_mongo empty_mongo)"
  let ?out = "\<lparr>rdr_Status = statusSuccess, rdr_Message = ''Device registered successfully for push notifications'', rdr_DeviceID = 1\<rparr>"
  have "fst ?r = JsonReply 200 ?out" by code_simp
  then obtain s' where r: "?r = (JsonReply 200 ?out, s')" by (metis prod.collapse)
  have "token_shown (rd_FCMToken register_req) t \<Longrightarrow> t = ''...-the-phone''" for t
    by (auto simp: token_shown_def register_req_def append_eq_Cons_conv length_Suc_conv numeral_eq_Suc)
  with registered_device_is_listed [OF _ _ r prod.collapse [symmetric]] r show ?thesis by (force simp: samples)
qed

text \<open>C39. While the database answers, a push asks FCM once per active device of the recipient with the
  message built for it and counts as sent when FCM accepted one of them. Afterwards every registration
  of a token FCM accepted is stamped with the time as last use, every registration of a token FCM called
  unregistered or invalid is deactivated, and every other registration, and everything else in the
  store, is as it was.\<close>

theorem push_reaches_active_devices:
  assumes "sqlOk s" and "healthy s"
    and "SendFCMNotification errText True (SqlStore driver) (logged send) recipient payload (s, [], f) = (res, s', rs, f')"
  shows "\<exists>ds. set ds = {dv \<in> a_devs (sqlView s). dv_IdentityKey dv = recipient \<and> dv_Active dv} \<and> distinct ds \<and>
    map fst rs = map (\<lambda>d. buildMessage (dv_FCMToken d) payload) ds \<and> (sf_Success res \<longleftrightarrow> 0 < accepted rs) \<and>
    sqlOk s' \<and> sqlView s' = (sqlView s)\<lparr>a_devs := pushed (conn_clock s) rs ` a_devs (sqlView s)\<rparr>"
  using assms by (rule sqlStamped.SendFCM_ok)

theorem push_reaches_active_devices_witness:
  "a_devs (sqlView (fst (snd (SendFCMNotification (\<lambda>_. []) True (SqlStore ''sqlite3'') (logged rejecting) ''alice'' push_payload (on_sql phone_sql, [], 0))))) =
   (\<lambda>dv. dv\<lparr>dv_Active := False, dv_UpdatedAt := 1000000000\<rparr>) ` set (t_devices phone_sql)"
proof -
  let ?r = "SendFCMNotification (\<lambda>_. []) True (SqlStore ''sqlite3'') (logged rejecting) ''alice'' push_payload (on_sql phone_sql, [], 0)"
  obtain res s' rs f' where eq: "?r = (res, s', rs, f')" by (metis prod.collapse)
  have 1: "sqlOk (on_sql phone_sql)" by code_simp
  have "fst (snd (snd ?r)) = [(buildMessage ''t1'' push_payload, Some \<lparr>fe_Unregistered = True, fe_InvalidArgument = False\<rparr>)]" by code_simp
  then have rs: "rs = [(buildMessage ''t1'' push_payload, Some \<lparr>fe_Unregistered = True, fe_InvalidArgument = False\<rparr>)]" by (simp add: eq)
  from push_reaches_active_devices [OF 1 sample_healthy(1) eq]
  have "sqlView s' = (sqlView (on_sql phone_sql))\<lparr>a_devs := pushed 1000000000 rs ` a_devs (sqlView (on_sql phone_sql))\<rparr>"
    by (elim exE conjE) (simp add: on_sql_def)
  then show ?thesis unfolding eq
    by (simp add: rs pushed_def answered_def buildMessage_def samples phone_sql_def old_sql_def empty_sql_def)
qed

section \<open>Rate limiting\<close>

text \<open>C40. Of the requests of one client address in one minute, in the order they arrive, exactly as many
  are served as the limit leaves after those counted before, and no other client's requests change
  that.\<close>

theorem rate_limit_is_exact:
  assumes "0 < rl_perMinute l" and "sorted (map fst qs)" and "\<forall>q \<in> set qs. rl_window l \<le> unixMinute (fst q)"
    and "\<forall>i. 0 \<le> counted l w i" and "rl_window l \<le> w"
  shows "served canonIP l w ip qs = min (arrived canonIP l w ip qs) (max 0 (rl_perMinute l - counted l w ip))"
  using serve_bound [OF assms(1-3) _ assms(5)] assms(4) by blast

theorem rate_limit_is_exact_witness:
  "served Some (NewRateLimiter 2 False 1 []) 0 ''10.0.0.1'' (replicate 3 (5, from_addr ''10.0.0.1:80'')) = 2"
proof -
  have "served Some (NewRateLimiter 2 False 1 []) 0 ''10.0.0.1'' (replicate 3 (5, from_addr ''10.0.0.1:80'')) =
      min (arrived Some (NewRateLimiter 2 False 1 []) 0 ''10.0.0.1'' (replicate 3 (5, from_addr ''10.0.0.1:80''))) 
        (max 0 (rl_perMinute (NewRateLimiter 2 False 1 []) - counted (NewRateLimiter 2 False 1 []) 0 ''10.0.0.1''))"
    by (rule rate_limit_is_exact) (simp_all add: NewRateLimiter_def counted_def countOf_def unixMinute_def msec_def)
  also have "\<dots> = 2" by code_simp
  finally show ?thesis .
qed

section \<open>Starting the server\<close>

text \<open>C35. A process whose environment is refused, or that asks for the lookup on a backend without a
  handle registry, exits before anything is opened. A process that runs has a sound configuration
  (bounded durations, at least one trusted hop, lower-case admin keys without repetition, consistent
  list bounds, a positive port, complete store credentials) and runs exactly the services it asks for;
  when handles must be paid for, it has the lookup on the same database and a verifier for a store.
  Lower case beyond ASCII yields no upper-case ASCII letter.\<close>

theorem running_server_is_configured:
  assumes "\<forall>r \<ge> 128. \<not> (65 \<le> ul r \<and> ul r \<le> 90)" and "boot ul quote os vars w = (r, w')"
  shows "(\<forall>e. Load ul quote vars = Inl e \<longrightarrow> r = Inl e \<and> w' = w) \<and>
    (\<forall>cfg. Load ul quote vars = Inr cfg \<longrightarrow> cf_PaymailDomain cfg \<noteq> [] \<longrightarrow> cf_StorageBackend cfg \<noteq> ''mongo'' \<longrightarrow>
       (\<exists>e. r = Inl e) \<and> w' = w) \<and>
    (\<forall>srv. r = Inr srv \<longrightarrow> (\<exists>cfg. Load ul quote vars = Inr cfg \<and> config_sound cfg \<and> runs_as cfg srv \<and>
       (\<forall>m p. sv_purchases srv = Some (m, p) \<longrightarrow>
          (\<exists>l. sv_lookup srv = Some l \<and> ls_registry l = m) \<and> (\<exists>st. pv_verifiers p st \<noteq> None))))"
  using assms by (rule boot_outcome)

theorem running_server_is_configured_witness:
  "\<exists>cfg. Load same_rune (\<lambda>s. s) sample_vars = Inr cfg \<and> config_sound cfg \<and> runs_as cfg (projr (fst sample_boot))"
proof -
  have "\<forall>r \<ge> 128. \<not> (65 \<le> same_rune r \<and> same_rune r \<le> 90)" by (auto simp: same_rune_def)
  moreover note sample_boot_eq
  ultimately show ?thesis
    using running_server_is_configured [of same_rune "\<lambda>s. s" sample_outside sample_vars 0 "Inr (projr (fst sample_boot))" "snd sample_boot"]
    by blast
qed

text \<open>C36. Of the endpoints only three groups run without authentication: the Swagger UI, always and under its
  own path alone; the lookup, where a paymail domain is configured; and the stores' notifications, where
  handles must be paid for too. Every endpoint runs under its own method alone, and every endpoint of
  the API runs behind authentication, under the configured prefix, unless the prefix runs into the
  public paths. Preflight requests, redirects and refusals of unknown paths and methods run no
  endpoint.\<close>

theorem only_public_routes_are_open:
  assumes "boot ul quote os vars w = (Inr srv, w')"
  shows "\<exists>cfg. Load ul quote vars = Inr cfg \<and> (\<forall>prefix. cf_RoutingPrefix cfg = slashed prefix \<longrightarrow>
    (\<forall>m path e. m \<noteq> ''CONNECT'' \<longrightarrow> serverRoute unesc prefix srv m path = Open e \<longrightarrow> served_under m e \<and>
       (e = E_Swagger \<and> hd (pathSegs unesc path) = ''swagger'' \<or>
        cf_PaymailDomain cfg \<noteq> [] \<and> e \<in> publicEndpoints True (cf_HandlePurchasesRequired cfg))) \<and>
    (\<forall>m path e. m \<noteq> ''CONNECT'' \<longrightarrow> serverRoute unesc prefix srv m path = Protected e \<longrightarrow>
       e \<in> protectedEndpoints (cf_PaymailDomain cfg \<noteq> []) \<and> served_under m e) \<and>
    (\<forall>m ss e. (m, ss, e) \<in> set (apiTable @ (if cf_PaymailDomain cfg \<noteq> [] then adminTable else [])) \<longrightarrow>
       list_all (plainSeg unesc) (prefix @ ss) \<longrightarrow> \<not> publicWord (cf_PaymailDomain cfg \<noteq> []) (hd (prefix @ ss)) \<longrightarrow>
       serverRoute unesc prefix srv m (cf_RoutingPrefix cfg @ slashed ss) = Protected e))"
proof -
  from boot_running [OF assms] obtain cfg where cfg: "Load ul quote vars = Inr cfg" "runs_as cfg srv" by blast
  have "served_under m e \<and> (e = E_Swagger \<and> hd (pathSegs unesc path) = ''swagger'' \<or>
      cf_PaymailDomain cfg \<noteq> [] \<and> e \<in> publicEndpoints True (cf_HandlePurchasesRequired cfg))"
    if "serverRoute unesc prefix srv m path = Open e" for prefix m path e
    using serverRoute_open [OF cfg(2) that] by (cases "cf_PaymailDomain cfg = []") (auto simp: publicEndpoints_def)
  with cfg serverRoute_protected [OF cfg(2)] serverRoute_reached [OF cfg(2)] show ?thesis by blast
qed

theorem only_public_routes_are_open_witness:
  "serverRoute (\<lambda>s. s) [''v1''] (projr (fst sample_boot)) ''POST'' ''/v1/sendMessage'' = Protected E_SendMessage"
proof -
  note routes = only_public_routes_are_open [OF sample_boot_eq, of "\<lambda>s. s"]
  from routes obtain cfg where cfg: "Load same_rune (\<lambda>s. s) sample_vars = Inr cfg" by (elim exE conjE)
  have "cf_RoutingPrefix (projr (Load same_rune (\<lambda>s. s) sample_vars)) = ''/v1''" by code_simp
  then have p: "cf_RoutingPrefix cfg = slashed [''v1'']" by (simp add: cfg)
  note reach = routes [unfolded cfg sum.inject simp_thms, THEN spec, THEN mp, OF p, THEN conjunct2, THEN conjunct2, rule_format,
      of "''POST''" "[''sendMessage'']" E_SendMessage]
  show ?thesis by (rule reach [unfolded p, simplified]) (simp_all add: apiTable_def plainSeg_def publicWord_def)
qed



end
